(* ===== verification/Prelude.thy ===== *)
theory Prelude
  imports Complex_Main "HOL-Library.AList" "HOL-Library.Char_ord" "HOL-Library.List_Lexorder"
    "HOL-Library.Sublist" "HOL-Library.Multiset"
begin

text \<open>
  Shared vocabulary of the development.

  \<^item> A Python \<open>dict\<close> is an association list in insertion order. A store \<open>d[k] = v\<close> is
    \<^const>\<open>AList.update\<close> (in place for a known key, at the end for a new one, as CPython does),
    \<open>d.get(k)\<close> is \<^const>\<open>map_of\<close>, \<open>d.pop(k, None)\<close> is \<^const>\<open>AList.delete\<close>.
  \<^item> A computation that may raise returns a sum, \<open>Inl\<close> for the exception. A method that mutates
    \<open>self\<close> and may raise returns the new state beside that sum, because several methods of the
    program change state before they raise.
  \<^item> Python floats (clock readings, scores, credits) are reals; rounding, infinities and NaN are
    outside the model.
  \<^item> A Python \<open>str\<close> is a \<^typ>\<open>string\<close>: text over the first 256 code points.
\<close>

type_synonym ('k, 'v) dict = "('k \<times> 'v) list"
type_synonym time = real

named_theorems dict_simps \<open>reading an association list after an update or a deletion\<close>
named_theorems result_simps \<open>inverting computations over sums\<close>

subsection \<open>Sums as results\<close>

definition bind_result :: "'e + 'a \<Rightarrow> ('a \<Rightarrow> 'e + 'b) \<Rightarrow> 'e + 'b" where
  "bind_result m f = (case m of Inl e \<Rightarrow> Inl e | Inr a \<Rightarrow> f a)"

definition is_ok :: "'e + 'a \<Rightarrow> bool" where
  "is_ok m = (case m of Inl _ \<Rightarrow> False | Inr _ \<Rightarrow> True)"

fun map_result :: "('a \<Rightarrow> 'e + 'b) \<Rightarrow> 'a list \<Rightarrow> 'e + 'b list" where
  "map_result f [] = Inr []"
| "map_result f (x # xs) =
     (case f x of Inl e \<Rightarrow> Inl e
      | Inr y \<Rightarrow> (case map_result f xs of Inl e \<Rightarrow> Inl e | Inr ys \<Rightarrow> Inr (y # ys)))"

lemma bind_result_simps [simp, result_simps]:
  "bind_result (Inl e) f = Inl e" "bind_result (Inr a) f = f a"
  by (simp_all add: bind_result_def)

lemma bind_result_Inr_iff [result_simps]:
  "bind_result m f = Inr b \<longleftrightarrow> (\<exists>a. m = Inr a \<and> f a = Inr b)"
  by (cases m) simp_all

lemma is_ok_simps [simp]: "is_ok (Inr a)" "\<not> is_ok (Inl e)"
  by (simp_all add: is_ok_def)

lemma map_result_Inr:
  "map_result f xs = Inr ys \<longleftrightarrow> list_all2 (\<lambda>x y. f x = Inr y) xs ys"
proof (induction xs arbitrary: ys)
  case (Cons x xs)
  show ?case
  proof (cases "f x")
    case (Inr y)
    show ?thesis
    proof (cases "map_result f xs")
      case e: (Inl e)
      with Inr Cons.IH show ?thesis by (auto simp: list_all2_Cons1)
    next
      case zs: (Inr zs)
      with Cons.IH have "list_all2 (\<lambda>x y. f x = Inr y) xs zs' \<longleftrightarrow> zs' = zs" for zs'
        by (metis sum.inject(2))
      with Inr zs show ?thesis by (auto simp: list_all2_Cons1)
    qed
  qed (simp add: list_all2_Cons1)
qed auto

lemma map_result_map:
  "(\<And>x. x \<in> set xs \<Longrightarrow> f x = Inr (g x)) \<Longrightarrow> map_result f xs = Inr (map g xs)"
  by (induction xs) auto

subsection \<open>Dictionaries\<close>

lemma dict_get_update [dict_simps]:
  "map_of (AList.update k v d) x = (if x = k then Some v else map_of d x)"
  by (simp add: update_conv')

lemma dict_get_delete [dict_simps]:
  "map_of (AList.delete k d) x = (if x = k then None else map_of d x)"
  by (simp add: delete_conv')

lemma dict_update_present:
  "map_of d k = Some w \<Longrightarrow> map fst (AList.update k v d) = map fst d"
  by (induction d) (auto split: if_splits)

lemma dict_update_absent:
  "map_of d k = None \<Longrightarrow> AList.update k v d = d @ [(k, v)]"
  by (induction d) auto

lemma dict_delete_absent: "map_of d k = None \<Longrightarrow> AList.delete k d = d"
  by (induction d) auto

lemma dict_values_update:
  "set (map snd (AList.update k v d)) \<subseteq> insert v (set (map snd d))"
  by (induction d) auto

lemma dict_length_update:
  "length (AList.update k v d) = (if k \<in> fst ` set d then length d else Suc (length d))"
  by (induction d) auto

lemma dict_length_delete_le: "length (AList.delete k d) \<le> length d"
  by (induction d) (auto intro: le_SucI)

lemma distinct_dict_update [dict_simps]:
  "distinct (map fst d) \<Longrightarrow> distinct (map fst (AList.update k v d))"
  by (rule distinct_update)

lemma distinct_dict_delete [dict_simps]:
  "distinct (map fst d) \<Longrightarrow> distinct (map fst (AList.delete k d))"
  by (rule distinct_delete)

lemma set_dict_update:
  "distinct (map fst d) \<Longrightarrow>
   set (AList.update k v d) = insert (k, v) {p \<in> set d. fst p \<noteq> k}"
  by (induction d) (auto, force+)

lemma find_append:
  "List.find P (xs @ ys) = (case List.find P xs of None \<Rightarrow> List.find P ys | Some x \<Rightarrow> Some x)"
  by (induction xs) auto

subsection \<open>Windows of lists\<close>

text \<open>\<open>xs[-n:]\<close> for a positive \<open>n\<close>, and \<open>xs[:n]\<close>.\<close>

definition last_n :: "nat \<Rightarrow> 'a list \<Rightarrow> 'a list" where
  "last_n n xs = drop (length xs - n) xs"

lemma length_last_n [simp]: "length (last_n n xs) = min n (length xs)"
  by (simp add: last_n_def)

lemma last_n_snoc: "0 < n \<Longrightarrow> last_n n (xs @ [x]) = last_n (n - 1) xs @ [x]"
  by (cases "length xs < n") (simp_all add: last_n_def Suc_diff_le)

lemma map_last_n: "map f (last_n n xs) = last_n n (map f xs)"
  by (simp add: last_n_def drop_map)

lemma suffix_last_n: "suffix (last_n n xs) xs"
  by (simp add: last_n_def suffix_drop)

lemma last_n_id: "length xs \<le> n \<Longrightarrow> last_n n xs = xs"
  by (simp add: last_n_def)

lemma successively_suffix: "successively P ys \<Longrightarrow> suffix xs ys \<Longrightarrow> successively P xs"
  by (auto simp: suffix_def successively_append_iff)

lemma successively_snoc_iff:
  "successively P (xs @ [x]) \<longleftrightarrow> successively P xs \<and> (xs \<noteq> [] \<longrightarrow> P (last xs) x)"
  by (auto simp: successively_append_iff)

lemma sorted_filter_map: "sorted (map f xs) \<Longrightarrow> sorted (map f (filter P xs))"
  by (rule sorted_filter)

subsection \<open>Runs of consecutive integers\<close>

definition consecutive :: "int list \<Rightarrow> bool" where
  "consecutive ns \<longleftrightarrow> successively (\<lambda>a b. b = a + 1) ns"

lemma consecutive_Nil [simp]: "consecutive []" and consecutive_single [simp]: "consecutive [a]"
  by (simp_all add: consecutive_def)

lemma consecutive_snoc:
  "ns \<noteq> [] \<Longrightarrow> consecutive (ns @ [b]) \<longleftrightarrow> consecutive ns \<and> b = last ns + 1"
  by (simp add: consecutive_def successively_snoc_iff)

lemma consecutive_suffix: "consecutive ms \<Longrightarrow> suffix ns ms \<Longrightarrow> consecutive ns"
  unfolding consecutive_def by (rule successively_suffix)

lemma consecutive_eq_upto: "ns \<noteq> [] \<Longrightarrow> consecutive ns \<Longrightarrow> ns = [hd ns .. last ns]"
proof (induction ns rule: rev_induct)
  case Nil
  then show ?case by simp
next
  case (snoc b ns)
  show ?case
  proof (cases "ns = []")
    case True
    then show ?thesis by simp
  next
    case False
    with snoc have IH: "ns = [hd ns .. last ns]" and b: "b = last ns + 1"
      by (simp_all add: consecutive_snoc)
    from False IH have "hd ns \<le> last ns"
      by (metis upto_empty not_le)
    then have "[hd ns .. last ns + 1] = [hd ns .. last ns] @ [last ns + 1]"
      by (simp add: upto_rec2)
    with IH b False show ?thesis by simp
  qed
qed

lemma consecutive_nth: "consecutive ns \<Longrightarrow> i < length ns \<Longrightarrow> ns ! i = hd ns + int i"
proof -
  assume c: "consecutive ns" and i: "i < length ns"
  then have e: "ns = [hd ns .. last ns]" by (intro consecutive_eq_upto) auto
  then have "length ns = nat (last ns - hd ns + 1)"
    by (metis length_upto)
  with i have "hd ns + int i \<le> last ns" by linarith
  with e show ?thesis by (metis nth_upto)
qed

lemma consecutive_iff_nth:
  "consecutive ns \<longleftrightarrow> (\<forall>i < length ns. ns ! i = hd ns + int i)"
proof
  assume "\<forall>i < length ns. ns ! i = hd ns + int i"
  then show "consecutive ns"
    unfolding consecutive_def successively_conv_nth by auto
qed (simp add: consecutive_nth)

lemma consecutive_sorted: "consecutive ns \<Longrightarrow> sorted ns \<and> distinct ns"
proof (cases "ns = []")
  case False
  assume "consecutive ns"
  with False have e: "ns = [hd ns .. last ns]" by (rule consecutive_eq_upto)
  show ?thesis by (subst (1 2) e) simp
qed simp

lemma consecutive_filter_greater:
  assumes "consecutive ns"
  shows "consecutive (filter (\<lambda>n. a < n) ns) \<and> suffix (filter (\<lambda>n. a < n) ns) ns"
  using assms
proof (induction ns)
  case (Cons n ns)
  from Cons.prems have t: "consecutive ns"
    by (auto simp: consecutive_def successively_Cons)
  have all: "\<forall>m \<in> set ns. n < m"
    using consecutive_sorted [OF Cons.prems] by (auto simp: order_le_less)
  show ?case
  proof (cases "a < n")
    case True
    with all have "filter (\<lambda>m. a < m) (n # ns) = n # ns"
      by (intro filter_True) force
    with Cons.prems show ?thesis by simp
  next
    case False
    with Cons.IH [OF t] show ?thesis by (auto intro: suffix_ConsI)
  qed
qed simp

lemma drop_upto: "drop k [h .. m] = [h + int k .. m]"
proof (induction k arbitrary: h)
  case (Suc k)
  show ?case
  proof (cases "h \<le> m")
    case True
    then have "drop (Suc k) [h .. m] = drop k [h + 1 .. m]" by (simp add: upto_rec1)
    with Suc.IH show ?thesis by (simp add: algebra_simps)
  next
    case False
    then show ?thesis by simp
  qed
qed simp

lemma filter_upto: "filter (\<lambda>x. c < x) [h .. m] = [max h (c + 1) .. m]"
proof (induction h m rule: upto.induct)
  case (1 h m)
  show ?case
  proof (cases "h \<le> m")
    case True
    have "max h (c + 1) = (if c < h then h else max (h + 1) (c + 1))" by simp
    moreover have "max (h + 1) (c + 1) = h + 1" if "c < h" using that by simp
    ultimately show ?thesis using 1 True by (simp add: upto_rec1 [of h m])
  next
    case False
    then show ?thesis by simp
  qed
qed

text \<open>Dropping everything at or below \<open>last - k\<close> from a consecutive run keeps its last \<open>k\<close> entries.\<close>

lemma filter_consecutive_last_n:
  assumes "consecutive ns" "ns \<noteq> []"
  shows "filter (\<lambda>n. last ns - int k < n) ns = last_n k ns"
proof -
  obtain h m where ns: "ns = [h .. m]" and hm: "h \<le> m"
    using assms consecutive_eq_upto by (metis upto_empty not_le)
  then have l: "last ns = m" by (simp add: upto_rec2)
  have len: "int (length ns) = m - h + 1" using hm by (simp add: ns)
  have "filter (\<lambda>n. m - int k < n) ns = [max h (m - int k + 1) .. m]"
    by (simp add: ns filter_upto)
  also have "\<dots> = [h + int (length ns - k) .. m]"
    using len hm by (intro arg_cong [where f = "\<lambda>a. [a .. m]"]) (auto simp: max_def)
  also have "\<dots> = last_n k ns" by (simp add: last_n_def ns drop_upto)
  finally show ?thesis by (simp add: l)
qed

lemma suffix_filter_consecutive:
  assumes "consecutive (map f xs)"
  shows "suffix (filter (\<lambda>x. a < f x) xs) xs"
  using assms
proof (induction xs)
  case (Cons x xs)
  then have t: "consecutive (map f xs)"
    by (auto simp: consecutive_def successively_Cons)
  show ?case
  proof (cases "a < f x")
    case True
    have "\<forall>y \<in> set (x # xs). f x \<le> f y"
      using consecutive_sorted [OF Cons.prems] by auto
    with True have "filter (\<lambda>y. a < f y) (x # xs) = x # xs"
      by (intro filter_True) force
    then show ?thesis by simp
  next
    case False
    with Cons.IH [OF t] show ?thesis by (simp add: suffix_ConsI)
  qed
qed simp

lemma suffix_by_length: "suffix ys xs \<Longrightarrow> ys = drop (length xs - length ys) xs"
  by (auto simp: suffix_def)

lemma filter_consecutive_window:
  assumes "consecutive (map f xs)" "xs \<noteq> []"
  shows "filter (\<lambda>x. f (last xs) - int k < f x) xs = last_n k xs"
proof -
  let ?F = "filter (\<lambda>x. f (last xs) - int k < f x) xs"
  have "map f ?F = filter (\<lambda>n. last (map f xs) - int k < n) (map f xs)"
    using assms(2) by (simp add: filter_map o_def last_map)
  also have "\<dots> = last_n k (map f xs)"
    using assms by (intro filter_consecutive_last_n) simp_all
  finally have "length ?F = min k (length xs)"
    by (metis length_last_n length_map)
  moreover have "?F = drop (length xs - length ?F) xs"
    by (rule suffix_by_length) (rule suffix_filter_consecutive [OF assms(1)])
  ultimately show ?thesis by (simp add: last_n_def min_def split: if_splits)
qed

lemma sorted_map_le_last: "sorted (map f xs) \<Longrightarrow> x \<in> set xs \<Longrightarrow> f x \<le> f (last xs)"
  by (induction xs rule: rev_induct) (auto simp: sorted_append)

end
