(* ===== verification/Py_Value.thy ===== *)
theory Py_Value
  imports Prelude "HOL-Library.Word"
begin

text \<open>
  Dynamic Python values: what \<open>json.loads\<close>, \<open>cbor2.loads\<close> and \<open>dict[str, Any]\<close> parameters hold.
  The operations are those the program applies to such values: truthiness, \<open>==\<close> (numbers compare
  across \<open>bool\<close>, \<open>int\<close> and \<open>float\<close>, dictionaries without regard to order), ordering (which raises
  \<open>TypeError\<close> on a mix of types), \<open>isinstance\<close> (a \<open>bool\<close> is an \<open>int\<close>), \<open>dict.get\<close> and the string
  methods. A dictionary key lookup goes through \<open>==\<close>, as in Python.
\<close>

type_synonym byte = "8 word"
type_synonym bytes = "byte list"

datatype pyval =
    PNone
  | PBool bool
  | PInt int
  | PFloat real
  | PStr string
  | PBytes bytes
  | PList "pyval list"
  | PDict "(pyval \<times> pyval) list"

type_synonym pydict = "(pyval \<times> pyval) list"

datatype py_error =
    TypeError
  | KeyError
  | AttributeError
  | IndexError
  | ValueError string

subsection \<open>Truth, numbers, equality, order\<close>

fun truthy :: "pyval \<Rightarrow> bool" where
  "truthy PNone = False"
| "truthy (PBool b) = b"
| "truthy (PInt i) = (i \<noteq> 0)"
| "truthy (PFloat r) = (r \<noteq> 0)"
| "truthy (PStr s) = (s \<noteq> [])"
| "truthy (PBytes b) = (b \<noteq> [])"
| "truthy (PList xs) = (xs \<noteq> [])"
| "truthy (PDict d) = (d \<noteq> [])"

fun num_of :: "pyval \<Rightarrow> real option" where
  "num_of (PBool b) = Some (if b then 1 else 0)"
| "num_of (PInt i) = Some (of_int i)"
| "num_of (PFloat r) = Some r"
| "num_of _ = None"

text \<open>\<open>isinstance(v, int)\<close>, with the integer it denotes.\<close>

fun int_of :: "pyval \<Rightarrow> int option" where
  "int_of (PBool b) = Some (if b then 1 else 0)"
| "int_of (PInt i) = Some i"
| "int_of _ = None"

fun is_dict :: "pyval \<Rightarrow> bool" where
  "is_dict (PDict _) = True"
| "is_dict _ = False"

fun is_str :: "pyval \<Rightarrow> bool" where
  "is_str (PStr _) = True"
| "is_str _ = False"

function (sequential) py_eq :: "pyval \<Rightarrow> pyval \<Rightarrow> bool"
  and py_eqs :: "pyval list \<Rightarrow> pyval list \<Rightarrow> bool"
  and py_sub :: "pydict \<Rightarrow> pydict \<Rightarrow> bool"
  and py_mem :: "pyval \<Rightarrow> pyval \<Rightarrow> pydict \<Rightarrow> bool" where
  "py_eq a b =
     (case a of
        PNone \<Rightarrow> b = PNone
      | PStr s \<Rightarrow> b = PStr s
      | PBytes s \<Rightarrow> b = PBytes s
      | PList xs \<Rightarrow> (case b of PList ys \<Rightarrow> py_eqs xs ys | _ \<Rightarrow> False)
      | PDict d \<Rightarrow> (case b of PDict e \<Rightarrow> length d = length e \<and> py_sub d e | _ \<Rightarrow> False)
      | _ \<Rightarrow> num_of b = num_of a)"
| "py_eqs [] ys = (ys = [])"
| "py_eqs (x # xs) ys = (case ys of [] \<Rightarrow> False | y # ys' \<Rightarrow> py_eq x y \<and> py_eqs xs ys')"
| "py_sub [] e = True"
| "py_sub ((k, v) # d) e = (py_mem k v e \<and> py_sub d e)"
| "py_mem k v [] = False"
| "py_mem k v ((k', v') # e) = ((py_eq k k' \<and> py_eq v v') \<or> py_mem k v e)"
  by pat_completeness auto
termination
  by (relation "measure (case_sum
        (case_sum (\<lambda>(a, b). size a + size b)
                  (\<lambda>(xs, ys). size_list size xs + size_list size ys))
        (case_sum (\<lambda>(d, e). size_list (size_prod size size) d + size_list (size_prod size size) e)
                  (\<lambda>(k, v, e). size k + size v + size_list (size_prod size size) e)))") auto

declare py_eq.simps [simp del]

text \<open>\<open>a < b\<close>: numbers by value, text and byte strings lexicographically, lists at their first
  difference, \<open>TypeError\<close> otherwise.\<close>

function (sequential) py_less :: "pyval \<Rightarrow> pyval \<Rightarrow> py_error + bool"
  and py_less_list :: "pyval list \<Rightarrow> pyval list \<Rightarrow> py_error + bool" where
  "py_less (PStr s) (PStr t) = Inr (s < t)"
| "py_less (PBytes s) (PBytes t) = Inr (s < t)"
| "py_less (PList xs) (PList ys) = py_less_list xs ys"
| "py_less a b =
     (case (num_of a, num_of b) of (Some x, Some y) \<Rightarrow> Inr (x < y) | _ \<Rightarrow> Inl TypeError)"
| "py_less_list xs [] = Inr False"
| "py_less_list [] (y # ys) = Inr True"
| "py_less_list (x # xs) (y # ys) = (if py_eq x y then py_less_list xs ys else py_less x y)"
  by pat_completeness auto
termination by size_change

text \<open>\<open>a + 1\<close> for a number.\<close>

fun py_plus1 :: "pyval \<Rightarrow> py_error + pyval" where
  "py_plus1 (PBool b) = Inr (PInt (if b then 2 else 1))"
| "py_plus1 (PInt i) = Inr (PInt (i + 1))"
| "py_plus1 (PFloat r) = Inr (PFloat (r + 1))"
| "py_plus1 _ = Inl TypeError"

subsection \<open>Dictionaries with dynamic keys\<close>

fun py_find :: "pydict \<Rightarrow> pyval \<Rightarrow> pyval option" where
  "py_find [] x = None"
| "py_find ((k, v) # d) x = (if py_eq k x then Some v else py_find d x)"

text \<open>\<open>d.get(k, default)\<close> and \<open>d.get(k)\<close> for a text key, and for an integer key (CBOR maps).\<close>

definition get_or :: "pydict \<Rightarrow> string \<Rightarrow> pyval \<Rightarrow> pyval" where
  "get_or d k dflt = (case py_find d (PStr k) of None \<Rightarrow> dflt | Some v \<Rightarrow> v)"

definition sget :: "pydict \<Rightarrow> string \<Rightarrow> pyval" where
  "sget d k = get_or d k PNone"

definition iget_or :: "pydict \<Rightarrow> int \<Rightarrow> pyval \<Rightarrow> pyval" where
  "iget_or d k dflt = (case py_find d (PInt k) of None \<Rightarrow> dflt | Some v \<Rightarrow> v)"

definition iget :: "pydict \<Rightarrow> int \<Rightarrow> pyval" where
  "iget d k = iget_or d k PNone"

text \<open>\<open>d.get(k) is True\<close> and \<open>d.get(k) is False\<close>.\<close>

definition is_true :: "pydict \<Rightarrow> string \<Rightarrow> bool" where
  "is_true d k = (case sget d k of PBool b \<Rightarrow> b | _ \<Rightarrow> False)"

definition is_false :: "pydict \<Rightarrow> string \<Rightarrow> bool" where
  "is_false d k = (case sget d k of PBool b \<Rightarrow> \<not> b | _ \<Rightarrow> False)"

text \<open>The elements \<open>for x in v\<close> goes through.\<close>

fun py_elements :: "pyval \<Rightarrow> pyval list option" where
  "py_elements (PList vs) = Some vs"
| "py_elements (PStr s) = Some (map (\<lambda>c. PStr [c]) s)"
| "py_elements (PBytes b) = Some (map (\<lambda>x. PInt (uint x)) b)"
| "py_elements (PDict d) = Some (map fst d)"
| "py_elements _ = None"

text \<open>An entry of a dictionary display that is left out when its value is \<open>None\<close>.\<close>

definition given :: "string \<Rightarrow> pyval \<Rightarrow> pydict" where
  "given k v = (if v = PNone then [] else [(PStr k, v)])"

text \<open>\<open>v in {s1, s2, ...}\<close> for a set of texts, and \<open>set(d) <= {s1, s2, ...}\<close>.\<close>

definition in_strs :: "pyval \<Rightarrow> string list \<Rightarrow> bool" where
  "in_strs v ss = (case v of PStr s \<Rightarrow> s \<in> set ss | _ \<Rightarrow> False)"

definition keys_within :: "pydict \<Rightarrow> string list \<Rightarrow> bool" where
  "keys_within d ss = list_all (\<lambda>(k, _). in_strs k ss) d"

text \<open>\<open>v in {s1, s2, ...}\<close> as an expression: hashing a list or a dictionary raises.\<close>

fun hashable :: "pyval \<Rightarrow> bool" where
  "hashable (PList _) = False"
| "hashable (PDict _) = False"
| "hashable _ = True"

definition in_set :: "pyval \<Rightarrow> string list \<Rightarrow> py_error + bool" where
  "in_set v ss = (if hashable v then Inr (in_strs v ss) else Inl TypeError)"

lemma in_set_Inr [result_simps]: "in_set v ss = Inr b \<longleftrightarrow> hashable v \<and> b = in_strs v ss"
  by (auto simp: in_set_def)

subsection \<open>Text\<close>

definition lower_char :: "char \<Rightarrow> char" where
  "lower_char c =
     (let n = of_char c :: nat
      in if (65 \<le> n \<and> n \<le> 90) \<or> (192 \<le> n \<and> n \<le> 222 \<and> n \<noteq> 215) then char_of (n + 32) else c)"

definition lower :: "string \<Rightarrow> string" where
  "lower s = map lower_char s"

definition is_space :: "char \<Rightarrow> bool" where
  "is_space c =
     (let n = of_char c :: nat in (9 \<le> n \<and> n \<le> 13) \<or> (28 \<le> n \<and> n \<le> 32) \<or> n = 133 \<or> n = 160)"

definition strip :: "string \<Rightarrow> string" where
  "strip s = rev (dropWhile is_space (rev (dropWhile is_space s)))"

definition starts_with :: "string \<Rightarrow> string \<Rightarrow> bool" where
  "starts_with s p = (take (length p) s = p)"

definition ends_with :: "string \<Rightarrow> string \<Rightarrow> bool" where
  "ends_with s p = starts_with (rev s) (rev p)"

definition is_ascii_alnum :: "char \<Rightarrow> bool" where
  "is_ascii_alnum c =
     (let n = of_char c :: nat in (48 \<le> n \<and> n \<le> 57) \<or> (65 \<le> n \<and> n \<le> 90) \<or> (97 \<le> n \<and> n \<le> 122))"

definition is_hex_digit :: "char \<Rightarrow> bool" where
  "is_hex_digit c =
     (let n = of_char c :: nat in (48 \<le> n \<and> n \<le> 57) \<or> (65 \<le> n \<and> n \<le> 70) \<or> (97 \<le> n \<and> n \<le> 102))"

text \<open>Decimal text of a number, and \<open>str(v)\<close>; the text of floats, byte strings and containers is \<open>other\<close>.\<close>

fun digits :: "nat \<Rightarrow> string" where
  "digits n = (if n < 10 then [char_of (48 + n)] else digits (n div 10) @ [char_of (48 + n mod 10)])"

declare digits.simps [simp del]

definition int_text :: "int \<Rightarrow> string" where
  "int_text i = (if i < 0 then ''-'' @ digits (nat (- i)) else digits (nat i))"

fun py_str :: "(pyval \<Rightarrow> string) \<Rightarrow> pyval \<Rightarrow> string" where
  "py_str other (PStr s) = s"
| "py_str other PNone = ''None''"
| "py_str other (PBool b) = (if b then ''True'' else ''False'')"
| "py_str other (PInt i) = int_text i"
| "py_str other v = other v"

text \<open>The same value up to the order of dictionary entries, at every level.\<close>

inductive same_value :: "pyval \<Rightarrow> pyval \<Rightarrow> bool" where
  same_refl: "same_value v v"
| same_dict: "(\<And>k. rel_option same_value (py_find d k) (py_find e k)) \<Longrightarrow> same_value (PDict d) (PDict e)"

inductive_cases same_scalarE [elim!]:
  "same_value PNone v" "same_value (PBool b) v" "same_value (PInt i) v" "same_value (PStr s) v" "same_value (PBytes x) v"
inductive_cases same_dictE: "same_value (PDict d) v"

lemma same_value_dict:
  assumes "same_value (PDict d) v"
  obtains e where "v = PDict e" "\<And>k. rel_option same_value (py_find d k) (py_find e k)"
  using assms by (cases rule: same_dictE) (auto simp: option.rel_refl same_refl)

lemma same_value_iget:
  "rel_option same_value (py_find d (PInt k)) (py_find e (PInt k)) \<Longrightarrow> same_value (iget d k) (iget e k)"
  by (auto simp: iget_def iget_or_def same_refl elim!: option.rel_cases)

subsection \<open>Facts\<close>

lemma py_eq_scalar [simp]:
  "py_eq v (PStr s) \<longleftrightarrow> v = PStr s"
  "py_eq (PStr s) v \<longleftrightarrow> v = PStr s"
  "py_eq v PNone \<longleftrightarrow> v = PNone"
  "py_eq PNone v \<longleftrightarrow> v = PNone"
  "py_eq (PInt i) (PInt j) \<longleftrightarrow> i = j"
  "py_eq (PBool a) (PBool b) \<longleftrightarrow> a = b"
  "py_eq (PFloat x) (PFloat y) \<longleftrightarrow> x = y"
  "py_eq (PBytes x1) (PBytes x2) \<longleftrightarrow> x1 = x2"
  "py_eq (PInt i) (PBool b) \<longleftrightarrow> i = (if b then 1 else 0)"
  "py_eq (PBool b) (PInt i) \<longleftrightarrow> i = (if b then 1 else 0)"
  by (cases v; auto simp: py_eq.simps)+

lemma py_eq_bool_iff:
  "py_eq (PBool b) v \<longleftrightarrow> v = PBool b \<or> num_of v = Some (if b then 1 else 0)"
  by (cases v) (auto simp: py_eq.simps)

lemma py_eq_int_iff:
  "py_eq v (PInt i) \<longleftrightarrow> num_of v = Some (of_int i)"
  by (cases v) (auto simp: py_eq.simps)

lemma py_mem_intro: "(k, v) \<in> set d \<Longrightarrow> py_eq k k \<Longrightarrow> py_eq v v \<Longrightarrow> py_mem k v d"
  by (induction d) auto

lemma py_sub_intro: "\<forall>(k, v) \<in> set d. py_mem k v e \<Longrightarrow> py_sub d e"
  by (induction d) auto

lemma py_eqs_refl: "\<forall>x \<in> set xs. py_eq x x \<Longrightarrow> py_eqs xs xs"
  by (induction xs) auto

lemma py_eq_refl [simp]: "py_eq v v"
proof (induction v)
  case (PList xs)
  then show ?case by (simp add: py_eq.simps py_eqs_refl)
next
  case (PDict d)
  have "\<forall>(k, v) \<in> set d. py_mem k v d"
    using PDict by (fastforce intro: py_mem_intro)
  then show ?case by (simp add: py_eq.simps py_sub_intro)
qed (simp_all add: py_eq.simps)

lemma sget_simps [simp]:
  "sget [] k = PNone"
  "sget ((PStr k', v) # d) k = (if k' = k then v else sget d k)"
  by (simp_all add: sget_def get_or_def)

lemma get_or_simps [simp]:
  "get_or [] k x = x"
  "get_or ((PStr k', v) # d) k x = (if k' = k then v else get_or d k x)"
  by (simp_all add: get_or_def)

lemma iget_simps [simp]:
  "iget [] k = PNone"
  "iget ((PInt k', v) # d) k = (if k' = k then v else iget d k)"
  by (simp_all add: iget_def iget_or_def)

lemma iget_or_simps [simp]:
  "iget_or [] k x = x"
  "iget_or ((PInt k', v) # d) k x = (if k' = k then v else iget_or d k x)"
  by (simp_all add: iget_or_def)

lemma py_find_append: "py_find (d @ e) x = (case py_find d x of None \<Rightarrow> py_find e x | Some v \<Rightarrow> Some v)"
  by (induction d) auto

lemma given_find [simp]: "py_find (given k v) (PStr k') = (if k = k' \<and> v \<noteq> PNone then Some v else None)"
  by (simp add: given_def)

lemma sget_append:
  "sget (d @ e) k = (case py_find d (PStr k) of None \<Rightarrow> sget e k | Some v \<Rightarrow> v)"
  by (induction d) (auto simp: sget_def get_or_def)

lemma in_strs_iff: "in_strs v ss \<longleftrightarrow> (\<exists>s \<in> set ss. v = PStr s)"
  by (auto simp: in_strs_def split: pyval.splits)

lemma in_strs_PStr [simp]: "in_strs (PStr s) ss \<longleftrightarrow> s \<in> set ss"
  by (simp add: in_strs_def)

lemma lower_lower [simp]: "lower (lower s) = lower s"
proof -
  have "lower_char (lower_char c) = lower_char c" for c
    by (auto simp: lower_char_def Let_def)
  then show ?thesis by (simp add: lower_def)
qed

lemma length_lower [simp]: "length (lower s) = length s"
  by (simp add: lower_def)

lemma starts_with_prefix: "starts_with s p \<longleftrightarrow> prefix p s"
  by (metis append_eq_conv_conj prefix_def starts_with_def take_is_prefix)

end
