(* ===== verification/Lifecycle.thy ===== *)
theory Lifecycle
  imports Py_Value
begin

text \<open>
  The opt-in task lifecycle of \<open>service_lifecycle.py\<close>: the state machine \<open>TRANSITIONS\<close>, the
  validation of durable event metadata, and the in-memory reference store \<open>LifecycleStore\<close>.

  A clock call of the source is an argument of the model, one per call in program order; the
  cancellation hook is \<^typ>\<open>(string \<Rightarrow> bool) option\<close>, the function telling whether the hook raises.
  The re-entrant lock makes each method atomic, so a method is one step on the store.
\<close>

subsection \<open>States\<close>

definition PROFILE :: string where
  "PROFILE = ''urn:iicp:profile:service-lifecycle:v1''"

definition TERMINAL_STATES :: "string list" where
  "TERMINAL_STATES = [''rejected'', ''completed'', ''failed'', ''cancelled'', ''expired'']"

definition TRANSITIONS :: "(string, string list) dict" where
  "TRANSITIONS =
    [(''submitted'', [''accepted'', ''rejected'', ''expired'']),
     (''accepted'', [''queued'', ''running'', ''completed'', ''cancelled'', ''failed'', ''expired'']),
     (''queued'', [''running'', ''waiting'', ''cancelled'', ''failed'', ''expired'']),
     (''running'', [''waiting'', ''streaming'', ''completed'', ''cancelled'', ''failed'', ''expired'']),
     (''waiting'', [''queued'', ''running'', ''cancelled'', ''failed'', ''expired'']),
     (''streaming'', [''streaming'', ''waiting'', ''completed'', ''cancelled'', ''failed'', ''expired''])]"

abbreviation terminal :: "string \<Rightarrow> bool" where
  "terminal st \<equiv> st \<in> set TERMINAL_STATES"

text \<open>\<open>TRANSITIONS.get(state, set())\<close>.\<close>

definition successors :: "string \<Rightarrow> string list" where
  "successors st = (case map_of TRANSITIONS st of None \<Rightarrow> [] | Some ss \<Rightarrow> ss)"

definition normalise_state :: "string \<Rightarrow> string" where
  "normalise_state st = (if st = ''timed_out'' then ''expired'' else st)"

subsection \<open>Events, records, errors\<close>

record lifecycle_event =
  ev_task_id :: string
  ev_sequence :: int
  ev_state :: string
  ev_is_final :: bool
  ev_observed_at :: time
  ev_detail :: "(string, pyval) dict"

record lifecycle_record =
  rec_task_id :: string
  rec_idempotency_key :: string
  rec_request_digest :: string
  rec_state :: string
  rec_events :: "lifecycle_event list"
  rec_updated_at :: time

datatype lifecycle_error =
    LifecycleConflict string
  | UnknownTask string
  | ResumeUnavailable lifecycle_record
  | LifecycleStorageError
  | HookError
  | EventIndexError

text \<open>\<open>record.latest_sequence\<close> reads \<open>events[-1]\<close>, \<open>events_after\<close> reads \<open>events[0]\<close>: both raise
  \<open>IndexError\<close> on an empty list.\<close>

definition latest_sequence :: "lifecycle_record \<Rightarrow> lifecycle_error + int" where
  "latest_sequence r =
     (if rec_events r = [] then Inl EventIndexError else Inr (ev_sequence (last (rec_events r))))"

definition first_sequence :: "lifecycle_record \<Rightarrow> lifecycle_error + int" where
  "first_sequence r =
     (if rec_events r = [] then Inl EventIndexError else Inr (ev_sequence (hd (rec_events r))))"

subsection \<open>Content-free event metadata\<close>

definition ALLOWED_DETAIL_FIELDS :: "string list" where
  "ALLOWED_DETAIL_FIELDS =
    [''event_id'', ''progress'', ''reason_code'', ''outcome'', ''receipt_digest'', ''checkpoint_digest'']"

definition safe_token_char :: "char \<Rightarrow> bool" where
  "safe_token_char c = (is_ascii_alnum c \<or> c \<in> set ''._:-'')"

text \<open>\<open>_SAFE_TOKEN.fullmatch\<close> and \<open>_DIGEST.fullmatch\<close>.\<close>

definition safe_token :: "string \<Rightarrow> bool" where
  "safe_token s = (list_all safe_token_char s \<and> 1 \<le> length s \<and> length s \<le> 256)"

definition hex64 :: "string \<Rightarrow> bool" where
  "hex64 s = (list_all is_hex_digit s \<and> length s = 64)"

definition digest_text :: "string \<Rightarrow> bool" where
  "digest_text s = (hex64 s \<or> (starts_with s ''sha256:'' \<and> hex64 (drop 7 s)))"

definition check_progress :: "pyval \<Rightarrow> lifecycle_error + pyval" where
  "check_progress v =
     (case v of
        PDict d \<Rightarrow>
          if \<not> keys_within d [''completed_units'', ''total_units'', ''unit'']
          then Inl (LifecycleConflict ''invalid durable lifecycle progress'')
          else (case (int_of (sget d ''completed_units''), int_of (sget d ''total_units'')) of
                  (Some c, Some t) \<Rightarrow>
                    if c < 0 \<or> t < c
                    then Inl (LifecycleConflict ''invalid durable lifecycle progress counts'')
                    else (case sget d ''unit'' of
                            PNone \<Rightarrow>
                              Inr (PDict [(PStr ''completed_units'', sget d ''completed_units''),
                                          (PStr ''total_units'', sget d ''total_units'')])
                          | PStr u \<Rightarrow>
                              if safe_token u
                              then Inr (PDict [(PStr ''completed_units'', sget d ''completed_units''),
                                               (PStr ''total_units'', sget d ''total_units''),
                                               (PStr ''unit'', PStr u)])
                              else Inl (LifecycleConflict ''invalid durable lifecycle progress unit'')
                          | _ \<Rightarrow> Inl (LifecycleConflict ''invalid durable lifecycle progress unit''))
                | _ \<Rightarrow> Inl (LifecycleConflict ''invalid durable lifecycle progress counts''))
      | _ \<Rightarrow> Inl (LifecycleConflict ''invalid durable lifecycle progress''))"

definition check_detail_item :: "string \<times> pyval \<Rightarrow> lifecycle_error + (string \<times> pyval)" where
  "check_detail_item kv =
     (let k = fst kv; v = snd kv in
      if k = ''progress'' then
        (case check_progress v of Inl e \<Rightarrow> Inl e | Inr p \<Rightarrow> Inr (k, p))
      else if ends_with k ''_digest'' then
        (case v of
           PStr s \<Rightarrow> if digest_text s then Inr (k, PStr (lower s))
                     else Inl (LifecycleConflict (''invalid '' @ k))
         | _ \<Rightarrow> Inl (LifecycleConflict (''invalid '' @ k)))
      else
        (case v of
           PStr s \<Rightarrow> if safe_token s then Inr (k, PStr s)
                     else Inl (LifecycleConflict (''invalid durable lifecycle '' @ k))
         | _ \<Rightarrow> Inl (LifecycleConflict (''invalid durable lifecycle '' @ k))))"

text \<open>The unknown-field message lists the sorted offending names; the model keeps its fixed part.\<close>

definition content_free_detail ::
    "(string, pyval) dict option \<Rightarrow> lifecycle_error + (string, pyval) dict" where
  "content_free_detail detail =
     (case detail of
        None \<Rightarrow> Inr []
      | Some d \<Rightarrow>
          if d = [] then Inr []
          else if \<not> list_all (\<lambda>(k, _). k \<in> set ALLOWED_DETAIL_FIELDS) d
          then Inl (LifecycleConflict ''durable lifecycle detail contains unsupported fields'')
          else map_result check_detail_item d)"

subsection \<open>The in-memory store\<close>

record lifecycle_store =
  max_events :: nat
  terminal_status_ttl_s :: time
  records :: "(string, lifecycle_record) dict"

definition new_store :: "int \<Rightarrow> time \<Rightarrow> lifecycle_store" where
  "new_store n ttl = \<lparr>max_events = nat (max 2 n), terminal_status_ttl_s = ttl, records = []\<rparr>"

definition record_expired :: "lifecycle_store \<Rightarrow> time \<Rightarrow> lifecycle_record \<Rightarrow> bool" where
  "record_expired s now r \<longleftrightarrow>
     terminal (rec_state r) \<and> now - rec_updated_at r > terminal_status_ttl_s s"

text \<open>The event and record a fresh submission creates.\<close>

definition submitted_record :: "string \<Rightarrow> string \<Rightarrow> string \<Rightarrow> time \<Rightarrow> lifecycle_record" where
  "submitted_record tid key digest now =
     \<lparr>rec_task_id = tid, rec_idempotency_key = key, rec_request_digest = digest,
      rec_state = ''accepted'',
      rec_events = [\<lparr>ev_task_id = tid, ev_sequence = 0, ev_state = ''accepted'', ev_is_final = False,
                     ev_observed_at = now, ev_detail = []\<rparr>],
      rec_updated_at = now\<rparr>"

definition store_submit ::
    "lifecycle_store \<Rightarrow> time \<Rightarrow> string \<Rightarrow> string \<Rightarrow> string \<Rightarrow>
     lifecycle_store \<times> (lifecycle_error + (lifecycle_record \<times> bool))" where
  "store_submit s now tid key digest =
     (case map_of (records s) tid of
        Some r \<Rightarrow>
          if (rec_idempotency_key r, rec_request_digest r) \<noteq> (key, digest)
          then (s, Inl (LifecycleConflict ''task or idempotency identifier reused for different content''))
          else (s, Inr (r, False))
      | None \<Rightarrow>
          if list_ex (\<lambda>r. rec_idempotency_key r = key) (map snd (records s))
          then (s, Inl (LifecycleConflict
                    ''idempotency identifier reused with a different task identifier''))
          else let r = submitted_record tid key digest now
               in (s\<lparr>records := AList.update tid r (records s)\<rparr>, Inr (r, True)))"

definition store_status ::
    "lifecycle_store \<Rightarrow> time \<Rightarrow> string \<Rightarrow> lifecycle_store \<times> (lifecycle_error + lifecycle_record)" where
  "store_status s now tid =
     (case map_of (records s) tid of
        None \<Rightarrow> (s\<lparr>records := AList.delete tid (records s)\<rparr>, Inl (UnknownTask tid))
      | Some r \<Rightarrow>
          if record_expired s now r
          then (s\<lparr>records := AList.delete tid (records s)\<rparr>, Inl (UnknownTask tid))
          else (s, Inr r))"

definition next_event ::
    "string \<Rightarrow> int \<Rightarrow> string \<Rightarrow> time \<Rightarrow> (string, pyval) dict \<Rightarrow> lifecycle_event" where
  "next_event tid n st now d =
     \<lparr>ev_task_id = tid, ev_sequence = n + 1, ev_state = st, ev_is_final = terminal st,
      ev_observed_at = now, ev_detail = d\<rparr>"

definition append_event :: "nat \<Rightarrow> lifecycle_record \<Rightarrow> lifecycle_event \<Rightarrow> lifecycle_record" where
  "append_event n r e =
     r\<lparr>rec_events := last_n n (rec_events r @ [e]), rec_state := ev_state e,
       rec_updated_at := ev_observed_at e\<rparr>"

text \<open>\<open>transition\<close>: the first reading is the one \<open>status\<close> takes, the second stamps the event.\<close>

definition store_transition ::
    "lifecycle_store \<Rightarrow> time \<Rightarrow> time \<Rightarrow> string \<Rightarrow> string \<Rightarrow> (string, pyval) dict option \<Rightarrow>
     lifecycle_store \<times> (lifecycle_error + lifecycle_event)" where
  "store_transition s t0 now tid state0 detail =
     (case store_status s t0 tid of
        (s', Inl e) \<Rightarrow> (s', Inl e)
      | (s', Inr r) \<Rightarrow>
          let st = normalise_state state0 in
          if st \<notin> set (successors (rec_state r))
          then (s', Inl (LifecycleConflict (''illegal transition '' @ rec_state r @ '' -> '' @ st)))
          else (case latest_sequence r of
                  Inl e \<Rightarrow> (s', Inl e)
                | Inr n \<Rightarrow>
                    let e = next_event tid n st now (case detail of None \<Rightarrow> [] | Some d \<Rightarrow> d)
                    in (s'\<lparr>records := AList.update tid (append_event (max_events s') r e) (records s')\<rparr>,
                        Inr e)))"

text \<open>\<open>cancel\<close> returns the record object the store holds, so after a transition it is the new one.\<close>

definition store_cancel ::
    "lifecycle_store \<Rightarrow> (string \<Rightarrow> bool) option \<Rightarrow> time \<Rightarrow> time \<Rightarrow> time \<Rightarrow> string \<Rightarrow>
     lifecycle_store \<times> (lifecycle_error + lifecycle_record)" where
  "store_cancel s hook t0 t1 now tid =
     (case store_status s t0 tid of
        (s', Inl e) \<Rightarrow> (s', Inl e)
      | (s', Inr r) \<Rightarrow>
          if terminal (rec_state r) then (s', Inr r)
          else if (case hook of None \<Rightarrow> False | Some raises \<Rightarrow> raises tid) then (s', Inl HookError)
          else (case store_transition s' t1 now tid ''cancelled'' (Some [(''outcome'', PStr ''cancelled'')]) of
                  (s'', Inl e) \<Rightarrow> (s'', Inl e)
                | (s'', Inr _) \<Rightarrow>
                    (s'', (case map_of (records s'') tid of
                             None \<Rightarrow> Inl (UnknownTask tid) | Some r' \<Rightarrow> Inr r'))))"

definition slice_events :: "lifecycle_event list \<Rightarrow> int \<Rightarrow> int option \<Rightarrow> lifecycle_event list" where
  "slice_events evs after bound =
     (let es = filter (\<lambda>e. ev_sequence e > after) evs
      in case bound of None \<Rightarrow> es | Some n \<Rightarrow> take (nat (max 1 n)) es)"

definition store_events_after ::
    "lifecycle_store \<Rightarrow> time \<Rightarrow> string \<Rightarrow> int \<Rightarrow> int option \<Rightarrow>
     lifecycle_store \<times> (lifecycle_error + lifecycle_event list)" where
  "store_events_after s now tid after bound =
     (case store_status s now tid of
        (s', Inl e) \<Rightarrow> (s', Inl e)
      | (s', Inr r) \<Rightarrow>
          (case first_sequence r of
             Inl e \<Rightarrow> (s', Inl e)
           | Inr f \<Rightarrow>
               if after + 1 < f then (s', Inl (ResumeUnavailable r))
               else (s', Inr (slice_events (rec_events r) after bound))))"

text \<open>\<open>snapshot\<close> and \<open>restore\<close>. A snapshot is read through \<open>get\<close>, so both parts may be absent; its
  records carry the dataclass fields (\<open>asdict\<close>).\<close>

record lifecycle_snapshot =
  snap_profile :: "string option"
  snap_records :: "lifecycle_record list option"

definition store_snapshot :: "lifecycle_store \<Rightarrow> lifecycle_snapshot" where
  "store_snapshot s = \<lparr>snap_profile = Some PROFILE, snap_records = Some (map snd (records s))\<rparr>"

definition sequence_well_formed :: "lifecycle_event list \<Rightarrow> bool" where
  "sequence_well_formed evs \<longleftrightarrow>
     evs \<noteq> [] \<and>
     list_all (\<lambda>(i, e). ev_sequence e = ev_sequence (hd evs) + int i) (enumerate 0 evs)"

fun restore_records ::
    "lifecycle_record list \<Rightarrow> (string, lifecycle_record) dict \<Rightarrow>
     lifecycle_error + (string, lifecycle_record) dict" where
  "restore_records [] acc = Inr acc"
| "restore_records (r # rs) acc =
     (if sequence_well_formed (rec_events r)
      then restore_records rs (AList.update (rec_task_id r) r acc)
      else Inl (LifecycleConflict ''invalid lifecycle snapshot sequence''))"

definition store_restore ::
    "lifecycle_store \<Rightarrow> lifecycle_snapshot \<Rightarrow> lifecycle_store \<times> (lifecycle_error + unit)" where
  "store_restore s snap =
     (if snap_profile snap \<noteq> Some PROFILE
      then (s, Inl (LifecycleConflict ''unsupported lifecycle snapshot profile''))
      else (case restore_records (case snap_records snap of None \<Rightarrow> [] | Some rs \<Rightarrow> rs) [] of
              Inl e \<Rightarrow> (s, Inl e)
            | Inr d \<Rightarrow> (s\<lparr>records := d\<rparr>, Inr ())))"

subsection \<open>Well-formed stores\<close>

definition legal_step :: "lifecycle_event \<Rightarrow> lifecycle_event \<Rightarrow> bool" where
  "legal_step e e' \<longleftrightarrow> ev_state e' \<in> set (successors (ev_state e))"

text \<open>What the code keeps true of one record: a bounded, gap-free window of events, each a legal
  successor of the one before, whose last event carries the record's state and timestamp.\<close>

definition record_wf :: "nat \<Rightarrow> lifecycle_record \<Rightarrow> bool" where
  "record_wf n r \<longleftrightarrow>
     rec_events r \<noteq> [] \<and> length (rec_events r) \<le> n \<and>
     consecutive (map ev_sequence (rec_events r)) \<and> 0 \<le> ev_sequence (hd (rec_events r)) \<and>
     successively legal_step (rec_events r) \<and>
     (\<forall>e \<in> set (rec_events r). ev_task_id e = rec_task_id r \<and> ev_is_final e = terminal (ev_state e)) \<and>
     ev_state (last (rec_events r)) = rec_state r \<and>
     ev_observed_at (last (rec_events r)) = rec_updated_at r \<and>
     (terminal (rec_state r) \<or> ''cancelled'' \<in> set (successors (rec_state r)))"

definition store_wf :: "lifecycle_store \<Rightarrow> bool" where
  "store_wf s \<longleftrightarrow>
     2 \<le> max_events s \<and> distinct (map fst (records s)) \<and>
     distinct (map (rec_idempotency_key \<circ> snd) (records s)) \<and>
     (\<forall>(k, r) \<in> set (records s). rec_task_id r = k \<and> record_wf (max_events s) r)"

text \<open>One call of a public method on the store.\<close>

inductive store_step :: "lifecycle_store \<Rightarrow> lifecycle_store \<Rightarrow> bool" where
  step_submit: "store_step s (fst (store_submit s now tid key digest))"
| step_status: "store_step s (fst (store_status s now tid))"
| step_transition: "store_step s (fst (store_transition s t0 now tid st detail))"
| step_cancel: "store_step s (fst (store_cancel s hook t0 t1 now tid))"
| step_events: "store_step s (fst (store_events_after s now tid after bound))"

inductive store_reachable :: "int \<Rightarrow> time \<Rightarrow> lifecycle_store \<Rightarrow> bool" for n ttl where
  reach_new: "store_reachable n ttl (new_store n ttl)"
| reach_step: "store_reachable n ttl s \<Longrightarrow> store_step s s' \<Longrightarrow> store_reachable n ttl s'"

inductive_cases store_stepE: "store_step s s'"

named_theorems lifecycle_ops \<open>definitions of the store operations\<close>

declare store_submit_def [lifecycle_ops] store_status_def [lifecycle_ops]
  store_transition_def [lifecycle_ops] store_cancel_def [lifecycle_ops]
  store_events_after_def [lifecycle_ops]

subsection \<open>Facts about states\<close>

lemma terminal_no_successors [simp]: "terminal st \<Longrightarrow> successors st = []"
  by (auto simp: TERMINAL_STATES_def successors_def TRANSITIONS_def)

lemma accepted_not_terminal [simp]: "\<not> terminal ''accepted''"
  by (simp add: TERMINAL_STATES_def)

lemma successors_cases:
  assumes "st' \<in> set (successors st)"
  obtains "st = ''submitted''" | "st = ''accepted''" | "st = ''queued''" | "st = ''running''"
    | "st = ''waiting''" | "st = ''streaming''"
  using assms by (auto simp: successors_def TRANSITIONS_def split: if_splits)

lemma successors_cancel:
  "successors st \<noteq> [] \<Longrightarrow> st \<noteq> ''submitted'' \<Longrightarrow> ''cancelled'' \<in> set (successors st)"
  by (auto simp: successors_def TRANSITIONS_def split: if_splits)

lemma successors_known:
  "st' \<in> set (successors st) \<Longrightarrow> terminal st' \<or> successors st' \<noteq> []"
  by (auto simp: successors_def TRANSITIONS_def TERMINAL_STATES_def split: if_splits)

lemma successors_not_submitted: "st' \<in> set (successors st) \<Longrightarrow> st' \<noteq> ''submitted''"
  by (auto simp: successors_def TRANSITIONS_def split: if_splits)

subsection \<open>Facts about records\<close>

lemma cancellable_accepted: "''cancelled'' \<in> set (successors ''accepted'')"
  by (simp add: successors_def TRANSITIONS_def)

lemma submitted_record_wf: "2 \<le> n \<Longrightarrow> record_wf n (submitted_record tid key digest now)"
  by (simp add: record_wf_def submitted_record_def cancellable_accepted)

lemma successors_settled:
  "st' \<in> set (successors st) \<Longrightarrow> terminal st' \<or> ''cancelled'' \<in> set (successors st')"
  using successors_cancel successors_known successors_not_submitted by blast

lemma append_event_fields [simp]:
  "rec_task_id (append_event n r e) = rec_task_id r"
  "rec_idempotency_key (append_event n r e) = rec_idempotency_key r"
  "rec_request_digest (append_event n r e) = rec_request_digest r"
  "rec_state (append_event n r e) = ev_state e"
  "rec_updated_at (append_event n r e) = ev_observed_at e"
  "rec_events (append_event n r e) = last_n n (rec_events r @ [e])"
  by (simp_all add: append_event_def)

lemma hd_last_n_in: "xs \<noteq> [] \<Longrightarrow> 0 < n \<Longrightarrow> hd (last_n n xs) \<in> set xs"
proof -
  assume "xs \<noteq> []" "0 < n"
  then have "0 < length (last_n n xs)" by simp
  then have "last_n n xs \<noteq> []" by (metis length_greater_0_conv)
  then have "hd (last_n n xs) \<in> set (last_n n xs)" by simp
  with set_mono_suffix [OF suffix_last_n] show ?thesis by fast
qed

lemma consecutive_ge_hd: "consecutive ns \<Longrightarrow> n \<in> set ns \<Longrightarrow> hd ns \<le> n"
  by (metis consecutive_sorted hd_Cons_tl list.distinct(1) list.set_cases order_refl set_ConsD
      sorted_simps(2))

lemma append_event_wf:
  assumes wf: "record_wf n r" and n: "0 < n"
    and e: "ev_sequence e = ev_sequence (last (rec_events r)) + 1"
      "ev_state e \<in> set (successors (rec_state r))" "ev_task_id e = rec_task_id r"
      "ev_is_final e = terminal (ev_state e)"
  shows "record_wf n (append_event n r e)"
proof -
  let ?full = "rec_events r @ [e]" let ?win = "last_n n ?full"
  from wf have ne: "rec_events r \<noteq> []" by (simp add: record_wf_def)
  have suf: "suffix ?win ?full" by (rule suffix_last_n)
  have win: "?win = last_n (n - 1) (rec_events r) @ [e]" using n by (rule last_n_snoc)
  have c: "consecutive (map ev_sequence ?full)"
    using wf ne e(1) by (simp add: record_wf_def consecutive_snoc last_map)
  have "consecutive (map ev_sequence ?win)"
    by (rule consecutive_suffix [OF c]) (rule map_mono_suffix [OF suf])
  moreover have "successively legal_step ?win"
    by (rule successively_suffix [OF _ suf])
      (use wf ne e(2) in \<open>simp add: record_wf_def successively_snoc_iff legal_step_def\<close>)
  moreover have "0 \<le> ev_sequence (hd ?win)"
  proof -
    have "hd ?win \<in> set ?full" using n by (intro hd_last_n_in) simp_all
    then have "ev_sequence (hd ?win) \<in> set (map ev_sequence ?full)" by auto
    then have "hd (map ev_sequence ?full) \<le> ev_sequence (hd ?win)"
      by (rule consecutive_ge_hd [OF c])
    with wf ne show ?thesis by (simp add: record_wf_def hd_map)
  qed
  moreover have "set ?win \<subseteq> set ?full" using suf by (rule set_mono_suffix)
  ultimately show ?thesis
    using wf e(3,4) n successors_settled [OF e(2)] unfolding record_wf_def by (auto simp: win)
qed

lemma window_only_last_final:
  assumes "record_wf n r" "e \<in> set (butlast (rec_events r))"
  shows "\<not> ev_is_final e"
proof -
  obtain ys where split: "rec_events r = butlast (rec_events r) @ [last (rec_events r)]"
    using assms by (metis append_butlast_last_id record_wf_def)
  from assms(2) obtain as bs where b: "butlast (rec_events r) = as @ e # bs"
    by (meson split_list)
  with split have "rec_events r = as @ e # (bs @ [last (rec_events r)])" by simp
  moreover obtain f fs where "bs @ [last (rec_events r)] = f # fs"
    by (metis Nil_is_append_conv list.exhaust not_Cons_self2)
  ultimately have "rec_events r = as @ e # f # fs" by simp
  with assms(1) have "legal_step e f" and "ev_is_final e = terminal (ev_state e)"
    by (auto simp: record_wf_def successively_append_iff)
  then show ?thesis by (auto simp: legal_step_def)
qed

lemma record_wf_latest:
  "record_wf n r \<Longrightarrow> latest_sequence r = Inr (ev_sequence (last (rec_events r)))"
  by (simp add: record_wf_def latest_sequence_def)

lemma record_wf_first:
  "record_wf n r \<Longrightarrow> first_sequence r = Inr (ev_sequence (hd (rec_events r)))"
  by (simp add: record_wf_def first_sequence_def)

subsection \<open>Operations keep stores well formed\<close>

lemma store_wf_lookup:
  "store_wf s \<Longrightarrow> map_of (records s) tid = Some r \<Longrightarrow>
   rec_task_id r = tid \<and> record_wf (max_events s) r"
  by (auto simp: store_wf_def dest: map_of_SomeD)

lemma keys_delete:
  "map (rec_idempotency_key \<circ> snd) (AList.delete k d) =
   map (rec_idempotency_key \<circ> snd) (filter (\<lambda>p. fst p \<noteq> k) d)"
  by (induction d) auto

lemma store_wf_delete: "store_wf s \<Longrightarrow> store_wf (s\<lparr>records := AList.delete tid (records s)\<rparr>)"
  by (auto simp: store_wf_def keys_delete distinct_map_filter distinct_dict_delete AList.delete_eq)

lemma keys_update_same:
  "map_of d k = Some r \<Longrightarrow> rec_idempotency_key r' = rec_idempotency_key r \<Longrightarrow>
   map (rec_idempotency_key \<circ> snd) (AList.update k r' d) = map (rec_idempotency_key \<circ> snd) d"
  by (induction d) (auto split: if_splits)

lemma store_wf_replace:
  assumes "store_wf s" "map_of (records s) tid = Some r" "record_wf (max_events s) r'"
    "rec_task_id r' = rec_task_id r" "rec_idempotency_key r' = rec_idempotency_key r"
  shows "store_wf (s\<lparr>records := AList.update tid r' (records s)\<rparr>)"
proof -
  have id: "rec_task_id r' = tid" using assms store_wf_lookup by metis
  show ?thesis
    using assms id unfolding store_wf_def
    by (auto simp: keys_update_same distinct_dict_update set_dict_update)
qed

lemma store_wf_insert:
  assumes "store_wf s" "map_of (records s) tid = None" "record_wf (max_events s) r"
    "rec_task_id r = tid" "\<forall>r' \<in> snd ` set (records s). rec_idempotency_key r' \<noteq> rec_idempotency_key r"
  shows "store_wf (s\<lparr>records := AList.update tid r (records s)\<rparr>)"
  using assms unfolding store_wf_def
  by (auto simp: dict_update_absent map_of_eq_None_iff)

lemma submitted_record_fields [simp]:
  "rec_task_id (submitted_record tid key digest now) = tid"
  "rec_idempotency_key (submitted_record tid key digest now) = key"
  "rec_request_digest (submitted_record tid key digest now) = digest"
  "rec_state (submitted_record tid key digest now) = ''accepted''"
  by (simp_all add: submitted_record_def)

lemma store_submit_wf: "store_wf s \<Longrightarrow> store_wf (fst (store_submit s now tid key digest))"
proof -
  assume wf: "store_wf s"
  then have "record_wf (max_events s) (submitted_record tid key digest now)"
    by (intro submitted_record_wf) (simp add: store_wf_def)
  with wf show ?thesis
    by (auto simp: store_submit_def Let_def list_ex_iff intro!: store_wf_insert split: option.splits)
qed

lemma store_status_wf: "store_wf s \<Longrightarrow> store_wf (fst (store_status s now tid))"
  by (auto simp: store_status_def store_wf_delete split: option.splits)

lemma store_status_ok:
  "store_status s now tid = (s', Inr r) \<longleftrightarrow>
   s' = s \<and> map_of (records s) tid = Some r \<and> \<not> record_expired s now r"
  by (auto simp: store_status_def split: option.splits if_splits)

lemma store_status_max [simp]: "max_events (fst (store_status s now tid)) = max_events s"
  by (auto simp: store_status_def split: option.splits)

text \<open>A transition that succeeds, in full: what it required and what it changed.\<close>

lemma store_transition_ok:
  assumes "store_transition s t0 now tid state0 detail = (s', Inr e)"
  obtains r n where "map_of (records s) tid = Some r" "\<not> record_expired s t0 r"
    "normalise_state state0 \<in> set (successors (rec_state r))" "latest_sequence r = Inr n"
    "e = next_event tid n (normalise_state state0) now (case detail of None \<Rightarrow> [] | Some d \<Rightarrow> d)"
    "s' = s\<lparr>records := AList.update tid (append_event (max_events s) r e) (records s)\<rparr>"
  using assms
  by (auto simp: store_transition_def Let_def store_status_ok split: prod.splits sum.splits if_splits)

lemma store_transition_wf_ok:
  assumes "store_wf s" "store_transition s t0 now tid state0 detail = (s', Inr e)"
  shows "store_wf s'"
proof -
  from assms(2) obtain r n where r: "map_of (records s) tid = Some r"
    and st: "normalise_state state0 \<in> set (successors (rec_state r))"
    and n: "latest_sequence r = Inr n"
    and e: "e = next_event tid n (normalise_state state0) now (case detail of None \<Rightarrow> [] | Some d \<Rightarrow> d)"
    and s': "s' = s\<lparr>records := AList.update tid (append_event (max_events s) r e) (records s)\<rparr>"
    by (rule store_transition_ok)
  from store_wf_lookup [OF assms(1) r] have id: "rec_task_id r = tid"
    and wf: "record_wf (max_events s) r" by auto
  have "record_wf (max_events s) (append_event (max_events s) r e)"
    using wf assms(1) st n id
    by (intro append_event_wf) (auto simp: e next_event_def record_wf_latest store_wf_def)
  then show ?thesis
    unfolding s' by (intro store_wf_replace [OF assms(1) r]) simp_all
qed

lemma store_transition_wf:
  assumes "store_wf s"
  shows "store_wf (fst (store_transition s t0 now tid state0 detail))"
proof (cases "store_transition s t0 now tid state0 detail")
  case (Pair s' res)
  show ?thesis
  proof (cases res)
    case (Inr e)
    with Pair assms show ?thesis by (auto intro: store_transition_wf_ok)
  next
    case (Inl e)
    with Pair have "s' = fst (store_status s t0 tid)"
      by (auto simp: store_transition_def Let_def split: prod.splits sum.splits if_splits)
    with Pair assms show ?thesis by (simp add: store_status_wf)
  qed
qed

lemma store_cancel_wf:
  assumes "store_wf s"
  shows "store_wf (fst (store_cancel s hook t0 t1 now tid))"
proof -
  have w: "store_wf s0" if "store_status s t0 tid = (s0, x)" for s0 x
    using store_status_wf [OF assms, of t0 tid] that by simp
  have t: "store_wf s1" if "store_wf s0" "store_transition s0 t1 now tid st d = (s1, y)" for s0 s1 st d y
    using store_transition_wf [OF that(1), of t1 now tid st d] that(2) by simp
  show ?thesis
    by (auto simp: store_cancel_def split: prod.splits sum.splits dest: w intro: t)
qed

lemma store_events_after_state:
  "fst (store_events_after s now tid after bound) = fst (store_status s now tid)"
  by (auto simp: store_events_after_def split: prod.splits sum.splits)

lemma store_step_wf: "store_step s s' \<Longrightarrow> store_wf s \<Longrightarrow> store_wf s'"
  by (auto elim!: store_stepE simp: store_submit_wf store_status_wf store_transition_wf store_cancel_wf
      store_events_after_state)

lemma new_store_wf: "store_wf (new_store n ttl)"
  by (simp add: store_wf_def new_store_def)

lemma reachable_store_wf: "store_reachable n ttl s \<Longrightarrow> store_wf s"
  by (induction rule: store_reachable.induct) (auto intro: new_store_wf store_step_wf)

subsection \<open>Behaviour of the operations\<close>

lemma store_transition_live:
  assumes "map_of (records s) tid = Some r" "\<not> record_expired s t0 r" "rec_events r \<noteq> []"
  shows "store_transition s t0 now tid state0 detail =
    (if normalise_state state0 \<in> set (successors (rec_state r))
     then let e = next_event tid (ev_sequence (last (rec_events r))) (normalise_state state0) now
                    (case detail of None \<Rightarrow> [] | Some d \<Rightarrow> d)
          in (s\<lparr>records := AList.update tid (append_event (max_events s) r e) (records s)\<rparr>, Inr e)
     else (s, Inl (LifecycleConflict
                (''illegal transition '' @ rec_state r @ '' -> '' @ normalise_state state0))))"
  using assms by (simp add: store_transition_def store_status_def latest_sequence_def Let_def)

lemma store_cancel_live:
  assumes wf: "store_wf s" and r: "map_of (records s) tid = Some r"
    and live: "\<not> record_expired s t0 r" "\<not> terminal (rec_state r)"
    and hook: "\<not> (case hook of None \<Rightarrow> False | Some raises \<Rightarrow> raises tid)"
  obtains e where
    "e = next_event tid (ev_sequence (last (rec_events r))) ''cancelled'' now
           [(''outcome'', PStr ''cancelled'')]"
    "store_cancel s hook t0 t1 now tid =
       (s\<lparr>records := AList.update tid (append_event (max_events s) r e) (records s)\<rparr>,
        Inr (append_event (max_events s) r e))"
proof -
  let ?e = "next_event tid (ev_sequence (last (rec_events r))) ''cancelled'' now
              [(''outcome'', PStr ''cancelled'')]"
  from store_wf_lookup [OF wf r] have rw: "record_wf (max_events s) r" by simp
  with live(2) have can: "''cancelled'' \<in> set (successors (rec_state r))" and ne: "rec_events r \<noteq> []"
    by (auto simp: record_wf_def)
  have nx: "\<not> record_expired s t1 r" using live(2) by (simp add: record_expired_def)
  have "store_transition s t1 now tid ''cancelled'' (Some [(''outcome'', PStr ''cancelled'')]) =
    (s\<lparr>records := AList.update tid (append_event (max_events s) r ?e) (records s)\<rparr>, Inr ?e)"
    using can by (simp add: store_transition_live [OF r nx ne] normalise_state_def Let_def)
  with r live hook have "store_cancel s hook t0 t1 now tid =
       (s\<lparr>records := AList.update tid (append_event (max_events s) r ?e) (records s)\<rparr>,
        Inr (append_event (max_events s) r ?e))"
    by (simp add: store_cancel_def store_status_def dict_simps)
  with that show thesis by blast
qed

lemma sequence_well_formed_iff:
  "sequence_well_formed evs \<longleftrightarrow> evs \<noteq> [] \<and> consecutive (map ev_sequence evs)"
proof (cases "evs = []")
  case False
  then have "list_all (\<lambda>(i, e). ev_sequence e = ev_sequence (hd evs) + int i) (enumerate 0 evs) \<longleftrightarrow>
    (\<forall>i < length evs. ev_sequence (evs ! i) = ev_sequence (hd evs) + int i)"
    by (auto simp: list_all_length nth_enumerate_eq)
  with False show ?thesis
    by (auto simp: sequence_well_formed_def consecutive_iff_nth hd_map)
qed (simp add: sequence_well_formed_def)

lemma restore_records_append:
  "\<forall>r \<in> set rs. sequence_well_formed (rec_events r) \<Longrightarrow>
   distinct (map fst acc @ map rec_task_id rs) \<Longrightarrow>
   restore_records rs acc = Inr (acc @ map (\<lambda>r. (rec_task_id r, r)) rs)"
proof (induction rs arbitrary: acc)
  case (Cons r rs)
  then have "map_of acc (rec_task_id r) = None" by (auto simp: map_of_eq_None_iff)
  with Cons show ?case by (simp add: dict_update_absent)
qed simp

lemma restore_records_Inr:
  "restore_records rs acc = Inr d \<Longrightarrow> \<forall>r \<in> set rs. sequence_well_formed (rec_events r)"
  by (induction rs arbitrary: acc) (auto split: if_splits)

lemma restore_records_Inl: "restore_records rs acc = Inl e \<Longrightarrow> \<exists>m. e = LifecycleConflict m"
  by (induction rs arbitrary: acc) (auto split: if_splits)

lemma max_events_submit: "max_events (fst (store_submit s now tid key digest)) = max_events s"
  by (auto simp: store_submit_def Let_def split: option.splits)

lemma max_events_status: "store_status s now tid = (s', x) \<Longrightarrow> max_events s' = max_events s"
  using store_status_max [of s now tid] by simp

lemma max_events_transition: "max_events (fst (store_transition s t0 now tid st d)) = max_events s"
  by (auto simp: store_transition_def Let_def split: prod.splits sum.splits dest: max_events_status)

lemma max_events_cancel: "max_events (fst (store_cancel s hook t0 t1 now tid)) = max_events s"
proof -
  have t: "max_events s1 = max_events s0" if "store_transition s0 t1 now tid st d = (s1, y)" for s0 s1 y st d
    using that max_events_transition [of s0 t1 now tid st d] by simp
  show ?thesis by (auto simp: store_cancel_def split: prod.splits sum.splits dest!: max_events_status t)
qed

lemma map_snd_wf:
  "store_wf s \<Longrightarrow> map (\<lambda>r. (rec_task_id r, r)) (map snd (records s)) = records s"
  by (auto simp: store_wf_def intro!: map_idI)

lemma slice_events_window:
  assumes "consecutive (map ev_sequence evs)"
  shows "consecutive (map ev_sequence (slice_events evs after None))"
    and "suffix (slice_events evs after None) evs"
proof -
  have f: "map ev_sequence (filter (\<lambda>e. after < ev_sequence e) evs) =
    filter (\<lambda>n. after < n) (map ev_sequence evs)"
    by (simp add: filter_map o_def)
  show "consecutive (map ev_sequence (slice_events evs after None))"
    using consecutive_filter_greater [OF assms, of after] by (simp add: slice_events_def f)
  have "suffix (filter (\<lambda>e. after < ev_sequence e) evs) evs"
    using assms by (rule suffix_filter_consecutive)
  then show "suffix (slice_events evs after None) evs" by (simp add: slice_events_def)
qed

lemma restore_malformed:
  assumes "snap_profile snap \<noteq> Some PROFILE \<or>
    (\<exists>rs r. snap_records snap = Some rs \<and> r \<in> set rs \<and> \<not> sequence_well_formed (rec_events r))"
  shows "\<exists>m. store_restore s snap = (s, Inl (LifecycleConflict m))"
proof (cases "snap_profile snap = Some PROFILE")
  case True
  with assms obtain rs r where rs: "snap_records snap = Some rs" "r \<in> set rs" "\<not> sequence_well_formed (rec_events r)"
    by blast
  then have "\<not> (\<exists>d. restore_records rs [] = Inr d)" using restore_records_Inr by blast
  then obtain e where e: "restore_records rs [] = Inl e" by (cases "restore_records rs []") auto
  with restore_records_Inl [OF e] True rs show ?thesis by (auto simp: store_restore_def)
qed (simp add: store_restore_def)

subsection \<open>Facts about event metadata\<close>

lemma check_progress_fixed:
  assumes "check_progress v = Inr w"
  shows "check_progress w = Inr w"
proof -
  from assms obtain d where v: "v = PDict d" and
    k: "keys_within d [''completed_units'', ''total_units'', ''unit'']"
    by (auto simp: check_progress_def split: pyval.splits if_splits)
  from assms v k obtain c t where c: "int_of (sget d ''completed_units'') = Some c"
    and t: "int_of (sget d ''total_units'') = Some t" and ct: "\<not> (c < 0 \<or> t < c)"
    by (simp add: check_progress_def split: option.splits if_splits)
  show ?thesis
  proof (cases "sget d ''unit''")
    case PNone
    with assms v k c t ct show ?thesis by (auto simp: check_progress_def keys_within_def)
  next
    case (PStr u)
    with assms v k c t ct show ?thesis
      by (auto simp: check_progress_def keys_within_def split: if_splits)
  qed (use assms v k c t ct in \<open>simp_all add: check_progress_def\<close>)
qed

lemma lower_char_hex: "is_hex_digit c \<Longrightarrow> is_hex_digit (lower_char c)"
  unfolding is_hex_digit_def lower_char_def Let_def by (simp split: if_splits) linarith

lemma hex64_lower: "hex64 s \<Longrightarrow> hex64 (lower s)"
  by (auto simp: hex64_def lower_def list_all_iff lower_char_hex)

lemma digest_text_lower: "digest_text s \<Longrightarrow> digest_text (lower s)"
proof -
  assume "digest_text s"
  then consider "hex64 s" | "starts_with s ''sha256:''" "hex64 (drop 7 s)"
    by (auto simp: digest_text_def)
  then show ?thesis
  proof cases
    case 1
    then show ?thesis by (simp add: digest_text_def hex64_lower)
  next
    case 2
    then have "take 7 s = ''sha256:''" by (simp add: starts_with_def numeral_eq_Suc)
    then have "s = ''sha256:'' @ drop 7 s" by (metis append_take_drop_id)
    then have "lower s = lower ''sha256:'' @ lower (drop 7 s)"
      by (metis lower_def map_append)
    moreover have "lower ''sha256:'' = ''sha256:''" by code_simp
    ultimately have "lower s = ''sha256:'' @ lower (drop 7 s)" by simp
    then show ?thesis using 2 by (simp add: digest_text_def starts_with_def hex64_lower)
  qed
qed

lemma check_detail_item_fixed:
  assumes "check_detail_item kv = Inr kv'"
  shows "fst kv' = fst kv \<and> check_detail_item kv' = Inr kv'"
proof -
  obtain k v where kv: "kv = (k, v)" by (cases kv)
  consider (p) "k = ''progress''" | (d) "k \<noteq> ''progress''" "ends_with k ''_digest''"
    | (o) "k \<noteq> ''progress''" "\<not> ends_with k ''_digest''" by blast
  then show ?thesis
  proof cases
    case p
    with assms kv show ?thesis
      by (auto simp: check_detail_item_def Let_def check_progress_fixed split: sum.splits)
  next
    case d
    with assms kv show ?thesis
      by (auto simp: check_detail_item_def Let_def digest_text_lower split: pyval.splits if_splits)
  next
    case o
    with assms kv show ?thesis
      by (auto simp: check_detail_item_def Let_def split: pyval.splits if_splits)
  qed
qed

lemma content_free_detail_fields:
  assumes "content_free_detail d = Inr d'"
  shows "\<forall>(k, v) \<in> set d'. k \<in> set ALLOWED_DETAIL_FIELDS \<and> check_detail_item (k, v) = Inr (k, v)"
proof (cases d)
  case (Some xs)
  show ?thesis
  proof (cases "xs = []")
    case False
    with assms Some have allowed: "list_all (\<lambda>(k, _). k \<in> set ALLOWED_DETAIL_FIELDS) xs"
      and res: "map_result check_detail_item xs = Inr d'"
      by (auto simp: content_free_detail_def split: if_splits)
    from res have "list_all2 (\<lambda>x y. check_detail_item x = Inr y) xs d'"
      by (simp add: map_result_Inr)
    then show ?thesis
      using allowed check_detail_item_fixed
      by (fastforce simp: list_all2_conv_all_nth list_all_length in_set_conv_nth)
  qed (use assms Some in \<open>simp add: content_free_detail_def\<close>)
qed (use assms in \<open>simp add: content_free_detail_def\<close>)

lemma content_free_detail_fixed:
  assumes "content_free_detail d = Inr d'"
  shows "content_free_detail (Some d') = Inr d'"
proof (cases "d' = []")
  case False
  have f: "check_detail_item x = Inr (id x)" if "x \<in> set d'" for x
    using content_free_detail_fields [OF assms] that by fastforce
  have "map_result check_detail_item d' = Inr (map id d')"
    by (rule map_result_map) (rule f)
  moreover have "list_all (\<lambda>(k, _). k \<in> set ALLOWED_DETAIL_FIELDS) d'"
    using content_free_detail_fields [OF assms] by (auto simp: list_all_iff)
  moreover note False
  ultimately show ?thesis by (simp add: content_free_detail_def)
qed (simp add: content_free_detail_def)

subsection \<open>A terminal record never changes\<close>

lemma store_status_keeps:
  "map_of (records (fst (store_status s now t))) tid \<in> {map_of (records s) tid, None}"
  by (auto simp: store_status_def dict_simps split: option.splits)

lemma store_transition_keeps:
  assumes "map_of (records s) tid = Some r" "terminal (rec_state r)"
  shows "map_of (records (fst (store_transition s t0 now t st detail))) tid \<in> {Some r, None}"
proof (cases "store_transition s t0 now t st detail")
  case (Pair s' res)
  show ?thesis
  proof (cases res)
    case (Inr e)
    with Pair obtain r' where "map_of (records s) t = Some r'" "normalise_state st \<in> set (successors (rec_state r'))"
      and "s' = s\<lparr>records := AList.update t (append_event (max_events s) r' e) (records s)\<rparr>"
      by (auto elim: store_transition_ok)
    with assms Pair show ?thesis by (auto simp: dict_simps)
  next
    case (Inl e)
    with Pair have "s' = fst (store_status s t0 t)"
      by (auto simp: store_transition_def Let_def split: prod.splits sum.splits if_splits)
    with Pair assms show ?thesis using store_status_keeps [of s t0 t tid] by simp
  qed
qed

lemma store_transition_absent:
  assumes "map_of (records s) tid = None"
  shows "map_of (records (fst (store_transition s t0 now t st detail))) tid = None"
proof (cases "store_transition s t0 now t st detail")
  case (Pair s' res)
  then show ?thesis using assms store_status_keeps [of s t0 t tid]
    by (cases res)
      (auto elim!: store_transition_ok simp: dict_simps,
       auto simp: store_transition_def Let_def split: prod.splits sum.splits if_splits)
qed

lemma store_cancel_keeps:
  assumes r: "map_of (records s) tid = Some r" "terminal (rec_state r)"
  shows "map_of (records (fst (store_cancel s hook t0 t1 now t))) tid \<in> {Some r, None}"
proof -
  obtain s0 x where s0: "store_status s t0 t = (s0, x)" by fastforce
  then have k0: "map_of (records s0) tid \<in> {Some r, None}" using store_status_keeps [of s t0 t tid] r by simp
  have "map_of (records (fst (store_transition s0 t1 now t st d))) tid \<in> {Some r, None}" for st d
    using k0 store_transition_keeps [OF _ r(2), of s0 tid t1 now t st d]
      store_transition_absent [of s0 tid t1 now t st d] by auto
  then have t: "map_of (records s1) tid \<in> {Some r, None}" if "store_transition s0 t1 now t st d = (s1, y)" for st d s1 y
    using that by (metis fst_conv)
  show ?thesis
    using k0 by (auto simp: store_cancel_def s0 split: prod.splits sum.splits dest: t)
qed

lemma store_step_keeps:
  assumes "store_step s s'" "map_of (records s) tid = Some r" "terminal (rec_state r)"
  shows "map_of (records s') tid \<in> {Some r, None}"
  using assms(1)
proof cases
  case (step_submit now t key digest)
  with assms(2) show ?thesis
    by (auto simp: store_submit_def Let_def dict_simps split: option.splits)
next
  case (step_status now t)
  with assms(2) store_status_keeps [of s now t tid] show ?thesis by simp
next
  case (step_events now t after bound)
  with assms(2) store_status_keeps [of s now t tid] show ?thesis by (simp add: store_events_after_state)
qed (use assms(2,3) store_transition_keeps store_cancel_keeps in simp_all)

subsection \<open>Properties of the in-memory lifecycle\<close>

text \<open>A store used by the witnesses: one task, run to completion in a window of two events.\<close>

definition sample_store :: lifecycle_store where
  "sample_store =
     fst (store_transition (fst (store_transition (fst (store_submit (new_store 2 60) 0 ''t'' ''k'' ''d''))
       1 1 ''t'' ''running'' None)) 2 2 ''t'' ''completed'' None)"

definition sample_record :: lifecycle_record where
  "sample_record =
     \<lparr>rec_task_id = ''t'', rec_idempotency_key = ''k'', rec_request_digest = ''d'', rec_state = ''completed'',
      rec_events =
        [\<lparr>ev_task_id = ''t'', ev_sequence = 1, ev_state = ''running'', ev_is_final = False,
          ev_observed_at = 1, ev_detail = []\<rparr>,
         \<lparr>ev_task_id = ''t'', ev_sequence = 2, ev_state = ''completed'', ev_is_final = True,
          ev_observed_at = 2, ev_detail = []\<rparr>],
      rec_updated_at = 2\<rparr>"

lemmas lifecycle_eval = lifecycle_ops new_store_def submitted_record_def record_expired_def latest_sequence_def
  next_event_def append_event_def last_n_def TERMINAL_STATES_def normalise_state_def successors_def
  TRANSITIONS_def Let_def

lemma sample_store_eq: "sample_store = \<lparr>max_events = 2, terminal_status_ttl_s = 60, records = [(''t'', sample_record)]\<rparr>"
  by (simp add: sample_store_def sample_record_def lifecycle_eval)

lemma sample_store_reachable: "store_reachable 2 60 sample_store"
  unfolding sample_store_def by (intro reach_step [OF _ step_transition] reach_step [OF _ step_submit] reach_new)



text \<open>C27: A transition of a known, unexpired task succeeds exactly when the requested state (with
  \<open>timed_out\<close> read as \<open>expired\<close>) is a successor of the current one; it then appends one event with the
  next sequence number, keeps the newest \<open>max_events\<close> events and touches no other task. Otherwise the
  store is unchanged and the conflict names both states.\<close>

theorem transition_behaviour:
  assumes "store_reachable n ttl s" "map_of (records s) tid = Some r" "\<not> record_expired s t0 r"
    and st: "st = normalise_state state0" and ok: "ok \<longleftrightarrow> st \<in> set (successors (rec_state r))"
    and res: "store_transition s t0 now tid state0 detail = (s', res)"
  shows "(ok \<longrightarrow> (\<exists>e r'. res = Inr e \<and> map_of (records s') tid = Some r' \<and>
            ev_sequence e = ev_sequence (last (rec_events r)) + 1 \<and> ev_state e = st \<and>
            ev_is_final e = (st \<in> set TERMINAL_STATES) \<and> ev_observed_at e = now \<and>
            rec_events r' = last_n (max_events s) (rec_events r @ [e]) \<and> rec_state r' = st \<and>
            (\<forall>tid'. tid' \<noteq> tid \<longrightarrow> map_of (records s') tid' = map_of (records s) tid')))
       \<and> (\<not> ok \<longrightarrow> s' = s \<and> res = Inl (LifecycleConflict (''illegal transition '' @ rec_state r @ '' -> '' @ st)))"
proof -
  from assms(1) have "store_wf s" by (rule reachable_store_wf)
  then have ne: "rec_events r \<noteq> []" using store_wf_lookup assms(2) by (auto simp: record_wf_def)
  show ?thesis
    using res ok st store_transition_live [OF assms(2,3) ne, of now state0 detail]
    by (auto simp: Let_def dict_simps next_event_def append_event_def)
qed

theorem transition_behaviour_witness:
  "store_transition sample_store 3 3 ''t'' ''running'' None =
     (sample_store, Inl (LifecycleConflict ''illegal transition completed -> running''))"
  using transition_behaviour [OF sample_store_reachable, of "''t''" sample_record 3 "''running''" "''running''" False 3 None
      "fst (store_transition sample_store 3 3 ''t'' ''running'' None)"
      "snd (store_transition sample_store 3 3 ''t'' ''running'' None)"]
  by (simp add: sample_store_eq sample_record_def record_expired_def normalise_state_def successors_def
      TRANSITIONS_def prod_eq_iff)

text \<open>A record in a terminal state is final: whatever call follows, the task's record is the same
  afterwards or, when its time to live has passed, gone.\<close>

lemma terminal_record_final:
  assumes "store_reachable n ttl s" "map_of (records s) tid = Some r" "terminal (rec_state r)" "store_step s s'"
  shows "map_of (records s') tid = Some r \<or> map_of (records s') tid = None"
  using store_step_keeps [OF assms(4,2,3)] by simp



text \<open>Event metadata that passes the durable filter has only the six allowed fields, each in its
  restricted form, and passing it through the filter again changes nothing.\<close>

lemma content_free_detail_closed:
  assumes "content_free_detail d = Inr d'"
  shows "set (map fst d') \<subseteq> set ALLOWED_DETAIL_FIELDS \<and>
    (\<forall>k v. (k, v) \<in> set d' \<and> k \<in> {''event_id'', ''reason_code'', ''outcome''} \<longrightarrow>
       (\<exists>s. v = PStr s \<and> safe_token s)) \<and>
    (\<forall>k v. (k, v) \<in> set d' \<and> k \<in> {''receipt_digest'', ''checkpoint_digest''} \<longrightarrow>
       (\<exists>s. v = PStr s \<and> digest_text s \<and> lower s = s)) \<and>
    content_free_detail (Some d') = Inr d'"
proof -
  have fields: "k \<in> set ALLOWED_DETAIL_FIELDS \<and> check_detail_item (k, v) = Inr (k, v)" if "(k, v) \<in> set d'" for k v
    using content_free_detail_fields [OF assms] that by auto
  have plain: "k \<noteq> ''progress'' \<and> \<not> ends_with k ''_digest''" if "k \<in> {''event_id'', ''reason_code'', ''outcome''}" for k
    using that by (auto simp: ends_with_def starts_with_def)
  have digest: "k \<noteq> ''progress'' \<and> ends_with k ''_digest''" if "k \<in> {''receipt_digest'', ''checkpoint_digest''}" for k
    using that by (auto simp: ends_with_def starts_with_def)
  have tok: "\<exists>s. v = PStr s \<and> safe_token s"
    if "(k, v) \<in> set d'" "k \<in> {''event_id'', ''reason_code'', ''outcome''}" for k v
    using fields [OF that(1)] plain [OF that(2)]
    by (simp add: check_detail_item_def Let_def split: if_splits pyval.splits)
  have dig: "\<exists>s. v = PStr s \<and> digest_text s \<and> lower s = s"
    if "(k, v) \<in> set d'" "k \<in> {''receipt_digest'', ''checkpoint_digest''}" for k v
    using fields [OF that(1)] digest [OF that(2)]
    by (simp add: check_detail_item_def Let_def split: if_splits pyval.splits)
  from fields tok dig content_free_detail_fixed [OF assms] show ?thesis by auto
qed

end
