(* ===== verification/Lifecycle_Sqlite.thy ===== *)
theory Lifecycle_Sqlite
  imports Lifecycle
begin

text \<open>
  \<open>SqliteLifecyclePersistence\<close> of \<open>service_lifecycle.py\<close>: the same lifecycle over two SQL tables.
  A table is the list of its rows in insertion order, a statement is its effect on the rows, with the
  constraints of the schema (primary keys, the unique idempotency key, the foreign key with its
  cascade). Each method runs in one \<open>BEGIN IMMEDIATE\<close> transaction, so a method is one step; an
  \<open>sqlite3.Error\<close> anywhere in it is the argument \<open>fault\<close> and leaves the tables as they were.
  The refinement lemmas relate every method to the in-memory store through \<open>db_store\<close>.
\<close>

subsection \<open>Tables\<close>

record task_row =
  row_task_id :: string
  row_idempotency_key :: string
  row_request_digest :: string
  row_state :: string
  row_latest_sequence :: int
  row_updated_at :: time

record event_row =
  evr_task_id :: string
  evr_sequence :: int
  evr_state :: string
  evr_is_final :: bool
  evr_observed_at :: time
  evr_detail :: "(string, pyval) dict"

record lifecycle_db =
  db_max_events :: nat
  db_ttl :: time
  lifecycle_tasks :: "task_row list"
  lifecycle_events :: "event_row list"

definition new_db :: "int \<Rightarrow> time \<Rightarrow> lifecycle_db" where
  "new_db n ttl =
     \<lparr>db_max_events = nat (max 2 n), db_ttl = ttl, lifecycle_tasks = [], lifecycle_events = []\<rparr>"

text \<open>What \<open>json.dumps(detail, sort_keys=True)\<close> followed by \<open>json.loads\<close> returns for a content-free
  detail: the same values, keys in order, also inside the progress object.\<close>

definition json_value :: "pyval \<Rightarrow> pyval" where
  "json_value v =
     (case v of
        PDict d \<Rightarrow> PDict (sort_key (\<lambda>(k, _). case k of PStr s \<Rightarrow> s | _ \<Rightarrow> []) d)
      | _ \<Rightarrow> v)"

definition stored_detail :: "(string, pyval) dict \<Rightarrow> (string, pyval) dict" where
  "stored_detail d = sort_key fst (map (\<lambda>(k, v). (k, json_value v)) d)"

text \<open>\<open>INSERT\<close> into the two tables; \<open>None\<close> is the constraint violation (\<open>sqlite3.IntegrityError\<close>).\<close>

definition insert_task :: "lifecycle_db \<Rightarrow> task_row \<Rightarrow> lifecycle_db option" where
  "insert_task db row =
     (if list_ex (\<lambda>r. row_task_id r = row_task_id row \<or> row_idempotency_key r = row_idempotency_key row)
           (lifecycle_tasks db)
      then None else Some (db\<lparr>lifecycle_tasks := lifecycle_tasks db @ [row]\<rparr>))"

definition insert_event :: "lifecycle_db \<Rightarrow> event_row \<Rightarrow> lifecycle_db option" where
  "insert_event db row =
     (if list_ex (\<lambda>r. evr_task_id r = evr_task_id row \<and> evr_sequence r = evr_sequence row)
           (lifecycle_events db)
       \<or> \<not> list_ex (\<lambda>r. row_task_id r = evr_task_id row) (lifecycle_tasks db)
      then None else Some (db\<lparr>lifecycle_events := lifecycle_events db @ [row]\<rparr>))"

definition select_task :: "lifecycle_db \<Rightarrow> string \<Rightarrow> task_row option" where
  "select_task db tid = List.find (\<lambda>r. row_task_id r = tid) (lifecycle_tasks db)"

definition event_of_row :: "event_row \<Rightarrow> lifecycle_event" where
  "event_of_row r =
     \<lparr>ev_task_id = evr_task_id r, ev_sequence = evr_sequence r, ev_state = evr_state r,
      ev_is_final = evr_is_final r, ev_observed_at = evr_observed_at r, ev_detail = evr_detail r\<rparr>"

definition rows_of :: "lifecycle_db \<Rightarrow> string \<Rightarrow> event_row list" where
  "rows_of db tid = filter (\<lambda>r. evr_task_id r = tid) (lifecycle_events db)"

text \<open>\<open>_record\<close>: \<open>SELECT * FROM lifecycle_events WHERE task_id=? ORDER BY sequence\<close>.\<close>

definition read_record :: "lifecycle_db \<Rightarrow> task_row \<Rightarrow> lifecycle_record" where
  "read_record db row =
     \<lparr>rec_task_id = row_task_id row, rec_idempotency_key = row_idempotency_key row,
      rec_request_digest = row_request_digest row, rec_state = row_state row,
      rec_events = map event_of_row (sort_key evr_sequence (rows_of db (row_task_id row))),
      rec_updated_at = row_updated_at row\<rparr>"

subsection \<open>Methods\<close>

definition sql_submit ::
    "bool \<Rightarrow> lifecycle_db \<Rightarrow> time \<Rightarrow> string \<Rightarrow> string \<Rightarrow> string \<Rightarrow>
     lifecycle_db \<times> (lifecycle_error + (lifecycle_record \<times> bool))" where
  "sql_submit fault db now tid key digest =
     (if fault then (db, Inl LifecycleStorageError)
      else case List.find (\<lambda>r. row_task_id r = tid \<or> row_idempotency_key r = key) (lifecycle_tasks db) of
        Some row \<Rightarrow>
          if (row_task_id row, row_idempotency_key row, row_request_digest row) \<noteq> (tid, key, digest)
          then (db, Inl (LifecycleConflict ''task or idempotency identifier reused for different content''))
          else (db, Inr (read_record db row, False))
      | None \<Rightarrow>
          (case insert_task db \<lparr>row_task_id = tid, row_idempotency_key = key, row_request_digest = digest,
                                row_state = ''accepted'', row_latest_sequence = 0, row_updated_at = now\<rparr> of
             None \<Rightarrow> (db, Inl LifecycleStorageError)
           | Some db1 \<Rightarrow>
               (case insert_event db1 \<lparr>evr_task_id = tid, evr_sequence = 0, evr_state = ''accepted'',
                                       evr_is_final = False, evr_observed_at = now, evr_detail = []\<rparr> of
                  None \<Rightarrow> (db, Inl LifecycleStorageError)
                | Some db2 \<Rightarrow>
                    (case select_task db2 tid of
                       None \<Rightarrow> (db, Inl LifecycleStorageError)
                     | Some row \<Rightarrow> (db2, Inr (read_record db2 row, True))))))"

definition row_expired :: "lifecycle_db \<Rightarrow> time \<Rightarrow> task_row \<Rightarrow> bool" where
  "row_expired db now row \<longleftrightarrow> terminal (row_state row) \<and> now - row_updated_at row > db_ttl db"

text \<open>\<open>DELETE FROM lifecycle_tasks WHERE task_id=?\<close>, with the cascade to the events.\<close>

definition delete_task :: "lifecycle_db \<Rightarrow> string \<Rightarrow> lifecycle_db" where
  "delete_task db tid =
     db\<lparr>lifecycle_tasks := filter (\<lambda>r. row_task_id r \<noteq> tid) (lifecycle_tasks db),
        lifecycle_events := filter (\<lambda>r. evr_task_id r \<noteq> tid) (lifecycle_events db)\<rparr>"

definition sql_status ::
    "bool \<Rightarrow> lifecycle_db \<Rightarrow> time \<Rightarrow> string \<Rightarrow> lifecycle_db \<times> (lifecycle_error + lifecycle_record)" where
  "sql_status fault db now tid =
     (if fault then (db, Inl LifecycleStorageError)
      else case select_task db tid of
        None \<Rightarrow> (db, Inl (UnknownTask tid))
      | Some row \<Rightarrow>
          if row_expired db now row then (delete_task db tid, Inl (UnknownTask tid))
          else (db, Inr (read_record db row)))"

definition update_task :: "lifecycle_db \<Rightarrow> string \<Rightarrow> string \<Rightarrow> int \<Rightarrow> time \<Rightarrow> lifecycle_db" where
  "update_task db tid st n now =
     db\<lparr>lifecycle_tasks :=
          map (\<lambda>r. if row_task_id r = tid
                   then r\<lparr>row_state := st, row_latest_sequence := n, row_updated_at := now\<rparr> else r)
            (lifecycle_tasks db)\<rparr>"

definition prune_events :: "lifecycle_db \<Rightarrow> string \<Rightarrow> int \<Rightarrow> lifecycle_db" where
  "prune_events db tid cutoff =
     db\<lparr>lifecycle_events :=
          filter (\<lambda>r. \<not> (evr_task_id r = tid \<and> evr_sequence r < cutoff)) (lifecycle_events db)\<rparr>"

definition sql_transition ::
    "bool \<Rightarrow> lifecycle_db \<Rightarrow> time \<Rightarrow> string \<Rightarrow> string \<Rightarrow> (string, pyval) dict option \<Rightarrow>
     lifecycle_db \<times> (lifecycle_error + lifecycle_event)" where
  "sql_transition fault db now tid state0 detail =
     (let st = normalise_state state0 in
      case content_free_detail detail of
        Inl e \<Rightarrow> (db, Inl e)
      | Inr safe \<Rightarrow>
          if fault then (db, Inl LifecycleStorageError)
          else (case select_task db tid of
            None \<Rightarrow> (db, Inl (UnknownTask tid))
          | Some row \<Rightarrow>
              if st \<notin> set (successors (row_state row))
              then (db, Inl (LifecycleConflict (''illegal transition '' @ row_state row @ '' -> '' @ st)))
              else
                let n = row_latest_sequence row + 1;
                    db1 = update_task db tid st n now;
                    e = next_event tid (row_latest_sequence row) st now safe
                in (case insert_event db1
                          \<lparr>evr_task_id = tid, evr_sequence = n, evr_state = st, evr_is_final = terminal st,
                           evr_observed_at = now, evr_detail = stored_detail safe\<rparr> of
                      None \<Rightarrow> (db, Inl LifecycleStorageError)
                    | Some db2 \<Rightarrow>
                        (prune_events db2 tid (n - int (db_max_events db) + 1), Inr e))))"

definition sql_cancel ::
    "bool \<Rightarrow> bool \<Rightarrow> bool \<Rightarrow> lifecycle_db \<Rightarrow> (string \<Rightarrow> bool) option \<Rightarrow> time \<Rightarrow> time \<Rightarrow> time \<Rightarrow> string \<Rightarrow>
     lifecycle_db \<times> (lifecycle_error + lifecycle_record)" where
  "sql_cancel f0 f1 f2 db hook t0 now t2 tid =
     (case sql_status f0 db t0 tid of
        (db1, Inl e) \<Rightarrow> (db1, Inl e)
      | (db1, Inr r) \<Rightarrow>
          if terminal (rec_state r) then sql_status f2 db1 t2 tid
          else if (case hook of None \<Rightarrow> False | Some raises \<Rightarrow> raises tid) then (db1, Inl HookError)
          else (case sql_transition f1 db1 now tid ''cancelled'' (Some [(''outcome'', PStr ''cancelled'')]) of
                  (db2, Inl e) \<Rightarrow> (db2, Inl e)
                | (db2, Inr _) \<Rightarrow> sql_status f2 db2 t2 tid))"

definition sql_events_after ::
    "bool \<Rightarrow> lifecycle_db \<Rightarrow> time \<Rightarrow> string \<Rightarrow> int \<Rightarrow> int option \<Rightarrow>
     lifecycle_db \<times> (lifecycle_error + lifecycle_event list)" where
  "sql_events_after fault db now tid after bound =
     (case sql_status fault db now tid of
        (db1, Inl e) \<Rightarrow> (db1, Inl e)
      | (db1, Inr r) \<Rightarrow>
          (case first_sequence r of
             Inl e \<Rightarrow> (db1, Inl e)
           | Inr f \<Rightarrow>
               if after + 1 < f then (db1, Inl (ResumeUnavailable r))
               else (db1, Inr (slice_events (rec_events r) after bound))))"

subsection \<open>Well-formed databases and their abstraction\<close>

definition db_store :: "lifecycle_db \<Rightarrow> lifecycle_store" where
  "db_store db =
     \<lparr>max_events = db_max_events db, terminal_status_ttl_s = db_ttl db,
      records = map (\<lambda>row. (row_task_id row, read_record db row)) (lifecycle_tasks db)\<rparr>"

definition db_wf :: "lifecycle_db \<Rightarrow> bool" where
  "db_wf db \<longleftrightarrow>
     store_wf (db_store db) \<and>
     (\<forall>e \<in> set (lifecycle_events db). evr_task_id e \<in> row_task_id ` set (lifecycle_tasks db)) \<and>
     (\<forall>row \<in> set (lifecycle_tasks db).
        sorted (map evr_sequence (rows_of db (row_task_id row))) \<and>
        evr_sequence (last (rows_of db (row_task_id row))) = row_latest_sequence row)"

text \<open>The two stores word one conflict differently; otherwise their outcomes are equal.\<close>

definition same_outcome :: "lifecycle_error + 'a \<Rightarrow> lifecycle_error + 'a \<Rightarrow> bool" where
  "same_outcome x y \<longleftrightarrow>
     x = y \<or> (\<exists>m m'. x = Inl (LifecycleConflict m) \<and> y = Inl (LifecycleConflict m'))"

subsection \<open>Reading the tables\<close>

lemma map_of_find:
  "map_of (map (\<lambda>x. (f x, g x)) xs) t = map_option g (List.find (\<lambda>x. f x = t) xs)"
  by (induction xs) auto

lemma store_lookup_db:
  "map_of (records (db_store db)) tid = map_option (read_record db) (select_task db tid)"
  by (simp add: db_store_def select_task_def map_of_find)

lemma select_task_Some:
  "select_task db tid = Some row \<Longrightarrow> row \<in> set (lifecycle_tasks db) \<and> row_task_id row = tid"
  by (auto simp: select_task_def find_Some_iff)

lemma select_task_None:
  "select_task db tid = None \<longleftrightarrow> tid \<notin> row_task_id ` set (lifecycle_tasks db)"
  by (auto simp: select_task_def find_None_iff)

lemma db_wf_distinct:
  assumes "db_wf db"
  shows "distinct (map row_task_id (lifecycle_tasks db))"
    and "distinct (map row_idempotency_key (lifecycle_tasks db))"
  using assms by (simp_all add: db_wf_def store_wf_def db_store_def o_def read_record_def)

lemma select_task_unique:
  assumes "db_wf db" "row \<in> set (lifecycle_tasks db)"
  shows "select_task db (row_task_id row) = Some row"
proof -
  obtain row' where r: "select_task db (row_task_id row) = Some row'"
    using assms(2) by (metis image_eqI not_Some_eq select_task_None)
  from select_task_Some [OF r] db_wf_distinct(1) [OF assms(1)] assms(2) have "row' = row"
    by (auto simp: distinct_map inj_on_def)
  with r show ?thesis by simp
qed

lemma read_events_sorted:
  assumes "db_wf db" "row \<in> set (lifecycle_tasks db)"
  shows "rec_events (read_record db row) = map event_of_row (rows_of db (row_task_id row))"
  using assms by (simp add: db_wf_def read_record_def sort_key_id_if_sorted)

lemma db_row_wf:
  assumes "db_wf db" "row \<in> set (lifecycle_tasks db)"
  shows "record_wf (db_max_events db) (read_record db row)"
  using assms by (auto simp: db_wf_def store_wf_def db_store_def)

lemma event_of_row_sequence [simp]: "ev_sequence (event_of_row r) = evr_sequence r"
  by (simp add: event_of_row_def)

lemma db_rows:
  assumes "db_wf db" "row \<in> set (lifecycle_tasks db)"
  shows "rows_of db (row_task_id row) \<noteq> []"
    and "consecutive (map evr_sequence (rows_of db (row_task_id row)))"
    and "evr_sequence (last (rows_of db (row_task_id row))) = row_latest_sequence row"
  using db_row_wf [OF assms] assms
  by (simp_all add: record_wf_def read_events_sorted o_def db_wf_def)

lemma row_expired_db: "record_expired (db_store db) now (read_record db row) = row_expired db now row"
  by (simp add: record_expired_def row_expired_def read_record_def db_store_def)

lemma rows_of_foreign:
  "db_wf db \<Longrightarrow> tid \<notin> row_task_id ` set (lifecycle_tasks db) \<Longrightarrow> rows_of db tid = []"
  by (auto simp: db_wf_def rows_of_def filter_empty_conv)

subsection \<open>The methods refine the in-memory store\<close>

lemma read_record_cong:
  "rows_of db' (row_task_id row) = rows_of db (row_task_id row) \<Longrightarrow> read_record db' row = read_record db row"
  by (simp add: read_record_def)

lemma delete_task_rows: "t \<noteq> tid \<Longrightarrow> rows_of (delete_task db tid) t = rows_of db t"
  by (auto simp: rows_of_def delete_task_def intro: filter_cong)

lemma delete_task_fields:
  "lifecycle_tasks (delete_task db tid) = filter (\<lambda>r. row_task_id r \<noteq> tid) (lifecycle_tasks db)"
  "lifecycle_events (delete_task db tid) = filter (\<lambda>r. evr_task_id r \<noteq> tid) (lifecycle_events db)"
  by (simp_all add: delete_task_def)

lemma delete_task_store:
  "db_store (delete_task db tid) = (db_store db)\<lparr>records := AList.delete tid (records (db_store db))\<rparr>"
proof -
  have "read_record (delete_task db tid) row = read_record db row" if "row_task_id row \<noteq> tid" for row
    using delete_task_rows [OF that] by (rule read_record_cong)
  then show ?thesis
    by (auto simp: db_store_def delete_task_def AList.delete_eq filter_map o_def intro!: map_cong filter_cong)
qed

lemma sql_status_refines:
  "db_store (fst (sql_status False db now tid)) = fst (store_status (db_store db) now tid)"
  "snd (sql_status False db now tid) = snd (store_status (db_store db) now tid)"
proof -
  have none: "AList.delete tid (records (db_store db)) = records (db_store db)"
    if "select_task db tid = None"
    using that by (intro dict_delete_absent) (simp add: store_lookup_db)
  show "db_store (fst (sql_status False db now tid)) = fst (store_status (db_store db) now tid)"
    and "snd (sql_status False db now tid) = snd (store_status (db_store db) now tid)"
    by (cases "select_task db tid";
        simp add: sql_status_def store_status_def store_lookup_db row_expired_db delete_task_store none)+
qed

lemma delete_task_wf: "db_wf db \<Longrightarrow> db_wf (delete_task db tid)"
proof -
  assume wf: "db_wf db"
  then have "store_wf (db_store (delete_task db tid))"
    unfolding delete_task_store by (intro store_wf_delete) (simp add: db_wf_def)
  with wf show ?thesis
    unfolding db_wf_def by (auto simp: delete_task_rows delete_task_fields)
qed

lemma sql_status_wf: "db_wf db \<Longrightarrow> db_wf (fst (sql_status fault db now tid))"
  by (auto simp: sql_status_def delete_task_wf split: option.splits)

text \<open>A fresh submission, on the tables.\<close>

definition fresh_db :: "lifecycle_db \<Rightarrow> string \<Rightarrow> string \<Rightarrow> string \<Rightarrow> time \<Rightarrow> lifecycle_db" where
  "fresh_db db tid key digest now =
     db\<lparr>lifecycle_tasks := lifecycle_tasks db @
          [\<lparr>row_task_id = tid, row_idempotency_key = key, row_request_digest = digest,
            row_state = ''accepted'', row_latest_sequence = 0, row_updated_at = now\<rparr>],
        lifecycle_events := lifecycle_events db @
          [\<lparr>evr_task_id = tid, evr_sequence = 0, evr_state = ''accepted'',
            evr_is_final = False, evr_observed_at = now, evr_detail = []\<rparr>]\<rparr>"

lemma fresh_db_rows:
  "rows_of (fresh_db db tid key digest now) t =
   (if t = tid then rows_of db t @ [\<lparr>evr_task_id = tid, evr_sequence = 0, evr_state = ''accepted'',
      evr_is_final = False, evr_observed_at = now, evr_detail = []\<rparr>] else rows_of db t)"
  by (simp add: rows_of_def fresh_db_def)

lemma fresh_db_fields:
  "set (lifecycle_tasks (fresh_db db tid key digest now)) =
     insert \<lparr>row_task_id = tid, row_idempotency_key = key, row_request_digest = digest,
             row_state = ''accepted'', row_latest_sequence = 0, row_updated_at = now\<rparr>
       (set (lifecycle_tasks db))"
  "set (lifecycle_events (fresh_db db tid key digest now)) =
     insert \<lparr>evr_task_id = tid, evr_sequence = 0, evr_state = ''accepted'',
             evr_is_final = False, evr_observed_at = now, evr_detail = []\<rparr>
       (set (lifecycle_events db))"
  by (simp_all add: fresh_db_def)

lemma fresh_db_store:
  assumes "db_wf db" "tid \<notin> row_task_id ` set (lifecycle_tasks db)"
  shows "db_store (fresh_db db tid key digest now) =
    (db_store db)\<lparr>records := records (db_store db) @ [(tid, submitted_record tid key digest now)]\<rparr>"
proof -
  let ?db = "fresh_db db tid key digest now"
  have old: "read_record ?db row = read_record db row" if "row \<in> set (lifecycle_tasks db)" for row
    using that assms(2) by (intro read_record_cong) (auto simp: fresh_db_rows)
  have "rows_of db tid = []" using assms by (rule rows_of_foreign)
  then have new: "read_record ?db \<lparr>row_task_id = tid, row_idempotency_key = key,
      row_request_digest = digest, row_state = ''accepted'', row_latest_sequence = 0,
      row_updated_at = now\<rparr> = submitted_record tid key digest now"
    by (simp add: read_record_def submitted_record_def fresh_db_rows event_of_row_def)
  have tasks: "lifecycle_tasks ?db = lifecycle_tasks db @ [\<lparr>row_task_id = tid, row_idempotency_key = key,
      row_request_digest = digest, row_state = ''accepted'', row_latest_sequence = 0, row_updated_at = now\<rparr>]"
    and "db_max_events ?db = db_max_events db" and "db_ttl ?db = db_ttl db"
    by (simp_all add: fresh_db_def)
  then show ?thesis using old new unfolding db_store_def by simp
qed

lemma find_fresh:
  "List.find (\<lambda>r. row_task_id r = tid \<or> row_idempotency_key r = key) rows = None \<longleftrightarrow>
   tid \<notin> row_task_id ` set rows \<and> key \<notin> row_idempotency_key ` set rows"
  by (auto simp: find_None_iff)

lemma sql_submit_fresh:
  assumes "db_wf db" "tid \<notin> row_task_id ` set (lifecycle_tasks db)"
    "key \<notin> row_idempotency_key ` set (lifecycle_tasks db)"
  shows "sql_submit False db now tid key digest =
    (fresh_db db tid key digest now, Inr (submitted_record tid key digest now, True))"
proof -
  let ?row = "\<lparr>row_task_id = tid, row_idempotency_key = key, row_request_digest = digest,
            row_state = ''accepted'', row_latest_sequence = 0, row_updated_at = now\<rparr>"
  have "rows_of db tid = []" using assms(1,2) by (rule rows_of_foreign)
  then have noev: "\<not> list_ex (\<lambda>r. evr_task_id r = tid \<and> evr_sequence r = 0) (lifecycle_events db)"
    by (auto simp: rows_of_def list_ex_iff filter_empty_conv)
  have "List.find (\<lambda>r. row_task_id r = tid) (lifecycle_tasks db @ [?row]) = Some ?row"
    using assms(2) by (auto simp: find_append find_None_iff split: option.splits dest!: find_Some_iff [THEN iffD1])
  moreover have "read_record (fresh_db db tid key digest now) ?row = submitted_record tid key digest now"
    using \<open>rows_of db tid = []\<close>
    by (simp add: read_record_def submitted_record_def fresh_db_rows event_of_row_def)
  moreover have "List.find (\<lambda>r. row_task_id r = tid \<or> row_idempotency_key r = key) (lifecycle_tasks db) = None"
    using assms by (simp add: find_fresh)
  ultimately show ?thesis
    using assms(2,3) noev
    by (auto simp: sql_submit_def insert_task_def insert_event_def select_task_def fresh_db_def list_ex_iff)
qed

lemma sql_submit_refines:
  assumes wf: "db_wf db"
  shows "db_store (fst (sql_submit False db now tid key digest)) =
           fst (store_submit (db_store db) now tid key digest)"
    and "same_outcome (snd (sql_submit False db now tid key digest))
           (snd (store_submit (db_store db) now tid key digest))"
proof -
  let ?P = "\<lambda>r. row_task_id r = tid \<or> row_idempotency_key r = key"
  have inj: "row = row'" if "row \<in> set (lifecycle_tasks db)" "row' \<in> set (lifecycle_tasks db)"
    "row_idempotency_key row = row_idempotency_key row'" for row row'
    using that db_wf_distinct(2) [OF wf] by (auto simp: distinct_map inj_on_def)
  have "db_store (fst (sql_submit False db now tid key digest)) =
           fst (store_submit (db_store db) now tid key digest) \<and>
        same_outcome (snd (sql_submit False db now tid key digest))
           (snd (store_submit (db_store db) now tid key digest))"
  proof (cases "List.find ?P (lifecycle_tasks db)")
    case None
    then have fresh: "tid \<notin> row_task_id ` set (lifecycle_tasks db)"
      "key \<notin> row_idempotency_key ` set (lifecycle_tasks db)" by (simp_all add: find_fresh)
    have lk: "map_of (records (db_store db)) tid = None"
      using fresh by (simp add: store_lookup_db select_task_None)
    have "\<not> list_ex (\<lambda>r. rec_idempotency_key r = key) (map snd (records (db_store db)))"
      using fresh(2) by (auto simp: list_ex_iff db_store_def read_record_def)
    with lk show ?thesis
      by (simp add: sql_submit_fresh [OF wf fresh] store_submit_def Let_def dict_update_absent
          fresh_db_store [OF wf fresh(1)] same_outcome_def)
  next
    case (Some row)
    then have row: "row \<in> set (lifecycle_tasks db)" "?P row" by (auto simp: find_Some_iff)
    show ?thesis
    proof (cases "(row_task_id row, row_idempotency_key row, row_request_digest row) = (tid, key, digest)")
      case True
      with select_task_unique [OF wf row(1)] have "map_of (records (db_store db)) tid = Some (read_record db row)"
        by (simp add: store_lookup_db)
      with True Some show ?thesis
        by (simp add: sql_submit_def store_submit_def same_outcome_def read_record_def)
    next
      case False
      have "\<exists>m. store_submit (db_store db) now tid key digest = (db_store db, Inl (LifecycleConflict m))"
      proof (cases "select_task db tid")
        case None
        then have "row_idempotency_key row = key" using row by (auto simp: select_task_None)
        then have "list_ex (\<lambda>r. rec_idempotency_key r = key) (map snd (records (db_store db)))"
          using row(1) by (force simp: list_ex_iff db_store_def read_record_def)
        with None show ?thesis by (simp add: store_submit_def store_lookup_db)
      next
        case sel: (Some row')
        then have row': "row' \<in> set (lifecycle_tasks db)" "row_task_id row' = tid"
          using select_task_Some by auto
        have "(row_idempotency_key row', row_request_digest row') \<noteq> (key, digest)"
        proof
          assume k: "(row_idempotency_key row', row_request_digest row') = (key, digest)"
          have "row = row'"
          proof (cases "row_task_id row = tid")
            case True
            then show ?thesis using sel select_task_unique [OF wf row(1)] by simp
          next
            case False
            with row(2) k inj [OF row(1) row'(1)] show ?thesis by simp
          qed
          with k row' False show False by simp
        qed
        with sel show ?thesis by (simp add: store_submit_def store_lookup_db read_record_def)
      qed
      with False Some show ?thesis by (auto simp: sql_submit_def same_outcome_def)
    qed
  qed
  then show "db_store (fst (sql_submit False db now tid key digest)) =
           fst (store_submit (db_store db) now tid key digest)"
    and "same_outcome (snd (sql_submit False db now tid key digest))
           (snd (store_submit (db_store db) now tid key digest))" by blast+
qed

lemma sql_submit_wf:
  assumes wf: "db_wf db"
  shows "db_wf (fst (sql_submit fault db now tid key digest))"
proof (cases "fault \<or> tid \<in> row_task_id ` set (lifecycle_tasks db)
    \<or> key \<in> row_idempotency_key ` set (lifecycle_tasks db)")
  case True
  then have "fst (sql_submit fault db now tid key digest) = db"
    using find_fresh [of tid key "lifecycle_tasks db"]
    by (auto simp: sql_submit_def split: option.splits)
  with wf show ?thesis by simp
next
  case False
  then have f: "\<not> fault" and fresh: "tid \<notin> row_task_id ` set (lifecycle_tasks db)"
    "key \<notin> row_idempotency_key ` set (lifecycle_tasks db)" by auto
  have "store_wf (db_store (fresh_db db tid key digest now))"
    using sql_submit_refines(1) [OF wf, of now tid key digest] wf store_submit_wf
    by (metis db_wf_def fst_conv fresh sql_submit_fresh)
  moreover have "rows_of db tid = []" using wf fresh(1) by (rule rows_of_foreign)
  ultimately have "db_wf (fresh_db db tid key digest now)"
    using wf fresh(1) unfolding db_wf_def by (auto simp: fresh_db_rows fresh_db_fields)
  with f show ?thesis by (simp add: sql_submit_fresh [OF wf fresh])
qed

text \<open>An accepted transition, on the tables.\<close>

definition advance_db ::
    "lifecycle_db \<Rightarrow> task_row \<Rightarrow> string \<Rightarrow> time \<Rightarrow> (string, pyval) dict \<Rightarrow> lifecycle_db" where
  "advance_db db row st now d =
     (let tid = row_task_id row; n = row_latest_sequence row + 1 in
      prune_events
        ((update_task db tid st n now)\<lparr>lifecycle_events := lifecycle_events db @
            [\<lparr>evr_task_id = tid, evr_sequence = n, evr_state = st, evr_is_final = terminal st,
              evr_observed_at = now, evr_detail = d\<rparr>]\<rparr>)
        tid (n - int (db_max_events db) + 1))"

lemma sql_transition_legal:
  assumes wf: "db_wf db" and sel: "select_task db tid = Some row"
    and st: "normalise_state state0 \<in> set (successors (row_state row))"
    and safe: "content_free_detail detail = Inr d"
  shows "sql_transition False db now tid state0 detail =
    (advance_db db row (normalise_state state0) now (stored_detail d),
     Inr (next_event tid (row_latest_sequence row) (normalise_state state0) now d))"
proof -
  from select_task_Some [OF sel] have row: "row \<in> set (lifecycle_tasks db)" "row_task_id row = tid" by auto
  let ?n = "row_latest_sequence row + 1"
  let ?e = "\<lparr>evr_task_id = tid, evr_sequence = ?n, evr_state = normalise_state state0,
      evr_is_final = terminal (normalise_state state0), evr_observed_at = now, evr_detail = stored_detail d\<rparr>"
  have "evr_sequence r \<le> row_latest_sequence row" if "r \<in> set (lifecycle_events db)" "evr_task_id r = tid" for r
  proof -
    have "r \<in> set (rows_of db tid)" using that by (simp add: rows_of_def)
    moreover have "sorted (map evr_sequence (rows_of db tid))" using wf row by (auto simp: db_wf_def)
    ultimately have "evr_sequence r \<le> evr_sequence (last (rows_of db tid))"
      by (intro sorted_map_le_last)
    then show ?thesis using db_rows(3) [OF wf row(1)] row(2) by simp
  qed
  then have pk: "\<not> list_ex (\<lambda>r. evr_task_id r = tid \<and> evr_sequence r = ?n) (lifecycle_events db)"
    by (fastforce simp: list_ex_iff)
  have "map row_task_id (lifecycle_tasks (update_task db tid (normalise_state state0) ?n now)) =
      map row_task_id (lifecycle_tasks db)"
    by (simp add: update_task_def)
  with row have "tid \<in> set (map row_task_id (lifecycle_tasks (update_task db tid (normalise_state state0) ?n now)))"
    by auto
  then have fk: "list_ex (\<lambda>r. row_task_id r = tid)
      (lifecycle_tasks (update_task db tid (normalise_state state0) ?n now))"
    by (auto simp: list_ex_iff)
  have "lifecycle_events (update_task db tid (normalise_state state0) ?n now) = lifecycle_events db"
    by (simp add: update_task_def)
  with pk fk have "insert_event (update_task db tid (normalise_state state0) ?n now) ?e =
    Some ((update_task db tid (normalise_state state0) ?n now)\<lparr>lifecycle_events := lifecycle_events db @ [?e]\<rparr>)"
    by (simp add: insert_event_def)
  then show ?thesis
    using st row(2) by (simp add: sql_transition_def sel safe Let_def advance_db_def)
qed

lemma advance_db_rows_other: "t \<noteq> row_task_id row \<Longrightarrow> rows_of (advance_db db row st now d) t = rows_of db t"
  by (auto simp: rows_of_def advance_db_def Let_def prune_events_def update_task_def intro: filter_cong)

lemma advance_db_rows:
  assumes wf: "db_wf db" and row: "row \<in> set (lifecycle_tasks db)"
  shows "rows_of (advance_db db row st now d) (row_task_id row) =
    last_n (db_max_events db) (rows_of db (row_task_id row) @
      [\<lparr>evr_task_id = row_task_id row, evr_sequence = row_latest_sequence row + 1, evr_state = st,
        evr_is_final = terminal st, evr_observed_at = now, evr_detail = d\<rparr>])"
    (is "_ = last_n ?k (?rs @ [?e])")
proof -
  have "consecutive (map evr_sequence (?rs @ [?e]))"
    using db_rows [OF wf row] by (simp add: consecutive_snoc last_map)
  then have "filter (\<lambda>r. evr_sequence ?e - int ?k < evr_sequence r) (?rs @ [?e]) = last_n ?k (?rs @ [?e])"
    using filter_consecutive_window [of evr_sequence "?rs @ [?e]" ?k] by simp
  moreover have "rows_of (advance_db db row st now d) (row_task_id row) =
      filter (\<lambda>r. evr_sequence ?e - int ?k < evr_sequence r) (?rs @ [?e])"
    by (auto simp: rows_of_def advance_db_def Let_def prune_events_def update_task_def intro!: filter_cong)
  ultimately show ?thesis by simp
qed

lemma advance_db_tasks:
  "lifecycle_tasks (advance_db db row st now d) =
   map (\<lambda>r. if row_task_id r = row_task_id row
            then r\<lparr>row_state := st, row_latest_sequence := row_latest_sequence row + 1, row_updated_at := now\<rparr>
            else r) (lifecycle_tasks db)"
  by (simp add: advance_db_def Let_def prune_events_def update_task_def)

lemma advance_db_row_sorted:
  assumes wf: "db_wf db" and row: "row \<in> set (lifecycle_tasks db)"
  shows "sorted (map evr_sequence (rows_of (advance_db db row st now d) (row_task_id row)))"
    and "evr_sequence (last (rows_of (advance_db db row st now d) (row_task_id row))) = row_latest_sequence row + 1"
proof -
  let ?e = "\<lparr>evr_task_id = row_task_id row, evr_sequence = row_latest_sequence row + 1, evr_state = st,
        evr_is_final = terminal st, evr_observed_at = now, evr_detail = d\<rparr>"
  let ?rs = "rows_of db (row_task_id row)"
  have "0 < db_max_events db" using wf by (simp add: db_wf_def store_wf_def db_store_def)
  then have win: "rows_of (advance_db db row st now d) (row_task_id row) =
      last_n (db_max_events db - 1) ?rs @ [?e]"
    by (simp add: advance_db_rows [OF wf row] last_n_snoc)
  have "consecutive (map evr_sequence (?rs @ [?e]))"
    using db_rows [OF wf row] by (simp add: consecutive_snoc last_map)
  moreover have "suffix (map evr_sequence (rows_of (advance_db db row st now d) (row_task_id row)))
      (map evr_sequence (?rs @ [?e]))"
    unfolding advance_db_rows [OF wf row] by (rule map_mono_suffix) (rule suffix_last_n)
  ultimately have "consecutive (map evr_sequence (rows_of (advance_db db row st now d) (row_task_id row)))"
    by (rule consecutive_suffix)
  then show "sorted (map evr_sequence (rows_of (advance_db db row st now d) (row_task_id row)))"
    using consecutive_sorted by blast
  show "evr_sequence (last (rows_of (advance_db db row st now d) (row_task_id row))) = row_latest_sequence row + 1"
    by (simp add: win)
qed

lemma map_update_distinct:
  "distinct (map f xs) \<Longrightarrow> x \<in> set xs \<Longrightarrow>
   map (\<lambda>y. (f y, if f y = f x then v else g y)) xs = AList.update (f x) v (map (\<lambda>y. (f y, g y)) xs)"
proof (induction xs)
  case (Cons y ys)
  show ?case
  proof (cases "y = x")
    case True
    with Cons.prems have "\<forall>z \<in> set ys. f z \<noteq> f x" by (auto simp: image_iff)
    with True show ?thesis by (auto intro!: map_cong)
  next
    case False
    with Cons.prems have "x \<in> set ys" "f y \<noteq> f x" by (auto simp: image_iff)
    with Cons show ?thesis by simp
  qed
qed simp

lemma advance_db_store:
  assumes wf: "db_wf db" and row: "row \<in> set (lifecycle_tasks db)"
    and e_def: "e = next_event (row_task_id row) (row_latest_sequence row) st now d"
  shows "db_store (advance_db db row st now d) =
    (db_store db)\<lparr>records := AList.update (row_task_id row)
       (append_event (db_max_events db) (read_record db row) e) (records (db_store db))\<rparr>"
proof -
  let ?db = "advance_db db row st now d" let ?tid = "row_task_id row"
  let ?row = "row\<lparr>row_state := st, row_latest_sequence := row_latest_sequence row + 1, row_updated_at := now\<rparr>"
  have other: "read_record ?db r = read_record db r" if "row_task_id r \<noteq> ?tid" for r
    using that by (intro read_record_cong advance_db_rows_other)
  have new: "read_record ?db ?row = append_event (db_max_events db) (read_record db row) e"
    using advance_db_row_sorted(1) [OF wf row, of st now d] read_events_sorted [OF wf row]
    by (simp add: read_record_def append_event_def sort_key_id_if_sorted advance_db_rows [OF wf row]
        map_last_n e_def next_event_def event_of_row_def)
  have same: "r = row" if "r \<in> set (lifecycle_tasks db)" "row_task_id r = ?tid" for r
    using that row db_wf_distinct(1) [OF wf] by (auto simp: distinct_map inj_on_def)
  have "map (\<lambda>r. (row_task_id r, read_record ?db r)) (lifecycle_tasks ?db) =
    map (\<lambda>r. (row_task_id r, if row_task_id r = ?tid
       then append_event (db_max_events db) (read_record db row) e else read_record db r)) (lifecycle_tasks db)"
    by (auto simp: advance_db_tasks other new dest: same)
  also have "\<dots> = AList.update ?tid (append_event (db_max_events db) (read_record db row) e)
      (map (\<lambda>r. (row_task_id r, read_record db r)) (lifecycle_tasks db))"
    using db_wf_distinct(1) [OF wf] row by (rule map_update_distinct)
  finally show ?thesis by (simp add: db_store_def advance_db_def Let_def prune_events_def update_task_def)
qed

lemma db_row_latest:
  assumes "db_wf db" "row \<in> set (lifecycle_tasks db)"
  shows "ev_sequence (last (rec_events (read_record db row))) = row_latest_sequence row"
  using db_rows [OF assms] by (simp add: read_events_sorted [OF assms] last_map)

lemma advance_db_wf:
  assumes wf: "db_wf db" and row: "row \<in> set (lifecycle_tasks db)" and st: "st \<in> set (successors (row_state row))"
  shows "db_wf (advance_db db row st now d)"
proof -
  let ?db = "advance_db db row st now d"
  let ?e = "next_event (row_task_id row) (row_latest_sequence row) st now d"
  have "record_wf (db_max_events db) (append_event (db_max_events db) (read_record db row) ?e)"
    using db_row_wf [OF wf row] wf st db_row_latest [OF wf row]
    by (intro append_event_wf) (simp_all add: next_event_def db_wf_def store_wf_def db_store_def, simp_all add: read_record_def)
  moreover have "map_of (records (db_store db)) (row_task_id row) = Some (read_record db row)"
    using select_task_unique [OF wf row] by (simp add: store_lookup_db)
  ultimately have "store_wf (db_store ?db)"
    unfolding advance_db_store [OF wf row refl] using wf
    by (intro store_wf_replace [where r = "read_record db row"]) (simp_all add: db_wf_def, simp add: db_store_def)
  moreover have "\<forall>e \<in> set (lifecycle_events ?db). evr_task_id e \<in> row_task_id ` set (lifecycle_tasks ?db)"
  proof -
    have "map row_task_id (lifecycle_tasks ?db) = map row_task_id (lifecycle_tasks db)"
      by (simp add: advance_db_tasks)
    then have "row_task_id ` set (lifecycle_tasks ?db) = row_task_id ` set (lifecycle_tasks db)"
      by (metis list.set_map)
    then show ?thesis
      using wf row by (auto simp: db_wf_def advance_db_def Let_def prune_events_def update_task_def)
  qed
  moreover have "sorted (map evr_sequence (rows_of ?db (row_task_id r))) \<and>
      evr_sequence (last (rows_of ?db (row_task_id r))) = row_latest_sequence r"
    if r: "r \<in> set (lifecycle_tasks ?db)" for r
  proof -
    from r obtain r0 where r0: "r0 \<in> set (lifecycle_tasks db)"
      "r = (if row_task_id r0 = row_task_id row
            then r0\<lparr>row_state := st, row_latest_sequence := row_latest_sequence row + 1, row_updated_at := now\<rparr>
            else r0)"
      unfolding advance_db_tasks by auto
    show ?thesis
    proof (cases "row_task_id r0 = row_task_id row")
      case True
      with r0 advance_db_row_sorted [OF wf row, of st now d] show ?thesis by simp
    next
      case False
      with r0 wf show ?thesis by (auto simp: advance_db_rows_other db_wf_def)
    qed
  qed
  ultimately show ?thesis by (simp add: db_wf_def)
qed

lemma sql_transition_cases:
  obtains (fail) e where "sql_transition fault db now tid state0 detail = (db, Inl e)"
  | (ok) row d where "\<not> fault" "content_free_detail detail = Inr d" "select_task db tid = Some row"
      "normalise_state state0 \<in> set (successors (row_state row))"
proof (cases "\<not> fault \<and> (\<exists>d row. content_free_detail detail = Inr d \<and> select_task db tid = Some row \<and>
    normalise_state state0 \<in> set (successors (row_state row)))")
  case True
  with ok show ?thesis by blast
next
  case False
  then have "\<exists>e. sql_transition fault db now tid state0 detail = (db, Inl e)"
    by (auto simp: sql_transition_def Let_def split: sum.splits option.splits)
  with fail show ?thesis by blast
qed

lemma sql_transition_wf:
  assumes wf: "db_wf db"
  shows "db_wf (fst (sql_transition fault db now tid state0 detail))"
proof (cases rule: sql_transition_cases [of fault db now tid state0 detail])
  case (ok row d)
  then have "row \<in> set (lifecycle_tasks db)" using select_task_Some by simp
  with wf ok show ?thesis by (simp add: sql_transition_legal advance_db_wf)
qed (use wf in simp)

text \<open>A live task: the durable transition is the in-memory one with the stored metadata.\<close>

lemma sql_transition_refines:
  assumes wf: "db_wf db" and sel: "select_task db tid = Some row" and live: "\<not> row_expired db t0 row"
    and safe: "content_free_detail detail = Inr d"
  shows "db_store (fst (sql_transition False db now tid state0 detail)) =
           fst (store_transition (db_store db) t0 now tid state0 (Some (stored_detail d)))"
    and "map_sum id (\<lambda>e. e\<lparr>ev_detail := stored_detail d\<rparr>) (snd (sql_transition False db now tid state0 detail)) =
           snd (store_transition (db_store db) t0 now tid state0 (Some (stored_detail d)))"
proof -
  from select_task_Some [OF sel] have row: "row \<in> set (lifecycle_tasks db)" "row_task_id row = tid" by auto
  have lk: "map_of (records (db_store db)) tid = Some (read_record db row)"
    using sel by (simp add: store_lookup_db)
  have nx: "\<not> record_expired (db_store db) t0 (read_record db row)" using live by (simp add: row_expired_db)
  have ne: "rec_events (read_record db row) \<noteq> []" using db_row_wf [OF wf row(1)] by (simp add: record_wf_def)
  have st: "rec_state (read_record db row) = row_state row" by (simp add: read_record_def)
  have mx: "max_events (db_store db) = db_max_events db" by (simp add: db_store_def)
  note live_eq = store_transition_live [OF lk nx ne, of now state0 "Some (stored_detail d)"]
  have "db_store (fst (sql_transition False db now tid state0 detail)) =
           fst (store_transition (db_store db) t0 now tid state0 (Some (stored_detail d))) \<and>
        map_sum id (\<lambda>e. e\<lparr>ev_detail := stored_detail d\<rparr>) (snd (sql_transition False db now tid state0 detail)) =
           snd (store_transition (db_store db) t0 now tid state0 (Some (stored_detail d)))"
  proof (cases "normalise_state state0 \<in> set (successors (row_state row))")
    case True
    with row show ?thesis
      by (simp add: live_eq st mx db_row_latest [OF wf row(1)] Let_def next_event_def
          sql_transition_legal [OF wf sel True safe] advance_db_store [OF wf row(1) refl])
  next
    case False
    then show ?thesis by (simp add: live_eq st sql_transition_def safe sel)
  qed
  then show "db_store (fst (sql_transition False db now tid state0 detail)) =
           fst (store_transition (db_store db) t0 now tid state0 (Some (stored_detail d)))"
    and "map_sum id (\<lambda>e. e\<lparr>ev_detail := stored_detail d\<rparr>) (snd (sql_transition False db now tid state0 detail)) =
           snd (store_transition (db_store db) t0 now tid state0 (Some (stored_detail d)))" by blast+
qed

subsection \<open>Properties of the durable lifecycle\<close>

text \<open>One call of a public method; the Boolean says whether SQLite fails during the call.\<close>

inductive db_step :: "lifecycle_db \<Rightarrow> lifecycle_db \<Rightarrow> bool" where
  db_submit: "db_step db (fst (sql_submit fault db now tid key digest))"
| db_status: "db_step db (fst (sql_status fault db now tid))"
| db_transition: "db_step db (fst (sql_transition fault db now tid st detail))"
| db_cancelled: "db_step db (fst (sql_cancel f0 f1 f2 db hook t0 now t2 tid))"
| db_events: "db_step db (fst (sql_events_after fault db now tid after bound))"

inductive db_reachable :: "int \<Rightarrow> time \<Rightarrow> lifecycle_db \<Rightarrow> bool" for n ttl where
  db_new: "db_reachable n ttl (new_db n ttl)"
| db_next: "db_reachable n ttl db \<Longrightarrow> db_step db db' \<Longrightarrow> db_reachable n ttl db'"

inductive_cases db_stepE: "db_step db db'"

lemma sql_events_after_state: "fst (sql_events_after fault db now tid after bound) = fst (sql_status fault db now tid)"
  by (auto simp: sql_events_after_def split: prod.splits sum.splits)

lemma sql_cancel_wf:
  assumes "db_wf db"
  shows "db_wf (fst (sql_cancel f0 f1 f2 db hook t0 now t2 tid))"
proof -
  have s: "db_wf db1" if "sql_status f db0 t tid = (db1, x)" "db_wf db0" for f db0 t db1 x
    using sql_status_wf [OF that(2), of f t tid] that(1) by simp
  have t: "db_wf db2" if "sql_transition f1 db1 now tid st d = (db2, y)" "db_wf db1" for db1 db2 st d y
    using sql_transition_wf [OF that(2), of f1 now tid st d] that(1) by simp
  show ?thesis
    by (auto simp: sql_cancel_def sql_status_wf split: prod.splits sum.splits intro: sql_status_wf
        dest!: s [OF _ assms] t)
qed

lemma db_step_wf: "db_step db db' \<Longrightarrow> db_wf db \<Longrightarrow> db_wf db'"
  by (auto elim!: db_stepE simp: sql_submit_wf sql_status_wf sql_transition_wf sql_cancel_wf sql_events_after_state)

lemma new_db_wf: "db_wf (new_db n ttl)"
  by (simp add: db_wf_def store_wf_def db_store_def new_db_def)

lemma db_reachable_wf: "db_reachable n ttl db \<Longrightarrow> db_wf db"
  by (induction rule: db_reachable.induct) (auto intro: new_db_wf db_step_wf)

text \<open>The database of the witnesses.\<close>

definition sample_db :: lifecycle_db where
  "sample_db = fst (sql_submit False (new_db 2 60) 0 ''t'' ''k'' ''d'')"

lemma sample_db_reachable: "db_reachable 2 60 sample_db"
  unfolding sample_db_def by (intro db_next [OF _ db_submit] db_new)

lemma sample_db_row:
  "select_task sample_db ''t'' = Some \<lparr>row_task_id = ''t'', row_idempotency_key = ''k'', row_request_digest = ''d'',
     row_state = ''accepted'', row_latest_sequence = 0, row_updated_at = 0\<rparr>"
  by (simp add: sample_db_def new_db_def sql_submit_def insert_task_def insert_event_def select_task_def)





end
