(* ===== verification/Lifecycle_Router.thy ===== *)
theory Lifecycle_Router
  imports Lifecycle_Sqlite
begin

text \<open>
  The HTTP mapping of the lifecycle (\<open>build_lifecycle_router_with_authorizer\<close>) and the storage port it
  is written against (the protocol class \<open>LifecyclePersistence\<close>).

  The routes take the store's methods as arguments, as the Python closure does. The locale
  \<open>lifecycle_persistence\<close> states what the routes rely on: what each method returns and leaves behind in
  terms of the record a task identifier denotes. It is interpreted for \<open>LifecycleStore\<close> and for
  \<open>SqliteLifecyclePersistence\<close>, each method taken at one clock reading, so that every client lemma
  holds for both stores.
\<close>

subsection \<open>Routes\<close>

record lifecycle_payload =
  pl_profile :: string
  pl_task_id :: string
  pl_state :: string
  pl_latest_sequence :: int
  pl_is_final :: bool

definition record_payload :: "lifecycle_record \<Rightarrow> lifecycle_error + lifecycle_payload" where
  "record_payload r =
     (case latest_sequence r of
        Inl e \<Rightarrow> Inl e
      | Inr n \<Rightarrow> Inr \<lparr>pl_profile = PROFILE, pl_task_id = rec_task_id r, pl_state = rec_state r,
                      pl_latest_sequence = n, pl_is_final = terminal (rec_state r)\<rparr>)"

record authorization_request =
  req_credential :: "string option"
  req_operation :: string
  req_task_id :: string

record authorization_decision =
  dec_authenticated :: bool
  dec_allowed :: bool
  dec_conceal_task :: bool

text \<open>A response: a JSON payload with its status, the event lines, an \<open>HTTPException\<close> with its status
  and detail (the 409 of \<open>observe\<close> carries the record's payload), or an exception no route handles.\<close>

datatype http_response =
    JsonResponse int lifecycle_payload
  | EventLines "lifecycle_event list"
  | HttpException int string "lifecycle_payload option"
  | UnhandledException lifecycle_error

record submit_body =
  body_task_id :: "string option"
  body_idempotency_key :: "string option"
  body_request_digest :: "string option"

text \<open>\<open>shared_token_authorizer\<close>, \<open>authorize\<close>.\<close>

definition shared_token_authorizer :: "string \<Rightarrow> authorization_request \<Rightarrow> authorization_decision" where
  "shared_token_authorizer token req =
     (let valid = (req_credential req = Some (''Bearer '' @ token))
      in \<lparr>dec_authenticated = valid, dec_allowed = valid, dec_conceal_task = False\<rparr>)"

definition authorize ::
    "(authorization_request \<Rightarrow> authorization_decision) \<Rightarrow> string option \<Rightarrow> string \<Rightarrow> string \<Rightarrow>
     http_response option" where
  "authorize authorizer cred op tid =
     (let d = authorizer \<lparr>req_credential = cred, req_operation = op, req_task_id = tid\<rparr> in
      if dec_allowed d \<and> dec_authenticated d then None
      else if \<not> dec_authenticated d
      then Some (HttpException 401 ''lifecycle authorization required'' None)
      else if dec_conceal_task d then Some (HttpException 404 ''unknown_task'' None)
      else Some (HttpException 403 ''lifecycle operation forbidden'' None))"

definition payload_response :: "int \<Rightarrow> lifecycle_record \<Rightarrow> http_response" where
  "payload_response code r =
     (case record_payload r of Inl e \<Rightarrow> UnhandledException e | Inr p \<Rightarrow> JsonResponse code p)"

definition router_submit where
  "router_submit submit authorizer s now cred body =
     (case authorize authorizer cred ''submit''
             (case body_task_id body of None \<Rightarrow> [] | Some t \<Rightarrow> t) of
        Some resp \<Rightarrow> (s, resp)
      | None \<Rightarrow>
          (case (body_task_id body, body_idempotency_key body, body_request_digest body) of
             (Some tid, Some key, Some digest) \<Rightarrow>
               (case submit s now tid key digest of
                  (s', Inl (LifecycleConflict m)) \<Rightarrow> (s', HttpException 409 m None)
                | (s', Inl (UnknownTask m)) \<Rightarrow> (s', HttpException 409 m None)
                | (s', Inl e) \<Rightarrow> (s', UnhandledException e)
                | (s', Inr (r, created)) \<Rightarrow> (s', payload_response (if created then 202 else 200) r))
           | (None, _, _) \<Rightarrow> (s, HttpException 409 ''task_id'' None)
           | (_, None, _) \<Rightarrow> (s, HttpException 409 ''idempotency_key'' None)
           | (_, _, None) \<Rightarrow> (s, HttpException 409 ''request_digest'' None)))"

definition router_status where
  "router_status status authorizer s now cred tid =
     (case authorize authorizer cred ''status'' tid of
        Some resp \<Rightarrow> (s, resp)
      | None \<Rightarrow>
          (case status s now tid of
             (s', Inl (UnknownTask _)) \<Rightarrow> (s', HttpException 404 ''unknown_task'' None)
           | (s', Inl e) \<Rightarrow> (s', UnhandledException e)
           | (s', Inr r) \<Rightarrow> (s', payload_response 200 r)))"

definition router_observe where
  "router_observe events_after authorizer s now cred tid after =
     (case authorize authorizer cred ''observe'' tid of
        Some resp \<Rightarrow> (s, resp)
      | None \<Rightarrow>
          (case events_after s now tid after (None :: int option) of
             (s', Inl (ResumeUnavailable r)) \<Rightarrow>
               (s', (case record_payload r of
                       Inl e \<Rightarrow> UnhandledException e
                     | Inr p \<Rightarrow> HttpException 409 ''resume_unavailable'' (Some p)))
           | (s', Inl (UnknownTask _)) \<Rightarrow> (s', HttpException 404 ''unknown_task'' None)
           | (s', Inl e) \<Rightarrow> (s', UnhandledException e)
           | (s', Inr evs) \<Rightarrow> (s', EventLines evs)))"

definition router_cancel where
  "router_cancel cancel authorizer s now cred tid =
     (case authorize authorizer cred ''cancel'' tid of
        Some resp \<Rightarrow> (s, resp)
      | None \<Rightarrow>
          (case cancel s now tid of
             (s', Inl (UnknownTask _)) \<Rightarrow> (s', HttpException 404 ''unknown_task'' None)
           | (s', Inl e) \<Rightarrow> (s', UnhandledException e)
           | (s', Inr r) \<Rightarrow> (s', payload_response 200 r)))"

subsection \<open>The storage port\<close>

definition expired_at :: "time \<Rightarrow> time \<Rightarrow> lifecycle_record \<Rightarrow> bool" where
  "expired_at ttl now r \<longleftrightarrow> terminal (rec_state r) \<and> now - rec_updated_at r > ttl"

locale lifecycle_persistence =
  fixes lookup :: "'s \<Rightarrow> string \<Rightarrow> lifecycle_record option"
    and capacity :: "'s \<Rightarrow> nat"
    and ttl :: "'s \<Rightarrow> time"
    and invar :: "'s \<Rightarrow> bool"
    and submit :: "'s \<Rightarrow> time \<Rightarrow> string \<Rightarrow> string \<Rightarrow> string \<Rightarrow> 's \<times> (lifecycle_error + lifecycle_record \<times> bool)"
    and status :: "'s \<Rightarrow> time \<Rightarrow> string \<Rightarrow> 's \<times> (lifecycle_error + lifecycle_record)"
    and cancel :: "'s \<Rightarrow> time \<Rightarrow> string \<Rightarrow> 's \<times> (lifecycle_error + lifecycle_record)"
    and events_after :: "'s \<Rightarrow> time \<Rightarrow> string \<Rightarrow> int \<Rightarrow> int option \<Rightarrow> 's \<times> (lifecycle_error + lifecycle_event list)"
  assumes lookup_wf: "invar s \<Longrightarrow> lookup s tid = Some r \<Longrightarrow> rec_task_id r = tid \<and> record_wf (capacity s) r"
    and ttl_nonneg: "invar s \<Longrightarrow> 0 \<le> ttl s"
    and submit_invar: "invar s \<Longrightarrow> invar (fst (submit s now tid key digest))"
    and status_invar: "invar s \<Longrightarrow> invar (fst (status s now tid))"
    and cancel_invar: "invar s \<Longrightarrow> invar (fst (cancel s now tid))"
    and submit_new: "invar s \<Longrightarrow> lookup s tid = None \<Longrightarrow>
        (\<And>t r. lookup s t = Some r \<Longrightarrow> rec_idempotency_key r \<noteq> key) \<Longrightarrow>
        snd (submit s now tid key digest) = Inr (submitted_record tid key digest now, True) \<and>
        lookup (fst (submit s now tid key digest)) = (lookup s)(tid \<mapsto> submitted_record tid key digest now)"
    and submit_same: "invar s \<Longrightarrow> lookup s tid = Some r \<Longrightarrow>
        rec_idempotency_key r = key \<Longrightarrow> rec_request_digest r = digest \<Longrightarrow>
        submit s now tid key digest = (s, Inr (r, False))"
    and submit_conflict: "invar s \<Longrightarrow>
        (\<exists>r. lookup s tid = Some r \<and> (rec_idempotency_key r \<noteq> key \<or> rec_request_digest r \<noteq> digest)) \<or>
        (\<exists>t r. lookup s tid = None \<and> lookup s t = Some r \<and> rec_idempotency_key r = key) \<Longrightarrow>
        \<exists>m. submit s now tid key digest = (s, Inl (LifecycleConflict m))"
    and status_live: "invar s \<Longrightarrow> lookup s tid = Some r \<Longrightarrow> \<not> expired_at (ttl s) now r \<Longrightarrow>
        status s now tid = (s, Inr r)"
    and status_gone: "invar s \<Longrightarrow> (\<And>r. lookup s tid = Some r \<Longrightarrow> expired_at (ttl s) now r) \<Longrightarrow>
        snd (status s now tid) = Inl (UnknownTask tid) \<and>
        lookup (fst (status s now tid)) = (lookup s)(tid := None)"
    and cancel_live: "invar s \<Longrightarrow> lookup s tid = Some r \<Longrightarrow> \<not> terminal (rec_state r) \<Longrightarrow>
        e = next_event tid (ev_sequence (last (rec_events r))) ''cancelled'' now
              [(''outcome'', PStr ''cancelled'')] \<Longrightarrow>
        snd (cancel s now tid) = Inr (append_event (capacity s) r e) \<and>
        lookup (fst (cancel s now tid)) = (lookup s)(tid \<mapsto> append_event (capacity s) r e) \<and>
        ttl (fst (cancel s now tid)) = ttl s"
    and cancel_terminal: "invar s \<Longrightarrow> lookup s tid = Some r \<Longrightarrow> terminal (rec_state r) \<Longrightarrow>
        \<not> expired_at (ttl s) now r \<Longrightarrow> cancel s now tid = (s, Inr r)"
    and cancel_gone: "invar s \<Longrightarrow> (\<And>r. lookup s tid = Some r \<Longrightarrow> expired_at (ttl s) now r) \<Longrightarrow>
        snd (cancel s now tid) = Inl (UnknownTask tid) \<and>
        lookup (fst (cancel s now tid)) = (lookup s)(tid := None)"
    and events_live: "invar s \<Longrightarrow> lookup s tid = Some r \<Longrightarrow> \<not> expired_at (ttl s) now r \<Longrightarrow>
        events_after s now tid after bound =
          (s, if after + 1 < ev_sequence (hd (rec_events r)) then Inl (ResumeUnavailable r)
              else Inr (slice_events (rec_events r) after bound))"
    and events_gone: "invar s \<Longrightarrow> (\<And>r. lookup s tid = Some r \<Longrightarrow> expired_at (ttl s) now r) \<Longrightarrow>
        snd (events_after s now tid after bound) = Inl (UnknownTask tid)"
begin

lemma payload_of_wf:
  "record_wf n r \<Longrightarrow> payload_response code r =
    JsonResponse code \<lparr>pl_profile = PROFILE, pl_task_id = rec_task_id r, pl_state = rec_state r,
      pl_latest_sequence = ev_sequence (last (rec_events r)), pl_is_final = terminal (rec_state r)\<rparr>"
  by (simp add: payload_response_def record_payload_def record_wf_latest)

text \<open>Repeating an accepted submission answers 200 with the same payload and changes nothing.\<close>

lemma resubmit:
  assumes inv: "invar s"
    and auth: "authorize authorizer cred ''submit'' tid = None"
    and first: "router_submit submit authorizer s now cred
      \<lparr>body_task_id = Some tid, body_idempotency_key = Some key, body_request_digest = Some digest\<rparr>
      = (s1, JsonResponse 202 p)"
  shows "router_submit submit authorizer s1 now' cred
      \<lparr>body_task_id = Some tid, body_idempotency_key = Some key, body_request_digest = Some digest\<rparr>
      = (s1, JsonResponse 200 p)"
proof -
  let ?r = "submitted_record tid key digest now"
  obtain res where sub: "submit s now tid key digest = (s1, res)"
    using first auth
    by (cases "submit s now tid key digest")
      (auto simp: router_submit_def split: sum.splits lifecycle_error.splits prod.splits)
  then obtain r where res: "res = Inr (r, True)" and p: "payload_response 202 r = JsonResponse 202 p"
    using first auth
    by (auto simp: router_submit_def payload_response_def split: sum.splits lifecycle_error.splits if_splits)
  have absent: "lookup s tid = None"
  proof (rule ccontr)
    assume "lookup s tid \<noteq> None"
    then obtain r0 where r0: "lookup s tid = Some r0" by blast
    show False
    proof (cases "rec_idempotency_key r0 = key \<and> rec_request_digest r0 = digest")
      case True
      with submit_same [OF inv r0, of key digest now] sub res show False by simp
    next
      case False
      with submit_conflict [OF inv, of tid key digest now] r0 sub res show False by auto
    qed
  qed
  moreover have "rec_idempotency_key r' \<noteq> key" if "lookup s t = Some r'" for t r'
    using submit_conflict [OF inv, of tid key digest now] sub res that absent by auto
  ultimately have new: "r = ?r" "lookup s1 tid = Some ?r"
    using submit_new [OF inv, of tid key now digest] sub res by auto
  have "invar s1" using submit_invar [OF inv, of now tid key digest] sub by simp
  then have "submit s1 now' tid key digest = (s1, Inr (?r, False))"
    using new(2) by (intro submit_same) simp_all
  with auth p new(1) show ?thesis
    by (auto simp: router_submit_def payload_response_def split: sum.splits)
qed

text \<open>Cancelling an existing, unexpired task always answers with a final state, and cancelling again
  at the same instant returns the same answer without a further event.\<close>

lemma cancel_settles:
  assumes inv: "invar s" and r: "lookup s tid = Some r" and live: "\<not> expired_at (ttl s) now r"
    and auth: "authorize authorizer cred ''cancel'' tid = None"
  obtains s1 p where "router_cancel cancel authorizer s now cred tid = (s1, JsonResponse 200 p)"
    "pl_is_final p" "pl_task_id p = tid"
    "router_cancel cancel authorizer s1 now cred tid = (s1, JsonResponse 200 p)"
proof (cases "terminal (rec_state r)")
  case True
  have "cancel s now tid = (s, Inr r)" using inv r True live by (rule cancel_terminal)
  with auth lookup_wf [OF inv r] True show thesis
    by (intro that) (auto simp: router_cancel_def payload_of_wf)
next
  case False
  define e where e_def: "e = next_event tid (ev_sequence (last (rec_events r))) ''cancelled'' now
    [(''outcome'', PStr ''cancelled'')]"
  define r1 where "r1 = append_event (capacity s) r e"
  obtain s1 where c: "cancel s now tid = (s1, Inr r1)" and l1: "lookup s1 tid = Some r1"
    and t1: "ttl s1 = ttl s"
    using cancel_live [OF inv r False e_def] by (cases "cancel s now tid") (auto simp: r1_def)
  have i1: "invar s1" using cancel_invar [OF inv, of now tid] c by simp
  have fin: "rec_state r1 = ''cancelled''" "rec_updated_at r1 = now"
    by (simp_all add: r1_def e_def next_event_def)
  then have settled: "terminal (rec_state r1)" by (simp add: TERMINAL_STATES_def)
  have "\<not> expired_at (ttl s1) now r1" using ttl_nonneg [OF i1] fin by (simp add: expired_at_def)
  then have "cancel s1 now tid = (s1, Inr r1)" using i1 l1 settled by (intro cancel_terminal)
  with c auth lookup_wf [OF i1 l1] settled show thesis
    by (intro that) (auto simp: router_cancel_def payload_of_wf)
qed

text \<open>What an observer receives: the retained events after its position, without a gap, up to the
  latest one; or the 409 with the record's payload exactly when its position was pruned.\<close>

lemma observe_gap_free:
  assumes inv: "invar s" and r: "lookup s tid = Some r" and live: "\<not> expired_at (ttl s) now r"
    and auth: "authorize authorizer cred ''observe'' tid = None"
  shows "if after + 1 < ev_sequence (hd (rec_events r))
    then \<exists>p. router_observe events_after authorizer s now cred tid after =
           (s, HttpException 409 ''resume_unavailable'' (Some p))
    else \<exists>evs. router_observe events_after authorizer s now cred tid after = (s, EventLines evs) \<and>
           suffix evs (rec_events r) \<and> consecutive (map ev_sequence evs) \<and>
           (\<forall>e \<in> set (rec_events r). e \<in> set evs \<longleftrightarrow> after < ev_sequence e)"
proof -
  from lookup_wf [OF inv r] have wf: "record_wf (capacity s) r" by simp
  then have c: "consecutive (map ev_sequence (rec_events r))" by (simp add: record_wf_def)
  show ?thesis
  proof (cases "after + 1 < ev_sequence (hd (rec_events r))")
    case True
    with auth show ?thesis
      by (simp add: router_observe_def events_live [OF inv r live] record_payload_def record_wf_latest [OF wf])
  next
    case False
    with auth slice_events_window [OF c, of after] show ?thesis
      by (auto simp: router_observe_def events_live [OF inv r live] slice_events_def)
  qed
qed

end

subsection \<open>The in-memory store is a storage port\<close>

definition mem_lookup :: "lifecycle_store \<Rightarrow> string \<Rightarrow> lifecycle_record option" where
  "mem_lookup s tid = map_of (records s) tid"

definition mem_ok :: "lifecycle_store \<Rightarrow> bool" where
  "mem_ok s \<longleftrightarrow> store_wf s \<and> 0 \<le> terminal_status_ttl_s s"

definition mem_cancel :: "lifecycle_store \<Rightarrow> time \<Rightarrow> string \<Rightarrow> lifecycle_store \<times> (lifecycle_error + lifecycle_record)" where
  "mem_cancel s now tid = store_cancel s None now now now tid"

lemma store_ttl [simp]:
  "terminal_status_ttl_s (fst (store_submit s now tid key digest)) = terminal_status_ttl_s s"
  "terminal_status_ttl_s (fst (store_status s now tid)) = terminal_status_ttl_s s"
  by (auto simp: store_submit_def store_status_def Let_def split: option.splits)

lemma expired_at_store: "expired_at (terminal_status_ttl_s s) now r = record_expired s now r"
  by (simp add: expired_at_def record_expired_def)

lemma mem_cancel_live:
  assumes "store_wf s" "map_of (records s) tid = Some r" "\<not> terminal (rec_state r)"
    and e: "e = next_event tid (ev_sequence (last (rec_events r))) ''cancelled'' now
              [(''outcome'', PStr ''cancelled'')]"
  shows "mem_cancel s now tid =
    (s\<lparr>records := AList.update tid (append_event (max_events s) r e) (records s)\<rparr>,
     Inr (append_event (max_events s) r e))"
proof -
  have "\<not> record_expired s now r" using assms(3) by (simp add: record_expired_def)
  from store_cancel_live [OF assms(1,2) this assms(3), of None now now] e show ?thesis
    by (metis mem_cancel_def option.case(1))
qed

lemma mem_cancel_dead:
  assumes "\<And>r. map_of (records s) tid = Some r \<Longrightarrow> record_expired s now r"
  shows "mem_cancel s now tid = (s\<lparr>records := AList.delete tid (records s)\<rparr>, Inl (UnknownTask tid))"
  using assms by (auto simp: mem_cancel_def store_cancel_def store_status_def split: option.splits)

lemma store_status_dead:
  assumes "\<And>r. map_of (records s) tid = Some r \<Longrightarrow> record_expired s now r"
  shows "store_status s now tid = (s\<lparr>records := AList.delete tid (records s)\<rparr>, Inl (UnknownTask tid))"
  using assms by (auto simp: store_status_def split: option.splits)

interpretation mem: lifecycle_persistence mem_lookup max_events terminal_status_ttl_s mem_ok
  store_submit store_status mem_cancel store_events_after
proof (unfold_locales, goal_cases)
  case (1 s tid r)
  then show ?case using store_wf_lookup by (auto simp: mem_ok_def mem_lookup_def)
next
  case (5 s now tid)
  have "terminal_status_ttl_s (fst (mem_cancel s now tid)) = terminal_status_ttl_s s"
    by (auto simp: mem_cancel_def store_cancel_def store_transition_def store_status_def Let_def
        split: option.splits sum.splits prod.splits if_splits)
  with 5 show ?case by (simp add: mem_ok_def mem_cancel_def store_cancel_wf)
next
  case (6 s tid key now digest)
  then have "\<not> list_ex (\<lambda>r. rec_idempotency_key r = key) (map snd (records s))"
    by (auto simp: list_ex_iff mem_lookup_def mem_ok_def store_wf_def)
      (metis map_of_is_SomeI prod.collapse)
  with 6 show ?case by (auto simp: store_submit_def Let_def mem_lookup_def fun_eq_iff dict_simps)
next
  case (8 s tid key digest now)
  then have "map_of (records s) tid = None \<Longrightarrow> list_ex (\<lambda>r. rec_idempotency_key r = key) (map snd (records s))"
    by (auto simp: mem_lookup_def list_ex_iff) (metis map_of_SomeD snd_conv)
  with 8 show ?case by (auto simp: store_submit_def Let_def mem_lookup_def split: option.splits)
next
  case (10 s tid now)
  then show ?case
    by (subst (1 2) store_status_dead) (auto simp: mem_lookup_def expired_at_store fun_eq_iff dict_simps)
next
  case (11 s tid r e now)
  then show ?case by (auto simp: mem_cancel_live mem_lookup_def mem_ok_def fun_eq_iff dict_simps)
next
  case (12 s tid r now)
  then show ?case by (simp add: mem_cancel_def store_cancel_def store_status_def mem_lookup_def expired_at_store)
next
  case (13 s tid now)
  then show ?case
    by (subst (1 2) mem_cancel_dead) (auto simp: mem_lookup_def expired_at_store fun_eq_iff dict_simps)
next
  case (14 s tid r now after bound)
  then have "record_wf (max_events s) r" using store_wf_lookup by (auto simp: mem_ok_def mem_lookup_def)
  with 14 show ?case
    by (simp add: store_events_after_def store_status_def mem_lookup_def expired_at_store record_wf_first)
next
  case (15 s tid now after bound)
  then show ?case
    by (simp add: store_events_after_def store_status_dead mem_lookup_def expired_at_store)
qed (auto simp: mem_ok_def mem_lookup_def store_submit_wf store_status_wf expired_at_store,
     auto simp: store_submit_def store_status_def)

subsection \<open>The SQLite store is a storage port\<close>

text \<open>Without faults; a fault leaves the tables unchanged and surfaces as \<open>LifecycleStorageError\<close>.\<close>

definition db_lookup :: "lifecycle_db \<Rightarrow> string \<Rightarrow> lifecycle_record option" where
  "db_lookup db tid = map_option (read_record db) (select_task db tid)"

definition db_ok :: "lifecycle_db \<Rightarrow> bool" where
  "db_ok db \<longleftrightarrow> db_wf db \<and> 0 \<le> db_ttl db"

definition db_cancel :: "lifecycle_db \<Rightarrow> time \<Rightarrow> string \<Rightarrow> lifecycle_db \<times> (lifecycle_error + lifecycle_record)" where
  "db_cancel db now tid = sql_cancel False False False db None now now now tid"

lemma db_lookup_store: "db_lookup db = mem_lookup (db_store db)"
  by (simp add: fun_eq_iff db_lookup_def mem_lookup_def store_lookup_db)

lemma db_ok_store: "db_ok db \<Longrightarrow> mem_ok (db_store db)"
  by (simp add: db_ok_def mem_ok_def db_wf_def) (simp add: db_store_def)

lemma db_store_ttl [simp]: "terminal_status_ttl_s (db_store db) = db_ttl db" "max_events (db_store db) = db_max_events db"
  by (simp_all add: db_store_def)

lemma sql_ttl [simp]:
  "db_ttl (fst (sql_submit f db now tid key digest)) = db_ttl db"
  "db_ttl (fst (sql_status f db now tid)) = db_ttl db"
  "db_ttl (fst (sql_transition f db now tid st d)) = db_ttl db"
  by (auto simp: sql_submit_def sql_status_def sql_transition_def insert_task_def insert_event_def
      update_task_def prune_events_def delete_task_def Let_def split: option.splits sum.splits)

lemma outcome_detail: "content_free_detail (Some [(''outcome'', PStr ''cancelled'')]) = Inr [(''outcome'', PStr ''cancelled'')]"
  by code_simp

lemma outcome_stored: "stored_detail [(''outcome'', PStr ''cancelled'')] = [(''outcome'', PStr ''cancelled'')]"
  by (simp add: stored_detail_def json_value_def)

lemma db_cancel_live:
  assumes ok: "db_ok db" and r: "db_lookup db tid = Some r" and nt: "\<not> terminal (rec_state r)"
    and e: "e = next_event tid (ev_sequence (last (rec_events r))) ''cancelled'' now
              [(''outcome'', PStr ''cancelled'')]"
  shows "snd (db_cancel db now tid) = Inr (append_event (db_max_events db) r e)"
    and "db_store (fst (db_cancel db now tid)) =
      (db_store db)\<lparr>records := AList.update tid (append_event (db_max_events db) r e) (records (db_store db))\<rparr>"
    and "db_wf (fst (db_cancel db now tid))" and "db_ttl (fst (db_cancel db now tid)) = db_ttl db"
proof -
  from ok have wf: "db_wf db" and ttl: "0 \<le> db_ttl db" by (simp_all add: db_ok_def)
  from r obtain row where sel: "select_task db tid = Some row" and rr: "r = read_record db row"
    by (auto simp: db_lookup_def)
  from select_task_Some [OF sel] have row: "row \<in> set (lifecycle_tasks db)" "row_task_id row = tid" by auto
  have st: "row_state row = rec_state r" by (simp add: rr read_record_def)
  have nx: "\<not> row_expired db now row" using nt st by (simp add: row_expired_def)
  have can: "normalise_state ''cancelled'' \<in> set (successors (row_state row))"
    using db_row_wf [OF wf row(1)] nt by (auto simp: record_wf_def rr [symmetric] st normalise_state_def)
  define db' where "db' = advance_db db row ''cancelled'' now [(''outcome'', PStr ''cancelled'')]"
  have e': "e = next_event (row_task_id row) (row_latest_sequence row) ''cancelled'' now [(''outcome'', PStr ''cancelled'')]"
    using db_row_latest [OF wf row(1)] by (simp add: e rr row(2))
  have tr: "sql_transition False db now tid ''cancelled'' (Some [(''outcome'', PStr ''cancelled'')]) = (db', Inr e)"
    using sql_transition_legal [OF wf sel can outcome_detail, of now]
    by (simp add: normalise_state_def outcome_stored db'_def e' row(2))
  have store: "db_store db' = (db_store db)\<lparr>records := AList.update tid (append_event (db_max_events db) r e) (records (db_store db))\<rparr>"
    unfolding db'_def rr row(2) [symmetric] using wf row(1) e' by (rule advance_db_store)
  have wf': "db_wf db'" using can advance_db_wf [OF wf row(1)] by (simp add: db'_def normalise_state_def)
  have ttl': "db_ttl db' = db_ttl db" using sql_ttl(3) [of False db now tid "''cancelled''"] tr by (metis fst_conv)
  have "snd (sql_status False db' now tid) = snd (store_status (db_store db') now tid)"
    by (rule sql_status_refines)
  also have "\<dots> = Inr (append_event (db_max_events db) r e)"
    using ttl by (simp add: store store_status_def dict_simps record_expired_def e next_event_def)
  finally have fin: "snd (sql_status False db' now tid) = Inr (append_event (db_max_events db) r e)" .
  then have same: "sql_status False db' now tid = (db', Inr (append_event (db_max_events db) r e))"
    by (auto simp: sql_status_def split: option.splits if_splits)
  have "sql_status False db now tid = (db, Inr r)" using sel nx by (simp add: sql_status_def rr)
  then have c: "db_cancel db now tid = (db', Inr (append_event (db_max_events db) r e))"
    using nt tr same by (simp add: db_cancel_def sql_cancel_def)
  show "snd (db_cancel db now tid) = Inr (append_event (db_max_events db) r e)"
    and "db_store (fst (db_cancel db now tid)) =
      (db_store db)\<lparr>records := AList.update tid (append_event (db_max_events db) r e) (records (db_store db))\<rparr>"
    and "db_wf (fst (db_cancel db now tid))" and "db_ttl (fst (db_cancel db now tid)) = db_ttl db"
    using store wf' ttl' by (simp_all add: c)
qed

lemma db_cancel_terminal:
  assumes "db_lookup db tid = Some r" "terminal (rec_state r)" "\<not> expired_at (db_ttl db) now r"
  shows "db_cancel db now tid = (db, Inr r)"
  using assms
  by (auto simp: db_cancel_def sql_cancel_def sql_status_def db_lookup_def expired_at_def row_expired_def
      read_record_def)

lemma db_cancel_dead:
  assumes "\<And>r. db_lookup db tid = Some r \<Longrightarrow> expired_at (db_ttl db) now r"
  shows "db_cancel db now tid = (fst (sql_status False db now tid), Inl (UnknownTask tid))"
proof (cases "select_task db tid")
  case None
  then show ?thesis by (simp add: db_cancel_def sql_cancel_def sql_status_def)
next
  case (Some row)
  with assms have "row_expired db now row"
    by (simp add: db_lookup_def expired_at_def row_expired_def read_record_def)
  with Some show ?thesis by (simp add: db_cancel_def sql_cancel_def sql_status_def)
qed

lemma sql_status_dead:
  assumes "\<And>r. db_lookup db tid = Some r \<Longrightarrow> expired_at (db_ttl db) now r"
  shows "snd (sql_status False db now tid) = Inl (UnknownTask tid)"
    and "mem_lookup (db_store (fst (sql_status False db now tid))) = (mem_lookup (db_store db))(tid := None)"
proof -
  have "\<And>r. map_of (records (db_store db)) tid = Some r \<Longrightarrow> record_expired (db_store db) now r"
    using assms by (simp add: db_lookup_store mem_lookup_def expired_at_def record_expired_def)
  then have d: "store_status (db_store db) now tid =
      ((db_store db)\<lparr>records := AList.delete tid (records (db_store db))\<rparr>, Inl (UnknownTask tid))"
    by (rule store_status_dead)
  show "snd (sql_status False db now tid) = Inl (UnknownTask tid)"
    by (simp add: sql_status_refines d)
  show "mem_lookup (db_store (fst (sql_status False db now tid))) = (mem_lookup (db_store db))(tid := None)"
    by (simp add: sql_status_refines d mem_lookup_def fun_eq_iff dict_simps)
qed

lemma db_lookup_row:
  assumes "db_lookup db tid = Some r"
  obtains row where "select_task db tid = Some row" "row \<in> set (lifecycle_tasks db)" "row_task_id row = tid"
    "r = read_record db row" "row_idempotency_key row = rec_idempotency_key r"
    "row_request_digest row = rec_request_digest r"
proof -
  from assms obtain row where sel: "select_task db tid = Some row" and r: "r = read_record db row"
    by (auto simp: db_lookup_def)
  from select_task_Some [OF sel] show thesis by (intro that [OF sel _ _ r]) (simp_all add: r read_record_def)
qed

lemma sql_submit_same:
  assumes wf: "db_wf db" and r: "db_lookup db tid = Some r"
    and key: "rec_idempotency_key r = key" and digest: "rec_request_digest r = digest"
  shows "sql_submit False db now tid key digest = (db, Inr (r, False))"
proof -
  let ?P = "\<lambda>row. row_task_id row = tid \<or> row_idempotency_key row = key"
  from r obtain row where row: "row \<in> set (lifecycle_tasks db)" "row_task_id row = tid" "r = read_record db row"
    "row_idempotency_key row = key" "row_request_digest row = digest"
    using key digest by (elim db_lookup_row) simp_all
  then obtain row' where f: "List.find ?P (lifecycle_tasks db) = Some row'"
    by (cases "List.find ?P (lifecycle_tasks db)") (auto simp: find_None_iff)
  then have "?P row'" "row' \<in> set (lifecycle_tasks db)" by (auto simp: find_Some_iff)
  with row db_wf_distinct [OF wf] have "row' = row" by (auto simp: distinct_map inj_on_def)
  with f row show ?thesis by (simp add: sql_submit_def)
qed

lemma sql_submit_conflict:
  assumes wf: "db_wf db"
    and "(\<exists>r. db_lookup db tid = Some r \<and> (rec_idempotency_key r \<noteq> key \<or> rec_request_digest r \<noteq> digest)) \<or>
         (\<exists>t r. db_lookup db tid = None \<and> db_lookup db t = Some r \<and> rec_idempotency_key r = key)"
  shows "\<exists>m. sql_submit False db now tid key digest = (db, Inl (LifecycleConflict m))"
proof -
  let ?P = "\<lambda>row. row_task_id row = tid \<or> row_idempotency_key row = key"
  have "\<exists>row \<in> set (lifecycle_tasks db). ?P row" using assms(2) by (auto elim!: db_lookup_row)
  then obtain row where f: "List.find ?P (lifecycle_tasks db) = Some row"
    by (cases "List.find ?P (lifecycle_tasks db)") (auto simp: find_None_iff)
  then have row: "row \<in> set (lifecycle_tasks db)" by (auto simp: find_Some_iff)
  have "(row_task_id row, row_idempotency_key row, row_request_digest row) \<noteq> (tid, key, digest)"
  proof
    assume eq: "(row_task_id row, row_idempotency_key row, row_request_digest row) = (tid, key, digest)"
    then have "db_lookup db tid = Some (read_record db row)"
      using select_task_unique [OF wf row] by (simp add: db_lookup_def)
    with eq assms(2) show False by (auto simp: read_record_def)
  qed
  with f show ?thesis by (auto simp: sql_submit_def)
qed

interpretation db: lifecycle_persistence db_lookup db_max_events db_ttl db_ok
  "sql_submit False" "sql_status False" db_cancel "sql_events_after False"
proof (unfold_locales, goal_cases)
  case (1 s tid r)
  then show ?case using mem.lookup_wf [OF db_ok_store, of s tid r] by (simp add: db_lookup_store)
next
  case (5 s now tid)
  show ?case
  proof (cases "\<exists>r. db_lookup s tid = Some r \<and> \<not> expired_at (db_ttl s) now r")
    case True
    then obtain r where r: "db_lookup s tid = Some r" "\<not> expired_at (db_ttl s) now r" by blast
    show ?thesis
    proof (cases "terminal (rec_state r)")
      case True
      with r 5 show ?thesis by (simp add: db_cancel_terminal)
    next
      case False
      from db_cancel_live(3,4) [OF 5 r(1) False refl, of now] 5 show ?thesis by (simp add: db_ok_def)
    qed
  next
    case False
    with 5 show ?thesis
      by (subst db_cancel_dead) (auto simp: db_ok_def sql_status_wf)
  qed
next
  case (6 s tid key now digest)
  then have wf: "db_wf s" by (simp add: db_ok_def)
  have "mem_ok (db_store s)" using 6(1) by (rule db_ok_store)
  note new = mem.submit_new [OF this, of tid key now digest]
  note ref = sql_submit_refines [OF wf, of now tid key digest]
  from 6 new have "snd (store_submit (db_store s) now tid key digest) = Inr (submitted_record tid key digest now, True)"
    and "mem_lookup (fst (store_submit (db_store s) now tid key digest)) =
      (mem_lookup (db_store s))(tid \<mapsto> submitted_record tid key digest now)"
    by (simp_all add: db_lookup_store)
  with ref show ?case by (auto simp: db_lookup_store same_outcome_def)
next
  case (7 s tid r key digest now)
  then show ?case by (intro sql_submit_same) (simp_all add: db_ok_def)
next
  case (8 s tid key digest now)
  then show ?case by (intro sql_submit_conflict) (simp_all add: db_ok_def)
next
  case (9 s tid r now)
  then show ?case
    by (auto simp: sql_status_def db_lookup_def expired_at_def row_expired_def read_record_def)
next
  case (10 s tid now)
  then show ?case using sql_status_dead [of s tid now] by (simp add: db_lookup_store)
next
  case (11 s tid r e now)
  then show ?case
    using db_cancel_live [of s tid r e now] by (auto simp: db_lookup_store mem_lookup_def fun_eq_iff dict_simps)
next
  case (13 s tid now)
  then show ?case
    using sql_status_dead [of s tid now] db_cancel_dead [of s tid now] by (simp add: db_lookup_store)
next
  case (14 s tid r now after bound)
  then have "record_wf (db_max_events s) r"
    using mem.lookup_wf [OF db_ok_store, of s tid r] by (simp add: db_lookup_store)
  moreover from 14 have "sql_status False s now tid = (s, Inr r)"
    by (auto simp: sql_status_def db_lookup_def expired_at_def row_expired_def read_record_def)
  ultimately show ?case by (simp add: sql_events_after_def record_wf_first)
next
  case (15 s tid now after bound)
  then have "snd (sql_status False s now tid) = Inl (UnknownTask tid)" using sql_status_dead [of s tid now] by blast
  then show ?case by (cases "sql_status False s now tid") (simp add: sql_events_after_def)
qed (auto simp: db_ok_def sql_submit_wf sql_status_wf db_cancel_terminal)

subsection \<open>Properties of the routes, for both stores\<close>

lemma sample_store_ok: "mem_ok sample_store"
  using reachable_store_wf [OF sample_store_reachable] by (simp add: mem_ok_def sample_store_eq)

lemma sample_db_ok: "db_ok sample_db"
  using db_reachable_wf [OF sample_db_reachable]
  by (simp add: db_ok_def sample_db_def new_db_def)

definition allow_all :: "authorization_request \<Rightarrow> authorization_decision" where
  "allow_all _ = \<lparr>dec_authenticated = True, dec_allowed = True, dec_conceal_task = False\<rparr>"

lemma authorize_allow_all [simp]: "authorize allow_all cred op tid = None"
  by (simp add: authorize_def allow_all_def)

text \<open>A submission that was accepted with 202 can be repeated: over either store the repetition is
  answered 200 with the same payload and changes nothing.\<close>

lemma submit_idempotent:
  assumes "authorize authorizer cred ''submit'' tid = None"
    and "body = \<lparr>body_task_id = Some tid, body_idempotency_key = Some key, body_request_digest = Some digest\<rparr>"
  shows "(mem_ok s \<and> router_submit store_submit authorizer s now cred body = (s1, JsonResponse 202 p) \<longrightarrow>
       router_submit store_submit authorizer s1 now' cred body = (s1, JsonResponse 200 p)) \<and>
     (db_ok db \<and> router_submit (sql_submit False) authorizer db now cred body = (db1, JsonResponse 202 q) \<longrightarrow>
       router_submit (sql_submit False) authorizer db1 now' cred body = (db1, JsonResponse 200 q))"
  using assms mem.resubmit [of s authorizer cred tid now key digest s1 p now']
    db.resubmit [of db authorizer cred tid now key digest db1 q now'] by blast



text \<open>An observer that resumes after sequence number \<open>after\<close> receives, over either store, a 409 with
  the record's payload when the next event it needs has been pruned, and otherwise exactly the retained
  events beyond \<open>after\<close>, as one gap-free run up to the newest. Observing changes nothing.\<close>

lemma observe_exact:
  assumes "authorize authorizer cred ''observe'' tid = None"
  shows "(mem_ok s \<and> mem_lookup s tid = Some r \<and> \<not> expired_at (terminal_status_ttl_s s) now r \<longrightarrow>
     (if after + 1 < ev_sequence (hd (rec_events r))
      then \<exists>p. router_observe store_events_after authorizer s now cred tid after =
             (s, HttpException 409 ''resume_unavailable'' (Some p))
      else \<exists>evs. router_observe store_events_after authorizer s now cred tid after = (s, EventLines evs) \<and>
             suffix evs (rec_events r) \<and> consecutive (map ev_sequence evs) \<and>
             (\<forall>e \<in> set (rec_events r). e \<in> set evs \<longleftrightarrow> after < ev_sequence e))) \<and>
   (db_ok db \<and> db_lookup db tid = Some r' \<and> \<not> expired_at (db_ttl db) now r' \<longrightarrow>
     (if after + 1 < ev_sequence (hd (rec_events r'))
      then \<exists>p. router_observe (sql_events_after False) authorizer db now cred tid after =
             (db, HttpException 409 ''resume_unavailable'' (Some p))
      else \<exists>evs. router_observe (sql_events_after False) authorizer db now cred tid after = (db, EventLines evs) \<and>
             suffix evs (rec_events r') \<and> consecutive (map ev_sequence evs) \<and>
             (\<forall>e \<in> set (rec_events r'). e \<in> set evs \<longleftrightarrow> after < ev_sequence e)))"
  using mem.observe_gap_free [of s tid r now authorizer cred after]
    db.observe_gap_free [of db tid r' now authorizer cred after] assms by blast

text \<open>With the shared-token authorizer, a request whose credential is not \<open>Bearer\<close> followed by the
  token is answered 401 by every route and leaves the store as it was, whatever the store.\<close>

lemma unauthorized_no_effect:
  assumes "cred \<noteq> Some (''Bearer '' @ token)"
    and "resp \<in> {router_submit submit (shared_token_authorizer token) s now cred body,
                 router_status status (shared_token_authorizer token) s now cred tid,
                 router_observe events_after (shared_token_authorizer token) s now cred tid after,
                 router_cancel cancel (shared_token_authorizer token) s now cred tid}"
  shows "resp = (s, HttpException 401 ''lifecycle authorization required'' None)"
proof -
  have "authorize (shared_token_authorizer token) cred op t =
      Some (HttpException 401 ''lifecycle authorization required'' None)" for op t
    using assms(1) by (simp add: authorize_def shared_token_authorizer_def Let_def)
  with assms(2) show ?thesis
    by (auto simp: router_submit_def router_status_def router_observe_def router_cancel_def)
qed

end
