(* ===== verification/Lifecycle_Support.thy ===== *)
theory Lifecycle_Support
  imports Lifecycle
begin

text \<open>
  The two helpers of \<open>service_lifecycle.py\<close> beside the stores: \<open>BackendCancellationRegistry\<close>, which
  passes a cancellation on to a backend handle and remembers what it achieved, and
  \<open>BoundedObserverBuffer\<close>, the bounded event buffer of observers.

  A handler is opaque (\<open>'h\<close>); \<open>call\<close> is what invoking it does. The lock is re-entrant, so a handler
  may itself use the registry: \<open>call\<close> maps the registry to the registry it leaves and its outcome.
\<close>

subsection \<open>Cancellation registry\<close>

record cancellation_evidence =
  evd_task_id :: string
  evd_outcome :: string
  evd_cleanup_complete :: bool

record 'h cancellation_registry =
  reg_handlers :: "(string, 'h) dict"
  reg_signalled :: "string list"
  reg_evidence :: "(string, cancellation_evidence) dict"
  reg_evidence_order :: "string list"

datatype handler_outcome = HandlerReturned "bool option" | HandlerRaised

datatype registry_error = UnsupportedEvidence string | HandlerError

definition EVIDENCE_MAXLEN :: nat where
  "EVIDENCE_MAXLEN = 256"

definition new_registry :: "'h cancellation_registry" where
  "new_registry = \<lparr>reg_handlers = [], reg_signalled = [], reg_evidence = [], reg_evidence_order = []\<rparr>"

definition EVIDENCE_OUTCOMES :: "string list" where
  "EVIDENCE_OUTCOMES = [''cancel_requested'', ''transport_aborted'', ''backend_acknowledged'',
     ''execution_stopped'', ''cancel_unsupported'', ''already_terminal'']"

definition remember :: "'h cancellation_registry \<Rightarrow> cancellation_evidence \<Rightarrow> 'h cancellation_registry" where
  "remember g e =
     (let g1 = (if map_of (reg_evidence g) (evd_task_id e) = None
                then let g0 = (if length (reg_evidence_order g) = EVIDENCE_MAXLEN
                               then g\<lparr>reg_evidence_order := tl (reg_evidence_order g),
                                      reg_evidence := AList.delete (hd (reg_evidence_order g)) (reg_evidence g)\<rparr>
                               else g)
                     in g0\<lparr>reg_evidence_order := reg_evidence_order g0 @ [evd_task_id e]\<rparr>
                else g)
      in g1\<lparr>reg_evidence := AList.update (evd_task_id e) e (reg_evidence g1)\<rparr>)"

definition reg_register :: "'h cancellation_registry \<Rightarrow> string \<Rightarrow> 'h \<Rightarrow> 'h cancellation_registry" where
  "reg_register g tid h =
     g\<lparr>reg_handlers := AList.update tid h (reg_handlers g), reg_signalled := removeAll tid (reg_signalled g)\<rparr>"

definition reg_report ::
    "'h cancellation_registry \<Rightarrow> string \<Rightarrow> string \<Rightarrow>
     'h cancellation_registry \<times> (registry_error + cancellation_evidence)" where
  "reg_report g tid outcome =
     (if outcome \<notin> set EVIDENCE_OUTCOMES then (g, Inl (UnsupportedEvidence outcome))
      else let e = \<lparr>evd_task_id = tid, evd_outcome = outcome,
                    evd_cleanup_complete = (case map_of (reg_evidence g) tid of
                                              None \<Rightarrow> False | Some c \<Rightarrow> evd_cleanup_complete c)\<rparr>
           in (remember g e, Inr e))"

text \<open>An empty \<open>outcome\<close> is falsy, like \<open>None\<close>.\<close>

definition reg_complete ::
    "'h cancellation_registry \<Rightarrow> string \<Rightarrow> string option \<Rightarrow> 'h cancellation_registry \<times> cancellation_evidence" where
  "reg_complete g tid outcome =
     (let g1 = g\<lparr>reg_handlers := AList.delete tid (reg_handlers g),
                 reg_signalled := removeAll tid (reg_signalled g)\<rparr>;
          dflt = (case map_of (reg_evidence g) tid of None \<Rightarrow> ''cancel_unsupported'' | Some c \<Rightarrow> evd_outcome c);
          e = \<lparr>evd_task_id = tid,
               evd_outcome = (case outcome of None \<Rightarrow> dflt | Some x \<Rightarrow> if x = [] then dflt else x),
               evd_cleanup_complete = True\<rparr>
      in (remember g1 e, e))"

definition reg_request ::
    "('h \<Rightarrow> 'h cancellation_registry \<Rightarrow> 'h cancellation_registry \<times> handler_outcome) \<Rightarrow>
     'h cancellation_registry \<Rightarrow> string \<Rightarrow> string \<Rightarrow> 'h cancellation_registry \<times> (registry_error + string)" where
  "reg_request call g tid state =
     (if terminal state then (fst (reg_complete g tid (Some ''already_terminal'')), Inr ''already_terminal'')
      else case map_of (reg_handlers g) tid of
        None \<Rightarrow> (fst (reg_complete g tid (Some ''cancel_unsupported'')), Inr ''cancel_unsupported'')
      | Some h \<Rightarrow>
          if tid \<in> set (reg_signalled g) then (g, Inr ''cancel_signalled'')
          else (case call h g of
                  (g1, HandlerRaised) \<Rightarrow> (g1, Inl HandlerError)
                | (g1, HandlerReturned (Some False)) \<Rightarrow>
                    (fst (reg_complete g1 tid (Some ''cancel_unsupported'')), Inr ''cancel_unsupported'')
                | (g1, HandlerReturned _) \<Rightarrow>
                    let g2 = g1\<lparr>reg_signalled := List.insert tid (reg_signalled g1)\<rparr>
                    in (fst (reg_report g2 tid ''cancel_requested''), Inr ''cancel_signalled'')))"

text \<open>The evidence is a queue: at most 256 tasks, oldest first, and the order names each once.\<close>

definition registry_wf :: "'h cancellation_registry \<Rightarrow> bool" where
  "registry_wf g \<longleftrightarrow>
     map fst (reg_evidence g) = reg_evidence_order g \<and> distinct (reg_evidence_order g) \<and>
     length (reg_evidence_order g) \<le> EVIDENCE_MAXLEN \<and>
     (\<forall>(tid, e) \<in> set (reg_evidence g). evd_task_id e = tid)"

lemma registry_wf_simps [simp]:
  "registry_wf (g\<lparr>reg_handlers := hs\<rparr>) = registry_wf g"
  "registry_wf (g\<lparr>reg_signalled := ss\<rparr>) = registry_wf g"
  by (simp_all add: registry_wf_def)

lemma delete_hd: "distinct (map fst d) \<Longrightarrow> d \<noteq> [] \<Longrightarrow> AList.delete (fst (hd d)) d = tl d"
  by (cases d) (force simp: AList.delete_eq intro!: filter_True)+

lemma remember_known:
  assumes "map_of (reg_evidence g) (evd_task_id e) = Some c"
  shows "remember g e = g\<lparr>reg_evidence := AList.update (evd_task_id e) e (reg_evidence g)\<rparr>"
  using assms by (simp add: remember_def)

lemma remember_new:
  assumes "registry_wf g" "map_of (reg_evidence g) (evd_task_id e) = None"
    and d: "d = (if length (reg_evidence g) = EVIDENCE_MAXLEN then tl (reg_evidence g) else reg_evidence g)"
  shows "remember g e = g\<lparr>reg_evidence_order := map fst d @ [evd_task_id e], reg_evidence := d @ [(evd_task_id e, e)]\<rparr>"
proof -
  have ord: "reg_evidence_order g = map fst (reg_evidence g)" and dist: "distinct (map fst (reg_evidence g))"
    using assms(1) by (simp_all add: registry_wf_def)
  have new: "map_of d (evd_task_id e) = None"
    using assms(2) by (auto simp: d map_of_eq_None_iff) (metis image_eqI fst_conv list.set_sel(2) tl_Nil)
  show ?thesis
  proof (cases "length (reg_evidence g) = EVIDENCE_MAXLEN")
    case True
    then have "reg_evidence g \<noteq> []" by (auto simp: EVIDENCE_MAXLEN_def)
    with True dist have "AList.delete (hd (reg_evidence_order g)) (reg_evidence g) = d"
      by (simp add: ord hd_map delete_hd d)
    with True assms(2) new show ?thesis
      by (simp add: remember_def ord dict_update_absent) (simp add: d map_tl)
  next
    case False
    with assms(2) new show ?thesis by (simp add: remember_def ord dict_update_absent d)
  qed
qed

lemma remember_wf:
  assumes "registry_wf g"
  shows "registry_wf (remember g e)"
proof (cases "map_of (reg_evidence g) (evd_task_id e)")
  case (Some c)
  then have "map fst (AList.update (evd_task_id e) e (reg_evidence g)) = map fst (reg_evidence g)"
    by (rule dict_update_present)
  with assms show ?thesis
    by (auto simp: registry_wf_def remember_known [OF Some] set_dict_update)
next
  case None
  define d where "d = (if length (reg_evidence g) = EVIDENCE_MAXLEN then tl (reg_evidence g) else reg_evidence g)"
  have sub: "set d \<subseteq> set (reg_evidence g)"
    unfolding d_def by (cases "reg_evidence g") auto
  have "length (reg_evidence g) \<le> EVIDENCE_MAXLEN"
    using assms by (simp add: registry_wf_def) (metis length_map)
  then have len: "length d < EVIDENCE_MAXLEN" by (auto simp: d_def EVIDENCE_MAXLEN_def)
  have "distinct (map fst d)"
    using assms by (simp add: d_def registry_wf_def map_tl distinct_tl)
  moreover have "evd_task_id e \<notin> fst ` set d"
    using None sub by (auto simp: map_of_eq_None_iff)
  moreover have "\<forall>(tid, e) \<in> set d. evd_task_id e = tid"
    using assms sub by (auto simp: registry_wf_def)
  ultimately show ?thesis
    using len by (simp add: remember_new [OF assms None d_def] registry_wf_def)
qed

lemma reg_complete_wf: "registry_wf g \<Longrightarrow> registry_wf (fst (reg_complete g tid outcome))"
  by (simp add: reg_complete_def Let_def remember_wf)

lemma reg_report_wf: "registry_wf g \<Longrightarrow> registry_wf (fst (reg_report g tid outcome))"
  by (simp add: reg_report_def Let_def remember_wf)

lemma reg_request_wf:
  assumes "registry_wf g" "\<And>h g. registry_wf g \<Longrightarrow> registry_wf (fst (call h g))"
  shows "registry_wf (fst (reg_request call g tid state))"
proof -
  have "registry_wf g1" if "call h g = (g1, x)" for h g1 x using assms(2) [OF assms(1), of h] that by simp
  then show ?thesis
    using assms(1)
    by (auto simp: reg_request_def Let_def reg_complete_wf split: option.splits prod.splits
        handler_outcome.splits bool.splits intro!: reg_complete_wf reg_report_wf)
qed

lemma remember_get: "map_of (reg_evidence (remember g e)) (evd_task_id e) = Some e"
  by (simp add: remember_def Let_def dict_simps)

lemma remember_frame [simp]:
  "reg_handlers (remember g e) = reg_handlers g" "reg_signalled (remember g e) = reg_signalled g"
  by (simp_all add: remember_def Let_def)

subsection \<open>Observer buffer\<close>

record observer_buffer =
  buf_capacity :: nat
  buf_max_observers :: nat
  buf_events :: "lifecycle_event list"
  buf_observers :: "string list"
  buf_closed :: bool

datatype buffer_error = BufferConflict string | ObserverLagged int int

definition new_buffer :: "int \<Rightarrow> int \<Rightarrow> observer_buffer" where
  "new_buffer capacity observers =
     \<lparr>buf_capacity = nat (max 1 capacity), buf_max_observers = nat (max 1 observers), buf_events = [],
      buf_observers = [], buf_closed = False\<rparr>"

definition buf_subscribe :: "observer_buffer \<Rightarrow> string \<Rightarrow> observer_buffer \<times> (buffer_error + unit)" where
  "buf_subscribe b oid =
     (if oid \<notin> set (buf_observers b) \<and> length (buf_observers b) \<ge> buf_max_observers b
      then (b, Inl (BufferConflict ''observer capacity exhausted''))
      else (b\<lparr>buf_observers := List.insert oid (buf_observers b)\<rparr>, Inr ()))"

definition buf_disconnect :: "observer_buffer \<Rightarrow> string \<Rightarrow> observer_buffer" where
  "buf_disconnect b oid = b\<lparr>buf_observers := removeAll oid (buf_observers b)\<rparr>"

text \<open>Appending to a full \<open>deque(maxlen=n)\<close> drops the oldest element.\<close>

definition buf_publish :: "observer_buffer \<Rightarrow> lifecycle_event \<Rightarrow> observer_buffer \<times> (buffer_error + unit)" where
  "buf_publish b e =
     (if buf_events b \<noteq> [] \<and> ev_sequence e \<le> ev_sequence (last (buf_events b))
      then (b, Inl (BufferConflict ''observer sequence must increase''))
      else (b\<lparr>buf_events := last_n (buf_capacity b) (buf_events b @ [e]), buf_closed := ev_is_final e\<rparr>, Inr ()))"

definition buf_poll :: "observer_buffer \<Rightarrow> int \<Rightarrow> buffer_error + lifecycle_event list" where
  "buf_poll b after =
     (if buf_events b \<noteq> [] \<and> after + 1 < ev_sequence (hd (buf_events b))
      then Inl (ObserverLagged (ev_sequence (hd (buf_events b))) (ev_sequence (last (buf_events b))))
      else Inr (filter (\<lambda>e. ev_sequence e > after) (buf_events b)))"

text \<open>Runs of the buffer, with the events accepted so far as a history.\<close>

inductive buffer_run :: "int \<Rightarrow> int \<Rightarrow> lifecycle_event list \<Rightarrow> observer_buffer \<Rightarrow> bool" for c m where
  run_new: "buffer_run c m [] (new_buffer c m)"
| run_subscribe: "buffer_run c m h b \<Longrightarrow> buffer_run c m h (fst (buf_subscribe b oid))"
| run_disconnect: "buffer_run c m h b \<Longrightarrow> buffer_run c m h (buf_disconnect b oid)"
| run_publish: "buffer_run c m h b \<Longrightarrow> buf_publish b e = (b', Inr ()) \<Longrightarrow> buffer_run c m (h @ [e]) b'"
| run_rejected: "buffer_run c m h b \<Longrightarrow> buf_publish b e = (b', Inl err) \<Longrightarrow> buffer_run c m h b'"

lemma last_last_n: "0 < n \<Longrightarrow> xs \<noteq> [] \<Longrightarrow> last (last_n n xs) = last xs"
  by (simp add: last_n_def)

lemma last_n_eq_Nil: "0 < n \<Longrightarrow> last_n n xs = [] \<longleftrightarrow> xs = []"
  by (cases xs) (auto simp: last_n_def)

lemma last_n_absorb: "0 < n \<Longrightarrow> last_n n (last_n n xs @ [x]) = last_n n (xs @ [x])"
  by (cases "length xs \<le> n") (simp_all add: last_n_def Suc_diff_le)

lemma buffer_run_inv:
  assumes "buffer_run c m h b"
  shows "buf_capacity b = nat (max 1 c) \<and> buf_max_observers b = nat (max 1 m) \<and>
    buf_events b = last_n (nat (max 1 c)) h \<and> sorted_wrt (<) (map ev_sequence h) \<and>
    distinct (buf_observers b) \<and> length (buf_observers b) \<le> nat (max 1 m)"
  using assms
proof (induction rule: buffer_run.induct)
  case run_new
  then show ?case by (simp add: new_buffer_def last_n_def)
next
  case (run_subscribe h b oid)
  then show ?case by (auto simp: buf_subscribe_def List.insert_def)
next
  case (run_disconnect h b oid)
  then show ?case by (auto simp: buf_disconnect_def distinct_removeAll intro: le_trans [OF length_removeAll_less_eq])
next
  case (run_publish h b e b')
  define n where "n = nat (max 1 c)"
  have pos: "0 < n" by (simp add: n_def)
  from run_publish have inv: "buf_events b = last_n n h" "buf_capacity b = n" "sorted_wrt (<) (map ev_sequence h)"
    by (simp_all add: n_def)
  have "h \<noteq> [] \<Longrightarrow> ev_sequence (last h) < ev_sequence e"
    using run_publish(2) pos last_last_n [OF pos, of h] last_n_eq_Nil [OF pos, of h]
    by (simp add: buf_publish_def inv split: if_splits)
  moreover have "x \<le> ev_sequence (last h)" if "x \<in> ev_sequence ` set h" for x
    using that inv(3) sorted_map_le_last [of ev_sequence h] by (auto simp: strict_sorted_iff)
  ultimately have "sorted_wrt (<) (map ev_sequence (h @ [e]))"
    using inv(3) by (fastforce simp: sorted_wrt_append)
  moreover have "buf_events b' = last_n n (h @ [e])" "buf_capacity b' = n" "buf_observers b' = buf_observers b"
      "buf_max_observers b' = buf_max_observers b"
    using run_publish(2) by (auto simp: buf_publish_def inv last_n_absorb [OF pos] split: if_splits)
  ultimately show ?case using run_publish.IH by (simp add: n_def)
next
  case (run_rejected h b e b' err)
  then show ?case by (auto simp: buf_publish_def split: if_splits)
qed

subsection \<open>Properties\<close>

text \<open>An observer of the bounded buffer never loses an event silently: whatever was published,
  subscribed and disconnected before, a poll either raises \<open>ObserverLagged\<close> or returns every accepted
  event beyond the observer's position, in order; it raises only when events were dropped. Buffer and
  observer set stay within their limits.\<close>

lemma observer_no_silent_loss:
  assumes "buffer_run c m h b"
  shows "(case buf_poll b after of
            Inr evs \<Rightarrow> evs = filter (\<lambda>e. ev_sequence e > after) h
          | Inl (ObserverLagged first latest) \<Rightarrow>
              after + 1 < first \<and> h \<noteq> [] \<and> latest = ev_sequence (last h)
          | Inl (BufferConflict _) \<Rightarrow> False) \<and>
    int (length (buf_events b)) \<le> max 1 c \<and> int (length (buf_observers b)) \<le> max 1 m"
proof -
  define n where "n = nat (max 1 c)"
  have pos: "0 < n" and nc: "int n = max 1 c" by (simp_all add: n_def)
  from buffer_run_inv [OF assms] have ev: "buf_events b = last_n n h" and srt: "sorted_wrt (<) (map ev_sequence h)"
    and obs: "int (length (buf_observers b)) \<le> max 1 m"
    unfolding n_def by (simp_all, linarith)
  have keep: "filter (\<lambda>e. ev_sequence e > after) h = filter (\<lambda>e. ev_sequence e > after) (last_n n h)"
    if poll: "last_n n h = [] \<or> ev_sequence (hd (last_n n h)) \<le> after + 1"
  proof -
    let ?k = "length h - n"
    have "\<not> after < ev_sequence x" if x: "x \<in> set (take ?k h)" for x
    proof -
      have k: "?k < length h" using x pos by (cases h) auto
      have s: "sorted_wrt (<) (map ev_sequence (take ?k h) @ map ev_sequence (drop ?k h))"
        using srt by (metis append_take_drop_id map_append)
      have "hd (drop ?k h) \<in> set (drop ?k h)" using k by simp
      then have "ev_sequence x < ev_sequence (hd (drop ?k h))"
        using s x by (simp add: sorted_wrt_append)
      moreover have "drop ?k h \<noteq> []" using k by simp
      ultimately show ?thesis using poll by (simp add: last_n_def)
    qed
    then have "filter (\<lambda>e. after < ev_sequence e) (take ?k h) = []" by (simp add: filter_empty_conv)
    then show ?thesis unfolding last_n_def by (metis append_Nil append_take_drop_id filter_append)
  qed
  have len: "int (length (buf_events b)) \<le> max 1 c" using nc by (simp add: ev)
  show ?thesis
  proof (cases "last_n n h = [] \<or> ev_sequence (hd (last_n n h)) \<le> after + 1")
    case True
    with keep [OF True] len obs show ?thesis by (auto simp: buf_poll_def ev)
  next
    case False
    then have "h \<noteq> []" using last_n_eq_Nil [OF pos, of h] by simp
    with False len obs last_last_n [OF pos, of h] show ?thesis by (auto simp: buf_poll_def ev)
  qed
qed

definition sample_event :: "int \<Rightarrow> lifecycle_event" where
  "sample_event n = \<lparr>ev_task_id = ''t'', ev_sequence = n, ev_state = ''running'', ev_is_final = False,
     ev_observed_at = 0, ev_detail = []\<rparr>"

text \<open>A cancellation is signalled to the backend handler once: after a request that answered
  \<open>cancel_signalled\<close>, a further request for the same task answers the same without calling the handler and
  without changing the registry, and the evidence on record is the request just made. The evidence store
  keeps at most 256 tasks.\<close>

lemma cancellation_signalled_once:
  assumes wf: "registry_wf g" and call: "\<And>h g. registry_wf g \<Longrightarrow> registry_wf (fst (call h g))"
    and frame: "\<And>h g. map_of (reg_handlers (fst (call h g))) tid = map_of (reg_handlers g) tid"
    and first: "tid \<notin> set (reg_signalled g)" "\<not> terminal state"
      "reg_request call g tid state = (g1, Inr ''cancel_signalled'')"
  shows "reg_request call' g1 tid state = (g1, Inr ''cancel_signalled'') \<and>
    map_option evd_outcome (map_of (reg_evidence g1) tid) = Some ''cancel_requested'' \<and>
    length (reg_evidence g1) \<le> 256"
proof -
  from first obtain h where h: "map_of (reg_handlers g) tid = Some h"
    by (auto simp: reg_request_def split: option.splits)
  obtain g0 x where c: "call h g = (g0, x)" by fastforce
  with frame [of h g] h have h0: "map_of (reg_handlers g0) tid = Some h" by simp
  define g2 where "g2 = g0\<lparr>reg_signalled := List.insert tid (reg_signalled g0)\<rparr>"
  have g1: "g1 = fst (reg_report g2 tid ''cancel_requested'')"
    using first h c by (auto simp: reg_request_def Let_def g2_def split: handler_outcome.splits option.splits bool.splits)
  have "registry_wf g1" using reg_request_wf [OF wf, of call tid state] call first(3) by simp
  then have "length (reg_evidence g1) \<le> 256" unfolding registry_wf_def EVIDENCE_MAXLEN_def by (metis length_map)
  moreover have "map_of (reg_handlers g1) tid = Some h" "tid \<in> set (reg_signalled g1)"
    using h0 by (auto simp: g1 g2_def reg_report_def EVIDENCE_OUTCOMES_def Let_def)
  moreover have "map_option evd_outcome (map_of (reg_evidence g1) tid) = Some ''cancel_requested''"
    using remember_get [of g2 "\<lparr>evd_task_id = tid, evd_outcome = ''cancel_requested'', evd_cleanup_complete =
      (case map_of (reg_evidence g2) tid of None \<Rightarrow> False | Some c \<Rightarrow> evd_cleanup_complete c)\<rparr>"]
    by (simp add: g1 reg_report_def EVIDENCE_OUTCOMES_def Let_def)
  ultimately show ?thesis using first(2) by (simp add: reg_request_def)
qed

end
