(* ===== verification/Lifecycle_Policy.thy ===== *)
theory Lifecycle_Policy
  imports Lifecycle
begin

text \<open>
  The pure decision functions of the lifecycle profile: \<open>service_lifecycle_accounting.py\<close> (how often a
  task may reserve and settle) and \<open>service_lifecycle_distributed.py\<close> (the portable evaluator of the
  distributed profile). Their input is a mapping of dynamic values; an unhashable value in a membership
  test, or an ordering of unlike types, raises \<open>TypeError\<close>.
\<close>

subsection \<open>Accounting decisions\<close>

record accounting_decision =
  acc_decision :: string
  acc_reservation_action :: string
  acc_settlement_action :: string
  acc_new_execution :: bool

text \<open>\<open>_decision\<close>, whose optional arguments default to \<open>"none"\<close>, \<open>"none"\<close> and \<open>False\<close>.\<close>

definition decision :: "string \<Rightarrow> string \<Rightarrow> string \<Rightarrow> bool \<Rightarrow> accounting_decision" where
  "decision d r s n = \<lparr>acc_decision = d, acc_reservation_action = r, acc_settlement_action = s, acc_new_execution = n\<rparr>"

abbreviation verdict :: "string \<Rightarrow> py_error + accounting_decision" where
  "verdict d \<equiv> Inr (decision d ''none'' ''none'' False)"

definition decide_resume :: "pydict \<Rightarrow> py_error + accounting_decision" where
  "decide_resume request =
     (if is_true request ''resume_available'' then verdict ''replay_events''
      else if \<not> is_true request ''explicit_new_task'' then verdict ''explicit_new_task_required''
      else if sget request ''binding'' \<noteq> PStr ''fresh'' \<or> \<not> is_true request ''fresh_task_id'' \<or>
              \<not> is_true request ''fresh_idempotency_key''
      then verdict ''reject_identifier_reuse''
      else Inr (decision ''start_new_task'' ''create'' ''none'' True))"

definition decide_submit :: "pydict \<Rightarrow> py_error + accounting_decision" where
  "decide_submit request =
     (let binding = sget request ''binding''; reservation = is_true request ''reservation_exists'' in
      if binding = PStr ''conflict'' then verdict ''reject_conflict''
      else if binding = PStr ''same'' \<and> reservation then Inr (decision ''reuse_execution'' ''reuse'' ''none'' False)
      else if binding = PStr ''same'' then verdict ''reject_missing_reservation''
      else if reservation then verdict ''reject_conflict''
      else Inr (decision ''start_execution'' ''create'' ''none'' True))"

definition decide_cancel :: "pydict \<Rightarrow> py_error + accounting_decision" where
  "decide_cancel request =
     (if is_true request ''settlement_exists''
      then Inr (decision ''return_existing_settlement'' ''reuse'' ''reuse'' False)
      else if \<not> is_true request ''reservation_exists'' then verdict ''cancel_without_accounting''
      else if \<not> is_true request ''accepted''
      then Inr (decision ''cancel_before_acceptance'' ''release'' ''none'' False)
      else Inr (decision (if sget request ''delivery'' = PStr ''partial'' then ''cancel_after_partial_delivery''
                          else ''cancel_after_acceptance'') ''reuse'' ''create'' False))"

definition decide_terminal :: "pydict \<Rightarrow> py_error + accounting_decision" where
  "decide_terminal request =
     (if is_true request ''settlement_exists''
      then Inr (decision ''return_existing_settlement'' ''reuse'' ''reuse'' False)
      else if \<not> is_true request ''reservation_exists'' then verdict ''reject_missing_reservation''
      else bind_result (in_set (sget request ''terminal_state'') [''completed'', ''failed'', ''cancelled'', ''expired''])
        (\<lambda>ok. case sget request ''terminal_state'' of
           PStr st \<Rightarrow>
             if \<not> ok then verdict ''reject_invalid_input''
             else Inr (decision (''settle_'' @ st @ (if sget request ''delivery'' = PStr ''partial'' then ''_partial'' else []))
                         ''reuse'' ''create'' False)
         | _ \<Rightarrow> verdict ''reject_invalid_input''))"

text \<open>The decision once operation, binding and delivery are known values.\<close>

definition decide_valid :: "pydict \<Rightarrow> py_error + accounting_decision" where
  "decide_valid request =
     (let operation = sget request ''operation'' in
      if in_strs operation [''status'', ''observe'', ''cancel'', ''terminal''] \<and> sget request ''binding'' \<noteq> PStr ''same''
      then verdict ''reject_conflict''
      else if operation = PStr ''status'' then verdict ''return_status''
      else if operation = PStr ''observe'' then verdict ''replay_events''
      else if operation = PStr ''resume'' then decide_resume request
      else if operation = PStr ''submit'' then decide_submit request
      else if operation = PStr ''cancel'' then decide_cancel request
      else decide_terminal request)"

definition decide_lifecycle_accounting :: "pydict \<Rightarrow> py_error + accounting_decision" where
  "decide_lifecycle_accounting request =
     bind_result (in_set (sget request ''operation'')
         [''submit'', ''status'', ''observe'', ''resume'', ''cancel'', ''terminal''])
       (\<lambda>op_ok. if \<not> op_ok then verdict ''reject_invalid_input''
        else bind_result (in_set (sget request ''binding'') [''same'', ''conflict'', ''fresh''])
       (\<lambda>bind_ok. if \<not> bind_ok then verdict ''reject_invalid_input''
        else bind_result (in_set (sget request ''delivery'') [''none'', ''partial'', ''complete''])
       (\<lambda>del_ok. if \<not> del_ok then verdict ''reject_invalid_input'' else decide_valid request)))"

text \<open>The ledger of one task: what exists, and how often each was created. A request reports the ledger
  when its flags agree with it.\<close>

record task_ledger =
  led_reserved :: bool
  led_settled :: bool
  led_executions :: nat
  led_releases :: nat
  led_settlements :: nat

definition empty_ledger :: task_ledger where
  "empty_ledger = \<lparr>led_reserved = False, led_settled = False, led_executions = 0, led_releases = 0, led_settlements = 0\<rparr>"

definition reports :: "task_ledger \<Rightarrow> pydict \<Rightarrow> bool" where
  "reports led request \<longleftrightarrow>
     is_true request ''reservation_exists'' = led_reserved led \<and> is_true request ''settlement_exists'' = led_settled led \<and>
     sget request ''operation'' \<noteq> PStr ''resume''"

definition ledger_apply :: "task_ledger \<Rightarrow> py_error + accounting_decision \<Rightarrow> task_ledger" where
  "ledger_apply led res =
     (case res of Inl _ \<Rightarrow> led
      | Inr d \<Rightarrow>
         led\<lparr>led_reserved := (if acc_reservation_action d = ''create'' then True
                              else if acc_reservation_action d = ''release'' then False else led_reserved led),
             led_settled := (led_settled led \<or> acc_settlement_action d = ''create''),
             led_executions := led_executions led + of_bool (acc_new_execution d),
             led_releases := led_releases led + of_bool (acc_reservation_action d = ''release''),
             led_settlements := led_settlements led + of_bool (acc_settlement_action d = ''create'')\<rparr>)"

inductive ledger_run :: "task_ledger \<Rightarrow> bool" where
  ledger_start: "ledger_run empty_ledger"
| ledger_step: "ledger_run led \<Longrightarrow> reports led request \<Longrightarrow>
    ledger_run (ledger_apply led (decide_lifecycle_accounting request))"

lemma decide_terminal_cases:
  assumes "decide_terminal request = Inr d"
  obtains "is_true request ''settlement_exists''" "acc_reservation_action d = ''reuse''" "acc_settlement_action d = ''reuse''"
      "\<not> acc_new_execution d"
    | "acc_reservation_action d = ''none''" "acc_settlement_action d = ''none''" "\<not> acc_new_execution d"
    | "\<not> is_true request ''settlement_exists''" "is_true request ''reservation_exists''" "acc_reservation_action d = ''reuse''"
      "acc_settlement_action d = ''create''" "\<not> acc_new_execution d"
  using assms
  by (auto simp: decide_terminal_def decision_def bind_result_def in_set_def split: if_splits pyval.splits sum.splits)

text \<open>What a decision may do to the ledger it was taken on.\<close>

lemma decide_effects:
  assumes "decide_lifecycle_accounting request = Inr d" "sget request ''operation'' \<noteq> PStr ''resume''"
  shows "(acc_new_execution d \<longleftrightarrow> acc_reservation_action d = ''create'') \<and>
    (acc_reservation_action d = ''create'' \<longrightarrow> \<not> is_true request ''reservation_exists'' \<and> acc_settlement_action d = ''none'') \<and>
    (acc_reservation_action d = ''release'' \<longrightarrow>
       is_true request ''reservation_exists'' \<and> \<not> is_true request ''settlement_exists'' \<and> acc_settlement_action d = ''none'') \<and>
    (acc_settlement_action d = ''create'' \<longrightarrow>
       is_true request ''reservation_exists'' \<and> \<not> is_true request ''settlement_exists'' \<and> acc_reservation_action d = ''reuse'')"
proof -
  have valid: "decide_valid request = Inr d \<or>
      (acc_reservation_action d = ''none'' \<and> acc_settlement_action d = ''none'' \<and> \<not> acc_new_execution d)"
    using assms(1) unfolding decide_lifecycle_accounting_def bind_result_Inr_iff
    by (auto simp: bind_result_def decision_def split: sum.splits if_split_asm)
  consider "acc_reservation_action d = ''none''" "acc_settlement_action d = ''none''" "\<not> acc_new_execution d"
    | "decide_submit request = Inr d" | "decide_cancel request = Inr d" | "decide_terminal request = Inr d"
    using assms(2) valid by (force simp: decide_valid_def Let_def decision_def split: if_split_asm)
  then show ?thesis
  proof cases
    case 2
    then show ?thesis by (auto simp: decide_submit_def decision_def Let_def split: if_splits)
  next
    case 3
    then show ?thesis by (auto simp: decide_cancel_def decision_def split: if_splits)
  next
    case 4
    then show ?thesis by (cases rule: decide_terminal_cases) auto
  qed auto
qed

lemma ledger_run_inv:
  "ledger_run led \<Longrightarrow>
   led_settlements led = of_bool (led_settled led) \<and> (led_settled led \<longrightarrow> led_reserved led) \<and>
   led_executions led = led_releases led + of_bool (led_reserved led)"
proof (induction rule: ledger_run.induct)
  case (ledger_step led request)
  show ?case
  proof (cases "decide_lifecycle_accounting request")
    case (Inl e)
    with ledger_step.IH show ?thesis by (simp add: ledger_apply_def)
  next
    case (Inr d)
    have op: "sget request ''operation'' \<noteq> PStr ''resume''" using ledger_step(2) by (simp add: reports_def)
    consider (create) "acc_reservation_action d = ''create''" | (release) "acc_reservation_action d = ''release''"
      | (keep) "acc_reservation_action d \<noteq> ''create''" "acc_reservation_action d \<noteq> ''release''" by blast
    then show ?thesis
    proof cases
      case create
      with decide_effects [OF Inr op] ledger_step show ?thesis by (simp add: ledger_apply_def Inr reports_def)
    next
      case release
      with decide_effects [OF Inr op] ledger_step show ?thesis by (simp add: ledger_apply_def Inr reports_def)
    next
      case keep
      with decide_effects [OF Inr op] ledger_step show ?thesis
        by (cases "acc_settlement_action d = ''create''") (simp_all add: ledger_apply_def Inr reports_def)
    qed
  qed
qed (simp add: empty_ledger_def)

subsection \<open>The distributed profile evaluator\<close>

definition evaluate_distributed_lifecycle :: "pydict \<Rightarrow> py_error + string" where
  "evaluate_distributed_lifecycle vector =
     (let kind = sget vector ''kind'' in
      if kind = PStr ''owner_write'' then
        Inr (if py_eq (sget vector ''writer_epoch'') (sget vector ''current_epoch'')
             then ''write_accepted'' else ''stale_owner_rejected'')
      else if kind = PStr ''failover_submit'' then
        Inr (if \<not> is_true vector ''request_digest_matches'' \<or> \<not> is_true vector ''idempotency_key_matches''
             then ''conflict_no_new_execution''
             else if is_true vector ''execution_started'' then ''existing_execution_recovered''
             else ''existing_record_recovered'')
      else if kind = PStr ''append_event'' then
        if is_true vector ''event_id_seen'' then Inr ''duplicate_event_ignored''
        else bind_result (py_plus1 (get_or vector ''latest_sequence'' (PInt (-1))))
          (\<lambda>next. Inr (if py_eq (sget vector ''sequence'') next then ''event_appended'' else ''sequence_gap_rejected''))
      else if kind = PStr ''observe'' then
        bind_result (py_plus1 (get_or vector ''after_sequence'' (PInt (-1))))
          (\<lambda>next. bind_result (py_less next (get_or vector ''first_retained_sequence'' (PInt 0)))
            (\<lambda>gap. Inr (if gap
                        then if is_true vector ''terminal'' then ''terminal_snapshot_with_replay_gap'' else ''resume_unavailable''
                        else ''replay_available'')))
      else if kind = PStr ''terminal_retention'' then
        bind_result (py_less (get_or vector ''ttl_ms'' (PInt 0)) (get_or vector ''age_ms'' (PInt 0)))
          (\<lambda>old. Inr (if old then ''unknown_task_after_expiry'' else ''terminal_snapshot_available''))
      else if kind = PStr ''mutation_admission'' then
        Inr (if is_true vector ''quorum_available'' then ''mutation_allowed'' else ''temporarily_unavailable_no_write'')
      else if kind = PStr ''content_minimization'' then
        Inr (case sget vector ''detail'' of
               PDict d \<Rightarrow> if keys_within d ALLOWED_DETAIL_FIELDS then ''accepted'' else ''reject_before_write''
             | _ \<Rightarrow> ''reject_before_write'')
      else Inr ''unsupported_vector'')"

definition observe_vector :: "lifecycle_record \<Rightarrow> int \<Rightarrow> pydict" where
  "observe_vector r after =
     [(PStr ''kind'', PStr ''observe''), (PStr ''after_sequence'', PInt after),
      (PStr ''first_retained_sequence'', PInt (ev_sequence (hd (rec_events r)))),
      (PStr ''terminal'', PBool (terminal (rec_state r)))]"

definition append_vector :: "lifecycle_record \<Rightarrow> int \<Rightarrow> pydict" where
  "append_vector r n =
     [(PStr ''kind'', PStr ''append_event''), (PStr ''sequence'', PInt n),
      (PStr ''latest_sequence'', PInt (ev_sequence (last (rec_events r))))]"

subsection \<open>Properties\<close>

text \<open>C30: A task is accounted for at most once. Over any run of submit, status, observe, cancel and terminal
  decisions on one task, each taken with flags that report what the earlier ones created, at most one
  settlement is created and only on an existing reservation, and the executions started exceed the
  reservations released by at most one.\<close>

theorem accounting_at_most_once:
  assumes "ledger_run led" "reports led request"
    and led': "led' = ledger_apply led (decide_lifecycle_accounting request)"
  shows "led_settlements led' \<le> 1 \<and> (led_settled led' \<longrightarrow> led_reserved led') \<and>
    led_executions led' \<le> led_releases led' + 1 \<and>
    (led_settled led \<longrightarrow> led_settlements led' = led_settlements led \<and> led_executions led' = led_executions led)"
proof -
  have run: "ledger_run led'" unfolding led' using assms(1,2) by (rule ledger_step)
  have "led_settled led' = led_settled led" "led_reserved led'" "led_releases led' = led_releases led" if s: "led_settled led"
  proof -
    from s have res: "is_true request ''reservation_exists''" "is_true request ''settlement_exists''"
      using assms(2) ledger_run_inv [OF assms(1)] by (auto simp: reports_def)
    have "sget request ''operation'' \<noteq> PStr ''resume''" using assms(2) by (simp add: reports_def)
    with res s show "led_settled led' = led_settled led" "led_reserved led'" "led_releases led' = led_releases led"
      using ledger_run_inv [OF assms(1)] decide_effects [of request]
      by (auto simp: led' ledger_apply_def split: sum.splits)
  qed
  with ledger_run_inv [OF run] ledger_run_inv [OF assms(1)] show ?thesis by auto
qed

theorem accounting_at_most_once_witness:
  "led_settlements (ledger_apply empty_ledger (decide_lifecycle_accounting
     [(PStr ''operation'', PStr ''submit''), (PStr ''binding'', PStr ''fresh''), (PStr ''delivery'', PStr ''none'')])) \<le> 1"
  using accounting_at_most_once [OF ledger_start, of
      "[(PStr ''operation'', PStr ''submit''), (PStr ''binding'', PStr ''fresh''), (PStr ''delivery'', PStr ''none'')]", OF _ refl]
  by (simp add: reports_def empty_ledger_def is_true_def)

text \<open>The portable evaluator and the store agree: for a task of a reachable store, the evaluator finds a
  replay gap exactly when \<open>events_after\<close> refuses to resume, and accepts as next sequence number exactly
  the one a transition of the store produces.\<close>

lemma distributed_agrees_with_store:
  assumes "store_reachable n ttl s" "map_of (records s) tid = Some r" "\<not> record_expired s now r"
  shows "evaluate_distributed_lifecycle (observe_vector r after) =
      Inr (if snd (store_events_after s now tid after bound) = Inl (ResumeUnavailable r)
           then if terminal (rec_state r) then ''terminal_snapshot_with_replay_gap'' else ''resume_unavailable''
           else ''replay_available'') \<and>
    (store_transition s now now tid st detail = (s', Inr e) \<longrightarrow>
      evaluate_distributed_lifecycle (append_vector r k) =
        Inr (if k = ev_sequence e then ''event_appended'' else ''sequence_gap_rejected''))"
proof -
  from store_wf_lookup [OF reachable_store_wf [OF assms(1)] assms(2)] have wf: "record_wf (max_events s) r" by simp
  have ev: "snd (store_events_after s now tid after bound) = Inl (ResumeUnavailable r) \<longleftrightarrow>
      after + 1 < ev_sequence (hd (rec_events r))"
    using assms(2,3) by (simp add: store_events_after_def store_status_def record_wf_first [OF wf])
  have "ev_sequence e = ev_sequence (last (rec_events r)) + 1" if "store_transition s now now tid st detail = (s', Inr e)"
    using that assms(2) record_wf_latest [OF wf] by (auto elim!: store_transition_ok simp: next_event_def)
  moreover have "of_int after + 1 < (of_int f :: real) \<longleftrightarrow> after + 1 < f" for f :: int
    by (metis of_int_1 of_int_add of_int_less_iff)
  ultimately show ?thesis
    by (auto simp: evaluate_distributed_lifecycle_def observe_vector_def append_vector_def Let_def ev is_true_def)
qed

end
