(* ===== verification/Framing.thy ===== *)
theory Framing
  imports Py_Value
begin

text \<open>
  The native wire format of \<open>iicp_tcp.py\<close>: the twelve-byte header \<open>!4sBBBBI\<close> (magic, version, type, flags,
  a reserved byte, the payload length in network order), \<open>IicpFrame.encode\<close> and \<open>decode\<close>, the type registry,
  and the server's session loop over a TCP byte stream.

  The bytes a connection delivers arrive in segments the sender does not control; the session reads them
  through \<open>readexactly\<close> and \<open>read\<close>. The model keeps the segments, so that the loop's buffering is what is
  verified: the result must not depend on the segmentation.
\<close>

subsection \<open>Constants and message types\<close>

definition IICP_MAGIC :: bytes where
  "IICP_MAGIC = [73, 73, 67, 80]"

definition FRAMING_VERSION :: int where
  "FRAMING_VERSION = 1"

definition FRAME_HEADER_LEN :: nat where
  "FRAME_HEADER_LEN = 12"

definition MAX_FRAME_PAYLOAD :: nat where
  "MAX_FRAME_PAYLOAD = 16 * 1024 * 1024"

definition STABLE_TASK_MESSAGE_TYPES :: "int list" where
  "STABLE_TASK_MESSAGE_TYPES = [1, 2, 3, 4, 5, 6, 7, 8, 9, 10, 13, 14]"

definition stable_task_message_type_error :: "int \<Rightarrow> string option" where
  "stable_task_message_type_error t =
     (if t \<in> set STABLE_TASK_MESSAGE_TYPES then None
      else if t \<in> {0, 255} then Some ''invalid_type''
      else if t \<in> {11, 12} then Some ''conflicted_type''
      else if 240 \<le> t \<and> t \<le> 254 then Some ''unsupported_extension''
      else Some ''unknown_type'')"

datatype MsgType =
    INIT | ACK | DISCOVER | SUB_PROTOCOL | CALL | RESPONSE | CLOSE | FEEDBACK | PING | PONG
  | RELAY_BIND | RELAY_ACK

fun msg_code :: "MsgType \<Rightarrow> int" where
  "msg_code INIT = 1"
| "msg_code ACK = 2"
| "msg_code DISCOVER = 3"
| "msg_code SUB_PROTOCOL = 4"
| "msg_code CALL = 5"
| "msg_code RESPONSE = 6"
| "msg_code CLOSE = 7"
| "msg_code FEEDBACK = 8"
| "msg_code PING = 9"
| "msg_code PONG = 10"
| "msg_code RELAY_BIND = 11"
| "msg_code RELAY_ACK = 12"

text \<open>\<open>MsgType(n)\<close>, with \<open>ValueError\<close> as \<open>None\<close>.\<close>

definition msg_type_of :: "int \<Rightarrow> MsgType option" where
  "msg_type_of n = List.find (\<lambda>t. msg_code t = n)
     [INIT, ACK, DISCOVER, SUB_PROTOCOL, CALL, RESPONSE, CLOSE, FEEDBACK, PING, PONG, RELAY_BIND, RELAY_ACK]"

subsection \<open>Frames\<close>

record iicp_frame =
  fr_version :: int
  fr_msg_type :: int
  fr_flags :: int
  fr_payload :: bytes

text \<open>\<open>ValueError\<close> with the fixed part of its message; \<open>struct.error\<close> when a field does not fit its byte.\<close>

datatype frame_error = FrameValueError string | StructError

definition make_frame :: "MsgType \<Rightarrow> bytes \<Rightarrow> iicp_frame" where
  "make_frame t payload =
     \<lparr>fr_version = FRAMING_VERSION, fr_msg_type = msg_code t, fr_flags = 0, fr_payload = payload\<rparr>"

definition be32 :: "nat \<Rightarrow> bytes" where
  "be32 n = [of_nat (n div 16777216), of_nat (n div 65536), of_nat (n div 256), of_nat n]"

definition from_be32 :: "bytes \<Rightarrow> nat" where
  "from_be32 bs = unat (bs ! 0) * 16777216 + unat (bs ! 1) * 65536 + unat (bs ! 2) * 256 + unat (bs ! 3)"

definition fits_byte :: "int \<Rightarrow> bool" where
  "fits_byte n \<longleftrightarrow> 0 \<le> n \<and> n \<le> 255"

definition encode_frame :: "iicp_frame \<Rightarrow> frame_error + bytes" where
  "encode_frame f =
     (if fr_version f \<noteq> FRAMING_VERSION then Inl (FrameValueError ''Unsupported IICP framing version'')
      else if length (fr_payload f) > MAX_FRAME_PAYLOAD then Inl (FrameValueError ''IICP frame payload too large'')
      else if \<not> fits_byte (fr_msg_type f) \<or> \<not> fits_byte (fr_flags f) then Inl StructError
      else Inr (IICP_MAGIC @ [of_int (fr_version f), of_int (fr_msg_type f), of_int (fr_flags f), 0] @
                be32 (length (fr_payload f)) @ fr_payload f))"

text \<open>The fields \<open>unpack_from\<close> reads from at least twelve bytes.\<close>

record frame_header =
  hd_magic :: bytes
  hd_version :: int
  hd_msg_type :: int
  hd_flags :: int
  hd_payload_len :: nat

definition unpack_header :: "bytes \<Rightarrow> frame_header" where
  "unpack_header bs =
     \<lparr>hd_magic = take 4 bs, hd_version = uint (bs ! 4), hd_msg_type = uint (bs ! 5), hd_flags = uint (bs ! 6),
      hd_payload_len = from_be32 (take 4 (drop 8 bs))\<rparr>"

definition decode_frame :: "bytes \<Rightarrow> frame_error + iicp_frame \<times> nat" where
  "decode_frame bs =
     (if length bs < FRAME_HEADER_LEN then Inl (FrameValueError ''IICP frame too short'')
      else let h = unpack_header bs; total = FRAME_HEADER_LEN + hd_payload_len h in
        if hd_magic h \<noteq> IICP_MAGIC then Inl (FrameValueError ''Invalid IICP magic'')
        else if hd_version h \<noteq> FRAMING_VERSION then Inl (FrameValueError ''Unsupported IICP framing version'')
        else if hd_payload_len h > MAX_FRAME_PAYLOAD then Inl (FrameValueError ''IICP frame payload too large'')
        else if length bs < total then Inl (FrameValueError ''IICP payload truncated'')
        else Inr (\<lparr>fr_version = hd_version h, fr_msg_type = hd_msg_type h, fr_flags = hd_flags h,
                   fr_payload = drop FRAME_HEADER_LEN (take total bs)\<rparr>, total))"

subsection \<open>The session loop\<close>

text \<open>\<open>readexactly(n)\<close>: \<open>None\<close> is \<open>IncompleteReadError\<close>. \<open>read(4096)\<close> returns the next segment, empty at
  end of stream.\<close>

fun readexactly :: "nat \<Rightarrow> bytes list \<Rightarrow> (bytes \<times> bytes list) option" where
  "readexactly n [] = (if n = 0 then Some ([], []) else None)"
| "readexactly n (c # cs) =
     (if n \<le> length c then Some (take n c, if n = length c then cs else drop n c # cs)
      else map_option (\<lambda>(bs, cs'). (c @ bs, cs')) (readexactly (n - length c) cs))"

text \<open>The inner loops: read until the buffer holds \<open>n\<close> bytes; \<open>None\<close> when the stream ends first.\<close>

fun fill :: "nat \<Rightarrow> bytes \<Rightarrow> bytes list \<Rightarrow> (bytes \<times> bytes list) option" where
  "fill n buf cs =
     (if n \<le> length buf then Some (buf, cs)
      else (case cs of [] \<Rightarrow> None | c # cs' \<Rightarrow> if c = [] then None else fill n (buf @ c) cs'))"

declare fill.simps [simp del]

datatype session_end =
    StreamEnded | InvalidMagic | MagicDrift | UnsupportedVersion | RejectedType string | PayloadTooLarge
  | DecodeError | InvalidHandshake | PeerClosed | SessionRaised

lemma fill_some:
  "fill n buf cs = Some (buf', cs') \<Longrightarrow> n \<le> length buf' \<and> length buf' + length (concat cs') = length buf + length (concat cs)"
  by (induction n buf cs rule: fill.induct) (subst (asm) fill.simps, auto split: if_splits list.splits)

text \<open>\<open>dispatch w frame\<close> is what \<open>_dispatch\<close> does: it updates the world (what was written, the handlers'
  state) and returns whether to keep the session open, or raises (\<open>None\<close>).\<close>

function (sequential) session_loop ::
    "('w \<Rightarrow> iicp_frame \<Rightarrow> 'w \<times> bool option) \<Rightarrow> 'w \<Rightarrow> bool \<Rightarrow> bytes \<Rightarrow> bytes list \<Rightarrow> 'w \<times> session_end" where
  "session_loop dispatch w initialized buf cs =
     (case fill FRAME_HEADER_LEN buf cs of
        None \<Rightarrow> (w, StreamEnded)
      | Some (buf1, cs1) \<Rightarrow>
          let h = unpack_header buf1 in
          if hd_magic h \<noteq> IICP_MAGIC then (w, MagicDrift)
          else if hd_version h \<noteq> FRAMING_VERSION then (w, UnsupportedVersion)
          else (case stable_task_message_type_error (hd_msg_type h) of
            Some e \<Rightarrow> (w, RejectedType e)
          | None \<Rightarrow>
              if hd_payload_len h > MAX_FRAME_PAYLOAD then (w, PayloadTooLarge)
              else (case fill (FRAME_HEADER_LEN + hd_payload_len h) buf1 cs1 of
                None \<Rightarrow> (w, StreamEnded)
              | Some (buf2, cs2) \<Rightarrow>
                  (case decode_frame buf2 of
                     Inl _ \<Rightarrow> (w, DecodeError)
                   | Inr (frame, consumed) \<Rightarrow>
                       if (\<not> initialized \<and> hd_msg_type h \<noteq> msg_code INIT) \<or> (initialized \<and> hd_msg_type h = msg_code INIT)
                       then (w, InvalidHandshake)
                       else (case dispatch w frame of
                               (w', None) \<Rightarrow> (w', SessionRaised)
                             | (w', Some keep_open) \<Rightarrow>
                                 if \<not> keep_open then (w', PeerClosed)
                                 else session_loop dispatch w' True (drop consumed buf2) cs2)))))"
  by pat_completeness auto
termination
proof (relation "measure (\<lambda>(_, _, _, buf, cs). length buf + length (concat cs))", goal_cases)
  case (2 dispatch w initialized buf cs p buf1 cs1 h q buf2 cs2 r frame consumed s w' keep)
  have "12 \<le> consumed" "consumed \<le> length buf2"
    using 2 by (auto simp: decode_frame_def Let_def FRAME_HEADER_LEN_def split: if_splits)
  moreover have "length buf2 + length (concat cs2) = length buf + length (concat cs)"
    using 2 by (auto dest!: fill_some)
  ultimately show ?case by simp
qed simp

declare session_loop.simps [simp del]

definition session ::
    "('w \<Rightarrow> iicp_frame \<Rightarrow> 'w \<times> bool option) \<Rightarrow> 'w \<Rightarrow> bytes list \<Rightarrow> 'w \<times> session_end" where
  "session dispatch w cs =
     (case readexactly 4 cs of
        None \<Rightarrow> (w, StreamEnded)
      | Some (magic, cs1) \<Rightarrow>
          if magic \<noteq> IICP_MAGIC then (w, InvalidMagic)
          else (case readexactly (FRAME_HEADER_LEN - 4) cs1 of
                  None \<Rightarrow> (w, StreamEnded)
                | Some (rest, cs2) \<Rightarrow> session_loop dispatch w False (magic @ rest) cs2))"

subsection \<open>The session as a function of the byte stream\<close>

text \<open>The reference: the same protocol over the bytes of the whole stream, without buffering.\<close>

function (sequential) session_spec ::
    "('w \<Rightarrow> iicp_frame \<Rightarrow> 'w \<times> bool option) \<Rightarrow> 'w \<Rightarrow> bool \<Rightarrow> bytes \<Rightarrow> 'w \<times> session_end" where
  "session_spec dispatch w initialized bs =
     (if length bs < FRAME_HEADER_LEN then (w, StreamEnded)
      else let h = unpack_header bs in
        if hd_magic h \<noteq> IICP_MAGIC then (w, MagicDrift)
        else if hd_version h \<noteq> FRAMING_VERSION then (w, UnsupportedVersion)
        else (case stable_task_message_type_error (hd_msg_type h) of
          Some e \<Rightarrow> (w, RejectedType e)
        | None \<Rightarrow>
            (case decode_frame bs of
               Inl _ \<Rightarrow> (w, if hd_payload_len h > MAX_FRAME_PAYLOAD then PayloadTooLarge else StreamEnded)
             | Inr (frame, consumed) \<Rightarrow>
                 if initialized = (fr_msg_type frame = msg_code INIT) then (w, InvalidHandshake)
                 else (case dispatch w frame of
                         (w', None) \<Rightarrow> (w', SessionRaised)
                       | (w', Some False) \<Rightarrow> (w', PeerClosed)
                       | (w', Some True) \<Rightarrow> session_spec dispatch w' True (drop consumed bs)))))"
  by pat_completeness auto
termination
  by (relation "measure (\<lambda>(_, _, _, bs). length bs)")
    (auto simp: decode_frame_def Let_def FRAME_HEADER_LEN_def split: if_splits)

declare session_spec.simps [simp del]

lemma fill_concat:
  assumes "\<forall>c \<in> set cs. c \<noteq> []"
  shows "(case fill n buf cs of
            None \<Rightarrow> length (buf @ concat cs) < n
          | Some (buf', cs') \<Rightarrow> n \<le> length buf' \<and> buf' @ concat cs' = buf @ concat cs \<and> prefix buf buf' \<and>
              (\<forall>c \<in> set cs'. c \<noteq> []))"
  using assms
proof (induction n buf cs rule: fill.induct)
  case (1 n buf cs)
  show ?case
  proof (cases "n \<le> length buf \<or> cs = []")
    case True
    with "1.prems" show ?thesis by (auto simp: fill.simps)
  next
    case False
    then obtain c cs' where cs: "cs = c # cs'" and n: "\<not> n \<le> length buf" by (cases cs) auto
    with "1.prems" have c: "c \<noteq> []" "\<forall>c \<in> set cs'. c \<noteq> []" by auto
    have eq: "fill n buf (c # cs') = fill n (buf @ c) cs'" using n c by (subst fill.simps) simp
    from "1.IH" [OF n cs c(1,2)] show ?thesis
      unfolding cs eq by (auto split: option.splits dest: append_prefixD)
  qed
qed

lemma unpack_header_append: "FRAME_HEADER_LEN \<le> length buf \<Longrightarrow> unpack_header (buf @ xs) = unpack_header buf"
  by (auto simp: unpack_header_def FRAME_HEADER_LEN_def nth_append from_be32_def)

lemma decode_frame_append:
  assumes "FRAME_HEADER_LEN + hd_payload_len (unpack_header buf) \<le> length buf"
  shows "decode_frame (buf @ xs) = decode_frame buf"
  using assms unpack_header_append [of buf xs] by (simp add: decode_frame_def Let_def)

lemma decode_frame_ok:
  assumes "hd_magic (unpack_header bs) = IICP_MAGIC" "hd_version (unpack_header bs) = FRAMING_VERSION"
    "hd_payload_len (unpack_header bs) \<le> MAX_FRAME_PAYLOAD"
    "FRAME_HEADER_LEN + hd_payload_len (unpack_header bs) \<le> length bs"
  obtains f where "decode_frame bs = Inr (f, FRAME_HEADER_LEN + hd_payload_len (unpack_header bs))"
    "fr_msg_type f = hd_msg_type (unpack_header bs)"
  using assms that by (simp add: decode_frame_def Let_def)

lemma decode_frame_short:
  assumes "FRAME_HEADER_LEN \<le> length bs"
    "hd_payload_len (unpack_header bs) > MAX_FRAME_PAYLOAD \<or> length bs < FRAME_HEADER_LEN + hd_payload_len (unpack_header bs)"
  shows "\<exists>e. decode_frame bs = Inl e"
  using assms by (auto simp: decode_frame_def Let_def)

lemma session_loop_spec:
  "\<forall>c \<in> set cs. c \<noteq> [] \<Longrightarrow>
   session_loop dispatch w initialized buf cs = session_spec dispatch w initialized (buf @ concat cs)"
proof (induction dispatch w initialized buf cs rule: session_loop.induct)
  case (1 dispatch w initialized buf cs)
  note fill1 = fill_concat [OF "1.prems", where n = FRAME_HEADER_LEN and buf = buf]
  show ?case
  proof (cases "fill FRAME_HEADER_LEN buf cs")
    case None
    with fill1 show ?thesis by (subst session_loop.simps, subst session_spec.simps) simp
  next
    case (Some p)
    then obtain buf1 cs1 where f1: "fill FRAME_HEADER_LEN buf cs = Some (buf1, cs1)" by (cases p) auto
    with fill1 have b1: "FRAME_HEADER_LEN \<le> length buf1" "buf1 @ concat cs1 = buf @ concat cs" "\<forall>c \<in> set cs1. c \<noteq> []"
      by auto
    define h where "h = unpack_header buf1"
    have hbs: "unpack_header (buf @ concat cs) = h"
      using unpack_header_append [OF b1(1), of "concat cs1"] by (simp add: b1(2) h_def)
    have len: "\<not> length (buf @ concat cs) < FRAME_HEADER_LEN" using b1 by (metis length_append not_less trans_le_add1)
    show ?thesis
    proof (cases "hd_magic h = IICP_MAGIC \<and> hd_version h = FRAMING_VERSION \<and>
        stable_task_message_type_error (hd_msg_type h) = None \<and> hd_payload_len h \<le> MAX_FRAME_PAYLOAD")
      case False
      have "stable_task_message_type_error (hd_msg_type h) = None \<Longrightarrow> hd_payload_len h > MAX_FRAME_PAYLOAD \<Longrightarrow>
        \<exists>e. decode_frame (buf @ concat cs) = Inl e"
        using decode_frame_short [of "buf @ concat cs"] len hbs by auto
      with False f1 len hbs show ?thesis
        by (subst session_loop.simps, subst session_spec.simps) (auto simp: Let_def h_def split: option.splits)
    next
      case ok: True
      let ?n = "FRAME_HEADER_LEN + hd_payload_len h"
      note fill2 = fill_concat [OF b1(3), where n = ?n and buf = buf1]
      show ?thesis
      proof (cases "fill ?n buf1 cs1")
        case None
        with fill2 b1(2) have "length (buf @ concat cs) < ?n" by simp
        then obtain e where "decode_frame (buf @ concat cs) = Inl e"
          using decode_frame_short [of "buf @ concat cs"] len hbs by auto
        with None ok f1 len hbs show ?thesis
          by (subst session_loop.simps, subst session_spec.simps) (simp add: Let_def h_def)
      next
        case (Some q)
        then obtain buf2 cs2 where f2: "fill ?n buf1 cs1 = Some (buf2, cs2)" by (cases q) auto
        with fill2 b1(2) have b2: "?n \<le> length buf2" "buf2 @ concat cs2 = buf @ concat cs"
          "prefix buf1 buf2" "\<forall>c \<in> set cs2. c \<noteq> []" by auto
        have h2: "unpack_header buf2 = h"
          using b2(3) unpack_header_append [OF b1(1)] by (auto simp: prefix_def h_def)
        obtain f where d2: "decode_frame buf2 = Inr (f, ?n)" and mt: "fr_msg_type f = hd_msg_type h"
          using decode_frame_ok [of buf2] ok b2(1) h2 by metis
        have d: "decode_frame (buf @ concat cs) = Inr (f, ?n)"
          using decode_frame_append [of buf2 "concat cs2"] b2(1,2) d2 h2 by simp
        have rest: "drop ?n buf2 @ concat cs2 = drop ?n (buf @ concat cs)"
          using b2(1,2) by (metis drop_append diff_is_0_eq drop0)
        have step: "session_loop dispatch w' True (drop ?n buf2) cs2 = session_spec dispatch w' True (drop ?n (buf @ concat cs))"
          if "dispatch w f = (w', Some True)"
            "\<not> ((\<not> initialized \<and> hd_msg_type h \<noteq> msg_code INIT) \<or> (initialized \<and> hd_msg_type h = msg_code INIT))" for w'
          using "1.IH" [OF f1 refl h_def _ _ _ _ f2 refl d2 refl that(2), of w' "Some True" True] that(1) ok b2(4) rest
          by simp
        show ?thesis
          using f1 f2 ok len hbs d2 d mt step
          apply (subst session_loop.simps, subst session_spec.simps)
          apply (cases "dispatch w f")
          apply (auto simp: Let_def h_def split: option.splits bool.splits)
          done
      qed
    qed
  qed
qed

lemma readexactly_concat:
  "\<forall>c \<in> set cs. c \<noteq> [] \<Longrightarrow>
   (case readexactly n cs of
      None \<Rightarrow> length (concat cs) < n
    | Some (bs, cs') \<Rightarrow> n \<le> length (concat cs) \<and> bs = take n (concat cs) \<and> concat cs' = drop n (concat cs) \<and>
        (\<forall>c \<in> set cs'. c \<noteq> []))"
proof (induction n cs rule: readexactly.induct)
  case (2 n c cs)
  show ?case
  proof (cases "n \<le> length c")
    case True
    with "2.prems" show ?thesis by auto
  next
    case False
    with "2.prems" have "case readexactly (n - length c) cs of
      None \<Rightarrow> length (concat cs) < n - length c
    | Some (bs, cs') \<Rightarrow> n - length c \<le> length (concat cs) \<and> bs = take (n - length c) (concat cs) \<and>
        concat cs' = drop (n - length c) (concat cs) \<and> (\<forall>c \<in> set cs'. c \<noteq> [])"
      by (intro "2.IH") auto
    with False show ?thesis by (auto split: option.splits)
  qed
qed simp

text \<open>The whole session over the bytes of the stream.\<close>

definition session_bytes ::
    "('w \<Rightarrow> iicp_frame \<Rightarrow> 'w \<times> bool option) \<Rightarrow> 'w \<Rightarrow> bytes \<Rightarrow> 'w \<times> session_end" where
  "session_bytes dispatch w bs =
     (if 4 \<le> length bs \<and> take 4 bs \<noteq> IICP_MAGIC then (w, InvalidMagic) else session_spec dispatch w False bs)"

lemma session_spec_short: "length bs < FRAME_HEADER_LEN \<Longrightarrow> session_spec dispatch w initialized bs = (w, StreamEnded)"
  by (subst session_spec.simps) simp

lemma session_segmentation:
  assumes "\<forall>c \<in> set cs. c \<noteq> []"
  shows "session dispatch w cs = session_bytes dispatch w (concat cs)"
proof (cases "readexactly 4 cs")
  case None
  with readexactly_concat [OF assms, of 4] show ?thesis
    by (simp add: session_def session_bytes_def session_spec_short FRAME_HEADER_LEN_def)
next
  case (Some p)
  then obtain m cs1 where r4: "readexactly 4 cs = Some (m, cs1)" by (cases p) auto
  with readexactly_concat [OF assms, of 4] have m: "4 \<le> length (concat cs)" "m = take 4 (concat cs)"
    "concat cs1 = drop 4 (concat cs)" "\<forall>c \<in> set cs1. c \<noteq> []" by auto
  note r8 = readexactly_concat [OF m(4), of "FRAME_HEADER_LEN - 4"]
  show ?thesis
  proof (cases "readexactly (FRAME_HEADER_LEN - 4) cs1")
    case None
    with r8 m have "length (concat cs) < FRAME_HEADER_LEN" by (simp add: FRAME_HEADER_LEN_def)
    with None r4 m show ?thesis by (simp add: session_def session_bytes_def session_spec_short)
  next
    case (Some q)
    then obtain rest cs2 where q: "readexactly (FRAME_HEADER_LEN - 4) cs1 = Some (rest, cs2)" by (cases q) auto
    with r8 have "rest = take (FRAME_HEADER_LEN - 4) (concat cs1)" "concat cs2 = drop (FRAME_HEADER_LEN - 4) (concat cs1)"
      "\<forall>c \<in> set cs2. c \<noteq> []" by auto
    then have rest: "rest @ concat cs2 = concat cs1" and ne: "\<forall>c \<in> set cs2. c \<noteq> []"
      by (simp_all only: append_take_drop_id)
    have "m @ concat cs1 = concat cs" by (simp only: m(2,3) append_take_drop_id)
    with rest have "(m @ rest) @ concat cs2 = concat cs" by simp
    with session_loop_spec [OF ne, of dispatch w False "m @ rest"]
    have "session_loop dispatch w False (m @ rest) cs2 = session_spec dispatch w False (concat cs)" by simp
    with q r4 m(1,2) show ?thesis
      unfolding session_def session_bytes_def by (auto simp del: length_concat)
  qed
qed

subsection \<open>Encoding and decoding\<close>

lemma from_be32_be32: "n < 4294967296 \<Longrightarrow> from_be32 (be32 n) = n"
proof -
  assume n: "n < 4294967296"
  define a where "a = n div 256"
  define b where "b = a div 256"
  define c where "c = b div 256"
  have split: "n = 256 * a + n mod 256" "a = 256 * b + a mod 256" "b = 256 * c + b mod 256"
    by (simp_all add: a_def b_def c_def)
  have div: "n div 65536 = b" "n div 16777216 = c"
    by (simp_all add: a_def b_def c_def div_mult2_eq [symmetric])
  have "c < 256" using n by (simp add: c_def b_def a_def div_mult2_eq [symmetric] less_mult_imp_div_less)
  then have "from_be32 (be32 n) = c * 16777216 + (b mod 256) * 65536 + (a mod 256) * 256 + n mod 256"
    by (simp add: from_be32_def be32_def div unat_of_nat a_def)
  then show ?thesis using split by linarith
qed

lemma uint_byte: "fits_byte n \<Longrightarrow> uint (of_int n :: byte) = n"
  by (simp add: fits_byte_def unsigned_of_int take_bit_eq_mod)

lemma encode_frame_Inr:
  "encode_frame f = Inr bs \<longleftrightarrow>
   fr_version f = FRAMING_VERSION \<and> length (fr_payload f) \<le> MAX_FRAME_PAYLOAD \<and> fits_byte (fr_msg_type f) \<and>
   fits_byte (fr_flags f) \<and>
   bs = IICP_MAGIC @ [of_int (fr_version f), of_int (fr_msg_type f), of_int (fr_flags f), 0] @
        be32 (length (fr_payload f)) @ fr_payload f"
  by (auto simp: encode_frame_def)

lemma decode_encode:
  assumes "encode_frame f = Inr bs"
  shows "decode_frame (bs @ xs) = Inr (f, length bs)"
    and "unpack_header (bs @ xs) = \<lparr>hd_magic = IICP_MAGIC, hd_version = FRAMING_VERSION, hd_msg_type = fr_msg_type f,
           hd_flags = fr_flags f, hd_payload_len = length (fr_payload f)\<rparr>"
    and "length bs = FRAME_HEADER_LEN + length (fr_payload f)"
    and "drop FRAME_HEADER_LEN bs = fr_payload f"
proof -
  from assms have ok: "fr_version f = FRAMING_VERSION" "length (fr_payload f) \<le> MAX_FRAME_PAYLOAD"
    "fits_byte (fr_msg_type f)" "fits_byte (fr_flags f)"
    and bs: "bs = [73, 73, 67, 80, of_int (fr_version f), of_int (fr_msg_type f), of_int (fr_flags f), 0] @
        be32 (length (fr_payload f)) @ fr_payload f"
    by (simp_all add: encode_frame_Inr IICP_MAGIC_def)
  have l4: "length (be32 n) = 4" for n by (simp add: be32_def)
  have "from_be32 (be32 (length (fr_payload f))) = length (fr_payload f)"
    using ok(2) by (intro from_be32_be32) (simp add: MAX_FRAME_PAYLOAD_def)
  then show h: "unpack_header (bs @ xs) = \<lparr>hd_magic = IICP_MAGIC, hd_version = FRAMING_VERSION,
      hd_msg_type = fr_msg_type f, hd_flags = fr_flags f, hd_payload_len = length (fr_payload f)\<rparr>"
    using ok by (simp add: bs unpack_header_def IICP_MAGIC_def l4 uint_byte FRAMING_VERSION_def eval_nat_numeral)
  show len: "length bs = FRAME_HEADER_LEN + length (fr_payload f)"
    by (simp add: bs l4 FRAME_HEADER_LEN_def)
  show "drop FRAME_HEADER_LEN bs = fr_payload f"
    by (simp add: bs l4 FRAME_HEADER_LEN_def be32_def)
  then show "decode_frame (bs @ xs) = Inr (f, length bs)"
    using ok h len by (simp add: decode_frame_def Let_def)
qed

text \<open>Running the dispatcher over frames that are already parsed.\<close>

fun run_frames :: "('w \<Rightarrow> iicp_frame \<Rightarrow> 'w \<times> bool option) \<Rightarrow> 'w \<Rightarrow> iicp_frame list \<Rightarrow> 'w \<times> session_end" where
  "run_frames dispatch w [] = (w, StreamEnded)"
| "run_frames dispatch w (f # fs) =
     (case dispatch w f of
        (w', None) \<Rightarrow> (w', SessionRaised)
      | (w', Some False) \<Rightarrow> (w', PeerClosed)
      | (w', Some True) \<Rightarrow> run_frames dispatch w' fs)"

lemma session_spec_frames:
  assumes "list_all2 (\<lambda>f bs. encode_frame f = Inr bs) fs bss"
    "\<forall>f \<in> set fs. stable_task_message_type_error (fr_msg_type f) = None"
    "\<forall>f \<in> set (if initialized then fs else tl fs). fr_msg_type f \<noteq> msg_code INIT"
    "\<not> initialized \<Longrightarrow> fs \<noteq> [] \<Longrightarrow> fr_msg_type (hd fs) = msg_code INIT"
  shows "session_spec dispatch w initialized (concat bss) = run_frames dispatch w fs"
  using assms
proof (induction fs arbitrary: bss w initialized)
  case Nil
  then show ?case by (simp add: session_spec_short FRAME_HEADER_LEN_def)
next
  case (Cons f fs)
  then obtain bs rest where bss: "bss = bs # rest" "encode_frame f = Inr bs"
    "list_all2 (\<lambda>f bs. encode_frame f = Inr bs) fs rest" by (auto simp: list_all2_Cons1)
  have hs: "initialized \<noteq> (fr_msg_type f = msg_code INIT)" using Cons.prems(3,4) by (cases initialized) auto
  have IH: "session_spec dispatch w' True (concat rest) = run_frames dispatch w' fs" for w'
    using Cons.prems(2,3) bss(3) by (intro Cons.IH) (auto split: if_splits)
  have "stable_task_message_type_error (fr_msg_type f) = None" using Cons.prems(2) by simp
  with hs decode_encode(1,2) [OF bss(2), of "concat rest"] decode_encode(3) [OF bss(2)] show ?case
    by (subst session_spec.simps) (auto simp: bss(1) Let_def IH split: option.splits bool.splits prod.splits)
qed

text \<open>What was dispatched, recorded beside the world.\<close>

definition logged :: "('w \<Rightarrow> iicp_frame \<Rightarrow> 'w \<times> bool option) \<Rightarrow> 'w \<times> iicp_frame list \<Rightarrow> iicp_frame \<Rightarrow>
    ('w \<times> iicp_frame list) \<times> bool option" where
  "logged dispatch wl f = ((fst (dispatch (fst wl) f), snd wl @ [f]), snd (dispatch (fst wl) f))"

definition admissible :: "iicp_frame \<Rightarrow> bool" where
  "admissible f \<longleftrightarrow> fr_version f = FRAMING_VERSION \<and> stable_task_message_type_error (fr_msg_type f) = None \<and>
     length (fr_payload f) \<le> MAX_FRAME_PAYLOAD"

definition handshake_order :: "iicp_frame list \<Rightarrow> bool" where
  "handshake_order fs \<longleftrightarrow>
     (\<forall>i < length fs. (fr_msg_type (fs ! i) = msg_code INIT) = (i = 0))"

lemma handshake_order_snoc:
  "handshake_order (fs @ [f]) \<longleftrightarrow> handshake_order fs \<and> (fr_msg_type f = msg_code INIT) = (fs = [])"
  unfolding handshake_order_def by (auto simp: nth_append less_Suc_eq)

lemma decode_frame_admissible:
  assumes "decode_frame bs = Inr (f, n)"
  shows "fr_version f = FRAMING_VERSION" "length (fr_payload f) \<le> MAX_FRAME_PAYLOAD"
    "fr_msg_type f = hd_msg_type (unpack_header bs)"
  using assms by (auto simp: decode_frame_def Let_def split: if_splits)

lemma session_spec_log:
  assumes "list_all admissible tr" "handshake_order tr" "initialized \<longleftrightarrow> tr \<noteq> []"
    "session_spec (logged dispatch) (w, tr) initialized bs = ((w', tr'), e)"
  shows "list_all admissible tr' \<and> handshake_order tr'"
  using assms
proof (induction bs arbitrary: w tr initialized rule: length_induct)
  case (1 bs w tr initialized)
  note step = "1.prems"(4) [unfolded session_spec.simps [of "logged dispatch" "(w, tr)" initialized bs]]
  show ?case
  proof (cases "(w', tr') = (w, tr)")
    case True
    with "1.prems" show ?thesis by simp
  next
    case changed: False
    then obtain f n where ok: "\<not> length bs < FRAME_HEADER_LEN" "hd_magic (unpack_header bs) = IICP_MAGIC"
      "hd_version (unpack_header bs) = FRAMING_VERSION" "stable_task_message_type_error (hd_msg_type (unpack_header bs)) = None"
      and d: "decode_frame bs = Inr (f, n)" and hs: "initialized \<noteq> (fr_msg_type f = msg_code INIT)"
      using step by (auto simp: Let_def split: if_splits option.splits sum.splits)
    have adm: "admissible f" using decode_frame_admissible [OF d] ok by (simp add: admissible_def)
    have inv: "list_all admissible (tr @ [f])" "handshake_order (tr @ [f])"
      using "1.prems" adm hs by (auto simp: handshake_order_snoc)
    obtain w1 k where dp: "dispatch w f = (w1, k)" by fastforce
    then have ld: "logged dispatch (w, tr) f = ((w1, tr @ [f]), k)" by (simp add: logged_def)
    show ?thesis
    proof (cases "k = Some True")
      case True
      then have "session_spec (logged dispatch) (w1, tr @ [f]) True (drop n bs) = ((w', tr'), e)"
        using step ok d hs ld by (simp add: Let_def)
      moreover have "length (drop n bs) < length bs"
        using d by (auto simp: decode_frame_def Let_def FRAME_HEADER_LEN_def split: if_splits)
      ultimately show ?thesis using "1.IH" inv by blast
    next
      case False
      then have "tr' = tr @ [f]" using step ok d hs ld
        by (cases k) (auto simp: Let_def split: bool.splits)
      with inv show ?thesis by simp
    qed
  qed
qed

subsection \<open>Properties\<close>

definition sample_frames :: "iicp_frame list" where
  "sample_frames = [make_frame INIT [161, 1, 1], make_frame PING []]"

lemma sample_frames_encode:
  "list_all2 (\<lambda>f bs. encode_frame f = Inr bs) sample_frames
     [[73, 73, 67, 80, 1, 1, 0, 0, 0, 0, 0, 3, 161, 1, 1], [73, 73, 67, 80, 1, 9, 0, 0, 0, 0, 0, 0]]"
  by (simp add: sample_frames_def make_frame_def encode_frame_def FRAMING_VERSION_def MAX_FRAME_PAYLOAD_def
      fits_byte_def IICP_MAGIC_def be32_def)

text \<open>C26: The wire format round-trips: every frame that \<open>encode\<close> accepts is read back by \<open>decode\<close>, from the
  front of any longer buffer, as the same frame and with the number of bytes it took; \<open>encode\<close> accepts
  exactly version 1 frames with byte-sized type and flags and at most 16 MiB of payload. Whatever \<open>decode\<close>
  accepts is such a frame and lies within the buffer.\<close>

theorem frame_roundtrip:
  "(encode_frame f = Inr bs \<longrightarrow> decode_frame (bs @ xs) = Inr (f, length bs) \<and>
      length bs = FRAME_HEADER_LEN + length (fr_payload f)) \<and>
   (is_ok (encode_frame f) \<longleftrightarrow> fr_version f = 1 \<and> length (fr_payload f) \<le> 16777216 \<and>
      0 \<le> fr_msg_type f \<and> fr_msg_type f \<le> 255 \<and> 0 \<le> fr_flags f \<and> fr_flags f \<le> 255) \<and>
   (decode_frame ys = Inr (g, n) \<longrightarrow> is_ok (encode_frame g) \<and> n \<le> length ys \<and>
      n = FRAME_HEADER_LEN + length (fr_payload g) \<and> fr_payload g = drop FRAME_HEADER_LEN (take n ys))"
proof (intro conjI impI)
  have b: "0 \<le> uint (x :: byte)" "uint (x :: byte) \<le> 255" for x
    using uint_lt2p [of x] by simp_all
  assume d: "decode_frame ys = Inr (g, n)"
  then have "fits_byte (fr_msg_type g)" "fits_byte (fr_flags g)"
    using b by (auto simp: decode_frame_def Let_def fits_byte_def unpack_header_def split: if_splits)
  with decode_frame_admissible(1,2) [OF d] show "is_ok (encode_frame g)" by (simp add: encode_frame_def)
  from d show "n \<le> length ys" "n = FRAME_HEADER_LEN + length (fr_payload g)" "fr_payload g = drop FRAME_HEADER_LEN (take n ys)"
    by (auto simp: decode_frame_def Let_def split: if_splits)
qed (auto simp: decode_encode, auto simp: encode_frame_def FRAMING_VERSION_def MAX_FRAME_PAYLOAD_def fits_byte_def split: if_splits)

theorem frame_roundtrip_witness:
  "decode_frame ([73, 73, 67, 80, 1, 9, 0, 0, 0, 0, 0, 0] @ [7, 7]) = Inr (make_frame PING [], 12)"
  using frame_roundtrip [of "make_frame PING []" "[73, 73, 67, 80, 1, 9, 0, 0, 0, 0, 0, 0]" "[7, 7]"] sample_frames_encode
  by (simp add: sample_frames_def) (simp add: make_frame_def FRAME_HEADER_LEN_def)

text \<open>C2: The session is independent of TCP segmentation: however the network cuts the byte stream, the
  server ends in the state and for the reason that the reference protocol over the whole stream gives; and
  when the stream is a sequence of encoded frames that starts with INIT, exactly these frames are
  dispatched, in order, until one closes the session.\<close>

theorem session_exact:
  assumes "\<forall>c \<in> set segments. c \<noteq> []"
  shows "session dispatch w segments = session_bytes dispatch w (concat segments) \<and>
    (list_all2 (\<lambda>f bs. encode_frame f = Inr bs) fs bss \<and> concat segments = concat bss \<and> handshake_order fs \<and>
     (\<forall>f \<in> set fs. stable_task_message_type_error (fr_msg_type f) = None) \<longrightarrow>
       session dispatch w segments = run_frames dispatch w fs)"
proof (intro conjI impI)
  show eq: "session dispatch w segments = session_bytes dispatch w (concat segments)"
    using assms by (rule session_segmentation)
  assume *: "list_all2 (\<lambda>f bs. encode_frame f = Inr bs) fs bss \<and> concat segments = concat bss \<and> handshake_order fs \<and>
     (\<forall>f \<in> set fs. stable_task_message_type_error (fr_msg_type f) = None)"
  then have enc: "list_all2 (\<lambda>f bs. encode_frame f = Inr bs) fs bss" by blast
  have first: "fr_msg_type (hd fs) = msg_code INIT" if "fs \<noteq> []"
    using * that by (auto simp: handshake_order_def hd_conv_nth)
  have others: "fr_msg_type f \<noteq> msg_code INIT" if "f \<in> set (tl fs)" for f
    using * that unfolding handshake_order_def in_set_conv_nth by (metis length_tl less_diff_conv nat.simps(3) nth_tl Suc_eq_plus1)
  have "session_spec dispatch w False (concat bss) = run_frames dispatch w fs"
    using enc * first others by (intro session_spec_frames) auto
  moreover have "4 \<le> length (concat bss) \<Longrightarrow> take 4 (concat bss) = IICP_MAGIC"
    using enc by (cases fs) (auto simp: list_all2_Cons1 encode_frame_Inr IICP_MAGIC_def)
  ultimately show "session dispatch w segments = run_frames dispatch w fs"
    using * by (simp only: eq session_bytes_def if_False simp_thms cong: if_cong) auto
qed

theorem session_exact_witness:
  "session (\<lambda>w f. (w @ [f], Some True)) []
     [[73, 73, 67], [80, 1, 1, 0, 0, 0, 0, 0, 3, 161], [1, 1, 73, 73, 67, 80, 1, 9, 0, 0, 0, 0, 0, 0]] =
   (sample_frames, StreamEnded)"
  using session_exact [of "[[73, 73, 67], [80, 1, 1, 0, 0, 0, 0, 0, 3, 161], [1, 1, 73, 73, 67, 80, 1, 9, 0, 0, 0, 0, 0, 0]]"
      "\<lambda>w f. (w @ [f], Some True)" "[]" sample_frames
      "[[73, 73, 67, 80, 1, 1, 0, 0, 0, 0, 0, 3, 161, 1, 1], [73, 73, 67, 80, 1, 9, 0, 0, 0, 0, 0, 0]]"] sample_frames_encode
  by (simp add: sample_frames_def handshake_order_def make_frame_def stable_task_message_type_error_def
      STABLE_TASK_MESSAGE_TYPES_def less_Suc_eq) metis

text \<open>No frame reaches a handler out of turn: for any bytes a peer sends, what is dispatched is an INIT
  followed by frames that are not INIT, every one of version 1, of a stable task type and within the payload
  limit.\<close>

lemma session_handshake_guard:
  assumes "\<forall>c \<in> set segments. c \<noteq> []" "session (logged dispatch) (w, []) segments = ((w', dispatched), e)"
  shows "handshake_order dispatched \<and> list_all admissible dispatched"
proof -
  have "session_bytes (logged dispatch) (w, []) (concat segments) = ((w', dispatched), e)"
    using assms by (simp add: session_segmentation)
  then have "dispatched = [] \<or> session_spec (logged dispatch) (w, []) False (concat segments) = ((w', dispatched), e)"
    by (auto simp: session_bytes_def split: if_splits)
  then show ?thesis
    using session_spec_log [of "[]" False dispatch w "concat segments" w' dispatched e]
    by (auto simp: handshake_order_def)
qed

end
