(* ===== verification/Native_Sequence.thy ===== *)
theory Native_Sequence
  imports Py_Value
begin

text \<open>
  The transport-independent validators of the native lifecycle profile: \<open>NativeResponseSequence\<close>
  (\<open>native_response_sequence.py\<close>), which checks the RESPONSE history of one CALL, and
  \<open>NativeCallIdentityRegistry\<close> (\<open>native_call_identity.py\<close>), which binds task identifiers to
  idempotency keys across CALLs. Frames and calls are mappings of dynamic values.
\<close>

subsection \<open>Response sequences\<close>

record native_sequence =
  ns_session_id :: string
  ns_call_id :: string
  ns_task_id :: string
  ns_next_sequence :: int
  ns_terminal_seen :: bool

definition new_sequence :: "string \<Rightarrow> string \<Rightarrow> string \<Rightarrow> native_sequence" where
  "new_sequence sid cid tid =
     \<lparr>ns_session_id = sid, ns_call_id = cid, ns_task_id = tid, ns_next_sequence = 0, ns_terminal_seen = False\<rparr>"

text \<open>\<open>NativeResponseSequenceError(code)\<close>, or \<open>TypeError\<close> from hashing the event name.\<close>

datatype sequence_error = SequenceError string | SequenceTypeError

definition EXPECTED_EVENTS :: "(string, string list) dict" where
  "EXPECTED_EVENTS =
     [(''partial'', [''partial'']), (''success'', [''completed'']), (''error'', [''failed'', ''cancelled'']),
      (''timeout'', [''timed_out'', ''expired''])]"

text \<open>The checks of \<open>accept\<close> in order, without the update.\<close>

definition check_frame :: "native_sequence \<Rightarrow> pydict \<Rightarrow> sequence_error + bool" where
  "check_frame s frame =
     (if ns_terminal_seen s then Inl (SequenceError ''response_after_terminal'')
      else (case sget frame ''lifecycle'' of
        PDict lc \<Rightarrow>
          if sget frame ''session_id'' \<noteq> PStr (ns_session_id s) then Inl (SequenceError ''session_id_drift'')
          else if sget frame ''call_id'' \<noteq> PStr (ns_call_id s) then Inl (SequenceError ''call_id_drift'')
          else if sget lc ''task_id'' \<noteq> PStr (ns_task_id s) then Inl (SequenceError ''task_id_drift'')
          else if \<not> py_eq (sget lc ''sequence'') (PInt (ns_next_sequence s)) then Inl (SequenceError ''sequence_drift'')
          else if \<not> py_eq (sget frame ''is_final'') (sget lc ''is_final'') then Inl (SequenceError ''finality_disagreement'')
          else (case sget frame ''status'' of
            PStr status \<Rightarrow>
              (case map_of EXPECTED_EVENTS status of
                 None \<Rightarrow> Inl (SequenceError ''status_event_disagreement'')
               | Some events \<Rightarrow>
                   (case in_set (sget lc ''event'') events of
                      Inl _ \<Rightarrow> Inl SequenceTypeError
                    | Inr ok \<Rightarrow>
                        if \<not> ok then Inl (SequenceError ''status_event_disagreement'')
                        else if (status = ''partial'' \<and> \<not> is_false frame ''is_final'') \<or>
                                (status \<noteq> ''partial'' \<and> \<not> is_true frame ''is_final'')
                        then Inl (SequenceError ''terminal_flag_mismatch'')
                        else Inr (status \<noteq> ''partial'')))
          | _ \<Rightarrow> Inl (SequenceError ''status_event_disagreement''))
      | _ \<Rightarrow> Inl (SequenceError ''missing_lifecycle'')))"

definition seq_accept :: "native_sequence \<Rightarrow> pydict \<Rightarrow> native_sequence \<times> (sequence_error + unit)" where
  "seq_accept s frame =
     (case check_frame s frame of
        Inl e \<Rightarrow> (s, Inl e)
      | Inr _ \<Rightarrow> (s\<lparr>ns_next_sequence := ns_next_sequence s + 1, ns_terminal_seen := truthy (sget frame ''is_final'')\<rparr>, Inr ()))"

definition seq_finish :: "native_sequence \<Rightarrow> sequence_error + unit" where
  "seq_finish s = (if \<not> ns_terminal_seen s then Inl (SequenceError ''missing_terminal_response'') else Inr ())"

text \<open>A whole history: \<open>accept\<close> for every frame, then \<open>finish\<close>.\<close>

fun accept_all :: "native_sequence \<Rightarrow> pydict list \<Rightarrow> sequence_error + native_sequence" where
  "accept_all s [] = Inr s"
| "accept_all s (f # fs) = (case seq_accept s f of (s', Inl e) \<Rightarrow> Inl e | (s', Inr _) \<Rightarrow> accept_all s' fs)"

definition frame_final :: "pydict \<Rightarrow> bool" where
  "frame_final f \<longleftrightarrow> sget f ''status'' \<noteq> PStr ''partial''"

text \<open>What one accepted frame says, at position \<open>i\<close>.\<close>

definition frame_matches :: "string \<Rightarrow> string \<Rightarrow> string \<Rightarrow> int \<Rightarrow> pydict \<Rightarrow> bool" where
  "frame_matches sid cid tid i f \<longleftrightarrow>
     (\<exists>lc status event. sget f ''lifecycle'' = PDict lc \<and> sget f ''session_id'' = PStr sid \<and> sget f ''call_id'' = PStr cid \<and>
        sget lc ''task_id'' = PStr tid \<and> py_eq (sget lc ''sequence'') (PInt i) \<and>
        sget f ''status'' = PStr status \<and> sget lc ''event'' = PStr event \<and>
        (\<exists>events. map_of EXPECTED_EVENTS status = Some events \<and> event \<in> set events) \<and>
        sget f ''is_final'' = PBool (frame_final f) \<and> py_eq (sget f ''is_final'') (sget lc ''is_final''))"

lemma is_true_iff: "is_true d k \<longleftrightarrow> sget d k = PBool True"
  by (auto simp: is_true_def split: pyval.splits)

lemma is_false_iff: "is_false d k \<longleftrightarrow> sget d k = PBool False"
  by (auto simp: is_false_def split: pyval.splits)

lemma check_frame_Inr:
  "check_frame s f = Inr b \<longleftrightarrow>
   \<not> ns_terminal_seen s \<and> frame_matches (ns_session_id s) (ns_call_id s) (ns_task_id s) (ns_next_sequence s) f \<and>
   b = frame_final f"
proof
  assume "check_frame s f = Inr b"
  then show "\<not> ns_terminal_seen s \<and> frame_matches (ns_session_id s) (ns_call_id s) (ns_task_id s) (ns_next_sequence s) f \<and>
      b = frame_final f"
    by (auto simp: check_frame_def frame_matches_def frame_final_def in_set_def in_strs_iff is_true_iff is_false_iff
        split: pyval.splits if_splits option.splits sum.splits)
next
  assume "\<not> ns_terminal_seen s \<and> frame_matches (ns_session_id s) (ns_call_id s) (ns_task_id s) (ns_next_sequence s) f \<and>
      b = frame_final f"
  then show "check_frame s f = Inr b"
    by (auto simp: check_frame_def frame_matches_def frame_final_def in_set_def is_true_iff is_false_iff)
qed

lemma seq_accept_Inr:
  "seq_accept s f = (s', Inr u) \<longleftrightarrow>
   \<not> ns_terminal_seen s \<and> frame_matches (ns_session_id s) (ns_call_id s) (ns_task_id s) (ns_next_sequence s) f \<and>
   s' = s\<lparr>ns_next_sequence := ns_next_sequence s + 1, ns_terminal_seen := frame_final f\<rparr>"
proof -
  have "truthy (sget f ''is_final'') = frame_final f" if "frame_matches sid cid tid i f" for sid cid tid i
    using that by (auto simp: frame_matches_def)
  then show ?thesis
    using check_frame_Inr [of s f "frame_final f"] check_frame_Inr [of s f "\<not> frame_final f"]
    by (cases "check_frame s f") (auto simp: seq_accept_def)
qed

lemma all_less_Suc: "(\<forall>i < Suc n. P i) \<longleftrightarrow> (\<forall>i < n. P i) \<and> P n"
  by (auto simp: less_Suc_eq)

lemma accept_all_iff:
  "accept_all s fs = Inr s' \<longleftrightarrow>
   (\<forall>i < length fs. frame_matches (ns_session_id s) (ns_call_id s) (ns_task_id s) (ns_next_sequence s + int i) (fs ! i)) \<and>
   (fs \<noteq> [] \<longrightarrow> \<not> ns_terminal_seen s) \<and> (\<forall>f \<in> set (butlast fs). \<not> frame_final f) \<and>
   s' = s\<lparr>ns_next_sequence := ns_next_sequence s + int (length fs),
          ns_terminal_seen := (if fs = [] then ns_terminal_seen s else frame_final (last fs))\<rparr>"
proof (induction fs arbitrary: s)
  case (Cons f fs)
  have step: "accept_all s (f # fs) = Inr s' \<longleftrightarrow> (\<exists>s1 u. seq_accept s f = (s1, Inr u) \<and> accept_all s1 fs = Inr s')"
    by (auto split: prod.splits sum.splits)
  have all: "(\<forall>i < length (f # fs). P (int i) ((f # fs) ! i)) \<longleftrightarrow> P 0 f \<and> (\<forall>i < length fs. P (1 + int i) (fs ! i))" for P
    by (auto simp: less_Suc_eq_0_disj)
  show ?case
    unfolding step seq_accept_Inr Cons.IH
    by (subst all [where P = "\<lambda>i. frame_matches (ns_session_id s) (ns_call_id s) (ns_task_id s) (ns_next_sequence s + i)"])
      (auto simp: add.assoc)
qed auto

subsection \<open>Call identities\<close>

definition LIFECYCLE_PROFILE :: string where
  "LIFECYCLE_PROFILE = ''urn:iicp:profile:service-lifecycle:v1''"

record identity_registry =
  id_tasks :: "(string, string) dict"
  id_calls :: "string list"

definition new_identity_registry :: identity_registry where
  "new_identity_registry = \<lparr>id_tasks = [], id_calls = []\<rparr>"

definition nonempty_text :: "pyval \<Rightarrow> string option" where
  "nonempty_text v = (case v of PStr s \<Rightarrow> if s = [] then None else Some s | _ \<Rightarrow> None)"

definition identity_accept :: "identity_registry \<Rightarrow> pydict \<Rightarrow> identity_registry \<times> (string + unit)" where
  "identity_accept g call =
     (if sget call ''profile'' \<noteq> PStr LIFECYCLE_PROFILE then (g, Inr ())
      else (case nonempty_text (sget call ''task_id'') of
        None \<Rightarrow> (g, Inl ''missing_task_id'')
      | Some tid \<Rightarrow>
          (case nonempty_text (sget call ''call_id'') of
             None \<Rightarrow> (g, Inl ''missing_call_id'')
           | Some cid \<Rightarrow>
               (case nonempty_text (sget call ''idempotency_key'') of
                  None \<Rightarrow> (g, Inl ''missing_idempotency_key'')
                | Some key \<Rightarrow>
                    if cid \<in> set (id_calls g) then (g, Inl ''call_id_reuse'')
                    else if map_of (id_tasks g) tid \<noteq> None \<and> map_of (id_tasks g) tid \<noteq> Some key
                    then (g, Inl ''task_identity_conflict'')
                    else (g\<lparr>id_tasks := AList.update tid key (id_tasks g), id_calls := List.insert cid (id_calls g)\<rparr>, Inr ())))))"

fun identity_run :: "identity_registry \<Rightarrow> pydict list \<Rightarrow> identity_registry \<times> pydict list" where
  "identity_run g [] = (g, [])"
| "identity_run g (c # cs) =
     (case identity_accept g c of
        (g', Inl _) \<Rightarrow> identity_run g' cs
      | (g', Inr _) \<Rightarrow> (case identity_run g' cs of (g'', acc) \<Rightarrow>
           (g'', if sget c ''profile'' = PStr LIFECYCLE_PROFILE then c # acc else acc)))"

lemma identity_run_inv:
  assumes "identity_run g cs = (g', acc)" "distinct (id_calls g)"
  shows "distinct (map (\<lambda>c. sget c ''call_id'') acc) \<and>
    (\<forall>c \<in> set acc. \<exists>tid cid key. sget c ''task_id'' = PStr tid \<and> sget c ''call_id'' = PStr cid \<and>
       sget c ''idempotency_key'' = PStr key \<and> tid \<noteq> [] \<and> cid \<noteq> [] \<and> key \<noteq> [] \<and> cid \<notin> set (id_calls g) \<and>
       map_of (id_tasks g') tid = Some key) \<and>
    (\<forall>tid key. map_of (id_tasks g) tid = Some key \<longrightarrow> map_of (id_tasks g') tid = Some key)"
  using assms
proof (induction g cs arbitrary: g' acc rule: identity_run.induct)
  case (2 g c cs)
  obtain g1 r where a: "identity_accept g c = (g1, r)" by fastforce
  show ?case
  proof (cases "r = Inr () \<and> sget c ''profile'' = PStr LIFECYCLE_PROFILE")
    case False
    then have "g1 = g" using a
      by (cases r) (auto simp: identity_accept_def split: if_splits option.splits)
    then have "identity_run g cs = (g', acc)"
      using 2(3) a False by (cases r) (auto split: prod.splits)
    with 2(1,2) a \<open>g1 = g\<close> 2(4) show ?thesis by (cases r) auto
  next
    case True
    then obtain tid cid key where c: "sget c ''task_id'' = PStr tid" "sget c ''call_id'' = PStr cid"
      "sget c ''idempotency_key'' = PStr key" "tid \<noteq> []" "cid \<noteq> []" "key \<noteq> []"
      and new: "cid \<notin> set (id_calls g)" "map_of (id_tasks g) tid \<in> {None, Some key}"
      and g1: "g1 = g\<lparr>id_tasks := AList.update tid key (id_tasks g), id_calls := cid # id_calls g\<rparr>"
      using a by (auto simp: identity_accept_def nonempty_text_def split: if_splits option.splits pyval.splits)
    obtain acc1 where run: "identity_run g1 cs = (g', acc1)" and acc: "acc = c # acc1"
      using 2(3) a True by (auto split: prod.splits)
    have d1: "distinct (id_calls g1)" using 2(4) new g1 by simp
    from "2.IH"(2) [OF a [symmetric] _ run d1] True have IH:
      "distinct (map (\<lambda>c. sget c ''call_id'') acc1)"
      "\<forall>c \<in> set acc1. \<exists>tid cid key. sget c ''task_id'' = PStr tid \<and> sget c ''call_id'' = PStr cid \<and>
         sget c ''idempotency_key'' = PStr key \<and> tid \<noteq> [] \<and> cid \<noteq> [] \<and> key \<noteq> [] \<and> cid \<notin> set (id_calls g1) \<and>
         map_of (id_tasks g') tid = Some key"
      "\<forall>tid key. map_of (id_tasks g1) tid = Some key \<longrightarrow> map_of (id_tasks g') tid = Some key"
      by auto
    have "PStr cid \<notin> (\<lambda>c. sget c ''call_id'') ` set acc1" using IH(2) g1 by force
    moreover have "map_of (id_tasks g') tid = Some key" using IH(3) g1 by (simp add: dict_simps)
    moreover have "map_of (id_tasks g') t = Some k" if "map_of (id_tasks g) t = Some k" for t k
      using IH(3) [rule_format, of t k] g1 new(2) that by (cases "t = tid") (simp_all add: dict_simps)
    moreover have "\<forall>c \<in> set acc1. \<exists>tid cid key. sget c ''task_id'' = PStr tid \<and> sget c ''call_id'' = PStr cid \<and>
         sget c ''idempotency_key'' = PStr key \<and> tid \<noteq> [] \<and> cid \<noteq> [] \<and> key \<noteq> [] \<and> cid \<notin> set (id_calls g) \<and>
         map_of (id_tasks g') tid = Some key"
      using IH(2) g1 by fastforce
    ultimately show ?thesis using IH(1) c new(1) acc by auto
  qed
qed simp

subsection \<open>Properties\<close>

definition sample_response :: "string \<Rightarrow> int \<Rightarrow> string \<Rightarrow> bool \<Rightarrow> pydict" where
  "sample_response status n event fin =
     [(PStr ''session_id'', PStr ''s''), (PStr ''call_id'', PStr ''c''), (PStr ''status'', PStr status),
      (PStr ''is_final'', PBool fin),
      (PStr ''lifecycle'', PDict [(PStr ''task_id'', PStr ''t''), (PStr ''sequence'', PInt n),
         (PStr ''event'', PStr event), (PStr ''is_final'', PBool fin)])]"

text \<open>C28: The response validator accepts exactly the complete lifecycle histories: a list of frames passes
  \<open>accept\<close> one by one and then \<open>finish\<close> if and only if it is not empty, frame \<open>i\<close> carries the negotiated
  identifiers, sequence number \<open>i\<close> and an event that fits its status, and the last frame, and only the
  last, is final.\<close>

theorem response_history_exact:
  "(\<exists>s. accept_all (new_sequence sid cid tid) fs = Inr s \<and> seq_finish s = Inr ()) \<longleftrightarrow>
   fs \<noteq> [] \<and> (\<forall>i < length fs. frame_matches sid cid tid (int i) (fs ! i)) \<and>
   (\<forall>i < length fs. frame_final (fs ! i) \<longleftrightarrow> i = length fs - 1)"
proof -
  have eq: "(\<forall>f \<in> set (butlast fs). \<not> frame_final f) \<and> frame_final (last fs) \<longleftrightarrow>
      (\<forall>i < length fs. frame_final (fs ! i) \<longleftrightarrow> i = length fs - 1)" if "fs \<noteq> []"
  proof -
    from that obtain ys x where fs: "fs = ys @ [x]" by (cases fs rule: rev_cases) auto
    have "(\<forall>i < length fs. frame_final (fs ! i) \<longleftrightarrow> i = length fs - 1) \<longleftrightarrow>
        (\<forall>i < length ys. \<not> frame_final (ys ! i)) \<and> frame_final x"
      unfolding fs by (simp add: all_less_Suc nth_append) 
    then show ?thesis by (simp add: fs all_set_conv_all_nth)
  qed
  show ?thesis
  proof (cases "fs = []")
    case False
    with eq [OF False] show ?thesis
      by (auto simp: accept_all_iff seq_finish_def new_sequence_def)
  qed (simp add: seq_finish_def new_sequence_def)
qed

theorem response_history_exact_witness:
  "\<exists>s. accept_all (new_sequence ''s'' ''c'' ''t'')
     [sample_response ''partial'' 0 ''partial'' False, sample_response ''success'' 1 ''completed'' True] = Inr s \<and>
   seq_finish s = Inr ()"
  using response_history_exact [of "''s''" "''c''" "''t''"
      "[sample_response ''partial'' 0 ''partial'' False, sample_response ''success'' 1 ''completed'' True]"]
  by (auto simp: sample_response_def frame_matches_def frame_final_def EXPECTED_EVENTS_def less_Suc_eq)

text \<open>The identity registry keeps lifecycle CALLs unambiguous: among the accepted CALLs of any sequence
  no call identifier occurs twice, every identifier is a non-empty text, and each task identifier is bound
  to a single idempotency key.\<close>

lemma call_identity_unique:
  assumes "identity_run new_identity_registry calls = (g, accepted)"
  shows "distinct (map (\<lambda>c. sget c ''call_id'') accepted) \<and>
    (\<forall>c \<in> set accepted. \<forall>k \<in> {''task_id'', ''call_id'', ''idempotency_key''}. \<exists>s. s \<noteq> [] \<and> sget c k = PStr s) \<and>
    (\<forall>c \<in> set accepted. \<forall>c' \<in> set accepted.
       sget c ''task_id'' = sget c' ''task_id'' \<longrightarrow> sget c ''idempotency_key'' = sget c' ''idempotency_key'')"
proof -
  have "distinct (id_calls new_identity_registry)" by (simp add: new_identity_registry_def)
  note inv = identity_run_inv [OF assms this]
  show ?thesis
  proof (intro conjI ballI impI)
    show "distinct (map (\<lambda>c. sget c ''call_id'') accepted)" using inv by blast
  next
    fix c k assume "c \<in> set accepted" and k: "k \<in> {''task_id'', ''call_id'', ''idempotency_key''}"
    with inv obtain tid cid key where "sget c ''task_id'' = PStr tid" "sget c ''call_id'' = PStr cid"
      "sget c ''idempotency_key'' = PStr key" "tid \<noteq> []" "cid \<noteq> []" "key \<noteq> []" by blast
    with k show "\<exists>s. s \<noteq> [] \<and> sget c k = PStr s" by auto
  next
    fix c c' assume cs: "c \<in> set accepted" "c' \<in> set accepted" and same: "sget c ''task_id'' = sget c' ''task_id''"
    from inv cs(1) obtain tid key where c: "sget c ''task_id'' = PStr tid" "sget c ''idempotency_key'' = PStr key"
      "map_of (id_tasks g) tid = Some key" by blast
    from inv cs(2) obtain tid' key' where c': "sget c' ''task_id'' = PStr tid'" "sget c' ''idempotency_key'' = PStr key'"
      "map_of (id_tasks g) tid' = Some key'" by blast
    from c c' same show "sget c ''idempotency_key'' = sget c' ''idempotency_key''" by simp
  qed
qed

end
