(* ===== verification/Tcp_Session.thy ===== *)
theory Tcp_Session
  imports Framing Native_Sequence
begin

text \<open>
  The two ends of the native transport in \<open>iicp_tcp.py\<close>: the handlers of \<open>IicpTcpServer\<close> and the requests
  of \<open>IicpTcpClient\<close>.

  The CBOR codec (the package \<open>cbor2\<close>), the user's task and streaming handlers, the directory lookup, and
  the conversions of values the model does not read (the JSON text of a task body, the printed form of
  floats and containers, numbers written as text) are fields of the environment. A handler's effect on the
  connection is the list of frames it writes, then whether the session stays open, or \<open>None\<close> when it raises.
\<close>

record tcp_env =
  cbor_dumps :: "pyval \<Rightarrow> bytes"
  cbor_loads :: "bytes \<Rightarrow> pyval option"
  json_body :: "pyval \<Rightarrow> pyval option"
  text_of :: "pyval \<Rightarrow> string"
  int_parse :: "pyval \<Rightarrow> int option"
  env_node_id :: "string option"
  task_handler :: "(pyval \<Rightarrow> pyval option) option"
  streaming_handler :: "(pyval \<Rightarrow> pydict list \<times> bool) option"
  discover_lookup :: "(string \<Rightarrow> pyval list option) option"
  concurrency_gate :: "(int \<times> int) option"

subsection \<open>Payloads\<close>

definition ack_body :: "string option \<Rightarrow> pyval" where
  "ack_body node_id =
     PDict ([(PInt 1, PInt FRAMING_VERSION)] @ (case node_id of None \<Rightarrow> [] | Some n \<Rightarrow> [(PInt 2, PStr n)]))"

definition pong_body :: "pyval \<Rightarrow> pyval" where
  "pong_body echo = PDict (if truthy echo then [(PInt 1, echo)] else [])"

definition response_body ::
    "string \<Rightarrow> pyval \<Rightarrow> bytes option \<Rightarrow> int option \<Rightarrow> string option \<Rightarrow> pyval" where
  "response_body session_id call_id result error_code error_message =
     PDict ([(PInt 2, PStr session_id)] @
       (if call_id = PNone then [] else [(PInt 15, call_id)]) @
       (case result of None \<Rightarrow> [] | Some r \<Rightarrow> [(PInt 5, PBytes r)]) @
       (case error_code of None \<Rightarrow> [] | Some c \<Rightarrow> [(PInt 100, PInt c)]) @
       (case error_message of None \<Rightarrow> [] | Some m \<Rightarrow> [(PInt 101, PStr m)]))"

definition discover_body :: "string \<Rightarrow> string \<Rightarrow> pyval list \<Rightarrow> pyval" where
  "discover_body session_id intent nodes =
     PDict [(PInt 2, PStr session_id), (PInt 3, PStr intent), (PInt 20, PList nodes)]"

definition status_event :: "(string, string) dict" where
  "status_event = [(''partial'', ''partial''), (''success'', ''completed''), (''error'', ''failed''), (''timeout'', ''timed_out'')]"

definition or_text :: "string option \<Rightarrow> string \<Rightarrow> string" where
  "or_text x dflt = (case x of None \<Rightarrow> dflt | Some s \<Rightarrow> if s = [] then dflt else s)"

text \<open>\<open>encode_lifecycle_response\<close>; \<open>None\<close> is the \<open>ValueError\<close> of an unsupported status.\<close>

definition lifecycle_body ::
    "string \<Rightarrow> string \<Rightarrow> string \<Rightarrow> int \<Rightarrow> string \<Rightarrow> pyval \<Rightarrow> string option \<Rightarrow> string option \<Rightarrow> int option \<Rightarrow>
     string option \<Rightarrow> pyval option" where
  "lifecycle_body session_id call_id task_id sequence status result error_code error_message tokens event =
     (let is_final = (status \<noteq> ''partial'');
          name = (case event of Some (x # xs) \<Rightarrow> Some (x # xs) | _ \<Rightarrow> map_of status_event status)
      in case name of
           None \<Rightarrow> None
         | Some n \<Rightarrow>
             Some (PDict ([(PInt 1, PInt FRAMING_VERSION), (PInt 2, PStr session_id), (PInt 3, PStr call_id),
               (PInt 4, PStr status), (PInt 12, PBool is_final),
               (PInt 13, PDict [(PInt 1, PStr task_id), (PInt 2, PInt sequence), (PInt 3, PStr n), (PInt 4, PBool is_final)])] @
               (if result = PNone then [] else [(PInt 5, result)]) @
               (if error_code = None \<and> error_message = None then []
                else [(PInt 6, PDict [(PInt 1, PStr (or_text error_code ''stream_error'')),
                                      (PInt 2, PStr (or_text error_message ''stream failed''))])]) @
               (case tokens of None \<Rightarrow> [] | Some t \<Rightarrow> [(PInt 7, PInt t)]))))"

subsection \<open>Server handlers\<close>

text \<open>\<open>writer.write(IicpFrame.make(type, encode_cbor(body)).encode())\<close>.\<close>

definition send :: "tcp_env \<Rightarrow> MsgType \<Rightarrow> pyval \<Rightarrow> frame_error + bytes" where
  "send env t body = encode_frame (make_frame t (cbor_dumps env body))"

definition reply :: "tcp_env \<Rightarrow> MsgType \<Rightarrow> pyval \<Rightarrow> bytes list \<times> bool option" where
  "reply env t body = (case send env t body of Inl _ \<Rightarrow> ([], None) | Inr bs \<Rightarrow> ([bs], Some True))"

definition on_init :: "tcp_env \<Rightarrow> iicp_frame \<Rightarrow> bytes list \<times> bool option" where
  "on_init env frame =
     (case cbor_loads env (fr_payload frame) of
        Some (PDict body) \<Rightarrow>
          if \<not> py_eq (iget body 1) (PInt FRAMING_VERSION) then ([], Some False)
          else reply env ACK (ack_body (env_node_id env))
      | _ \<Rightarrow> ([], Some False))"

definition on_ping :: "tcp_env \<Rightarrow> iicp_frame \<Rightarrow> bytes list \<times> bool option" where
  "on_ping env frame =
     (let echo = (if fr_payload frame = [] then PNone
                  else case cbor_loads env (fr_payload frame) of Some (PDict body) \<Rightarrow> iget body 1 | _ \<Rightarrow> PNone)
      in reply env PONG (pong_body echo))"

definition on_discover :: "tcp_env \<Rightarrow> iicp_frame \<Rightarrow> bytes list \<times> bool option" where
  "on_discover env frame =
     (let (session_id, intent) =
            (case cbor_loads env (fr_payload frame) of
               Some (PDict body) \<Rightarrow> (py_str (text_of env) (iget_or body 2 (PStr ''unknown'')),
                                    py_str (text_of env) (iget_or body 3 (PStr '''')))
             | _ \<Rightarrow> (''unknown'', ''''));
          nodes = (case discover_lookup env of
                     Some lookup \<Rightarrow> if intent = [] then [] else (case lookup intent of None \<Rightarrow> [] | Some ns \<Rightarrow> ns)
                   | None \<Rightarrow> [])
      in reply env RESPONSE (discover_body session_id intent nodes))"

text \<open>\<open>_run_handler\<close>: the encoded result, or an error code with its message. \<open>int()\<close> reads integers and
  floats itself (towards zero) and text through \<open>int_parse\<close>.\<close>

fun py_int :: "tcp_env \<Rightarrow> pyval \<Rightarrow> int option" where
  "py_int env (PInt i) = Some i"
| "py_int env (PBool b) = Some (if b then 1 else 0)"
| "py_int env (PFloat r) = Some (if 0 \<le> r then \<lfloor>r\<rfloor> else \<lceil>r\<rceil>)"
| "py_int env v = int_parse env v"

definition run_handler ::
    "tcp_env \<Rightarrow> (pyval \<Rightarrow> pyval option) \<Rightarrow> pyval \<Rightarrow> bytes option \<times> int option \<times> string option" where
  "run_handler env handler task =
     (case handler task of
        None \<Rightarrow> (None, Some 500, Some ''handler raised exception'')
      | Some (PDict r) \<Rightarrow>
          (case py_find r (PStr ''error_code'') of
             Some code \<Rightarrow>
               (case py_int env code of
                  None \<Rightarrow> (None, Some 500, Some ''handler raised exception'')
                | Some c \<Rightarrow> (None, Some c, Some (py_str (text_of env) (get_or r ''error_message'' (PStr ''handler error'')))))
           | None \<Rightarrow> (Some (cbor_dumps env (get_or r ''result'' (PDict r))), None, None))
      | Some v \<Rightarrow> (Some (cbor_dumps env (PDict [(PStr ''result'', v)])), None, None))"

text \<open>The fields of a CALL: session, call and task identifier, intent, task body.\<close>

record call_fields =
  cf_session_id :: string
  cf_call_id :: pyval
  cf_task_id :: string
  cf_intent :: string
  cf_payload :: pyval

definition call_payload :: "tcp_env \<Rightarrow> pyval \<Rightarrow> pyval" where
  "call_payload env raw5 =
     (case raw5 of
        PDict d \<Rightarrow> PDict d
      | _ \<Rightarrow> (case json_body env raw5 of Some (PDict d) \<Rightarrow> PDict d | _ \<Rightarrow> PDict []))"

definition call_fields_of :: "tcp_env \<Rightarrow> pyval option \<Rightarrow> call_fields" where
  "call_fields_of env decoded =
     (case decoded of
        Some (PDict body) \<Rightarrow>
          let session_id = py_str (text_of env) (iget_or body 2 (PStr ''unknown'')); call_id = iget body 15 in
          \<lparr>cf_session_id = session_id, cf_call_id = call_id,
           cf_task_id = py_str (text_of env)
             (if truthy (iget body 24) then iget body 24 else if truthy call_id then call_id else PStr session_id),
           cf_intent = py_str (text_of env) (iget_or body 3 (PStr '''')),
           cf_payload = call_payload env (iget_or body 5 (PBytes []))\<rparr>
      | _ \<Rightarrow> \<lparr>cf_session_id = ''unknown'', cf_call_id = PNone, cf_task_id = '''', cf_intent = '''', cf_payload = PDict []\<rparr>)"

definition gate_full :: "tcp_env \<Rightarrow> bool" where
  "gate_full env = (case concurrency_gate env of None \<Rightarrow> False | Some (limit, active) \<Rightarrow> active \<ge> limit)"

text \<open>The streaming handler: the events it yields, then whether it raises instead of ending.\<close>

record stream_state =
  st_sequence :: int
  st_terminal_sent :: bool
  st_bodies :: "pyval list"
  st_frames :: "bytes list"

definition opt_str :: "tcp_env \<Rightarrow> pydict \<Rightarrow> string \<Rightarrow> string option" where
  "opt_str env event k = map_option (py_str (text_of env)) (py_find event (PStr k))"

definition emit :: "tcp_env \<Rightarrow> string \<Rightarrow> string \<Rightarrow> string \<Rightarrow> stream_state \<Rightarrow> pydict \<Rightarrow> stream_state option" where
  "emit env session_id call_id task_id st event =
     (let status = py_str (text_of env) (get_or event ''status'' (PStr '''')) in
      if st_terminal_sent st then None
      else if status \<notin> {''partial'', ''success'', ''error'', ''timeout''} then None
      else (case (case py_find event (PStr ''tokens_used'') of
                    None \<Rightarrow> Some None | Some t \<Rightarrow> map_option Some (py_int env t)) of
              None \<Rightarrow> None
            | Some tokens \<Rightarrow>
                (case lifecycle_body session_id call_id task_id (st_sequence st) status (sget event ''result'')
                        (opt_str env event ''error_code'') (opt_str env event ''error_message'') tokens
                        (opt_str env event ''event'') of
                   None \<Rightarrow> None
                 | Some body \<Rightarrow>
                     (case send env RESPONSE body of
                        Inl _ \<Rightarrow> None
                      | Inr bs \<Rightarrow>
                          Some \<lparr>st_sequence = st_sequence st + 1, st_terminal_sent = (status \<noteq> ''partial''),
                                st_bodies = st_bodies st @ [body], st_frames = st_frames st @ [bs]\<rparr>))))"

text \<open>The \<open>async for\<close> loop of \<open>run_handler\<close>; the Boolean tells whether it ended without an exception.\<close>

fun emit_all ::
    "tcp_env \<Rightarrow> string \<Rightarrow> string \<Rightarrow> string \<Rightarrow> stream_state \<Rightarrow> pydict list \<Rightarrow> stream_state \<times> bool" where
  "emit_all env sid cid tid st [] = (st, True)"
| "emit_all env sid cid tid st (e # es) =
     (case emit env sid cid tid st e of None \<Rightarrow> (st, False) | Some st' \<Rightarrow> emit_all env sid cid tid st' es)"

definition error_event :: "string \<Rightarrow> string \<Rightarrow> pydict" where
  "error_event code msg =
     [(PStr ''status'', PStr ''error''), (PStr ''error_code'', PStr code), (PStr ''error_message'', PStr msg)]"

definition run_stream :: "tcp_env \<Rightarrow> string \<Rightarrow> string \<Rightarrow> string \<Rightarrow> pydict list \<times> bool \<Rightarrow> stream_state \<times> bool" where
  "run_stream env sid cid tid run =
     (let st0 = \<lparr>st_sequence = 0, st_terminal_sent = False, st_bodies = [], st_frames = []\<rparr> in
      case emit_all env sid cid tid st0 (fst run) of
        (st, False) \<Rightarrow> (st, False)
      | (st, True) \<Rightarrow>
          if snd run then (st, False)
          else if st_terminal_sent st then (st, True)
          else (case emit env sid cid tid st
                       (error_event ''stream_incomplete'' ''stream ended without a terminal response'') of
                  None \<Rightarrow> (st, False) | Some st' \<Rightarrow> (st', True)))"

definition stream_call ::
    "tcp_env \<Rightarrow> string \<Rightarrow> string \<Rightarrow> string \<Rightarrow> pydict list \<times> bool \<Rightarrow> stream_state \<times> bool option" where
  "stream_call env sid cid tid run =
     (case (if gate_full env
            then (\<lparr>st_sequence = 0, st_terminal_sent = False, st_bodies = [], st_frames = []\<rparr>, False)
            else run_stream env sid cid tid run) of
        (st, True) \<Rightarrow> (st, Some True)
      | (st, False) \<Rightarrow>
          if st_terminal_sent st then (st, Some True)
          else (case emit env sid cid tid st (error_event ''backend_error'' ''streaming handler raised exception'') of
                  None \<Rightarrow> (st, None) | Some st' \<Rightarrow> (st', Some True)))"

definition stream_task :: "string \<Rightarrow> string \<Rightarrow> string \<Rightarrow> pyval \<Rightarrow> pyval" where
  "stream_task tid cid intent payload =
     PDict [(PStr ''task_id'', PStr tid), (PStr ''call_id'', PStr cid), (PStr ''intent'', PStr intent), (PStr ''payload'', payload)]"

definition on_call :: "tcp_env \<Rightarrow> iicp_frame \<Rightarrow> bytes list \<times> bool option" where
  "on_call env frame =
     (let decoded = cbor_loads env (fr_payload frame); cf = call_fields_of env decoded;
          streaming = (case decoded of Some (PDict body) \<Rightarrow> truthy (iget body 24) | _ \<Rightarrow> False)
      in case (streaming, streaming_handler env) of
           (True, Some handler) \<Rightarrow>
             (let cid = py_str (text_of env) (if truthy (cf_call_id cf) then cf_call_id cf else PStr '''');
                  (st, res) = stream_call env (cf_session_id cf) cid (cf_task_id cf)
                    (handler (stream_task (cf_task_id cf) cid (cf_intent cf) (cf_payload cf)))
              in (st_frames st, res))
         | _ \<Rightarrow>
             (let (result, code, msg) =
                (case task_handler env of
                   None \<Rightarrow> (None, Some 503, Some ''no handler configured'')
                 | Some handler \<Rightarrow>
                     (case concurrency_gate env of
                        Some (limit, active) \<Rightarrow>
                          if active \<ge> limit
                          then (None, Some 429, Some (''IICP-E021: max_concurrent='' @ int_text limit @ '' reached''))
                          else run_handler env handler (PDict [(PStr ''task_id'', PStr (cf_task_id cf)),
                                 (PStr ''intent'', PStr (cf_intent cf)), (PStr ''payload'', cf_payload cf)])
                      | None \<Rightarrow> run_handler env handler (PDict [(PStr ''task_id'', PStr (cf_task_id cf)),
                                 (PStr ''intent'', PStr (cf_intent cf)), (PStr ''payload'', cf_payload cf)])))
              in reply env RESPONSE (response_body (cf_session_id cf) (cf_call_id cf) result code msg)))"

definition on_relay_bind :: "bytes list \<times> bool option" where
  "on_relay_bind = (case encode_frame (make_frame CLOSE []) of Inl _ \<Rightarrow> ([], None) | Inr bs \<Rightarrow> ([bs], Some False))"

definition dispatch :: "tcp_env \<Rightarrow> bytes list \<Rightarrow> iicp_frame \<Rightarrow> bytes list \<times> bool option" where
  "dispatch env out frame =
     (let (written, res) =
        (case msg_type_of (fr_msg_type frame) of
           None \<Rightarrow> ([], Some True)
         | Some INIT \<Rightarrow> on_init env frame
         | Some PING \<Rightarrow> on_ping env frame
         | Some DISCOVER \<Rightarrow> on_discover env frame
         | Some CALL \<Rightarrow> on_call env frame
         | Some CLOSE \<Rightarrow> ([], Some False)
         | Some FEEDBACK \<Rightarrow> ([], Some True)
         | Some RELAY_BIND \<Rightarrow> on_relay_bind
         | Some _ \<Rightarrow> ([], Some True))
      in (out @ written, res))"

subsection \<open>Client requests\<close>

datatype client_error = ClientError string | IncompleteRead | CborError | ClientValueError string | ClientFrameError frame_error

record tcp_client =
  cl_framing_version :: "int option"
  cl_peer_node_id :: "string option"

definition new_client :: tcp_client where
  "new_client = \<lparr>cl_framing_version = None, cl_peer_node_id = None\<rparr>"

text \<open>\<open>_read_frame\<close>, from the bytes the server has sent; the third component is what remains. A timeout is an
  incomplete read: the bytes did not come.\<close>

definition read_frame :: "bytes \<Rightarrow> client_error + int \<times> bytes \<times> bytes" where
  "read_frame bs =
     (if length bs < FRAME_HEADER_LEN then Inl IncompleteRead
      else let h = unpack_header bs; rest = drop FRAME_HEADER_LEN bs in
        if hd_magic h \<noteq> IICP_MAGIC then Inl (ClientError ''bad magic in response'')
        else if hd_version h \<noteq> FRAMING_VERSION then Inl (ClientError ''unsupported framing version in response'')
        else if stable_task_message_type_error (hd_msg_type h) \<noteq> None
        then Inl (ClientError ''rejected native task frame type'')
        else if hd_payload_len h > MAX_FRAME_PAYLOAD then Inl (ClientError ''response frame payload too large'')
        else if length rest < hd_payload_len h then Inl IncompleteRead
        else Inr (hd_msg_type h, take (hd_payload_len h) rest, drop (hd_payload_len h) rest))"

definition load_body :: "tcp_env \<Rightarrow> bytes \<Rightarrow> client_error + pyval" where
  "load_body env payload =
     (if payload = [] then Inr (PDict []) else case cbor_loads env payload of None \<Rightarrow> Inl CborError | Some v \<Rightarrow> Inr v)"

definition client_send :: "tcp_env \<Rightarrow> MsgType \<Rightarrow> pyval \<Rightarrow> client_error + bytes" where
  "client_send env t body = (case send env t body of Inl e \<Rightarrow> Inl (ClientFrameError e) | Inr bs \<Rightarrow> Inr bs)"

definition require_handshake :: "tcp_client \<Rightarrow> client_error + unit" where
  "require_handshake cl =
     (if cl_framing_version cl \<noteq> Some FRAMING_VERSION then Inl (ClientError ''native session handshake is not complete'') else Inr ())"

definition handshake_request :: "tcp_env \<Rightarrow> client_error + bytes" where
  "handshake_request env = client_send env INIT (PDict [(PInt 1, PInt FRAMING_VERSION)])"

definition handshake_reply :: "tcp_env \<Rightarrow> tcp_client \<Rightarrow> bytes \<Rightarrow> tcp_client \<times> (client_error + bytes)" where
  "handshake_reply env cl bs =
     (case read_frame bs of
        Inl e \<Rightarrow> (cl, Inl e)
      | Inr (mt, payload, rest) \<Rightarrow>
          if mt \<noteq> msg_code ACK then (cl, Inl (ClientError ''expected ACK (0x02)''))
          else (case load_body env payload of
                  Inl e \<Rightarrow> (cl, Inl e)
                | Inr (PDict body) \<Rightarrow>
                    if \<not> py_eq (iget body 1) (PInt FRAMING_VERSION)
                    then (cl, Inl (ClientError ''ACK negotiated unsupported framing version''))
                    else (\<lparr>cl_framing_version = Some FRAMING_VERSION,
                           cl_peer_node_id = (case iget body 2 of PStr n \<Rightarrow> Some n | _ \<Rightarrow> None)\<rparr>, Inr rest)
                | Inr _ \<Rightarrow> (cl, Inl (ClientError ''ACK negotiated unsupported framing version''))))"

definition ping_request :: "tcp_env \<Rightarrow> tcp_client \<Rightarrow> bytes option \<Rightarrow> client_error + bytes" where
  "ping_request env cl echo =
     bind_result (require_handshake cl) (\<lambda>_.
       client_send env PING (PDict (case echo of Some (x # xs) \<Rightarrow> [(PInt 1, PBytes (x # xs))] | _ \<Rightarrow> [])))"

definition ping_reply :: "tcp_env \<Rightarrow> bytes \<Rightarrow> client_error + pyval" where
  "ping_reply env bs =
     bind_result (read_frame bs) (\<lambda>(mt, payload, rest).
       if mt \<noteq> msg_code PONG then Inl (ClientError ''expected PONG (0x0a)'')
       else bind_result (load_body env payload) (\<lambda>body.
         Inr (case body of PDict d \<Rightarrow> iget d 1 | _ \<Rightarrow> PNone)))"

definition discover_request :: "tcp_env \<Rightarrow> tcp_client \<Rightarrow> string \<Rightarrow> string \<Rightarrow> client_error + bytes" where
  "discover_request env cl intent session_id =
     bind_result (require_handshake cl) (\<lambda>_.
       client_send env DISCOVER (PDict [(PInt 2, PStr session_id), (PInt 3, PStr intent)]))"

definition discover_reply :: "tcp_env \<Rightarrow> bytes \<Rightarrow> client_error + pyval" where
  "discover_reply env bs =
     bind_result (read_frame bs) (\<lambda>(mt, payload, rest).
       if mt \<noteq> msg_code RESPONSE then Inl (ClientError ''expected RESPONSE (0x06)'')
       else (case cbor_loads env payload of
               None \<Rightarrow> Inl CborError
             | Some (PDict d) \<Rightarrow> Inr (if truthy (iget d 20) then iget d 20 else PList [])
             | Some _ \<Rightarrow> Inl (ClientError ''DISCOVER response body not a CBOR map'')))"

text \<open>\<open>task\<close> is the UTF-8 JSON text of the payload.\<close>

definition call_request :: "tcp_env \<Rightarrow> tcp_client \<Rightarrow> string \<Rightarrow> bytes \<Rightarrow> string \<Rightarrow> string option \<Rightarrow> client_error + bytes" where
  "call_request env cl intent task session_id call_id =
     bind_result (require_handshake cl) (\<lambda>_.
       client_send env CALL (PDict ([(PInt 2, PStr session_id), (PInt 3, PStr intent), (PInt 5, PBytes task)] @
         (case call_id of None \<Rightarrow> [] | Some c \<Rightarrow> [(PInt 15, PStr c)]))))"

definition call_reply :: "tcp_env \<Rightarrow> bytes \<Rightarrow> client_error + pyval" where
  "call_reply env bs =
     bind_result (read_frame bs) (\<lambda>(mt, payload, rest).
       if mt \<noteq> msg_code RESPONSE then Inl (ClientError ''expected RESPONSE (0x06)'')
       else bind_result (load_body env payload) (\<lambda>body.
         case body of
           PDict d \<Rightarrow>
             if py_find d (PInt 100) \<noteq> None then Inl (ClientError ''server error'')
             else (case iget d 5 of
                     PNone \<Rightarrow> Inr (PDict [])
                   | PBytes r \<Rightarrow>
                       (case cbor_loads env r of
                          None \<Rightarrow> Inl CborError
                        | Some (PDict v) \<Rightarrow> Inr (PDict v)
                        | Some v \<Rightarrow> Inr (PDict [(PStr ''value'', v)]))
                   | PDict v \<Rightarrow> Inr (PDict v)
                   | v \<Rightarrow> Inr (PDict [(PStr ''value'', v)]))
         | _ \<Rightarrow> Inl (ClientError ''CALL response body not a CBOR map'')))"

definition decode_lifecycle_response :: "pyval \<Rightarrow> client_error + pydict" where
  "decode_lifecycle_response raw =
     (case raw of
        PDict d \<Rightarrow>
          (case iget d 13 of
             PDict lc \<Rightarrow>
               Inr [(PStr ''session_id'', iget d 2), (PStr ''call_id'', iget d 3), (PStr ''status'', iget d 4),
                    (PStr ''result'', iget d 5),
                    (PStr ''error'', case iget d 6 of
                        PDict e \<Rightarrow> PDict [(PStr ''code'', iget e 1), (PStr ''message'', iget e 2)] | _ \<Rightarrow> PNone),
                    (PStr ''tokens_used'', iget d 7), (PStr ''is_final'', iget d 12),
                    (PStr ''lifecycle'', PDict [(PStr ''task_id'', iget lc 1), (PStr ''sequence'', iget lc 2),
                       (PStr ''event'', iget lc 3), (PStr ''is_final'', iget lc 4)])]
           | _ \<Rightarrow> Inl (ClientError ''missing_lifecycle''))
      | _ \<Rightarrow> Inl (ClientError ''CALL response body not a CBOR map''))"

text \<open>The request of \<open>stream_call\<close> and the loop that yields its events: the frames yielded, and how it ended
  (\<open>Inr\<close> the remaining bytes after the final event).\<close>

definition stream_request ::
    "tcp_env \<Rightarrow> tcp_client \<Rightarrow> string \<Rightarrow> bytes \<Rightarrow> string \<Rightarrow> string \<Rightarrow> string \<Rightarrow> string option \<Rightarrow> client_error + bytes" where
  "stream_request env cl intent task task_id session_id attempt_id idempotency_key =
     bind_result (require_handshake cl) (\<lambda>_.
       if task_id = [] then Inl (ClientValueError ''task_id is required for lifecycle streaming'')
       else client_send env CALL (PDict ([(PInt 2, PStr session_id), (PInt 3, PStr intent), (PInt 5, PBytes task),
              (PInt 15, PStr attempt_id), (PInt 24, PStr task_id)] @
              (case idempotency_key of None \<Rightarrow> [] | Some k \<Rightarrow> [(PInt 16, PStr k)]))))"

definition sequence_failure :: "sequence_error \<Rightarrow> client_error" where
  "sequence_failure e = (case e of SequenceError code \<Rightarrow> ClientError code | SequenceTypeError \<Rightarrow> ClientValueError ''TypeError'')"

function (sequential) client_stream :: "tcp_env \<Rightarrow> native_sequence \<Rightarrow> bytes \<Rightarrow> pydict list \<times> (client_error + bytes)" where
  "client_stream env seq bs =
     (case read_frame bs of
        Inl IncompleteRead \<Rightarrow>
          ([], Inl (case seq_finish seq of Inl e \<Rightarrow> sequence_failure e | Inr _ \<Rightarrow> IncompleteRead))
      | Inl e \<Rightarrow> ([], Inl e)
      | Inr (mt, payload, rest) \<Rightarrow>
          if mt \<noteq> msg_code RESPONSE then ([], Inl (ClientError ''expected RESPONSE (0x06)''))
          else (case bind_result (load_body env payload) decode_lifecycle_response of
                  Inl e \<Rightarrow> ([], Inl e)
                | Inr frame \<Rightarrow>
                    (case seq_accept seq frame of
                       (seq', Inl e) \<Rightarrow> ([], Inl (sequence_failure e))
                     | (seq', Inr _) \<Rightarrow>
                         if truthy (sget frame ''is_final'')
                         then ([frame], case seq_finish seq' of Inl e \<Rightarrow> Inl (sequence_failure e) | Inr _ \<Rightarrow> Inr rest)
                         else (case client_stream env seq' rest of (fs, res) \<Rightarrow> (frame # fs, res)))))"
  by pat_completeness auto
termination
  by (relation "measure (\<lambda>(_, _, bs). length bs)")
    (auto simp: read_frame_def Let_def FRAME_HEADER_LEN_def split: if_splits)

declare client_stream.simps [simp del]

subsection \<open>Facts about one exchange\<close>

definition codec_ok :: "tcp_env \<Rightarrow> pyval \<Rightarrow> bool" where
  "codec_ok env v \<longleftrightarrow> cbor_dumps env v \<noteq> [] \<and> (\<exists>v'. cbor_loads env (cbor_dumps env v) = Some v' \<and> same_value v v')"

lemma msg_code_byte [simp]: "0 \<le> msg_code t" "msg_code t \<le> 255"
  by (cases t; simp)+

lemma send_Inr:
  "send env t body = Inr bs \<Longrightarrow> encode_frame (make_frame t (cbor_dumps env body)) = Inr bs"
  by (simp add: send_def)

lemma send_ok: "length (cbor_dumps env body) \<le> MAX_FRAME_PAYLOAD \<Longrightarrow> \<exists>bs. send env t body = Inr bs"
  by (simp add: send_def encode_frame_def make_frame_def fits_byte_def)

lemma read_frame_encode:
  assumes "encode_frame f = Inr bs" "stable_task_message_type_error (fr_msg_type f) = None"
  shows "read_frame (bs @ rest) = Inr (fr_msg_type f, fr_payload f, rest)"
proof -
  note dec = decode_encode [OF assms(1)]
  have ok: "length (fr_payload f) \<le> MAX_FRAME_PAYLOAD" using assms(1) by (simp add: encode_frame_Inr)
  have "drop FRAME_HEADER_LEN (bs @ rest) = fr_payload f @ rest" using dec(3,4) by simp
  with dec(2) [of rest] dec(3) ok assms(2) show ?thesis
    by (simp add: read_frame_def Let_def)
qed

lemma stable_code:
  "t \<noteq> RELAY_BIND \<Longrightarrow> t \<noteq> RELAY_ACK \<Longrightarrow> stable_task_message_type_error (msg_code t) = None"
  by (cases t) (simp_all add: stable_task_message_type_error_def STABLE_TASK_MESSAGE_TYPES_def)

lemma read_frame_send:
  assumes "send env t body = Inr bs" "t \<noteq> RELAY_BIND" "t \<noteq> RELAY_ACK"
  shows "read_frame (bs @ rest) = Inr (msg_code t, cbor_dumps env body, rest)"
  using read_frame_encode [OF send_Inr [OF assms(1)], of rest] stable_code [OF assms(2,3)] by (simp add: make_frame_def)

lemma load_body_codec:
  assumes "codec_ok env v"
  obtains v' where "load_body env (cbor_dumps env v) = Inr v'" "same_value v v'"
    "cbor_loads env (cbor_dumps env v) = Some v'"
  using assms by (auto simp: codec_ok_def load_body_def)

lemma same_int: "same_value (PInt i) v \<Longrightarrow> v = PInt i"
  and same_bytes: "same_value (PBytes x) v \<Longrightarrow> v = PBytes x"
  by auto

lemma codec_map:
  assumes "codec_ok env (PDict d)"
  obtains e where "cbor_loads env (cbor_dumps env (PDict d)) = Some (PDict e)" "cbor_dumps env (PDict d) \<noteq> []"
    "\<And>k. same_value (iget d k) (iget e k)"
proof -
  from assms obtain v where v: "cbor_loads env (cbor_dumps env (PDict d)) = Some v" "same_value (PDict d) v"
    and n: "cbor_dumps env (PDict d) \<noteq> []" by (auto simp: codec_ok_def)
  from v(2) obtain e where e: "v = PDict e" "\<And>k. rel_option same_value (py_find d k) (py_find e k)"
    by (elim same_value_dict) (rule that)
  show thesis using v(1) n same_value_iget [OF e(2)] by (intro that) (simp_all add: e(1))
qed

lemma ack_codec:
  assumes "codec_ok env (ack_body node_id)"
  obtains k where "cbor_loads env (cbor_dumps env (ack_body node_id)) = Some (PDict k)"
    "iget k 1 = PInt FRAMING_VERSION" "(case iget k 2 of PStr n \<Rightarrow> Some n | _ \<Rightarrow> None) = node_id"
    "cbor_dumps env (ack_body node_id) \<noteq> []"
proof -
  define d where "d = [(PInt 1, PInt FRAMING_VERSION)] @ (case node_id of None \<Rightarrow> [] | Some n \<Rightarrow> [(PInt 2, PStr n)])"
  have ack: "ack_body node_id = PDict d" by (simp add: ack_body_def d_def)
  from codec_map [of env d] assms obtain k where k: "cbor_loads env (cbor_dumps env (PDict d)) = Some (PDict k)"
    "cbor_dumps env (PDict d) \<noteq> []" "\<And>n. same_value (iget d n) (iget k n)" by (auto simp: ack)
  have "iget d 1 = PInt FRAMING_VERSION" "iget d 2 = (case node_id of None \<Rightarrow> PNone | Some n \<Rightarrow> PStr n)"
    by (simp_all add: d_def split: option.splits)
  with k(1,2) k(3) [of 1] k(3) [of 2] show thesis by (intro that [of k]) (auto simp: ack split: option.splits)
qed

subsection \<open>The streaming contract\<close>

text \<open>What a lifecycle body says at position \<open>i\<close>, read through the integer keys.\<close>

definition body_matches :: "string \<Rightarrow> string \<Rightarrow> string \<Rightarrow> int \<Rightarrow> bool \<Rightarrow> pyval \<Rightarrow> bool" where
  "body_matches sid cid tid i fin body \<longleftrightarrow>
     (\<exists>d lc status name events. body = PDict d \<and> iget d 2 = PStr sid \<and> iget d 3 = PStr cid \<and> iget d 4 = PStr status \<and>
        iget d 12 = PBool fin \<and> iget d 13 = PDict lc \<and> iget lc 1 = PStr tid \<and> iget lc 2 = PInt i \<and>
        iget lc 3 = PStr name \<and> iget lc 4 = PBool fin \<and> fin = (status \<noteq> ''partial'') \<and>
        map_of EXPECTED_EVENTS status = Some events \<and> name \<in> set events)"

lemma same_get:
  assumes "\<And>k. rel_option same_value (py_find d k) (py_find e k)"
  shows "iget d k = PStr s \<Longrightarrow> iget e k = PStr s" "iget d k = PInt i \<Longrightarrow> iget e k = PInt i"
    "iget d k = PBool b \<Longrightarrow> iget e k = PBool b"
  using same_value_iget [OF assms, of k] by auto

lemma body_matches_same:
  assumes "body_matches sid cid tid i fin body" "same_value body body'"
  shows "body_matches sid cid tid i fin body'"
proof -
  from assms(1) obtain d lc status name events where b: "body = PDict d" "iget d 2 = PStr sid" "iget d 3 = PStr cid"
    "iget d 4 = PStr status" "iget d 12 = PBool fin" "iget d 13 = PDict lc" "iget lc 1 = PStr tid" "iget lc 2 = PInt i"
    "iget lc 3 = PStr name" "iget lc 4 = PBool fin" "fin = (status \<noteq> ''partial'')"
    "map_of EXPECTED_EVENTS status = Some events" "name \<in> set events"
    unfolding body_matches_def by blast
  obtain e where e: "body' = PDict e" "\<And>k. rel_option same_value (py_find d k) (py_find e k)"
    using assms(2) b(1) by (auto elim: same_value_dict)
  have "same_value (PDict lc) (iget e 13)" using same_value_iget [OF e(2), of 13] b(6) by simp
  then obtain lc' where lc': "iget e 13 = PDict lc'" "\<And>k. rel_option same_value (py_find lc k) (py_find lc' k)"
    by (elim same_value_dict) (rule that)
  note top = same_get(1) [OF e(2) b(2)] same_get(1) [OF e(2) b(3)] same_get(1) [OF e(2) b(4)] same_get(3) [OF e(2) b(5)]
  note nested = same_get(1) [OF lc'(2) b(7)] same_get(2) [OF lc'(2) b(8)] same_get(1) [OF lc'(2) b(9)] same_get(3) [OF lc'(2) b(10)]
  show ?thesis
    unfolding body_matches_def
    by (rule exI [of _ e], rule exI [of _ lc'], rule exI [of _ status], rule exI [of _ name], rule exI [of _ events])
      (simp only: e(1) lc'(1) top nested b(11-13) simp_thms)
qed

lemma body_matches_decode:
  assumes "body_matches sid cid tid i fin body"
  obtains f where "decode_lifecycle_response body = Inr f" "frame_matches sid cid tid i f" "frame_final f = fin"
  using assms that
  by (fastforce simp: body_matches_def decode_lifecycle_response_def frame_matches_def frame_final_def)

text \<open>An event of the handler that names its own lifecycle event names one that fits its status.\<close>

definition event_consistent :: "tcp_env \<Rightarrow> pydict \<Rightarrow> bool" where
  "event_consistent env ev \<longleftrightarrow>
     (case opt_str env ev ''event'' of
        None \<Rightarrow> True
      | Some n \<Rightarrow> n = [] \<or> (\<exists>events. map_of EXPECTED_EVENTS (py_str (text_of env) (get_or ev ''status'' (PStr ''''))) = Some events \<and>
                    n \<in> set events))"

lemma error_event_consistent [simp]: "event_consistent env (error_event code msg)"
  by (simp add: event_consistent_def opt_str_def error_event_def)

definition stream_wf :: "tcp_env \<Rightarrow> string \<Rightarrow> string \<Rightarrow> string \<Rightarrow> stream_state \<Rightarrow> bool" where
  "stream_wf env sid cid tid st \<longleftrightarrow>
     st_sequence st = int (length (st_bodies st)) \<and>
     list_all2 (\<lambda>b f. send env RESPONSE b = Inr f) (st_bodies st) (st_frames st) \<and>
     (st_terminal_sent st \<longrightarrow> st_bodies st \<noteq> []) \<and>
     (\<forall>i < length (st_bodies st).
        body_matches sid cid tid (int i) (st_terminal_sent st \<and> i = length (st_bodies st) - 1) (st_bodies st ! i))"

lemma status_event_expected:
  "map_of status_event status = Some n \<Longrightarrow> \<exists>events. map_of EXPECTED_EVENTS status = Some events \<and> n \<in> set events"
  by (auto simp: status_event_def EXPECTED_EVENTS_def split: if_splits)

lemma lifecycle_body_matches:
  assumes "lifecycle_body sid cid tid i status result ec em tokens event = Some body"
    and "\<And>n. event = Some n \<Longrightarrow> n = [] \<or> (\<exists>events. map_of EXPECTED_EVENTS status = Some events \<and> n \<in> set events)"
  shows "body_matches sid cid tid i (status \<noteq> ''partial'') body"
proof -
  from assms(1) obtain n where n: "(case event of Some (x # xs) \<Rightarrow> Some (x # xs) | _ \<Rightarrow> map_of status_event status) = Some n"
    by (auto simp: lifecycle_body_def Let_def split: option.splits)
  have "\<exists>events. map_of EXPECTED_EVENTS status = Some events \<and> n \<in> set events"
    using n assms(2) status_event_expected by (auto split: option.splits list.splits)
  with assms(1) n show ?thesis
    by (auto simp: lifecycle_body_def Let_def body_matches_def)
qed

lemma emit_wf:
  assumes wf: "stream_wf env sid cid tid st" and ev: "event_consistent env e"
    and em: "emit env sid cid tid st e = Some st'"
  shows "stream_wf env sid cid tid st' \<and> \<not> st_terminal_sent st"
proof -
  let ?status = "py_str (text_of env) (get_or e ''status'' (PStr ''''))"
  from em obtain tokens body bs where nt: "\<not> st_terminal_sent st"
    and body: "lifecycle_body sid cid tid (st_sequence st) ?status (sget e ''result'') (opt_str env e ''error_code'')
      (opt_str env e ''error_message'') tokens (opt_str env e ''event'') = Some body"
    and bs: "send env RESPONSE body = Inr bs"
    and st': "st' = \<lparr>st_sequence = st_sequence st + 1, st_terminal_sent = (?status \<noteq> ''partial''),
      st_bodies = st_bodies st @ [body], st_frames = st_frames st @ [bs]\<rparr>"
    by (auto simp: emit_def Let_def split: if_splits option.splits sum.splits)
  have "body_matches sid cid tid (st_sequence st) (?status \<noteq> ''partial'') body"
    using body ev by (intro lifecycle_body_matches) (auto simp: event_consistent_def)
  with wf nt bs show ?thesis
    by (auto simp: stream_wf_def st' list_all2_appendI nth_append all_less_Suc)
qed

lemma emit_all_wf:
  assumes "stream_wf env sid cid tid st" "\<forall>e \<in> set es. event_consistent env e"
  shows "stream_wf env sid cid tid (fst (emit_all env sid cid tid st es))"
  using assms
  by (induction es arbitrary: st) (auto split: option.splits dest: emit_wf)

lemma run_stream_wf:
  assumes "\<forall>e \<in> set (fst run). event_consistent env e" "run_stream env sid cid tid run = (st, ok)"
  shows "stream_wf env sid cid tid st \<and> (ok \<longrightarrow> st_terminal_sent st)"
proof -
  let ?st0 = "\<lparr>st_sequence = 0, st_terminal_sent = False, st_bodies = [], st_frames = []\<rparr>"
  have "stream_wf env sid cid tid ?st0" by (simp add: stream_wf_def)
  then have wf: "stream_wf env sid cid tid (fst (emit_all env sid cid tid ?st0 (fst run)))"
    using assms(1) by (rule emit_all_wf)
  have term_sent: "st_terminal_sent st'" if "emit env sid cid tid s (error_event c m) = Some st'" for s st' c m
    using that by (auto simp: emit_def error_event_def Let_def split: option.splits sum.splits if_splits)
  show ?thesis
    using assms(2) wf
    by (auto simp: run_stream_def Let_def split: prod.splits bool.splits if_splits option.splits
        dest: term_sent emit_wf [OF _ error_event_consistent])
qed

lemma stream_call_wf:
  assumes "\<forall>e \<in> set (fst run). event_consistent env e" "stream_call env sid cid tid run = (st, Some True)"
  shows "stream_wf env sid cid tid st \<and> st_terminal_sent st"
proof -
  let ?st0 = "\<lparr>st_sequence = 0, st_terminal_sent = False, st_bodies = [], st_frames = []\<rparr>"
  have st0: "stream_wf env sid cid tid ?st0" by (simp add: stream_wf_def)
  have term_sent: "st_terminal_sent st'" if "emit env sid cid tid s (error_event c m) = Some st'" for s st' c m
    using that by (auto simp: emit_def error_event_def Let_def split: option.splits sum.splits if_splits)
  obtain s ok where s: "(if gate_full env then (?st0, False) else run_stream env sid cid tid run) = (s, ok)" by fastforce
  then have wf: "stream_wf env sid cid tid s \<and> (ok \<longrightarrow> st_terminal_sent s)"
    using st0 run_stream_wf [OF assms(1), of sid cid tid s ok] by (auto split: if_splits)
  show ?thesis
    using assms(2) wf
    unfolding stream_call_def s
    by (auto split: bool.splits if_splits option.splits dest: term_sent emit_wf [OF _ error_event_consistent])
qed

text \<open>The client's loop over frames whose bodies match: it yields one event per frame and ends cleanly.\<close>

lemma client_stream_accepts:
  assumes "list_all2 (\<lambda>b f. send env RESPONSE b = Inr f) bodies frames" "bodies \<noteq> []"
    and "\<forall>b \<in> set bodies. codec_ok env b"
    and "\<forall>i < length bodies. body_matches (ns_session_id seq) (ns_call_id seq) (ns_task_id seq)
           (ns_next_sequence seq + int i) (i = length bodies - 1) (bodies ! i)"
    and "\<not> ns_terminal_seen seq"
  shows "\<exists>fs. client_stream env seq (concat frames @ rest) = (fs, Inr rest) \<and> length fs = length bodies \<and>
    (\<forall>i < length fs. frame_matches (ns_session_id seq) (ns_call_id seq) (ns_task_id seq) (ns_next_sequence seq + int i) (fs ! i) \<and>
       frame_final (fs ! i) = (i = length fs - 1))"
  using assms
proof (induction bodies arbitrary: frames seq)
  case (Cons b bs)
  then obtain f fr where frames: "frames = f # fr" and snd: "send env RESPONSE b = Inr f"
    and rest: "list_all2 (\<lambda>b f. send env RESPONSE b = Inr f) bs fr" by (auto simp: list_all2_Cons1)
  obtain b' where b': "load_body env (cbor_dumps env b) = Inr b'" "same_value b b'"
    using Cons.prems(3) by (auto elim: load_body_codec)
  have "body_matches (ns_session_id seq) (ns_call_id seq) (ns_task_id seq) (ns_next_sequence seq) (bs = []) b"
    using Cons.prems(4) [rule_format, of 0] by (cases bs) auto
  from body_matches_decode [OF body_matches_same [OF this b'(2)]] obtain g where
    g: "decode_lifecycle_response b' = Inr g"
      "frame_matches (ns_session_id seq) (ns_call_id seq) (ns_task_id seq) (ns_next_sequence seq) g" "frame_final g = (bs = [])"
    by blast
  define seq' where "seq' = seq\<lparr>ns_next_sequence := ns_next_sequence seq + 1, ns_terminal_seen := (bs = [])\<rparr>"
  have acc: "seq_accept seq g = (seq', Inr ())"
    using g Cons.prems(5) by (simp add: seq_accept_Inr seq'_def)
  have rd: "read_frame (concat frames @ rest) = Inr (msg_code RESPONSE, cbor_dumps env b, concat fr @ rest)"
    using read_frame_send [OF snd, of "concat fr @ rest"] by (simp add: frames)
  have fin: "truthy (sget g ''is_final'') = (bs = [])" using g(2,3) by (auto simp: frame_matches_def)
  show ?case
  proof (cases "bs = []")
    case True
    with rest have "fr = []" by simp
    with True rd b'(1) g acc fin show ?thesis
      by (subst client_stream.simps) (simp add: seq_finish_def seq'_def)
  next
    case False
    have "\<forall>i < length bs. body_matches (ns_session_id seq') (ns_call_id seq') (ns_task_id seq')
        (ns_next_sequence seq' + int i) (i = length bs - 1) (bs ! i)"
    proof (intro allI impI)
      fix i assume i: "i < length bs"
      have "(Suc i = length bs) = (i = length bs - 1)" using i by auto
      with Cons.prems(4) [rule_format, of "Suc i"] i
      show "body_matches (ns_session_id seq') (ns_call_id seq') (ns_task_id seq')
          (ns_next_sequence seq' + int i) (i = length bs - 1) (bs ! i)"
        by (simp add: seq'_def add.assoc)
    qed
    with Cons.IH [OF rest False, of seq'] Cons.prems(3) False obtain fs where
      fs: "client_stream env seq' (concat fr @ rest) = (fs, Inr rest)" "length fs = length bs"
      "\<forall>i < length fs. frame_matches (ns_session_id seq') (ns_call_id seq') (ns_task_id seq') (ns_next_sequence seq' + int i) (fs ! i) \<and>
         frame_final (fs ! i) = (i = length fs - 1)"
      by (auto simp: seq'_def)
    have "client_stream env seq (concat frames @ rest) = (g # fs, Inr rest)"
      using rd b'(1) g acc fin fs(1) False by (subst client_stream.simps) simp
    moreover have "frame_matches (ns_session_id seq) (ns_call_id seq) (ns_task_id seq) (ns_next_sequence seq + int i) ((g # fs) ! i) \<and>
        frame_final ((g # fs) ! i) = (i = length (g # fs) - 1)" if i: "i < length (g # fs)" for i
    proof (cases i)
      case 0
      with g fs(2) False show ?thesis by simp
    next
      case (Suc j)
      with i have j: "j < length fs" "(Suc j = length fs) = (j = length fs - 1)" by auto
      with fs(3) [rule_format, of j] Suc show ?thesis by (simp add: seq'_def add.assoc)
    qed
    ultimately show ?thesis using fs(2) by (intro exI [of _ "g # fs"]) simp
  qed
qed simp

subsection \<open>Properties\<close>

lemma emit_error_ok:
  assumes "\<forall>b. length (cbor_dumps env b) \<le> MAX_FRAME_PAYLOAD" "\<not> st_terminal_sent st"
  shows "\<exists>st'. emit env sid cid tid st (error_event code msg) = Some st'"
proof -
  have "\<exists>bs. send env RESPONSE b = Inr bs" for b using send_ok assms(1) by blast
  with assms(2) show ?thesis
    by (simp add: emit_def error_event_def opt_str_def lifecycle_body_def status_event_def Let_def split: sum.splits)
      (metis Inr_not_Inl)
qed

lemma stream_call_returns:
  assumes "\<forall>b. length (cbor_dumps env b) \<le> MAX_FRAME_PAYLOAD"
  shows "\<exists>st. stream_call env sid cid tid run = (st, Some True)"
proof -
  obtain s ok where s: "(if gate_full env then (\<lparr>st_sequence = 0, st_terminal_sent = False, st_bodies = [], st_frames = []\<rparr>, False)
      else run_stream env sid cid tid run) = (s, ok)" by fastforce
  show ?thesis
    using emit_error_ok [OF assms, of s sid cid tid]
    unfolding stream_call_def s by (cases ok; cases "st_terminal_sent s") (auto split: option.splits)
qed


definition sample_env :: "pyval \<Rightarrow> pyval \<Rightarrow> tcp_env" where
  "sample_env a b =
     \<lparr>cbor_dumps = (\<lambda>v. if v = a then [1] else [2]), cbor_loads = (\<lambda>bs. if bs = [1] then Some a else Some b),
      json_body = (\<lambda>_. None), text_of = (\<lambda>_. []), int_parse = (\<lambda>_. None), env_node_id = None,
      task_handler = None, streaming_handler = None, discover_lookup = None, concurrency_gate = Some (4, 4)\<rparr>"

lemma sample_env_small: "length (cbor_dumps (sample_env a b) v) \<le> MAX_FRAME_PAYLOAD"
  by (simp add: sample_env_def MAX_FRAME_PAYLOAD_def)

lemma sample_env_codec: "codec_ok (sample_env a b) a" "codec_ok (sample_env a b) b"
  by (simp_all add: codec_ok_def sample_env_def same_refl)


text \<open>Handshake and ping, end to end and over any segmentation of the client's bytes: the server answers
  INIT with an ACK and PING with a PONG, the client completes the handshake with the node identifier the
  server advertises and gets back the bytes it asked to be echoed.\<close>

lemma handshake_ping_end_to_end:
  assumes "\<forall>c \<in> set segments. c \<noteq> []" "concat segments = req1 @ req2" "echo \<noteq> []"
    and "handshake_request env = Inr req1"
    and "ping_request env \<lparr>cl_framing_version = Some FRAMING_VERSION, cl_peer_node_id = peer\<rparr> (Some echo) = Inr req2"
    and "codec_ok env (PDict [(PInt 1, PInt FRAMING_VERSION)])" "codec_ok env (ack_body (env_node_id env))"
      "codec_ok env (PDict [(PInt 1, PBytes echo)])"
    and "length (cbor_dumps env (ack_body (env_node_id env))) \<le> MAX_FRAME_PAYLOAD"
  shows "\<exists>ack pong cl. session (dispatch env) [] segments = ([ack, pong], StreamEnded) \<and>
    handshake_reply env new_client (ack @ pong) = (cl, Inr pong) \<and>
    cl_framing_version cl = Some FRAMING_VERSION \<and> cl_peer_node_id cl = env_node_id env \<and>
    ping_reply env pong = Inr (PBytes echo)"
proof -
  let ?init = "PDict [(PInt 1, PInt FRAMING_VERSION)]" and ?ping = "PDict [(PInt 1, PBytes echo)]"
  let ?ack = "ack_body (env_node_id env)"
  have r1: "send env INIT ?init = Inr req1"
    using assms(4) by (simp add: handshake_request_def client_send_def split: sum.splits)
  have r2: "send env PING ?ping = Inr req2"
    using assms(3,5) by (cases echo) (simp_all add: ping_request_def require_handshake_def client_send_def split: sum.splits)
  have "length (cbor_dumps env ?ping) \<le> MAX_FRAME_PAYLOAD"
    using r2 by (simp add: send_def encode_frame_Inr make_frame_def)
  then obtain ack pong where a: "send env ACK ?ack = Inr ack" and p: "send env PONG ?ping = Inr pong"
    using send_ok assms(9) by blast
  from codec_map [OF assms(6)] obtain i where i: "cbor_loads env (cbor_dumps env ?init) = Some (PDict i)"
    "iget i 1 = PInt FRAMING_VERSION" by (metis iget_simps(2) same_int)
  from codec_map [OF assms(8)] obtain q where q: "cbor_loads env (cbor_dumps env ?ping) = Some (PDict q)"
    "iget q 1 = PBytes echo" and qn: "cbor_dumps env ?ping \<noteq> []" by (metis iget_simps(2) same_bytes)
  obtain k where k: "cbor_loads env (cbor_dumps env ?ack) = Some (PDict k)" "iget k 1 = PInt FRAMING_VERSION"
    "(case iget k 2 of PStr n \<Rightarrow> Some n | _ \<Rightarrow> None) = env_node_id env" and kn: "cbor_dumps env ?ack \<noteq> []"
    using assms(7) by (rule ack_codec)
  have enc: "list_all2 (\<lambda>f bs. encode_frame f = Inr bs)
      [make_frame INIT (cbor_dumps env ?init), make_frame PING (cbor_dumps env ?ping)] [req1, req2]"
    using r1 r2 by (simp add: send_def)
  have "session (dispatch env) [] segments =
      run_frames (dispatch env) [] [make_frame INIT (cbor_dumps env ?init), make_frame PING (cbor_dumps env ?ping)]"
  proof -
    have "session (dispatch env) [] segments = session_spec (dispatch env) [] False (concat [req1, req2])"
      using session_segmentation [OF assms(1), of "dispatch env" "[]"] assms(2) r1
      by (simp add: session_bytes_def send_def encode_frame_Inr IICP_MAGIC_def)
    then show ?thesis
      using session_spec_frames [OF enc, of False "dispatch env" "[]"] stable_code [of INIT] stable_code [of PING]
      by (simp add: make_frame_def)
  qed
  also have "\<dots> = ([ack, pong], StreamEnded)"
    using i q qn a p assms(3)
    by (simp add: dispatch_def msg_type_of_def make_frame_def on_init_def on_ping_def reply_def pong_body_def)
  finally have "session (dispatch env) [] segments = ([ack, pong], StreamEnded)" .
  moreover have "handshake_reply env new_client (ack @ pong) =
      (\<lparr>cl_framing_version = Some FRAMING_VERSION, cl_peer_node_id = env_node_id env\<rparr>, Inr pong)"
    using read_frame_send [OF a, of pong] k kn by (simp add: handshake_reply_def load_body_def)
  moreover have "ping_reply env pong = Inr (PBytes echo)"
    using read_frame_send [OF p, of "[]"] q qn by (simp add: ping_reply_def load_body_def)
  ultimately show ?thesis by fastforce
qed

text \<open>The body and the task of a plain CALL.\<close>

definition plain_call :: "string \<Rightarrow> string \<Rightarrow> bytes \<Rightarrow> string \<Rightarrow> pydict" where
  "plain_call sid intent task cid =
     [(PInt 2, PStr sid), (PInt 3, PStr intent), (PInt 5, PBytes task), (PInt 15, PStr cid)]"

definition plain_task :: "tcp_env \<Rightarrow> string \<Rightarrow> bytes \<Rightarrow> string \<Rightarrow> pyval" where
  "plain_task env intent task cid =
     PDict [(PStr ''task_id'', PStr cid), (PStr ''intent'', PStr intent), (PStr ''payload'', call_payload env (PBytes task))]"

lemma same_str: "same_value (PStr s) v \<Longrightarrow> v = PStr s"
  and same_none: "same_value PNone v \<Longrightarrow> v = PNone"
  by auto

lemma iget_or_iget: "iget d k \<noteq> PNone \<Longrightarrow> iget_or d k x = iget d k"
  by (auto simp: iget_def iget_or_def split: option.splits)

lemma plain_call_fields:
  assumes "codec_ok env (PDict (plain_call sid intent task cid))" "cid \<noteq> []"
  obtains e where "cbor_loads env (cbor_dumps env (PDict (plain_call sid intent task cid))) = Some (PDict e)"
    "iget e 24 = PNone"
    "call_fields_of env (Some (PDict e)) = \<lparr>cf_session_id = sid, cf_call_id = PStr cid, cf_task_id = cid,
       cf_intent = intent, cf_payload = call_payload env (PBytes task)\<rparr>"
proof -
  from codec_map [OF assms(1)] obtain e where
    e: "cbor_loads env (cbor_dumps env (PDict (plain_call sid intent task cid))) = Some (PDict e)"
      "\<And>k. same_value (iget (plain_call sid intent task cid) k) (iget e k)" by blast
  have g: "iget e 2 = PStr sid" "iget e 3 = PStr intent" "iget e 5 = PBytes task" "iget e 15 = PStr cid" "iget e 24 = PNone"
    using e(2) [of 2] e(2) [of 3] e(2) [of 5] e(2) [of 15] e(2) [of 24] by (auto simp: plain_call_def)
  with assms(2) show thesis
    by (intro that [OF e(1) g(5)]) (simp add: call_fields_of_def Let_def iget_or_iget)
qed

lemma response_body_get:
  assumes "codec_ok env (response_body sid cid result code msg)"
  obtains e where "load_body env (cbor_dumps env (response_body sid cid result code msg)) = Inr (PDict e)"
    "py_find e (PInt 100) = None \<longleftrightarrow> code = None"
    "iget e 5 = (case result of None \<Rightarrow> PNone | Some r \<Rightarrow> PBytes r)"
proof -
  define d where "d = [(PInt 2, PStr sid)] @ (if cid = PNone then [] else [(PInt 15, cid)]) @
       (case result of None \<Rightarrow> [] | Some r \<Rightarrow> [(PInt 5, PBytes r)]) @
       (case code of None \<Rightarrow> [] | Some c \<Rightarrow> [(PInt 100, PInt c)]) @
       (case msg of None \<Rightarrow> [] | Some m \<Rightarrow> [(PInt 101, PStr m)])"
  have d: "response_body sid cid result code msg = PDict d" by (simp add: response_body_def d_def)
  obtain v where v: "load_body env (cbor_dumps env (PDict d)) = Inr v" "same_value (PDict d) v"
    using assms by (auto simp: d elim: load_body_codec)
  from v(2) obtain e where e: "v = PDict e" and f: "\<And>k. rel_option same_value (py_find d k) (py_find e k)"
    by (elim same_value_dict) (rule that)
  have "py_find d (PInt 100) = None \<longleftrightarrow> code = None" "iget d 5 = (case result of None \<Rightarrow> PNone | Some r \<Rightarrow> PBytes r)"
    by (auto simp: d_def iget_def iget_or_def split: option.splits if_splits)
  moreover have "py_find d (PInt 100) = None \<longleftrightarrow> py_find e (PInt 100) = None"
    using f [of "PInt 100"] by (auto elim: option.rel_cases)
  ultimately show thesis
    using v(1) e same_value_iget [OF f, of 5] by (intro that [of e]) (auto simp: d split: option.splits)
qed

lemma call_reply_error:
  assumes "send env RESPONSE (response_body sid c None (Some code) msg) = Inr bs"
    "codec_ok env (response_body sid c None (Some code) msg)"
  shows "call_reply env bs = Inl (ClientError ''server error'')"
proof -
  obtain e where
    "load_body env (cbor_dumps env (response_body sid c None (Some code) msg)) = Inr (PDict e)"
    "py_find e (PInt 100) \<noteq> None"
    by (rule response_body_get [OF assms(2)]) (rule that, simp_all)
  with read_frame_send [OF assms(1), of "[]"] show ?thesis by (simp add: call_reply_def)
qed

lemma call_reply_result:
  assumes "send env RESPONSE (response_body sid c (Some (cbor_dumps env (PDict v))) None None) = Inr bs" "codec_ok env (PDict v)"
    "codec_ok env (response_body sid c (Some (cbor_dumps env (PDict v))) None None)"
  shows "\<exists>v'. call_reply env bs = Inr (PDict v') \<and> same_value (PDict v) (PDict v')"
proof -
  obtain d where
    "load_body env (cbor_dumps env (response_body sid c (Some (cbor_dumps env (PDict v))) None None)) = Inr (PDict d)"
    "py_find d (PInt 100) = None" "iget d 5 = PBytes (cbor_dumps env (PDict v))"
    by (rule response_body_get [OF assms(3)]) (rule that, simp_all)
  moreover obtain v' where "cbor_loads env (cbor_dumps env (PDict v)) = Some (PDict v')" "same_value (PDict v) (PDict v')"
  proof -
    from assms(2) obtain w where w: "cbor_loads env (cbor_dumps env (PDict v)) = Some w" "same_value (PDict v) w"
      by (auto simp: codec_ok_def)
    from w(2) obtain e where "w = PDict e" by (rule same_value_dict)
    with w that show thesis by simp
  qed
  ultimately show ?thesis using read_frame_send [OF assms(1), of "[]"] by (simp add: call_reply_def)
qed

definition capacity_body :: "string \<Rightarrow> string \<Rightarrow> int \<Rightarrow> pyval" where
  "capacity_body sid cid limit =
     response_body sid (PStr cid) None (Some 429) (Some (''IICP-E021: max_concurrent='' @ int_text limit @ '' reached''))"

lemma on_call_plain:
  assumes "codec_ok env (PDict (plain_call sid intent task cid))" "cid \<noteq> []" "task_handler env = Some h"
  shows "on_call env (make_frame CALL (cbor_dumps env (PDict (plain_call sid intent task cid)))) =
    (case concurrency_gate env of
       Some (limit, active) \<Rightarrow>
         if limit \<le> active then reply env RESPONSE (capacity_body sid cid limit)
         else (let (result, code, msg) = run_handler env h (plain_task env intent task cid)
               in reply env RESPONSE (response_body sid (PStr cid) result code msg))
     | None \<Rightarrow> (let (result, code, msg) = run_handler env h (plain_task env intent task cid)
               in reply env RESPONSE (response_body sid (PStr cid) result code msg)))"
proof -
  from plain_call_fields [OF assms(1,2)] obtain e where
    e: "cbor_loads env (cbor_dumps env (PDict (plain_call sid intent task cid))) = Some (PDict e)" "iget e 24 = PNone"
      "call_fields_of env (Some (PDict e)) = \<lparr>cf_session_id = sid, cf_call_id = PStr cid, cf_task_id = cid,
         cf_intent = intent, cf_payload = call_payload env (PBytes task)\<rparr>" .
  show ?thesis
    using assms(3) by (simp add: on_call_def make_frame_def e plain_task_def capacity_body_def Let_def split: option.splits)
qed

text \<open>A plain CALL end to end. With a free slot the client gets back the map the task handler returned for
  exactly the task it sent; with the concurrency gate full the client gets a server error and the answer,
  429 with the limit, does not depend on the handler, which is not run.\<close>

lemma call_end_to_end:
  assumes "call_request env cl intent task sid (Some cid) = Inr req" "cid \<noteq> []" "task_handler env = Some h"
    and codec: "codec_ok env (PDict (plain_call sid intent task cid))"
    and small: "\<forall>b. length (cbor_dumps env b) \<le> MAX_FRAME_PAYLOAD"
    and frame: "frame = make_frame CALL (cbor_dumps env (PDict (plain_call sid intent task cid)))"
  shows "encode_frame frame = Inr req \<and>
    (concurrency_gate env = Some (limit, active) \<and> limit \<le> active \<and> codec_ok env (capacity_body sid cid limit) \<longrightarrow>
      (\<exists>bs. on_call env frame = ([bs], Some True) \<and> send env RESPONSE (capacity_body sid cid limit) = Inr bs \<and>
         call_reply env bs = Inl (ClientError ''server error''))) \<and>
    (\<not> gate_full env \<and> h (plain_task env intent task cid) = Some (PDict r) \<and> py_find r (PStr ''error_code'') = None \<and>
     get_or r ''result'' (PDict r) = PDict v \<and> codec_ok env (PDict v) \<and>
     codec_ok env (response_body sid (PStr cid) (Some (cbor_dumps env (PDict v))) None None) \<longrightarrow>
      (\<exists>bs v'. on_call env frame = ([bs], Some True) \<and> call_reply env bs = Inr (PDict v') \<and> same_value (PDict v) (PDict v')))"
proof (intro conjI impI)
  have "send env CALL (PDict (plain_call sid intent task cid)) = Inr req"
    using assms(1) by (auto simp: call_request_def client_send_def plain_call_def result_simps split: sum.splits)
  then show "encode_frame frame = Inr req" by (simp add: frame send_def)
next
  assume full: "concurrency_gate env = Some (limit, active) \<and> limit \<le> active \<and> codec_ok env (capacity_body sid cid limit)"
  obtain bs where bs: "send env RESPONSE (capacity_body sid cid limit) = Inr bs" using send_ok small by blast
  have "on_call env frame = ([bs], Some True)"
    using on_call_plain [OF codec assms(2,3)] full bs by (simp add: frame reply_def)
  moreover have "call_reply env bs = Inl (ClientError ''server error'')"
    using call_reply_error bs full unfolding capacity_body_def by blast
  ultimately show "\<exists>bs. on_call env frame = ([bs], Some True) \<and> send env RESPONSE (capacity_body sid cid limit) = Inr bs \<and>
      call_reply env bs = Inl (ClientError ''server error'')" using bs by blast
next
  let ?body = "response_body sid (PStr cid) (Some (cbor_dumps env (PDict v))) None None"
  assume free: "\<not> gate_full env \<and> h (plain_task env intent task cid) = Some (PDict r) \<and> py_find r (PStr ''error_code'') = None \<and>
     get_or r ''result'' (PDict r) = PDict v \<and> codec_ok env (PDict v) \<and> codec_ok env ?body"
  obtain bs where bs: "send env RESPONSE ?body = Inr bs" using send_ok small by blast
  have "on_call env frame = ([bs], Some True)"
    using on_call_plain [OF codec assms(2,3)] free bs
    by (auto simp: frame reply_def gate_full_def run_handler_def split: option.splits)
  with call_reply_result [OF bs] free
  show "\<exists>bs v'. on_call env frame = ([bs], Some True) \<and> call_reply env bs = Inr (PDict v') \<and> same_value (PDict v) (PDict v')"
    by blast
qed

end
