(* ===== verification/Net_Endpoint.thy ===== *)
theory Net_Endpoint
  imports Py_Value
begin

unbundle bit_operations_syntax

text \<open>
  Which network endpoints may be contacted: \<open>endpoint_security.py\<close> (resolution, address policy, connection
  pinning) and the guard \<open>_is_ssrf_safe\<close> of \<open>proxy/clients/node.py\<close>. The parts of \<open>urllib.parse\<close> and
  \<open>ipaddress\<close> they use are modelled on ASCII text (for such text the NFKC check of \<open>urlsplit\<close> does nothing).
  Parameters: the resolver (\<open>socket.getaddrinfo\<close>), the text of an address (\<open>str\<close>, which differs between the
  supported Python releases), and the classification \<open>is_private or is_loopback or ...\<close> of \<open>ipaddress\<close>, whose
  tables differ between them too.
\<close>

subsection \<open>Text\<close>

text \<open>\<open>s.partition(c)\<close> without the separator, \<open>s.rpartition(c)\<close>, \<open>s.split(c)\<close> for a one-character separator,
  \<open>s.rstrip(c)\<close>.\<close>

definition before :: "char \<Rightarrow> string \<Rightarrow> string" where
  "before c s = takeWhile (\<lambda>x. x \<noteq> c) s"

definition after :: "char \<Rightarrow> string \<Rightarrow> string" where
  "after c s = tl (dropWhile (\<lambda>x. x \<noteq> c) s)"

definition after_last :: "char \<Rightarrow> string \<Rightarrow> string" where
  "after_last c s = rev (takeWhile (\<lambda>x. x \<noteq> c) (rev s))"

definition before_last :: "char \<Rightarrow> string \<Rightarrow> string" where
  "before_last c s = rev (tl (dropWhile (\<lambda>x. x \<noteq> c) (rev s)))"

fun split_on :: "char \<Rightarrow> string \<Rightarrow> string list" where
  "split_on c [] = [[]]"
| "split_on c (x # s) =
     (if x = c then [] # split_on c s else (x # hd (split_on c s)) # tl (split_on c s))"

definition rstrip_char :: "char \<Rightarrow> string \<Rightarrow> string" where
  "rstrip_char c s = rev (dropWhile (\<lambda>x. x = c) (rev s))"

definition is_digit :: "char \<Rightarrow> bool" where
  "is_digit c = (let n = of_char c :: nat in 48 \<le> n \<and> n \<le> 57)"

definition number_of :: "string \<Rightarrow> nat" where
  "number_of s = foldl (\<lambda>a c. 10 * a + (of_char c - 48)) 0 s"

definition hex_digit :: "char \<Rightarrow> nat" where
  "hex_digit c =
     (let n = of_char c :: nat in if n \<le> 57 then n - 48 else if n \<le> 70 then n - 55 else n - 87)"

definition hex_number :: "string \<Rightarrow> nat" where
  "hex_number s = foldl (\<lambda>a c. 16 * a + hex_digit c) 0 s"

subsection \<open>Addresses (\<open>ipaddress.ip_address\<close>)\<close>

datatype ip_addr = V4 "32 word" | V6 "128 word" "string option"

definition octet_ok :: "string \<Rightarrow> bool" where
  "octet_ok s \<longleftrightarrow> s \<noteq> [] \<and> list_all is_digit s \<and> length s \<le> 3 \<and> \<not> (hd s = CHR ''0'' \<and> length s > 1) \<and> number_of s \<le> 255"

definition parse_v4 :: "string \<Rightarrow> 32 word option" where
  "parse_v4 s =
     (let octets = split_on (CHR ''.'') s in
      if length octets = 4 \<and> list_all octet_ok octets
      then Some (foldl (\<lambda>a p. 256 * a + word_of_nat (number_of p)) 0 octets) else None)"

definition hextet_ok :: "string \<Rightarrow> bool" where
  "hextet_ok s \<longleftrightarrow> s \<noteq> [] \<and> list_all is_hex_digit s \<and> length s \<le> 4"

text \<open>The last group of an IPv6 text may be a dotted quad, which stands for two groups.\<close>

definition hex4 :: "nat \<Rightarrow> string" where
  "hex4 n = map (\<lambda>d. if d < 10 then char_of (48 + d) else char_of (87 + d :: nat))
     [n div 4096 mod 16, n div 256 mod 16, n div 16 mod 16, n mod 16]"

definition expand_quad :: "string list \<Rightarrow> string list option" where
  "expand_quad parts =
     (if CHR ''.'' \<in> set (last parts)
      then (case parse_v4 (last parts) of
              None \<Rightarrow> None
            | Some w \<Rightarrow> Some (butlast parts @ [hex4 (unat w div 65536), hex4 (unat w mod 65536)]))
      else Some parts)"

definition groups_value :: "string list \<Rightarrow> 128 word" where
  "groups_value gs = foldl (\<lambda>a g. 65536 * a + word_of_nat (hex_number g)) 0 gs"

definition v6_of_parts :: "string list \<Rightarrow> 128 word option" where
  "v6_of_parts parts =
     (let n = length parts;
          skips = filter (\<lambda>i. parts ! i = []) [1 ..< n - 1];
          value = (\<lambda>hi lo. let gs = take hi parts @ replicate (8 - (hi + lo)) ''0'' @ drop (n - lo) parts in
                     if list_all hextet_ok gs then Some (groups_value gs) else None)
      in if n > 9 then None
         else case skips of
             [] \<Rightarrow> if n \<noteq> 8 \<or> hd parts = [] \<or> last parts = [] then None else value 8 0
           | [k] \<Rightarrow>
               (let hi = (if hd parts = [] then k - 1 else k);
                    lo = (if last parts = [] then n - k - 2 else n - k - 1)
                in if (hd parts = [] \<and> hi \<noteq> 0) \<or> (last parts = [] \<and> lo \<noteq> 0) \<or> 8 < hi + lo + 1 then None
                   else value hi lo)
           | _ \<Rightarrow> None)"

definition parse_v6 :: "string \<Rightarrow> ip_addr option" where
  "parse_v6 s =
     (let addr = before (CHR ''%'') s; zone = after (CHR ''%'') s; zoned = (CHR ''%'' \<in> set s);
          parts = split_on (CHR '':'') addr
      in if CHR ''/'' \<in> set s \<or> (zoned \<and> (zone = [] \<or> CHR ''%'' \<in> set zone)) \<or> addr = [] \<or> length parts < 3 then None
         else case expand_quad parts of
             None \<Rightarrow> None
           | Some ps \<Rightarrow> map_option (\<lambda>w. V6 w (if zoned then Some zone else None)) (v6_of_parts ps))"

definition ip_address :: "string \<Rightarrow> ip_addr option" where
  "ip_address s = (case parse_v4 s of Some w \<Rightarrow> Some (V4 w) | None \<Rightarrow> parse_v6 s)"

definition ipv4_mapped :: "ip_addr \<Rightarrow> 32 word option" where
  "ipv4_mapped a =
     (case a of V6 w _ \<Rightarrow> if drop_bit 32 w = 0xFFFF then Some (ucast w) else None | V4 _ \<Rightarrow> None)"

text \<open>\<open>address in ip_network(base/prefix)\<close>.\<close>

definition in_network :: "'a::len word \<Rightarrow> 'a word \<times> nat \<Rightarrow> bool" where
  "in_network w net = (case net of (base, bits) \<Rightarrow>
     drop_bit (LENGTH('a) - bits) w = drop_bit (LENGTH('a) - bits) base)"

subsection \<open>URLs (\<open>urllib.parse.urlparse\<close>)\<close>

record split_url =
  u_scheme :: string
  u_netloc :: string

definition scheme_char :: "char \<Rightarrow> bool" where
  "scheme_char c \<longleftrightarrow> is_ascii_alnum c \<or> c \<in> set ''+-.''"

definition split_scheme :: "string \<Rightarrow> string \<times> string" where
  "split_scheme url =
     (let s = before (CHR '':'') url in
      if CHR '':'' \<in> set url \<and> s \<noteq> [] \<and> is_ascii_alnum (hd s) \<and> \<not> is_digit (hd s) \<and> list_all scheme_char s
      then (lower s, after (CHR '':'') url) else ([], url))"

definition bracketed_ok :: "string \<Rightarrow> bool" where
  "bracketed_ok host =
     (if starts_with host ''v''
      then (let v = before (CHR ''.'') (tl host) in
            v \<noteq> [] \<and> list_all is_hex_digit v \<and> CHR ''.'' \<in> set host \<and> after (CHR ''.'') (tl host) \<noteq> [])
      else (case ip_address host of Some (V6 _ _) \<Rightarrow> True | _ \<Rightarrow> False))"

definition hostinfo :: "string \<Rightarrow> string \<times> string" where
  "hostinfo netloc =
     (let h = after_last (CHR ''@'') netloc in
      if CHR ''['' \<in> set h
      then (let b = after (CHR ''['') h in
            (before (CHR '']'') b, after (CHR '':'') (after (CHR '']'') b)))
      else (before (CHR '':'') h, after (CHR '':'') h))"

definition netloc_ok :: "string \<Rightarrow> bool" where
  "netloc_ok netloc =
     (let op = CHR ''['' \<in> set netloc; cl = CHR '']'' \<in> set netloc;
          h = after_last (CHR ''@'') netloc;
          rest = after (CHR '']'') (after (CHR ''['') h)
      in (op \<longleftrightarrow> cl) \<and>
         (op \<longrightarrow> (CHR ''['' \<in> set h \<longrightarrow> before (CHR ''['') h = [] \<and> (rest = [] \<or> hd rest = CHR '':'')) \<and>
                bracketed_ok (fst (hostinfo netloc))))"

definition urlparse :: "string \<Rightarrow> py_error + split_url" where
  "urlparse url =
     (let clean = filter (\<lambda>c. c \<notin> {CHR 0x09, CHR 0x0A, CHR 0x0D}) (dropWhile (\<lambda>c. (of_char c :: nat) \<le> 32) url);
          (scheme, rest) = split_scheme clean;
          netloc = (if take 2 rest = ''//'' then takeWhile (\<lambda>c. c \<notin> set ''/?#'') (drop 2 rest) else [])
      in if netloc_ok netloc then Inr \<lparr>u_scheme = scheme, u_netloc = netloc\<rparr> else Inl (ValueError ''Invalid IPv6 URL''))"

definition url_hostname :: "split_url \<Rightarrow> string option" where
  "url_hostname u =
     (let h = fst (hostinfo (u_netloc u)) in
      if h = [] then None
      else Some (lower (before (CHR ''%'') h) @ (if CHR ''%'' \<in> set h then ''%'' @ after (CHR ''%'') h else [])))"

text \<open>\<open>parsed.username or parsed.password\<close>.\<close>

definition url_has_user :: "split_url \<Rightarrow> bool" where
  "url_has_user u \<longleftrightarrow>
     CHR ''@'' \<in> set (u_netloc u) \<and>
     (let ui = before_last (CHR ''@'') (u_netloc u) in before (CHR '':'') ui \<noteq> [] \<or> after (CHR '':'') ui \<noteq> [])"

definition url_port :: "split_url \<Rightarrow> py_error + nat option" where
  "url_port u =
     (let p = snd (hostinfo (u_netloc u)) in
      if p = [] then Inr None
      else if \<not> list_all is_digit p then Inl (ValueError ''Port could not be cast to integer value'')
      else if number_of p > 65535 then Inl (ValueError ''Port out of range 0-65535'')
      else Inr (Some (number_of p)))"

subsection \<open>The endpoint policy (\<open>endpoint_security.py\<close>)\<close>

definition BLOCKED_SUFFIXES :: "string list" where
  "BLOCKED_SUFFIXES = [''.local'', ''.internal'', ''.lan'', ''.test'', ''.invalid'', ''.localhost'']"

definition BLOCKED_NAMES :: "string list" where
  "BLOCKED_NAMES = [''localhost'', ''0.0.0.0'', ''::1'', ''::'']"

definition quad :: "nat \<Rightarrow> nat \<Rightarrow> nat \<Rightarrow> nat \<Rightarrow> 32 word" where
  "quad a b c d = word_of_nat (((a * 256 + b) * 256 + c) * 256 + d)"

definition BLOCKED_V4 :: "(32 word \<times> nat) list" where
  "BLOCKED_V4 =
     [(quad 0 0 0 0, 8), (quad 10 0 0 0, 8), (quad 100 64 0 0, 10), (quad 127 0 0 0, 8),
      (quad 169 254 0 0, 16), (quad 172 16 0 0, 12), (quad 192 0 0 0, 24), (quad 192 0 2 0, 24),
      (quad 192 168 0 0, 16), (quad 198 18 0 0, 15), (quad 198 51 100 0, 24), (quad 203 0 113 0, 24),
      (quad 224 0 0 0, 4), (quad 240 0 0 0, 4)]"

text \<open>An IPv6 network by its leading 32 bits (all of the table but \<open>::/128\<close> and \<open>::1/128\<close>).\<close>

definition v6_prefix :: "nat \<Rightarrow> 128 word" where
  "v6_prefix hi = push_bit 96 (word_of_nat hi)"

definition BLOCKED_V6 :: "(128 word \<times> nat) list" where
  "BLOCKED_V6 =
     [(0, 128), (1, 128), (v6_prefix 0x1000000, 64), (v6_prefix 0x20010DB8, 32),
      (v6_prefix 0xFC000000, 7), (v6_prefix 0xFE800000, 10), (v6_prefix 0xFF000000, 8)]"

definition private_endpoints_allowed :: "string option \<Rightarrow> bool" where
  "private_endpoints_allowed env =
     (lower (strip (case env of None \<Rightarrow> [] | Some v \<Rightarrow> v)) \<in> {''1'', ''true'', ''yes''})"

definition hostname_allowed :: "string \<Rightarrow> bool \<Rightarrow> bool" where
  "hostname_allowed host allow_private =
     (if host = [] then False
      else if allow_private then True
      else let normalized = lower (rstrip_char (CHR ''.'') host) in
        if normalized \<in> set BLOCKED_NAMES then False
        else if list_ex (ends_with normalized) BLOCKED_SUFFIXES then False
        else if ip_address normalized \<noteq> None then True
        else CHR ''.'' \<in> set normalized \<or> CHR '':'' \<in> set normalized)"

text \<open>\<open>address_allowed\<close> on a parsed address, and on text (which raises on text that is no address).\<close>

definition ip_allowed :: "ip_addr \<Rightarrow> bool" where
  "ip_allowed a =
     (let parsed = (case ipv4_mapped a of Some w \<Rightarrow> V4 w | None \<Rightarrow> a) in
      case parsed of
        V4 w \<Rightarrow> \<not> list_ex (in_network w) BLOCKED_V4
      | V6 w _ \<Rightarrow> \<not> list_ex (in_network w) BLOCKED_V6)"

definition address_allowed :: "string \<Rightarrow> bool \<Rightarrow> py_error + bool" where
  "address_allowed address allow_private =
     (if allow_private then Inr True
      else case ip_address address of
          None \<Rightarrow> Inl (ValueError ''does not appear to be an IPv4 or IPv6 address'')
        | Some a \<Rightarrow> Inr (ip_allowed a))"

record resolved_endpoint =
  re_url :: string
  re_host :: string
  re_port :: nat
  re_addresses :: "string list"

datatype endpoint_error = Refused string | PyRaised py_error

text \<open>\<open>any(not address_allowed(a) for a in addresses)\<close>, which stops at the first prohibited address.\<close>

fun any_prohibited :: "string list \<Rightarrow> bool \<Rightarrow> py_error + bool" where
  "any_prohibited [] allow = Inr False"
| "any_prohibited (a # as) allow =
     (case address_allowed a allow of
        Inl e \<Rightarrow> Inl e
      | Inr ok \<Rightarrow> if \<not> ok then Inr True else any_prohibited as allow)"

definition resolve_endpoint ::
  "(string \<Rightarrow> nat \<Rightarrow> string list option) \<Rightarrow> (ip_addr \<Rightarrow> string) \<Rightarrow> string option \<Rightarrow> string \<Rightarrow> bool option
    \<Rightarrow> endpoint_error + resolved_endpoint" where
  "resolve_endpoint getaddrinfo ip_text env url allow_private =
     (let allow = (case allow_private of None \<Rightarrow> private_endpoints_allowed env | Some b \<Rightarrow> b) in
      case urlparse url of
        Inl e \<Rightarrow> Inl (PyRaised e)
      | Inr parsed \<Rightarrow>
          if u_scheme parsed \<notin> {''http'', ''https''} \<or> url_hostname parsed = None
          then Inl (Refused ''provider endpoint must use HTTP or HTTPS'')
          else if url_has_user parsed then Inl (Refused ''provider endpoint must not contain user info'')
          else let host = lower (rstrip_char (CHR ''.'') (the (url_hostname parsed))) in
            if \<not> hostname_allowed host allow
            then Inl (Refused ''provider hostname is prohibited by network policy'')
            else case url_port parsed of
                Inl e \<Rightarrow> Inl (PyRaised e)
              | Inr p \<Rightarrow>
                  let port = (case p of Some n \<Rightarrow> if n = 0 then (if u_scheme parsed = ''https'' then 443 else 80) else n
                              | None \<Rightarrow> if u_scheme parsed = ''https'' then 443 else 80);
                      found = (case ip_address host of
                          Some literal \<Rightarrow> Some [ip_text literal]
                        | None \<Rightarrow> map_option (\<lambda>as. sort (remdups as)) (getaddrinfo host port))
                  in case found of
                      None \<Rightarrow> Inl (Refused ''provider hostname resolution failed'')
                    | Some addresses \<Rightarrow>
                        if addresses = [] then Inl (Refused ''provider hostname returned no addresses'')
                        else case any_prohibited addresses allow of
                            Inl e \<Rightarrow> Inl (PyRaised e)
                          | Inr True \<Rightarrow> Inl (Refused ''provider hostname resolved to a prohibited address'')
                          | Inr False \<Rightarrow> Inr \<lparr>re_url = url, re_host = host, re_port = port, re_addresses = addresses\<rparr>)"

text \<open>\<open>_PinnedBackend.connect_tcp\<close>: the address the socket is opened to, whatever name the HTTP layer asks for.\<close>

definition connect_tcp :: "resolved_endpoint \<Rightarrow> string \<Rightarrow> string option" where
  "connect_tcp ep host =
     (if lower (rstrip_char (CHR ''.'') host) \<noteq> re_host ep then None else Some (re_addresses ep ! 0))"

text \<open>\<open>_is_ssrf_safe\<close>: \<open>flagged\<close> is \<open>is_private or is_loopback or is_link_local or is_reserved or is_multicast or
  is_unspecified\<close>.\<close>

definition is_ssrf_safe :: "(ip_addr \<Rightarrow> bool) \<Rightarrow> string option \<Rightarrow> string \<Rightarrow> py_error + bool" where
  "is_ssrf_safe flagged env url =
     (case urlparse url of
        Inl e \<Rightarrow> Inl e
      | Inr parsed \<Rightarrow> Inr (
          if u_scheme parsed \<notin> {''http'', ''https''} then False
          else let host = lower (case url_hostname parsed of None \<Rightarrow> [] | Some h \<Rightarrow> h) in
            if host = [] then False
            else if private_endpoints_allowed env then True
            else if host \<in> set BLOCKED_NAMES then False
            else if list_ex (ends_with host) BLOCKED_SUFFIXES then False
            else if CHR ''.'' \<notin> set host then False
            else case ip_address host of None \<Rightarrow> True | Some a \<Rightarrow> \<not> flagged a))"

subsection \<open>Facts\<close>

lemma in_network_range:
  fixes w base :: "'a::len word"
  assumes "bits \<le> LENGTH('a)" "2 ^ (LENGTH('a) - bits) dvd unat base"
  shows "in_network w (base, bits) \<longleftrightarrow> unat base \<le> unat w \<and> unat w < unat base + 2 ^ (LENGTH('a) - bits)"
proof -
  let ?m = "2 ^ (LENGTH('a) - bits) :: nat"
  obtain q where q: "unat base = ?m * q" using assms(2) by (elim dvdE)
  have "in_network w (base, bits) \<longleftrightarrow> unat w div ?m = unat base div ?m"
    by (simp only: in_network_def split word_unat_eq_iff unat_drop_bit_eq) (simp only: drop_bit_eq_div)
  also have "\<dots> \<longleftrightarrow> unat w div ?m = q" by (simp add: q)
  also have "\<dots> \<longleftrightarrow> ?m * q \<le> unat w \<and> unat w < ?m * q + ?m"
    by (metis div_nat_eqI div_times_less_eq_dividend dividend_less_times_div mult.commute mult_Suc_right
        add.commute zero_less_numeral zero_less_power)
  finally show ?thesis by (simp add: q)
qed

text \<open>The addresses the policy admits, by their numeric ranges: everything outside the special-purpose blocks; an
  IPv4-mapped IPv6 address counts as the IPv4 address it carries.\<close>

definition v4_special :: "nat \<Rightarrow> bool" where
  "v4_special n \<longleftrightarrow>
     n < 16777216 \<or> (167772160 \<le> n \<and> n < 184549376) \<or> (1681915904 \<le> n \<and> n < 1686110208) \<or>
     (2130706432 \<le> n \<and> n < 2147483648) \<or> (2851995648 \<le> n \<and> n < 2852061184) \<or>
     (2886729728 \<le> n \<and> n < 2887778304) \<or> (3221225472 \<le> n \<and> n < 3221225728) \<or>
     (3221225984 \<le> n \<and> n < 3221226240) \<or> (3232235520 \<le> n \<and> n < 3232301056) \<or>
     (3323068416 \<le> n \<and> n < 3323199488) \<or> (3325256704 \<le> n \<and> n < 3325256960) \<or>
     (3405803776 \<le> n \<and> n < 3405804032) \<or> (3758096384 \<le> n \<and> n < 4026531840) \<or> 4026531840 \<le> n"

definition v6_special :: "nat \<Rightarrow> bool" where
  "v6_special n \<longleftrightarrow>
     n = 0 \<or> n = 1 \<or> (2 ^ 120 \<le> n \<and> n < 2 ^ 120 + 2 ^ 64) \<or>
     (0x20010DB8 * 2 ^ 96 \<le> n \<and> n < 0x20010DB9 * 2 ^ 96) \<or>
     (0xFC * 2 ^ 120 \<le> n \<and> n < 0xFE * 2 ^ 120) \<or>
     (0xFE80 * 2 ^ 112 \<le> n \<and> n < 0xFEC0 * 2 ^ 112) \<or> 0xFF * 2 ^ 120 \<le> n"

definition ip_public :: "ip_addr \<Rightarrow> bool" where
  "ip_public a =
     (case a of
        V4 w \<Rightarrow> \<not> v4_special (unat w)
      | V6 w _ \<Rightarrow>
          if 0xFFFF * 2 ^ 32 \<le> unat w \<and> unat w < 0x10000 * 2 ^ 32 then \<not> v4_special (unat w mod 2 ^ 32)
          else \<not> v6_special (unat w))"

lemma v4_policy: "list_ex (in_network w) BLOCKED_V4 \<longleftrightarrow> v4_special (unat w)"
proof -
  have "unat w < 4294967296" using unsigned_less [of w, where 'a = nat] by simp
  then show ?thesis
    by (simp add: BLOCKED_V4_def in_network_range quad_def v4_special_def)
qed

lemma v6_policy: "list_ex (in_network w) BLOCKED_V6 \<longleftrightarrow> v6_special (unat w)"
proof -
  have "unat w < 340282366920938463463374607431768211456" using unsigned_less [of w, where 'a = nat] by simp
  moreover have "Suc 0 \<le> n \<and> n < Suc (Suc 0) \<longleftrightarrow> n = Suc 0" for n by auto
  ultimately show ?thesis
    by (simp add: BLOCKED_V6_def in_network_range v6_prefix_def v6_special_def)
qed

lemma ipv4_mapped_iff:
  "ipv4_mapped (V6 w z) =
     (if 0xFFFF * 2 ^ 32 \<le> unat w \<and> unat w < 0x10000 * 2 ^ 32 then Some (ucast w) else None)"
proof -
  have "drop_bit 32 w = 0xFFFF \<longleftrightarrow> unat w div 2 ^ 32 = 0xFFFF"
    by (simp only: word_unat_eq_iff unat_drop_bit_eq) (simp add: drop_bit_eq_div)
  also have "\<dots> \<longleftrightarrow> 0xFFFF * 2 ^ 32 \<le> unat w \<and> unat w < 0x10000 * 2 ^ 32"
    by auto
  finally show ?thesis by (simp add: ipv4_mapped_def)
qed

lemma policy_exact: "ip_allowed a \<longleftrightarrow> ip_public a"
proof (cases a)
  case (V4 w)
  then show ?thesis by (simp add: ip_allowed_def ipv4_mapped_def ip_public_def v4_policy)
next
  case (V6 w z)
  have "unat (ucast w :: 32 word) = unat w mod 2 ^ 32"
    by (simp add: unsigned_ucast_eq take_bit_eq_mod)
  with V6 show ?thesis
    by (simp add: ip_allowed_def ipv4_mapped_iff ip_public_def v4_policy v6_policy Let_def)
qed

lemma any_prohibited_clear:
  "any_prohibited as False = Inr False \<Longrightarrow> a \<in> set as \<Longrightarrow> \<exists>ip. ip_address a = Some ip \<and> ip_public ip"
  by (induction as) (auto simp: address_allowed_def policy_exact split: sum.splits option.splits if_splits)

lemma resolve_endpoint_Inr:
  assumes "resolve_endpoint g t env url allow = Inr ep"
  defines "a \<equiv> (case allow of None \<Rightarrow> private_endpoints_allowed env | Some b \<Rightarrow> b)"
  shows "hostname_allowed (re_host ep) a" "re_addresses ep \<noteq> []" "any_prohibited (re_addresses ep) a = Inr False"
    "re_url ep = url" "\<exists>p. urlparse url = Inr p \<and> u_scheme p \<in> {''http'', ''https''} \<and> \<not> url_has_user p"
  using assms
  by (auto simp: resolve_endpoint_def Let_def split: sum.splits if_splits option.splits bool.splits)

lemma dropWhile_dot_lower: "dropWhile (\<lambda>x. x = CHR ''.'') (map lower_char s) = map lower_char (dropWhile (\<lambda>x. x = CHR ''.'') s)"
proof -
  have "lower_char c = CHR ''.'' \<longleftrightarrow> c = CHR ''.''" for c
  proof (cases "lower_char c = c")
    case False
    then obtain n :: nat where "lower_char c = char_of (n + 32)" "65 \<le> n" "n \<le> 90 \<or> 192 \<le> n" "n \<le> 222"
      by (auto simp: lower_char_def Let_def split: if_splits)
    then have "(of_char (lower_char c) :: nat) = (n + 32) mod 256" "(n + 32) mod 256 \<noteq> 46" by auto
    then have "lower_char c \<noteq> CHR ''.''" by auto
    with False show ?thesis by (auto simp: lower_char_def)
  qed simp
  then show ?thesis by (simp add: dropWhile_map o_def)
qed

lemma normalize_idem: "lower (rstrip_char (CHR ''.'') (lower (rstrip_char (CHR ''.'') h))) = lower (rstrip_char (CHR ''.'') h)"
proof -
  have "rstrip_char (CHR ''.'') (lower x) = lower (rstrip_char (CHR ''.'') x)" for x
    by (simp add: rstrip_char_def lower_def rev_map dropWhile_dot_lower)
  then show ?thesis by (simp add: rstrip_char_def dropWhile_idem)
qed

lemma resolve_endpoint_host:
  "resolve_endpoint g t env url allow = Inr ep \<Longrightarrow> lower (rstrip_char (CHR ''.'') (re_host ep)) = re_host ep"
  by (auto simp: resolve_endpoint_def Let_def normalize_idem split: sum.splits if_splits option.splits bool.splits)

subsection \<open>Properties\<close>

text \<open>No connection leaves for an internal address: once an endpoint has been resolved without the private-network
  opt-in, every socket the pinned transport opens for it, whatever host name the HTTP layer presents and whatever
  the resolver would answer later, goes to an address that parses and lies outside all special-purpose IPv4 and
  IPv6 ranges (IPv4-mapped addresses by the address they carry); the endpoint's own host is served, and the URL is
  \<open>http(s)\<close> without user information.\<close>

lemma connects_to_public_only:
  assumes "resolve_endpoint getaddrinfo ip_text env url allow = Inr ep"
    "\<not> (case allow of None \<Rightarrow> private_endpoints_allowed env | Some b \<Rightarrow> b)"
  shows "(\<forall>host a. connect_tcp ep host = Some a \<longrightarrow> (\<exists>ip. ip_address a = Some ip \<and> ip_public ip)) \<and>
    connect_tcp ep (re_host ep) \<noteq> None \<and>
    (\<exists>p. urlparse url = Inr p \<and> u_scheme p \<in> {''http'', ''https''} \<and> \<not> url_has_user p)"
proof -
  note r = resolve_endpoint_Inr [OF assms(1)]
  have "re_addresses ep ! 0 \<in> set (re_addresses ep)" using r(2) by simp
  moreover have "any_prohibited (re_addresses ep) False = Inr False" using r(3) assms(2) by simp
  ultimately have "\<exists>ip. ip_address (re_addresses ep ! 0) = Some ip \<and> ip_public ip" by (rule any_prohibited_clear [rotated])
  with r(5) show ?thesis by (auto simp: connect_tcp_def resolve_endpoint_host [OF assms(1)])
qed

end
