(* ===== verification/Routing.thy ===== *)
theory Routing
  imports Net_Endpoint
begin

text \<open>
  One task to one node: \<open>proxy/routing/circuit_breaker.py\<close>, \<open>retry.py\<close>, \<open>router.py\<close> and the HTTP client
  \<open>proxy/clients/node.py\<close>. The world (network, clock, random numbers, sleeping) is a parameter: a state \<open>'w\<close> with
  the operations of \<open>world_ops\<close>. The coroutines are modelled as run by one caller from start to end. Metrics and
  attempts are visible in a trace, so that statements can speak of them.

  A directory entry has its text fields typed as the directory's schema gives them (\<open>None\<close> for an absent key) and
  every other field as a dynamic value.
\<close>

record node_entry =
  n_node_id :: "string option"
  n_endpoint :: "string option"
  n_transport_endpoint :: "string option"
  n_fields :: pydict

text \<open>What an HTTP exchange raises: a timeout (by class name), a failed connection, a broken response, an error
  status with the parsed body (\<open>None\<close> when the body is not JSON), anything else by class name.\<close>

datatype http_error =
    TimeoutException string
  | ConnectError
  | RemoteProtocolError
  | HTTPStatusError int "pyval option"
  | OtherException string

record 'w world_ops =
  op_post :: "'w \<Rightarrow> string \<Rightarrow> pydict \<Rightarrow> (string \<times> string) list \<Rightarrow> real \<Rightarrow> 'w \<times> (http_error + pyval)"
  op_clock :: "'w \<Rightarrow> time"
  op_sleep :: "'w \<Rightarrow> real \<Rightarrow> 'w"
  op_random :: "'w \<Rightarrow> 'w \<times> real"

datatype route_error =
    CircuitOpenError string
  | CapacityExceededError
  | AssertionError
  | NotRoutable string
  | RaisedPy py_error
  | RaisedHttp http_error

subsection \<open>The circuit breaker\<close>

record circuit_breaker =
  cb_threshold :: int
  cb_reset_s :: time
  cb_failures :: "(string, int) dict"
  cb_opened_at :: "(string, time) dict"

definition new_circuit_breaker :: "int \<Rightarrow> time \<Rightarrow> circuit_breaker" where
  "new_circuit_breaker threshold reset_s =
     \<lparr>cb_threshold = threshold, cb_reset_s = reset_s, cb_failures = [], cb_opened_at = []\<rparr>"

definition breaker_allow :: "circuit_breaker \<Rightarrow> time \<Rightarrow> string \<Rightarrow> bool" where
  "breaker_allow cb now node_id =
     (case map_of (cb_opened_at cb) node_id of
        None \<Rightarrow> True
      | Some opened \<Rightarrow> now - opened \<ge> cb_reset_s cb)"

definition record_success :: "circuit_breaker \<Rightarrow> string \<Rightarrow> circuit_breaker" where
  "record_success cb node_id =
     cb\<lparr>cb_failures := AList.delete node_id (cb_failures cb), cb_opened_at := AList.delete node_id (cb_opened_at cb)\<rparr>"

definition record_failure :: "circuit_breaker \<Rightarrow> time \<Rightarrow> string \<Rightarrow> circuit_breaker" where
  "record_failure cb now node_id =
     (let n = (case map_of (cb_failures cb) node_id of None \<Rightarrow> 0 | Some k \<Rightarrow> k) + 1;
          cb1 = cb\<lparr>cb_failures := AList.update node_id n (cb_failures cb)\<rparr>
      in if n \<ge> cb_threshold cb then cb1\<lparr>cb_opened_at := AList.update node_id now (cb_opened_at cb1)\<rparr> else cb1)"

definition breaker_check :: "circuit_breaker \<Rightarrow> time \<Rightarrow> string \<Rightarrow> route_error + unit" where
  "breaker_check cb now node_id = (if \<not> breaker_allow cb now node_id then Inl (CircuitOpenError node_id) else Inr ())"

subsection \<open>Bounded retry\<close>

text \<open>The classes of \<open>_RETRIABLE\<close>, and \<open>type(exc).__name__\<close>.\<close>

fun transport_error :: "http_error \<Rightarrow> string option" where
  "transport_error (TimeoutException c) = Some c"
| "transport_error ConnectError = Some ''ConnectError''"
| "transport_error RemoteProtocolError = Some ''RemoteProtocolError''"
| "transport_error _ = None"

definition is_capacity_exceeded :: "int \<Rightarrow> pyval option \<Rightarrow> bool" where
  "is_capacity_exceeded status body \<longleftrightarrow>
     status = 429 \<and>
     (case body of
        Some (PDict b) \<Rightarrow>
          (let err = sget b ''error'' in
           if truthy err then (case err of PDict e \<Rightarrow> sget e ''code'' = PStr ''capacity_exceeded'' | _ \<Rightarrow> False) else False)
      | _ \<Rightarrow> False)"

record retry_manager =
  rm_max :: int
  rm_base :: real

definition new_retry_manager :: "int \<Rightarrow> int \<Rightarrow> retry_manager" where
  "new_retry_manager max_retries base_ms = \<lparr>rm_max = max_retries, rm_base = of_int base_ms / 1000\<rparr>"

datatype retry_event = Attempt | Metric string | Backoff real

definition backoff ::
  "retry_manager \<Rightarrow> ('s \<Rightarrow> real \<Rightarrow> 's) \<Rightarrow> ('s \<Rightarrow> 's \<times> real) \<Rightarrow> nat \<Rightarrow> 's \<Rightarrow> 's \<times> retry_event list" where
  "backoff rm sleep random attempt s =
     (if int attempt < rm_max rm - 1
      then (case random s of (s', r) \<Rightarrow>
              let delay = rm_base rm * 2 ^ attempt * (8 / 10 + 4 / 10 * r) in (sleep s' delay, [Backoff delay]))
      else (s, []))"

text \<open>How an attempt's exception is treated: tried again (with the metric's reason), or raised.\<close>

definition attempt_verdict :: "http_error \<Rightarrow> string + (route_error \<times> string list)" where
  "attempt_verdict e =
     (case transport_error e of
        Some c \<Rightarrow> Inl c
      | None \<Rightarrow>
          (case e of
             HTTPStatusError code body \<Rightarrow>
               if is_capacity_exceeded code body then Inr (CapacityExceededError, [''capacity_exceeded''])
               else if code \<in> {429, 503} then Inl (int_text code)
               else Inr (RaisedHttp e, [])
           | _ \<Rightarrow> Inr (RaisedHttp e, [])))"

fun run_loop ::
  "retry_manager \<Rightarrow> ('s \<Rightarrow> real \<Rightarrow> 's) \<Rightarrow> ('s \<Rightarrow> 's \<times> real) \<Rightarrow> ('s \<Rightarrow> 's \<times> (http_error + 'a)) \<Rightarrow> nat list
    \<Rightarrow> http_error option \<Rightarrow> 's \<Rightarrow> 's \<times> retry_event list \<times> (route_error + 'a)" where
  "run_loop rm sleep random fn [] last_exc s =
     (s, [], Inl (case last_exc of None \<Rightarrow> AssertionError | Some e \<Rightarrow> RaisedHttp e))"
| "run_loop rm sleep random fn (attempt # rest) last_exc s =
     (case fn s of
        (s1, Inr v) \<Rightarrow> (s1, [Attempt], Inr v)
      | (s1, Inl e) \<Rightarrow>
          (case attempt_verdict e of
             Inr (err, reasons) \<Rightarrow> (s1, Attempt # map Metric reasons, Inl err)
           | Inl reason \<Rightarrow>
               (case backoff rm sleep random attempt s1 of
                  (s2, slept) \<Rightarrow>
                    (case run_loop rm sleep random fn rest (Some e) s2 of
                       (s3, evs, r) \<Rightarrow> (s3, Attempt # Metric reason # slept @ evs, r)))))"

definition retry_run ::
  "retry_manager \<Rightarrow> ('s \<Rightarrow> real \<Rightarrow> 's) \<Rightarrow> ('s \<Rightarrow> 's \<times> real) \<Rightarrow> ('s \<Rightarrow> 's \<times> (http_error + 'a)) \<Rightarrow> 's
    \<Rightarrow> 's \<times> retry_event list \<times> (route_error + 'a)" where
  "retry_run rm sleep random fn s = run_loop rm sleep random fn [0 ..< nat (rm_max rm)] None s"

subsection \<open>The node client\<close>

record node_client =
  nc_endpoint :: string
  nc_transport_endpoint :: "string option"
  nc_token :: string
  nc_transport_attempted :: bool

definition new_node_client :: "string \<Rightarrow> string \<Rightarrow> string option \<Rightarrow> node_client" where
  "new_node_client endpoint token transport =
     \<lparr>nc_endpoint = rstrip_char (CHR ''/'') endpoint,
      nc_transport_endpoint =
        (case transport of None \<Rightarrow> None | Some t \<Rightarrow> if t = [] then None else Some (rstrip_char (CHR ''/'') t)),
      nc_token = token, nc_transport_attempted = False\<rparr>"

record task_call =
  tc_task_id :: string
  tc_intent :: string
  tc_payload :: pydict
  tc_timeout_ms :: int
  tc_trace_id :: "string option"
  tc_cip_envelope :: "pydict option"
  tc_source_node_id :: "string option"

definition given :: "string option \<Rightarrow> bool" where
  "given v \<longleftrightarrow> (case v of None \<Rightarrow> False | Some s \<Rightarrow> s \<noteq> [])"

definition task_body :: "string \<Rightarrow> task_call \<Rightarrow> pydict" where
  "task_body token c =
     (let trace_block =
            (if given (tc_trace_id c) then [(PStr ''trace_id'', PStr (the (tc_trace_id c)))] else []) @
            (if tc_cip_envelope c \<noteq> None then [(PStr ''cip_role'', PStr ''coordinator'')] else [])
      in [(PStr ''task_id'', PStr (tc_task_id c)),
          (PStr ''intent'', PStr (tc_intent c)),
          (PStr ''payload'', PDict (tc_payload c)),
          (PStr ''constraints'', PDict [(PStr ''timeout_ms'', PInt (tc_timeout_ms c))]),
          (PStr ''auth'', PDict [(PStr ''node_token'', PStr token)])] @
         (if given (tc_source_node_id c) then [(PStr ''source_node_id'', PStr (the (tc_source_node_id c)))] else []) @
         (if trace_block \<noteq> [] then [(PStr ''trace'', PDict trace_block)] else []) @
         (case tc_cip_envelope c of None \<Rightarrow> [] | Some e \<Rightarrow> [(PStr ''cip'', PDict e)]))"

fun falls_back :: "http_error \<Rightarrow> bool" where
  "falls_back ConnectError = True"
| "falls_back (TimeoutException _) = True"
| "falls_back (HTTPStatusError _ _) = True"
| "falls_back _ = False"

definition submit_task ::
  "'w world_ops \<Rightarrow> task_call \<Rightarrow> node_client \<times> 'w \<Rightarrow> (node_client \<times> 'w) \<times> (http_error + pyval)" where
  "submit_task ops c s =
     (case s of (nc, w) \<Rightarrow>
        let body = task_body (nc_token nc) c;
            timeout = of_int (tc_timeout_ms c) / 1000 + 2;
            headers = (if given (tc_trace_id c) then [(''X-IICP-Trace-Id'', the (tc_trace_id c))] else [])
        in case op_post ops w (nc_endpoint nc @ ''/v1/task'') body headers timeout of
             (w1, Inr v) \<Rightarrow> ((nc, w1), Inr v)
           | (w1, Inl e) \<Rightarrow>
               (case nc_transport_endpoint nc of
                  Some t \<Rightarrow>
                    if falls_back e \<and> t \<noteq> [] \<and> \<not> nc_transport_attempted nc
                    then (case op_post ops w1 (t @ ''/v1/task'') body headers timeout of
                            (w2, r) \<Rightarrow> ((nc\<lparr>nc_transport_attempted := True\<rparr>, w2), r))
                    else ((nc, w1), Inl e)
                | None \<Rightarrow> ((nc, w1), Inl e)))"

subsection \<open>The router\<close>

definition experimental_native_enabled :: "string option \<Rightarrow> bool" where
  "experimental_native_enabled raw =
     (case raw of None \<Rightarrow> False | Some v \<Rightarrow> lower (strip v) \<in> {''1'', ''true'', ''yes''})"

record task_router =
  tr_token :: string
  tr_retry :: retry_manager
  tr_circuit :: circuit_breaker

text \<open>The process environment and the address classification the guards read.\<close>

record guard_env =
  ge_flagged :: "ip_addr \<Rightarrow> bool"
  ge_allow_loopback :: "string option"
  ge_native_tcp :: "string option"

definition route ::
  "guard_env \<Rightarrow> 'w world_ops \<Rightarrow> task_router \<Rightarrow> 'w \<Rightarrow> node_entry \<Rightarrow> task_call
    \<Rightarrow> (task_router \<times> 'w) \<times> retry_event list \<times> (route_error + pyval)" where
  "route env ops tr w node c =
     (case (n_node_id node, n_endpoint node) of
        (Some node_id, Some endpoint) \<Rightarrow>
          let transport = (if experimental_native_enabled (ge_native_tcp env) then n_transport_endpoint node else None) in
          (case is_ssrf_safe (ge_flagged env) (ge_allow_loopback env) endpoint of
             Inl e \<Rightarrow> ((tr, w), [], Inl (RaisedPy e))
           | Inr False \<Rightarrow> ((tr, w), [], Inl (NotRoutable endpoint))
           | Inr True \<Rightarrow>
               (case breaker_check (tr_circuit tr) (op_clock ops w) node_id of
                  Inl e \<Rightarrow> ((tr, w), [], Inl e)
                | Inr _ \<Rightarrow>
                    (case retry_run (tr_retry tr) (\<lambda>(nc, w) d. (nc, op_sleep ops w d))
                            (\<lambda>(nc, w). case op_random ops w of (w', r) \<Rightarrow> ((nc, w'), r))
                            (submit_task ops c) (new_node_client endpoint (tr_token tr) transport, w) of
                       ((_, w'), evs, Inr result) \<Rightarrow>
                         ((tr\<lparr>tr_circuit := record_success (tr_circuit tr) node_id\<rparr>, w'), evs, Inr result)
                     | ((_, w'), evs, Inl exc) \<Rightarrow>
                         (case exc of
                            CircuitOpenError _ \<Rightarrow> ((tr, w'), evs, Inl exc)
                          | _ \<Rightarrow>
                              ((tr\<lparr>tr_circuit := record_failure (tr_circuit tr) (op_clock ops w') node_id\<rparr>, w'), evs, Inl exc)))))
      | _ \<Rightarrow> ((tr, w), [], Inl (RaisedPy KeyError)))"

subsection \<open>The breaker as a function of its history\<close>

text \<open>A history lists what was recorded, oldest first: node, time, success. What decides is the run of failures of a
  node since its last success.\<close>

type_synonym outcome_log = "(string \<times> time \<times> bool) list"

definition failure_run :: "string \<Rightarrow> outcome_log \<Rightarrow> time list" where
  "failure_run n hist = map (\<lambda>(_, t, _). t) (takeWhile (\<lambda>(_, _, ok). \<not> ok) (rev (filter (\<lambda>(m, _, _). m = n) hist)))"

definition record_outcome :: "circuit_breaker \<Rightarrow> string \<times> time \<times> bool \<Rightarrow> circuit_breaker" where
  "record_outcome cb e = (case e of (n, t, ok) \<Rightarrow> if ok then record_success cb n else record_failure cb t n)"

definition breaker_of :: "int \<Rightarrow> time \<Rightarrow> outcome_log \<Rightarrow> circuit_breaker" where
  "breaker_of threshold reset_s hist = foldl record_outcome (new_circuit_breaker threshold reset_s) hist"

lemma failure_run_Nil [simp]: "failure_run n [] = []"
  by (simp add: failure_run_def)

lemma failure_run_snoc [simp]:
  "failure_run n (hist @ [(m, t, ok)]) =
     (if m \<noteq> n then failure_run n hist else if ok then [] else t # failure_run n hist)"
  by (simp add: failure_run_def)

lemma breaker_of_state:
  "cb_threshold (breaker_of k r hist) = k \<and> cb_reset_s (breaker_of k r hist) = r \<and>
   map_of (cb_failures (breaker_of k r hist)) n =
     (if failure_run n hist = [] then None else Some (int (length (failure_run n hist)))) \<and>
   map_of (cb_opened_at (breaker_of k r hist)) n =
     (if failure_run n hist \<noteq> [] \<and> k \<le> int (length (failure_run n hist)) then Some (hd (failure_run n hist)) else None)"
proof (induction hist arbitrary: n rule: rev_induct)
  case Nil
  then show ?case by (simp add: breaker_of_def new_circuit_breaker_def)
next
  case (snoc e hist)
  obtain m t ok where e: "e = (m, t, ok)" by (cases e)
  have "breaker_of k r (hist @ [e]) = record_outcome (breaker_of k r hist) e" by (simp add: breaker_of_def)
  with snoc [of n] snoc [of m] e show ?case
    by (auto simp: record_outcome_def record_success_def record_failure_def Let_def dict_simps)
qed

lemma breaker_allow_history:
  "breaker_allow (breaker_of k r hist) now n \<longleftrightarrow>
     failure_run n hist = [] \<or> int (length (failure_run n hist)) < k \<or> r \<le> now - hd (failure_run n hist)"
  using breaker_of_state [of k r hist n] by (auto simp: breaker_allow_def)

subsection \<open>The retry loop\<close>

text \<open>The state before attempt \<open>i\<close> when every earlier one was to be tried again, and that attempt's outcome.\<close>

fun state_before ::
  "retry_manager \<Rightarrow> ('s \<Rightarrow> real \<Rightarrow> 's) \<Rightarrow> ('s \<Rightarrow> 's \<times> real) \<Rightarrow> ('s \<Rightarrow> 's \<times> (http_error + 'a)) \<Rightarrow> 's \<Rightarrow> nat \<Rightarrow> 's" where
  "state_before rm sleep random fn s 0 = s"
| "state_before rm sleep random fn s (Suc i) =
     fst (backoff rm sleep random i (fst (fn (state_before rm sleep random fn s i))))"

definition outcome where
  "outcome rm sleep random fn s i = snd (fn (state_before rm sleep random fn s i))"

definition again :: "http_error + 'a \<Rightarrow> bool" where
  "again r = (case r of Inr _ \<Rightarrow> False | Inl e \<Rightarrow> (case attempt_verdict e of Inl _ \<Rightarrow> True | Inr _ \<Rightarrow> False))"

definition settle :: "http_error + 'a \<Rightarrow> route_error + 'a" where
  "settle r =
     (case r of
        Inr v \<Rightarrow> Inr v
      | Inl e \<Rightarrow> Inl (case attempt_verdict e of Inl _ \<Rightarrow> RaisedHttp e | Inr (err, _) \<Rightarrow> err))"

definition attempts :: "retry_event list \<Rightarrow> nat" where
  "attempts evs = length (filter (\<lambda>e. e = Attempt) evs)"

definition delays :: "retry_event list \<Rightarrow> real list" where
  "delays evs = concat (map (\<lambda>e. case e of Backoff d \<Rightarrow> [d] | _ \<Rightarrow> []) evs)"

lemma attempts_simps [simp]:
  "attempts [] = 0" "attempts (Attempt # evs) = Suc (attempts evs)" "attempts (Metric m # evs) = attempts evs"
  "attempts (Backoff d # evs) = attempts evs" "attempts (xs @ ys) = attempts xs + attempts ys"
  "attempts (map Metric ms) = 0"
  by (induction ms) (simp_all add: attempts_def)

lemma delays_simps [simp]:
  "delays [] = []" "delays (Attempt # evs) = delays evs" "delays (Metric m # evs) = delays evs"
  "delays (Backoff d # evs) = d # delays evs" "delays (xs @ ys) = delays xs @ delays ys" "delays (map Metric ms) = []"
  by (induction ms) (simp_all add: delays_def)

lemma backoff_attempts [simp]: "attempts (snd (backoff rm sleep random i s)) = 0"
  by (simp add: backoff_def Let_def split: prod.splits)

lemma run_loop_stops:
  assumes "\<forall>i. k \<le> i \<and> i < n \<longrightarrow> again (outcome rm sleep random fn s i)" "\<not> again (outcome rm sleep random fn s n)"
    "k \<le> n" "n < m"
  shows "case run_loop rm sleep random fn [k ..< m] l (state_before rm sleep random fn s k) of
      (s', evs, r) \<Rightarrow> s' = fst (fn (state_before rm sleep random fn s n)) \<and> r = settle (outcome rm sleep random fn s n) \<and>
        attempts evs = n - k + 1"
  using assms
proof (induction "n - k" arbitrary: k l)
  case 0
  then have k: "k = n" by simp
  obtain s1 r where "fn (state_before rm sleep random fn s n) = (s1, r)" by fastforce
  with 0 k show ?case
    by (cases r) (auto simp: upt_conv_Cons outcome_def again_def settle_def split: sum.splits)
next
  case (Suc d)
  let ?s = "state_before rm sleep random fn s k"
  have k: "k < n" "again (outcome rm sleep random fn s k)" using Suc.hyps(2) Suc.prems by auto
  then obtain e why where fe: "snd (fn ?s) = Inl e" and v: "attempt_verdict e = Inl why"
    by (auto simp: again_def outcome_def split: sum.splits)
  from Suc.hyps(1) [of "Suc k" "Some e"] Suc.hyps(2) Suc.prems k(1)
  have IH: "case run_loop rm sleep random fn [Suc k ..< m] (Some e) (state_before rm sleep random fn s (Suc k)) of
      (s', evs, r) \<Rightarrow> s' = fst (fn (state_before rm sleep random fn s n)) \<and> r = settle (outcome rm sleep random fn s n) \<and>
        attempts evs = n - Suc k + 1" by simp
  have up: "[k ..< m] = k # [Suc k ..< m]" using k(1) Suc.prems(4) by (simp add: upt_conv_Cons)
  obtain s1 where fs: "fn ?s = (s1, Inl e)" using fe by (cases "fn ?s") auto
  obtain s2 ev where b: "backoff rm sleep random k s1 = (s2, ev)" by fastforce
  have "attempts ev = 0" using backoff_attempts [of rm sleep random k s1] b by simp
  with IH fs b v k(1) show ?case unfolding up by (auto split: prod.splits)
qed

lemma run_loop_exhausts:
  assumes "\<forall>i. k \<le> i \<and> i < m \<longrightarrow> again (outcome rm sleep random fn s i)" "k \<le> m"
    "k = m \<longrightarrow> l = Some e0"
  shows "case run_loop rm sleep random fn [k ..< m] l (state_before rm sleep random fn s k) of
      (s', evs, r) \<Rightarrow> s' = state_before rm sleep random fn s m \<and> attempts evs = m - k \<and>
        r = (if k = m then Inl (RaisedHttp e0) else settle (outcome rm sleep random fn s (m - 1)))"
  using assms
proof (induction "m - k" arbitrary: k l e0)
  case 0
  then show ?case by simp
next
  case (Suc d)
  let ?s = "state_before rm sleep random fn s k"
  have k: "k < m" "again (outcome rm sleep random fn s k)" using Suc.hyps(2) Suc.prems by auto
  then obtain e why where fe: "snd (fn ?s) = Inl e" and v: "attempt_verdict e = Inl why"
    by (auto simp: again_def outcome_def split: sum.splits)
  from Suc.hyps(1) [of "Suc k" "Some e" e] Suc.hyps(2) Suc.prems k(1)
  have IH: "case run_loop rm sleep random fn [Suc k ..< m] (Some e) (state_before rm sleep random fn s (Suc k)) of
      (s', evs, r) \<Rightarrow> s' = state_before rm sleep random fn s m \<and> attempts evs = m - Suc k \<and>
        r = (if Suc k = m then Inl (RaisedHttp e) else settle (outcome rm sleep random fn s (m - 1)))" by simp
  have last: "settle (outcome rm sleep random fn s (m - 1)) = Inl (RaisedHttp e)" if "Suc k = m"
    using that fe v by (auto simp: outcome_def settle_def)
  have up: "[k ..< m] = k # [Suc k ..< m]" using k(1) by (simp add: upt_conv_Cons)
  obtain s1 where fs: "fn ?s = (s1, Inl e)" using fe by (cases "fn ?s") auto
  obtain s2 ev where b: "backoff rm sleep random k s1 = (s2, ev)" by fastforce
  have "attempts ev = 0" using backoff_attempts [of rm sleep random k s1] b by simp
  with IH fs b v k(1) last show ?case unfolding up by (auto split: prod.splits)
qed

text \<open>Between two attempts lies one delay, doubling from the base with at most 20% jitter either way.\<close>

definition jittered :: "real \<Rightarrow> nat \<Rightarrow> real \<Rightarrow> bool" where
  "jittered base i d \<longleftrightarrow> 8 / 10 * base * 2 ^ i \<le> d \<and> d \<le> 12 / 10 * base * 2 ^ i"

lemma backoff_delay:
  assumes "0 \<le> rm_base rm" "\<And>s. 0 \<le> snd (random s) \<and> snd (random s) < 1" "int i < rm_max rm - 1"
  obtains d where "delays (snd (backoff rm sleep random i s)) = [d]" "jittered (rm_base rm) i d"
proof -
  let ?r = "snd (random s)"
  let ?d = "rm_base rm * 2 ^ i * (8 / 10 + 4 / 10 * ?r)"
  have "rm_base rm * 2 ^ i * (8 / 10) \<le> ?d" "?d \<le> rm_base rm * 2 ^ i * (12 / 10)"
    using assms(1) assms(2) [of s] by (intro mult_left_mono; simp)+
  then have "jittered (rm_base rm) i ?d" by (simp add: jittered_def mult_ac)
  moreover have "delays (snd (backoff rm sleep random i s)) = [?d]"
    using assms(3) by (simp add: backoff_def Let_def split_beta)
  ultimately show ?thesis using that by blast
qed

lemma run_loop_delays:
  assumes "0 \<le> rm_base rm" "\<And>s. 0 \<le> snd (random s) \<and> snd (random s) < 1" "m = nat (rm_max rm)" "k < m"
  shows "case run_loop rm sleep random fn [k ..< m] l s of
      (s', evs, r) \<Rightarrow> attempts evs = Suc (length (delays evs)) \<and> (\<forall>j < length (delays evs). jittered (rm_base rm) (k + j) (delays evs ! j))"
  using assms(4)
proof (induction "m - k" arbitrary: k l s)
  case (Suc d)
  have up: "[k ..< m] = k # [Suc k ..< m]" using Suc.prems by (simp add: upt_conv_Cons)
  obtain s1 o1 where fs: "fn s = (s1, o1)" by fastforce
  show ?case
  proof (cases "\<exists>e why. o1 = Inl e \<and> attempt_verdict e = Inl why")
    case False
    with fs show ?thesis unfolding up by (auto split: sum.splits)
  next
    case True
    then obtain e why where o1: "o1 = Inl e" "attempt_verdict e = Inl why" by blast
    obtain s2 ev where b: "backoff rm sleep random k s1 = (s2, ev)" by fastforce
    show ?thesis
    proof (cases "Suc k = m")
      case True
      then have "ev = []" using b assms(3) by (auto simp: backoff_def split: if_splits)
      with True b fs o1 show ?thesis unfolding up by simp
    next
      case False
      then have sk: "Suc k < m" "int k < rm_max rm - 1" using Suc.prems assms(3) by auto
      obtain d' where "delays (snd (backoff rm sleep random k s1)) = [d']" "jittered (rm_base rm) k d'"
        by (rule backoff_delay [OF assms(1,2) sk(2)])
      then have d': "delays ev = [d']" "jittered (rm_base rm) k d'" using b by simp_all
      have a: "attempts ev = 0" using backoff_attempts [of rm sleep random k s1] b by simp
      obtain s3 evs r where rest: "run_loop rm sleep random fn [Suc k ..< m] (Some e) s2 = (s3, evs, r)"
        by (cases "run_loop rm sleep random fn [Suc k ..< m] (Some e) s2") auto
      have "attempts evs = Suc (length (delays evs))"
        "\<forall>j < length (delays evs). jittered (rm_base rm) (Suc k + j) (delays evs ! j)"
        using Suc.hyps(1) [of "Suc k" "Some e" s2] Suc.hyps(2) sk(1) rest by auto
      with fs o1 b rest d' a show ?thesis unfolding up by (auto simp: nth_Cons split: nat.splits)
    qed
  qed
qed simp

lemma run_loop_never_open: "snd (snd (run_loop rm sleep random fn is l s)) \<noteq> Inl (CircuitOpenError n)"
proof (induction "is" arbitrary: l s)
  case (Cons i "is")
  have "attempt_verdict e = Inr (err, rs) \<Longrightarrow> err \<noteq> CircuitOpenError n" for e err rs
    by (auto simp: attempt_verdict_def split: option.splits http_error.splits if_splits)
  note no = this
  obtain s1 o1 where fs: "fn s = (s1, o1)" by fastforce
  show ?case
  proof (cases "\<exists>e why. o1 = Inl e \<and> attempt_verdict e = Inl why")
    case True
    then show ?thesis using fs Cons.IH by (auto split: prod.splits) (metis snd_conv)
  next
    case False
    with fs no show ?thesis by (auto split: sum.splits prod.splits)
  qed
qed (simp split: option.splits)

lemma run_loop_attempts: "is \<noteq> [] \<Longrightarrow> attempts (fst (snd (run_loop rm sleep random fn is l s))) > 0"
  by (cases "is") (auto split: prod.splits sum.splits)

subsection \<open>Properties\<close>

text \<open>The circuit breaker is its history: after any sequence of recorded successes and failures of any nodes, a
  request to a node is refused exactly when the failures of that node since its last success number at least the
  threshold and the latest of them is less than the reset time ago. Nothing recorded for other nodes matters.\<close>

lemma breaker_exact:
  "breaker_check (breaker_of threshold reset_s hist) now n =
     (if failure_run n hist \<noteq> [] \<and> threshold \<le> int (length (failure_run n hist)) \<and> now - hd (failure_run n hist) < reset_s
      then Inl (CircuitOpenError n) else Inr ())"
  using breaker_allow_history [of threshold reset_s hist now n] by (auto simp: breaker_check_def)

text \<open>C31: The retry loop ends, and makes exactly the attempts it should: it stops at the first attempt that succeeds or fails in a
  way that is not to be retried, and at the latest after \<open>max_retries\<close>; its result is that attempt's (a
  capacity-exceeded answer becomes \<open>CapacityExceededError\<close>), and between two attempts it waits once, the base
  delay doubled per attempt with at most 20% jitter.\<close>

theorem retry_exact:
  assumes "0 \<le> rm_base rm" "\<And>s. 0 \<le> snd (random s) \<and> snd (random s) < 1"
    "n < nat (rm_max rm)" "\<forall>i < n. again (outcome rm sleep random fn s i)"
    "again (outcome rm sleep random fn s n) \<longrightarrow> Suc n = nat (rm_max rm)"
  shows "case retry_run rm sleep random fn s of
      (s', evs, r) \<Rightarrow> r = settle (outcome rm sleep random fn s n) \<and> attempts evs = Suc n \<and>
        length (delays evs) = n \<and> (\<forall>j < n. jittered (rm_base rm) j (delays evs ! j))"
proof -
  let ?m = "nat (rm_max rm)"
  obtain s' evs r where run: "run_loop rm sleep random fn [0 ..< ?m] None s = (s', evs, r)"
    by (cases "run_loop rm sleep random fn [0 ..< ?m] None s") auto
  have "r = settle (outcome rm sleep random fn s n) \<and> attempts evs = Suc n"
  proof (cases "again (outcome rm sleep random fn s n)")
    case True
    then have n: "?m = Suc n" using assms(5) by simp
    with True assms(4) have "\<forall>i < Suc n. again (outcome rm sleep random fn s i)" by (metis less_Suc_eq)
    then show ?thesis using run_loop_exhausts [of 0 "Suc n" rm sleep random fn s None] run unfolding n by auto
  next
    case False
    then show ?thesis using run_loop_stops [of 0 n rm sleep random fn s ?m None] run assms(3,4) by auto
  qed
  moreover have "attempts evs = Suc (length (delays evs))"
    "\<forall>j < length (delays evs). jittered (rm_base rm) j (delays evs ! j)"
    using run_loop_delays [where rm = rm and random = random and k = 0 and sleep = sleep and fn = fn and l = None and s = s]
      run assms(1-3) by auto
  ultimately show ?thesis using run by (simp add: retry_run_def)
qed

theorem retry_exact_witness:
  "case retry_run (new_retry_manager 3 100) (\<lambda>s _. s) (\<lambda>s. (s, 1 / 2)) (\<lambda>s. (Suc s, Inl ConnectError :: http_error + pyval)) (0 :: nat) of
     (s', evs, r) \<Rightarrow> r = Inl (RaisedHttp ConnectError) \<and> attempts evs = 3 \<and> length (delays evs) = 2"
proof -
  let ?rm = "new_retry_manager 3 100" and ?fn = "\<lambda>s. (Suc s, Inl ConnectError :: http_error + pyval)"
  have fails: "outcome ?rm (\<lambda>s _. s) (\<lambda>s. (s, 1 / 2)) ?fn 0 i = Inl ConnectError" for i by (simp add: outcome_def)
  have refused: "again (Inl ConnectError :: http_error + pyval)" "settle (Inl ConnectError :: http_error + pyval) = Inl (RaisedHttp ConnectError)"
    by (simp_all add: again_def settle_def attempt_verdict_def)
  have "case retry_run ?rm (\<lambda>s _. s) (\<lambda>s. (s, 1 / 2)) ?fn (0 :: nat) of
      (s', evs, r) \<Rightarrow> r = settle (outcome ?rm (\<lambda>s _. s) (\<lambda>s. (s, 1 / 2)) ?fn 0 2) \<and> attempts evs = Suc 2 \<and>
        length (delays evs) = 2 \<and> (\<forall>j < 2. jittered (rm_base ?rm) j (delays evs ! j))"
    by (rule retry_exact) (simp_all only: fails refused, simp_all add: new_retry_manager_def)
  then show ?thesis unfolding fails refused by (auto split: prod.splits)
qed

text \<open>The two guards a route has to pass.\<close>

definition route_blocked :: "guard_env \<Rightarrow> 'w world_ops \<Rightarrow> task_router \<Rightarrow> 'w \<Rightarrow> string \<Rightarrow> string \<Rightarrow> bool" where
  "route_blocked env ops tr w node_id endpoint \<longleftrightarrow>
     is_ssrf_safe (ge_flagged env) (ge_allow_loopback env) endpoint \<noteq> Inr True \<or>
     \<not> breaker_allow (tr_circuit tr) (op_clock ops w) node_id"

text \<open>A concrete world for the witnesses: scripted answers, a clock that advances by what is slept.\<close>

type_synonym script = "(http_error + pyval) list \<times> time"

definition scripted :: "script world_ops" where
  "scripted =
     \<lparr>op_post = (\<lambda>(as, t) url body hs tmo. case as of [] \<Rightarrow> (([], t), Inl ConnectError) | a # as' \<Rightarrow> ((as', t), a)),
      op_clock = snd, op_sleep = (\<lambda>(as, t) d. (as, t + d)), op_random = (\<lambda>w. (w, 1 / 2))\<rparr>"



end
