(* ===== verification/Ttl_Guard.thy ===== *)
theory Ttl_Guard
  imports Prelude
begin

text \<open>
  The two time-window duplicate filters of the program: \<open>IdempotencyGuard\<close> (\<open>idempotency.py\<close>, task
  identifiers) and \<open>ReplayCache\<close> (\<open>proxy/cip/receipts.py\<close>, receipt nonces). Both keep a dictionary from
  key to expiry and evict lazily. The locale \<open>ttl_guard\<close> is the contract they share; what a client may rely on is
  proved once in it and inherited by both.
\<close>

subsection \<open>The two filters\<close>

definition evict :: "(string, time) dict \<Rightarrow> time \<Rightarrow> (string, time) dict" where
  "evict seen now = filter (\<lambda>(k, exp). \<not> exp \<le> now) seen"

record idempotency_guard =
  idem_ttl :: time
  idem_seen :: "(string, time) dict"

definition new_idempotency_guard :: "time \<Rightarrow> idempotency_guard" where
  "new_idempotency_guard ttl = \<lparr>idem_ttl = ttl, idem_seen = []\<rparr>"

definition check_and_register :: "idempotency_guard \<Rightarrow> time \<Rightarrow> string option \<Rightarrow> idempotency_guard \<times> bool" where
  "check_and_register g now task_id =
     (case task_id of
        None \<Rightarrow> (g, True)
      | Some tid \<Rightarrow>
          if tid = [] then (g, True)
          else let seen = evict (idem_seen g) now in
            if map_of seen tid \<noteq> None then (g\<lparr>idem_seen := seen\<rparr>, False)
            else (g\<lparr>idem_seen := AList.update tid (now + idem_ttl g) seen\<rparr>, True))"

record replay_cache =
  rc_window :: time
  rc_seen :: "(string, time) dict"

definition new_replay_cache :: "time \<Rightarrow> replay_cache" where
  "new_replay_cache window = \<lparr>rc_window = window, rc_seen = []\<rparr>"

definition is_replay :: "replay_cache \<Rightarrow> time \<Rightarrow> string \<Rightarrow> replay_cache \<times> bool" where
  "is_replay c now nonce =
     (let seen = evict (rc_seen c) now in
      if map_of seen nonce \<noteq> None then (c\<lparr>rc_seen := seen\<rparr>, True)
      else (c\<lparr>rc_seen := AList.update nonce (now + rc_window c) seen\<rparr>, False))"

subsection \<open>The contract\<close>

text \<open>\<open>fresh s now k\<close> presents a key: the Boolean tells whether it is taken as new. Law \<open>fresh_only\<close> says when it is not,
  \<open>expiry_self\<close> and \<open>expiry_other\<close> what is remembered afterwards.\<close>

locale ttl_guard =
  fixes fresh :: "'s \<Rightarrow> time \<Rightarrow> string \<Rightarrow> 's \<times> bool"
    and expiry :: "'s \<Rightarrow> string \<Rightarrow> time option"
    and window :: "'s \<Rightarrow> time"
    and invar :: "'s \<Rightarrow> bool"
    and tracked :: "string \<Rightarrow> bool"
  assumes invar_fresh: "invar s \<Longrightarrow> invar (fst (fresh s now k))"
    and window_fresh: "window (fst (fresh s now k)) = window s"
    and fresh_only: "invar s \<Longrightarrow> tracked k \<Longrightarrow> expiry s k = Some e \<Longrightarrow> now < e \<Longrightarrow> \<not> snd (fresh s now k)"
    and expiry_self: "invar s \<Longrightarrow> tracked k \<Longrightarrow> snd (fresh s now k) \<Longrightarrow>
      expiry (fst (fresh s now k)) k = Some (now + window s)"
    and expiry_dup: "invar s \<Longrightarrow> tracked k \<Longrightarrow> \<not> snd (fresh s now k) \<Longrightarrow>
      expiry (fst (fresh s now k)) k = expiry s k"
    and expiry_other: "invar s \<Longrightarrow> k' \<noteq> k \<Longrightarrow> expiry s k' = Some e \<Longrightarrow> now < e \<Longrightarrow>
      expiry (fst (fresh s now k)) k' = Some e"
begin

text \<open>A run presents keys at given times; its result lists, per presentation, whether the key was new.\<close>

fun run :: "'s \<Rightarrow> (time \<times> string) list \<Rightarrow> bool list" where
  "run s [] = []"
| "run s ((t, k) # ps) = snd (fresh s t k) # run (fst (fresh s t k)) ps"

lemma length_run [simp]: "length (run s ps) = length ps"
  by (induction s ps rule: run.induct) auto

lemma remembered:
  assumes "invar s" "tracked k" "expiry s k = Some e" "\<forall>(t, _) \<in> set ps. t < e" "i < length ps" "snd (ps ! i) = k"
  shows "\<not> run s ps ! i"
  using assms
proof (induction ps arbitrary: s i)
  case (Cons p ps)
  obtain t k0 where p: "p = (t, k0)" by (cases p)
  let ?s = "fst (fresh s t k0)"
  have "t < e" using Cons.prems p by auto
  show ?case
  proof (cases i)
    case 0
    with Cons.prems p \<open>t < e\<close> show ?thesis by (simp add: fresh_only)
  next
    case (Suc j)
    have "expiry ?s k = Some e"
    proof (cases "k0 = k")
      case True
      with Cons.prems \<open>t < e\<close> show ?thesis using expiry_dup [of s k t] by (simp add: fresh_only)
    next
      case False
      with Cons.prems \<open>t < e\<close> show ?thesis using expiry_other [of s k k0 e t] by simp
    qed
    with Cons.IH [of ?s j] Cons.prems p Suc invar_fresh show ?thesis by auto
  qed
qed simp

text \<open>With a clock that does not run backwards, a key taken as new is not taken as new again before the
  window has passed.\<close>

lemma once_per_window:
  assumes "invar s" "sorted (map fst ps)" "i < j" "j < length ps" "snd (ps ! i) = snd (ps ! j)" "tracked (snd (ps ! j))"
    "run s ps ! i" "run s ps ! j"
  shows "fst (ps ! j) \<ge> fst (ps ! i) + window s"
  using assms
proof (induction ps arbitrary: s i j)
  case (Cons p ps)
  obtain t k where p: "p = (t, k)" by (cases p)
  let ?s = "fst (fresh s t k)"
  show ?case
  proof (cases i)
    case 0
    obtain j' where j: "j = Suc j'" using Cons.prems(3) by (cases j) auto
    show ?thesis
    proof (rule ccontr)
      assume "\<not> ?thesis"
      then have early: "fst (ps ! j') < t + window s" using 0 j p by simp
      have e: "expiry ?s k = Some (t + window s)"
        using Cons.prems 0 p j by (intro expiry_self) auto
      have "\<forall>(t', _) \<in> set (take (Suc j') ps). t' < t + window s"
      proof (clarify)
        fix t' b assume "(t', b) \<in> set (take (Suc j') ps)"
        then obtain m where m: "m \<le> j'" "m < length ps" "ps ! m = (t', b)"
          by (auto simp: in_set_conv_nth less_Suc_eq_le)
        have "fst (ps ! m) \<le> fst (ps ! j')"
          using Cons.prems(2,4) m(1) j sorted_nth_mono [of "map fst ps" m j'] by simp
        with m(3) early show "t' < t + window s" by simp
      qed
      moreover have "run ?s (take (Suc j') ps) ! j' = run ?s ps ! j'"
      proof -
        have "run s' (take n qs) = take n (run s' qs)" for s' n qs
          by (induction s' qs arbitrary: n rule: run.induct) (auto simp: take_Cons split: nat.splits)
        then show ?thesis using Cons.prems(4) j by simp
      qed
      moreover have "snd (take (Suc j') ps ! j') = k" "tracked k" "j' < length (take (Suc j') ps)"
        using Cons.prems(4-6) 0 j p by auto
      ultimately have "\<not> run ?s ps ! j'"
        using remembered [of ?s k "t + window s" "take (Suc j') ps" j'] e invar_fresh Cons.prems(1) by auto
      with Cons.prems(8) j p show False by simp
    qed
  next
    case (Suc i')
    then obtain j' where j: "j = Suc j'" using Cons.prems(3) by (cases j) auto
    from Cons.IH [of ?s i' j'] Cons.prems Suc j p invar_fresh window_fresh show ?thesis by auto
  qed
qed simp

end

subsection \<open>Both filters keep the contract\<close>

lemma map_of_evict:
  "distinct (map fst d) \<Longrightarrow>
   map_of (evict d now) k = (case map_of d k of None \<Rightarrow> None | Some e \<Rightarrow> if e \<le> now then None else Some e)"
  by (induction d) (auto simp: evict_def image_iff split: option.splits dest: map_of_SomeD)

lemma distinct_evict: "distinct (map fst d) \<Longrightarrow> distinct (map fst (evict d now))"
  unfolding evict_def by (rule distinct_map_filter)

definition idem_fresh :: "idempotency_guard \<Rightarrow> time \<Rightarrow> string \<Rightarrow> idempotency_guard \<times> bool" where
  "idem_fresh g now k = check_and_register g now (Some k)"

definition replay_fresh :: "replay_cache \<Rightarrow> time \<Rightarrow> string \<Rightarrow> replay_cache \<times> bool" where
  "replay_fresh c now k = (fst (is_replay c now k), \<not> snd (is_replay c now k))"

interpretation idem: ttl_guard idem_fresh "\<lambda>g. map_of (idem_seen g)" idem_ttl "\<lambda>g. distinct (map fst (idem_seen g))" "\<lambda>k. k \<noteq> []"
  by unfold_locales
    (auto simp: idem_fresh_def check_and_register_def Let_def distinct_evict map_of_evict dict_simps simp del: map_of_eq_Some_iff split: option.splits if_splits)

interpretation replay: ttl_guard replay_fresh "\<lambda>c. map_of (rc_seen c)" rc_window "\<lambda>c. distinct (map fst (rc_seen c))" "\<lambda>_. True"
  by unfold_locales
    (auto simp: replay_fresh_def is_replay_def Let_def distinct_evict map_of_evict dict_simps simp del: map_of_eq_Some_iff split: option.splits if_splits)

subsection \<open>Properties\<close>

text \<open>The answers of the two filters over a run of presentations.\<close>

fun register_run :: "idempotency_guard \<Rightarrow> (time \<times> string) list \<Rightarrow> bool list" where
  "register_run g [] = []"
| "register_run g ((t, k) # ps) =
     (case check_and_register g t (Some k) of (g', new) \<Rightarrow> new # register_run g' ps)"

fun replay_run :: "replay_cache \<Rightarrow> (time \<times> string) list \<Rightarrow> bool list" where
  "replay_run c [] = []"
| "replay_run c ((t, k) # ps) = (case is_replay c t k of (c', seen) \<Rightarrow> seen # replay_run c' ps)"

lemma register_run_eq: "register_run g ps = idem.run g ps"
  by (induction g ps rule: register_run.induct) (simp_all add: idem_fresh_def [symmetric] split_beta prod_eq_iff)

lemma replay_run_eq: "replay_run c ps = map Not (replay.run c ps)"
proof (induction c ps rule: replay_run.induct)
  case (2 c t k ps)
  have "fst (replay_fresh c t k) = fst (is_replay c t k)" "snd (replay_fresh c t k) = (\<not> snd (is_replay c t k))"
    by (simp_all add: replay_fresh_def)
  with 2 show ?case by (simp add: split_beta prod_eq_iff)
qed simp

text \<open>No duplicate passes within the window: over any run on a clock that does not go back, a task
  identifier registered as new twice, or a nonce found unseen twice, is at least one window apart from its
  first appearance.\<close>

lemma duplicates_filtered:
  assumes "sorted (map fst ps)" "i < j" "j < length ps" "snd (ps ! i) = k" "snd (ps ! j) = k"
  shows "(k \<noteq> [] \<and> register_run (new_idempotency_guard ttl) ps ! i \<and> register_run (new_idempotency_guard ttl) ps ! j \<longrightarrow>
      fst (ps ! j) \<ge> fst (ps ! i) + ttl) \<and>
    (\<not> replay_run (new_replay_cache ttl) ps ! i \<and> \<not> replay_run (new_replay_cache ttl) ps ! j \<longrightarrow>
      fst (ps ! j) \<ge> fst (ps ! i) + ttl)"
  using assms idem.once_per_window [of "new_idempotency_guard ttl" ps i j] replay.once_per_window [of "new_replay_cache ttl" ps i j]
  by (auto simp: register_run_eq replay_run_eq new_idempotency_guard_def new_replay_cache_def)

end
