(* ===== verification/Cip.thy ===== *)
theory Cip
  imports Routing Ttl_Guard
begin

text \<open>
  Cooperative inference (\<open>proxy/cip\<close>): the local-first strategy and the session budget (\<open>strategies.py\<close>), the
  dispatch gates (\<open>gates.py\<close>), the envelope of a request (\<open>dispatch.py\<close>), receipts (\<open>receipts.py\<close>), the credit
  award (\<open>coordinator.py\<close>), the consumer configuration and the request and aggregation validators (\<open>consumer.py\<close>,
  \<open>aggregation.py\<close>). Hashing, HMAC, the salt of a session key, the decimal text of floats and the directory's
  answer to an award are parameters. Tracing spans have no effect on results and are left out.
\<close>

subsection \<open>Strategies\<close>

definition LOOPBACK_HOSTS :: "string list" where
  "LOOPBACK_HOSTS = [''localhost'', ''127.0.0.1'', ''::1'', ''[::1]'']"

text \<open>\<open>s.split("://", 1)[-1]\<close> and \<open>s.strip("[]")\<close>.\<close>

fun after_scheme_mark :: "string \<Rightarrow> string option" where
  "after_scheme_mark [] = None"
| "after_scheme_mark (c # s) = (if starts_with (c # s) ''://'' then Some (drop 2 s) else after_scheme_mark s)"

definition strip_brackets :: "string \<Rightarrow> string" where
  "strip_brackets s =
     (let b = (\<lambda>c. c \<in> {CHR ''['', CHR '']''}) in rev (dropWhile b (rev (dropWhile b s))))"

definition is_local_endpoint :: "string \<Rightarrow> bool" where
  "is_local_endpoint endpoint =
     (let without_scheme = (case after_scheme_mark endpoint of None \<Rightarrow> endpoint | Some r \<Rightarrow> r);
          host = strip_brackets (before (CHR '':'') (before (CHR ''/'') without_scheme))
      in host \<in> set LOOPBACK_HOSTS)"

record node_info =
  ni_node_id :: string
  ni_endpoint :: string
  ni_intent :: "string option"

fun should_dispatch_remote :: "node_info list \<Rightarrow> string option \<Rightarrow> bool" where
  "should_dispatch_remote [] intent = True"
| "should_dispatch_remote (node # nodes) intent =
     (if \<not> is_local_endpoint (ni_endpoint node) then should_dispatch_remote nodes intent
      else if intent = None \<or> ni_intent node = None \<or> ni_intent node = intent then False
      else should_dispatch_remote nodes intent)"

record budget_tracker =
  bt_budget :: "real option"
  bt_spent :: real

definition new_budget_tracker :: "real option \<Rightarrow> budget_tracker" where
  "new_budget_tracker budget = \<lparr>bt_budget = budget, bt_spent = 0\<rparr>"

definition can_spend :: "budget_tracker \<Rightarrow> real \<Rightarrow> bool" where
  "can_spend t credits =
     (case bt_budget t of None \<Rightarrow> True | Some budget \<Rightarrow> bt_spent t + credits \<le> budget)"

definition record_spend :: "budget_tracker \<Rightarrow> real \<Rightarrow> budget_tracker" where
  "record_spend t credits = t\<lparr>bt_spent := bt_spent t + credits\<rparr>"

definition remaining :: "budget_tracker \<Rightarrow> real option" where
  "remaining t = (case bt_budget t of None \<Rightarrow> None | Some budget \<Rightarrow> Some (max 0 (budget - bt_spent t)))"

subsection \<open>Gates\<close>

datatype cip_strategy = LOCAL_FIRST | REMOTE_FIRST | BALANCED
datatype dispatch_result = LOCAL | REMOTE | ERROR

record cip_config =
  cc_enabled :: bool
  cc_strategy :: cip_strategy
  cc_max_credits_per_task :: real
  cc_session_credit_budget :: "real option"
  cc_trusted_peers :: "string list"
  cc_min_reputation :: real
  cc_send_sensitive_prompts :: bool
  cc_coordinator_timeout_ms :: int

definition config_post_init :: "cip_config \<Rightarrow> py_error + cip_config" where
  "config_post_init c =
     (if cc_max_credits_per_task c \<le> 0 then Inl (ValueError ''max_credits_per_task MUST be > 0'') else Inr c)"

record dispatch_decision =
  dd_result :: dispatch_result
  dd_error_code :: "string option"
  dd_session_key :: "string option"

definition local_decision :: dispatch_decision where
  "local_decision = \<lparr>dd_result = LOCAL, dd_error_code = None, dd_session_key = None\<rparr>"

definition error_decision :: "string \<Rightarrow> dispatch_decision" where
  "error_decision code = \<lparr>dd_result = ERROR, dd_error_code = Some code, dd_session_key = None\<rparr>"

definition compute_worker_timeout_s :: "int \<Rightarrow> real" where
  "compute_worker_timeout_s coordinator_timeout_ms = max 0 (of_int coordinator_timeout_ms * (6 / 10) / 1000)"

definition cip_exhaustion_result :: "bool \<Rightarrow> dispatch_decision" where
  "cip_exhaustion_result fallback_to_local = (if fallback_to_local then local_decision else error_decision ''IICP-E024'')"

definition VALID_CIP_POLICIES :: "string list" where
  "VALID_CIP_POLICIES = [''best_of_n'', ''majority_vote'', ''map_reduce'']"

text \<open>The answer is the error code of the first violation; testing an unhashable policy raises.\<close>

definition validate_cip_request_fields :: "pydict \<Rightarrow> py_error + string option" where
  "validate_cip_request_fields body =
     (case sget body ''cip'' of
        PDict cip \<Rightarrow>
          (let policy = sget cip ''policy''; replicas = sget cip ''replicas''; quorum = sget cip ''quorum'' in
           case (if policy = PNone then Inr True else in_set policy VALID_CIP_POLICIES) of
             Inl e \<Rightarrow> Inl e
           | Inr False \<Rightarrow> Inr (Some ''IICP-E028'')
           | Inr True \<Rightarrow>
               if replicas \<noteq> PNone \<and> (case int_of replicas of None \<Rightarrow> True | Some r \<Rightarrow> r < 1 \<or> r > 10)
               then Inr (Some ''IICP-E028'')
               else if replicas \<noteq> PNone \<and> policy = PStr ''majority_vote'' \<and> even (the (int_of replicas))
               then Inr (Some ''IICP-E025'')
               else if quorum \<noteq> PNone \<and> (case int_of quorum of None \<Rightarrow> True | Some q \<Rightarrow> q < 1)
               then Inr (Some ''IICP-E028'')
               else if quorum \<noteq> PNone \<and>
                  the (int_of quorum) > (case int_of replicas of None \<Rightarrow> 1 | Some r \<Rightarrow> r)
               then Inr (Some ''IICP-E028'')
               else Inr None)
      | _ \<Rightarrow> Inr None)"

definition blocked_remote :: "cip_config \<Rightarrow> string \<Rightarrow> dispatch_decision" where
  "blocked_remote c code = (if cc_strategy c = LOCAL_FIRST then local_decision else error_decision code)"

definition affordability_gate ::
  "real \<Rightarrow> cip_config \<Rightarrow> budget_tracker option \<Rightarrow> real option \<Rightarrow> dispatch_decision option" where
  "affordability_gate credits c tracker balance =
     (if credits > cc_max_credits_per_task c then Some local_decision
      else if (case tracker of None \<Rightarrow> False | Some t \<Rightarrow> \<not> can_spend t credits) then Some local_decision
      else if (case balance of None \<Rightarrow> False | Some b \<Rightarrow> credits > b) then Some (blocked_remote c ''IICP-E036'')
      else None)"

definition make_session_key :: "(bytes \<Rightarrow> string) \<Rightarrow> (string \<Rightarrow> bytes) \<Rightarrow> bytes \<Rightarrow> string \<Rightarrow> string" where
  "make_session_key sha256_hex utf8 salt task_id = sha256_hex (utf8 task_id @ salt)"

text \<open>\<open>session_key\<close> is the key \<open>make_session_key(task_id)\<close> yields; \<open>replicas\<close> is dynamic because the caller reads it
  from the request, and comparing a non-number raises.\<close>

definition decide_dispatch ::
  "string \<Rightarrow> real \<Rightarrow> pyval \<Rightarrow> string list \<Rightarrow> cip_config \<Rightarrow> node_info list option \<Rightarrow> string option
    \<Rightarrow> budget_tracker option \<Rightarrow> pyval \<Rightarrow> real option \<Rightarrow> py_error + dispatch_decision" where
  "decide_dispatch session_key credits sensitivity workers c node_list intent tracker replicas balance =
     (if \<not> cc_enabled c then Inr local_decision
      else case affordability_gate credits c tracker balance of
          Some blocked \<Rightarrow> Inr blocked
        | None \<Rightarrow>
            if sensitivity = PStr ''high'' \<and> \<not> cc_send_sensitive_prompts c then Inr local_decision
            else if cc_strategy c = LOCAL_FIRST \<and>
               (case node_list of None \<Rightarrow> False | Some ns \<Rightarrow> \<not> should_dispatch_remote ns intent)
            then Inr local_decision
            else case num_of replicas of
                None \<Rightarrow> Inl TypeError
              | Some r \<Rightarrow>
                  if real (length workers) < max r 1
                  then Inr (if cc_strategy c = LOCAL_FIRST then local_decision else error_decision ''IICP-E022'')
                  else Inr \<lparr>dd_result = REMOTE, dd_error_code = None, dd_session_key = Some session_key\<rparr>)"

definition build_cip_envelope :: "dispatch_decision \<Rightarrow> string \<Rightarrow> pydict option" where
  "build_cip_envelope d parent_task_id =
     (case dd_session_key d of
        None \<Rightarrow> None
      | Some key \<Rightarrow>
          if dd_result d \<noteq> REMOTE then None
          else Some [(PStr ''cip_role'', PStr ''worker''), (PStr ''cip_session_key'', PStr key),
                     (PStr ''cip_parent_task_id'', PStr parent_task_id)])"

subsection \<open>The envelope of a request\<close>

datatype cip_error = CIPInsufficientCredits string | CIPNoEligibleWorkers string | CipRaised py_error

definition resolve_consumer_balance ::
  "(string \<Rightarrow> real option) option \<Rightarrow> string option \<Rightarrow> cip_config option \<Rightarrow> real option" where
  "resolve_consumer_balance credit_balance node_token config =
     (case config of
        None \<Rightarrow> None
      | Some c \<Rightarrow>
          if \<not> cc_enabled c then None
          else if \<not> given node_token then None
          else case credit_balance of None \<Rightarrow> None | Some fetch \<Rightarrow> fetch (the node_token))"

text \<open>The comprehension over the nodes: a node without the flag or the identifier is passed over before its reputation
  is compared.\<close>

fun eligible_workers :: "real \<Rightarrow> node_entry list \<Rightarrow> py_error + string list" where
  "eligible_workers min_rep [] = Inr []"
| "eligible_workers min_rep (n # ns) =
     (if \<not> truthy (sget (n_fields n) ''allow_remote_inference'') \<or> \<not> given (n_node_id n) then eligible_workers min_rep ns
      else case num_of (get_or (n_fields n) ''reputation_score'' (PFloat 0)) of
          None \<Rightarrow> Inl TypeError
        | Some rep \<Rightarrow>
            if rep \<ge> min_rep
            then (case eligible_workers min_rep ns of Inl e \<Rightarrow> Inl e | Inr ws \<Rightarrow> Inr (the (n_node_id n) # ws))
            else eligible_workers min_rep ns)"

definition compute_cip_envelope ::
  "string \<Rightarrow> node_entry list \<Rightarrow> pydict \<Rightarrow> cip_config option \<Rightarrow> string \<Rightarrow> string option \<Rightarrow> budget_tracker option \<Rightarrow> real option
    \<Rightarrow> budget_tracker option \<times> (cip_error + pydict option)" where
  "compute_cip_envelope session_key nodes body config task_id qos tracker balance =
     (case config of
        None \<Rightarrow> (tracker, Inr None)
      | Some c \<Rightarrow>
          if \<not> cc_enabled c \<or> qos = Some ''realtime'' then (tracker, Inr None)
          else case validate_cip_request_fields body of
              Inl e \<Rightarrow> (tracker, Inl (CipRaised e))
            | Inr (Some _) \<Rightarrow> (tracker, Inr None)
            | Inr None \<Rightarrow>
                (case eligible_workers (cc_min_reputation c) nodes of
                   Inl e \<Rightarrow> (tracker, Inl (CipRaised e))
                 | Inr all_workers \<Rightarrow>
                     let workers = (if cc_trusted_peers c \<noteq> []
                                    then filter (\<lambda>w. w \<in> set (cc_trusted_peers c)) all_workers else all_workers);
                         replicas = (case sget body ''cip'' of PDict cip \<Rightarrow> get_or cip ''replicas'' (PInt 1) | _ \<Rightarrow> PInt 1)
                     in case decide_dispatch session_key 1 (sget body ''sensitivity'') workers c None None tracker replicas balance of
                          Inl e \<Rightarrow> (tracker, Inl (CipRaised e))
                        | Inr d \<Rightarrow>
                            if dd_result d = ERROR \<and> dd_error_code d = Some ''IICP-E036''
                            then (tracker, Inl (CIPInsufficientCredits ''IICP-E036''))
                            else if dd_result d = ERROR \<and> dd_error_code d = Some ''IICP-E022''
                            then (tracker, Inl (CIPNoEligibleWorkers ''IICP-E022''))
                            else case build_cip_envelope d task_id of
                                None \<Rightarrow> (tracker, Inr None)
                              | Some env \<Rightarrow> (map_option (\<lambda>t. record_spend t 1) tracker, Inr (Some env))))"

subsection \<open>Receipts and awards\<close>

record cip_receipt =
  cr_task_id :: string
  cr_worker_id :: string
  cr_tokens_used :: int
  cr_credits_charged :: real
  cr_issued_at :: real
  cr_nonce :: string
  cr_signature :: "string option"

definition receipt_canonical :: "(real \<Rightarrow> string) \<Rightarrow> cip_receipt \<Rightarrow> string" where
  "receipt_canonical float_text r =
     cr_task_id r @ ''|'' @ cr_worker_id r @ ''|'' @ int_text (cr_tokens_used r) @ ''|'' @ float_text (cr_credits_charged r) @
     ''|'' @ float_text (cr_issued_at r) @ ''|'' @ cr_nonce r"

definition sign_receipt :: "(string \<Rightarrow> string \<Rightarrow> string) \<Rightarrow> (real \<Rightarrow> string) \<Rightarrow> cip_receipt \<Rightarrow> string \<Rightarrow> string" where
  "sign_receipt hmac float_text r secret = hmac secret (receipt_canonical float_text r)"

definition verify_receipt_signature ::
  "(string \<Rightarrow> string \<Rightarrow> string) \<Rightarrow> (real \<Rightarrow> string) \<Rightarrow> cip_receipt \<Rightarrow> string \<Rightarrow> bool" where
  "verify_receipt_signature hmac float_text r secret =
     (if \<not> given (cr_signature r) then False
      else sign_receipt hmac float_text r secret = the (cr_signature r))"

text \<open>A worker's receipt, with the types the dataclass annotates. \<open>from_dict\<close> raises \<open>KeyError\<close> for a missing field; a
  field of another type, which the dataclass would hold unchecked, is refused here.\<close>

record worker_receipt =
  wr_task_id :: string
  wr_worker_node_id :: string
  wr_tokens_used :: int
  wr_nonce :: string
  wr_signature :: string
  wr_issued_at :: string
  wr_expires_at :: "string option"
  wr_cip_session_key :: "string option"
  wr_cip_parent_task_id :: "string option"
  wr_response_hash :: "string option"

definition text_field :: "pydict \<Rightarrow> string \<Rightarrow> py_error + string" where
  "text_field d k =
     (case py_find d (PStr k) of None \<Rightarrow> Inl KeyError | Some (PStr s) \<Rightarrow> Inr s | Some _ \<Rightarrow> Inl TypeError)"

definition opt_text_field :: "pydict \<Rightarrow> string \<Rightarrow> py_error + string option" where
  "opt_text_field d k = (case sget d k of PNone \<Rightarrow> Inr None | PStr s \<Rightarrow> Inr (Some s) | _ \<Rightarrow> Inl TypeError)"

definition receipt_from_dict :: "(pyval \<Rightarrow> py_error + int) \<Rightarrow> pydict \<Rightarrow> py_error + worker_receipt" where
  "receipt_from_dict to_int d =
     bind_result (text_field d ''task_id'') (\<lambda>task_id.
     bind_result (text_field d ''worker_node_id'') (\<lambda>worker.
     bind_result (case py_find d (PStr ''tokens_used'') of None \<Rightarrow> Inl KeyError | Some v \<Rightarrow> to_int v) (\<lambda>tokens.
     bind_result (text_field d ''nonce'') (\<lambda>nonce.
     bind_result (text_field d ''signature'') (\<lambda>signature.
     bind_result (text_field d ''issued_at'') (\<lambda>issued.
     bind_result (opt_text_field d ''expires_at'') (\<lambda>expires.
     bind_result (opt_text_field d ''cip_session_key'') (\<lambda>key.
     bind_result (opt_text_field d ''cip_parent_task_id'') (\<lambda>parent.
     bind_result (opt_text_field d ''response_hash'') (\<lambda>h.
       Inr \<lparr>wr_task_id = task_id, wr_worker_node_id = worker, wr_tokens_used = tokens, wr_nonce = nonce,
         wr_signature = signature, wr_issued_at = issued, wr_expires_at = expires, wr_cip_session_key = key,
         wr_cip_parent_task_id = parent, wr_response_hash = h\<rparr>))))))))))"

definition opt_entry :: "string \<Rightarrow> string option \<Rightarrow> pydict" where
  "opt_entry k v = (case v of None \<Rightarrow> [] | Some s \<Rightarrow> [(PStr k, PStr s)])"

definition award_payload :: "worker_receipt \<Rightarrow> real \<Rightarrow> pydict" where
  "award_payload r tokens_per_credit =
     [(PStr ''node_id'', PStr (wr_worker_node_id r)),
      (PStr ''task_id'', PStr (wr_task_id r)),
      (PStr ''tokens_used'', PInt (wr_tokens_used r)),
      (PStr ''nonce'', PStr (wr_nonce r)),
      (PStr ''expires_at'', case wr_expires_at r of None \<Rightarrow> PNone | Some s \<Rightarrow> PStr s),
      (PStr ''signature'', PStr (wr_signature r)),
      (PStr ''amount'', PFloat (of_int (wr_tokens_used r) / tokens_per_credit))] @
     opt_entry ''response_hash'' (wr_response_hash r) @
     opt_entry ''cip_session_key'' (wr_cip_session_key r) @
     opt_entry ''cip_parent_task_id'' (wr_cip_parent_task_id r)"

text \<open>\<open>submit_award\<close> with the default rate of 1000 tokens per credit. \<open>post\<close> is the directory's status for a payload
  (\<open>None\<close> when the exchange raises). The second component is the payload sent, if any.\<close>

definition submit_award ::
  "(pydict \<Rightarrow> int option) \<Rightarrow> replay_cache \<Rightarrow> time \<Rightarrow> worker_receipt \<Rightarrow> string option
    \<Rightarrow> replay_cache \<times> pydict option \<times> bool" where
  "submit_award post cache now r expected_session_key =
     (case is_replay cache now (wr_nonce r) of
        (cache', seen) \<Rightarrow>
          if seen then (cache', None, False)
          else if expected_session_key \<noteq> None \<and> wr_cip_session_key r \<noteq> expected_session_key then (cache', None, False)
          else let payload = award_payload r 1000 in (cache', Some payload, post payload = Some 200))"

subsection \<open>Consumer mode and validators\<close>

record consumer_config =
  co_enabled :: bool
  co_policy :: string
  co_replicas :: int
  co_fallback_to_local :: bool
  co_timeout_ms :: int

definition consumer_post_init :: "consumer_config \<Rightarrow> consumer_config" where
  "consumer_post_init c = c\<lparr>co_replicas := max 1 (min 10 (co_replicas c)), co_timeout_ms := max 1 (min 60000 (co_timeout_ms c))\<rparr>"

definition is_remote_allowed :: "consumer_config \<Rightarrow> bool" where
  "is_remote_allowed c \<longleftrightarrow> co_enabled c \<and> co_policy c \<noteq> ''local_only''"

text \<open>The validators of \<open>CIPCallFields\<close> once its fields are typed: range of \<open>replicas\<close>, policy, cross-field rules.\<close>

definition cip_call_fields :: "string \<Rightarrow> int \<Rightarrow> int option \<Rightarrow> py_error + unit" where
  "cip_call_fields policy replicas quorum =
     (if policy \<notin> set VALID_CIP_POLICIES then Inl (ValueError ''cip.policy'')
      else if replicas < 1 \<or> replicas > 10 then Inl (ValueError ''cip.replicas'')
      else if policy = ''majority_vote'' \<and> (replicas < 3 \<or> even replicas) then Inl (ValueError ''IICP-E025'')
      else case quorum of
          None \<Rightarrow> Inr ()
        | Some q \<Rightarrow> if q < 1 \<or> q > replicas then Inl (ValueError ''IICP-E028'') else Inr ())"

definition validate_cross_fields :: "pydict \<Rightarrow> py_error + unit" where
  "validate_cross_fields values =
     bind_result (py_less (get_or values ''replicas_dispatched'' (PInt 0)) (get_or values ''replicas_responded'' (PInt 0)))
       (\<lambda>more. if more then Inl (ValueError ''replicas_responded must not exceed replicas_dispatched'')
         else if py_eq (get_or values ''replicas_responded'' (PInt 0)) (PInt 0) \<and> sget values ''selected_worker_id'' \<noteq> PNone
         then Inl (ValueError ''selected_worker_id must be null when replicas_responded == 0'')
         else if get_or values ''policy'' (PStr []) = PStr ''majority_vote'' \<and> sget values ''cip_vote_count'' = PNone
         then Inl (ValueError ''cip_vote_count must be non-null for majority_vote policy'')
         else if get_or values ''policy'' (PStr []) = PStr ''majority_vote'' \<and> sget values ''cip_quorum_threshold'' = PNone
         then Inl (ValueError ''cip_quorum_threshold must be non-null for majority_vote policy'')
         else Inr ())"

subsection \<open>Facts\<close>

lemma should_dispatch_remote_iff:
  "should_dispatch_remote ns intent \<longleftrightarrow>
     (\<forall>n \<in> set ns. is_local_endpoint (ni_endpoint n) \<longrightarrow> intent \<noteq> None \<and> ni_intent n \<noteq> None \<and> ni_intent n \<noteq> intent)"
  by (induction ns) auto

definition eligible :: "real \<Rightarrow> node_entry \<Rightarrow> bool" where
  "eligible m n \<longleftrightarrow>
     truthy (sget (n_fields n) ''allow_remote_inference'') \<and> given (n_node_id n) \<and>
     (case num_of (get_or (n_fields n) ''reputation_score'' (PFloat 0)) of None \<Rightarrow> False | Some x \<Rightarrow> m \<le> x)"

lemma eligible_workers_exact:
  "eligible_workers m ns = Inr ws \<Longrightarrow> ws = map (\<lambda>n. the (n_node_id n)) (filter (eligible m) ns)"
proof (induction ns arbitrary: ws)
  case (Cons n ns)
  then show ?case using eligible_def [of m n]
    by (cases "eligible_workers m ns") (auto split: if_splits option.splits)
qed simp

definition affordable :: "real \<Rightarrow> cip_config \<Rightarrow> budget_tracker option \<Rightarrow> real option \<Rightarrow> bool" where
  "affordable credits c tracker balance \<longleftrightarrow>
     credits \<le> cc_max_credits_per_task c \<and>
     (\<forall>t b. tracker = Some t \<and> bt_budget t = Some b \<longrightarrow> bt_spent t + credits \<le> b) \<and>
     (\<forall>b. balance = Some b \<longrightarrow> credits \<le> b)"

lemma affordability_gate_None: "affordability_gate credits c tracker balance = None \<longleftrightarrow> affordable credits c tracker balance"
  by (auto simp: affordability_gate_def affordable_def can_spend_def not_less split: option.splits if_splits)

lemma affordability_gate_Some:
  "affordability_gate credits c tracker balance = Some d \<Longrightarrow>
   dd_result d \<noteq> REMOTE \<and> dd_session_key d = None \<and> (cc_strategy c = LOCAL_FIRST \<longrightarrow> dd_result d = LOCAL) \<and>
   (dd_result d = ERROR \<longrightarrow> dd_error_code d = Some ''IICP-E036'')"
  by (auto simp: affordability_gate_def blocked_remote_def local_decision_def error_decision_def split: if_splits)

lemma decide_dispatch_remote:
  "decide_dispatch key credits sens ws c nl intent tracker replicas balance = Inr d \<Longrightarrow> dd_result d = REMOTE \<Longrightarrow>
   affordable credits c tracker balance \<and> dd_session_key d = Some key"
  by (auto simp: decide_dispatch_def affordability_gate_None local_decision_def error_decision_def
      dest: affordability_gate_Some split: if_splits option.splits)

text \<open>The envelope of a request, by what \<open>compute_cip_envelope\<close> demanded of it.\<close>

lemma compute_cip_envelope_Some:
  assumes "compute_cip_envelope key nodes body config task_id qos tracker balance = (tracker', Inr (Some env))"
  obtains c where "config = Some c" "cc_enabled c" "qos \<noteq> Some ''realtime''" "validate_cip_request_fields body = Inr None"
    "affordable 1 c tracker balance" "tracker' = map_option (\<lambda>t. record_spend t 1) tracker"
    "env = [(PStr ''cip_role'', PStr ''worker''), (PStr ''cip_session_key'', PStr key), (PStr ''cip_parent_task_id'', PStr task_id)]"
  using assms
  by (auto simp: compute_cip_envelope_def build_cip_envelope_def Let_def dest: decide_dispatch_remote
      split: option.splits if_splits sum.splits)

lemma compute_cip_envelope_no_spend:
  "compute_cip_envelope key nodes body config task_id qos tracker balance = (tracker', r) \<Longrightarrow>
   (\<nexists>env. r = Inr (Some env)) \<Longrightarrow> tracker' = tracker"
  by (auto simp: compute_cip_envelope_def Let_def split: option.splits if_splits sum.splits)

subsection \<open>Sessions\<close>

text \<open>The requests of a session, one after another, on one tracker.\<close>

record cip_request =
  rq_session_key :: string
  rq_nodes :: "node_entry list"
  rq_body :: pydict
  rq_task_id :: string
  rq_qos :: "string option"
  rq_balance :: "real option"

fun session_run :: "cip_config \<Rightarrow> budget_tracker \<Rightarrow> cip_request list \<Rightarrow> budget_tracker \<times> (cip_error + pydict option) list" where
  "session_run c t [] = (t, [])"
| "session_run c t (q # qs) =
     (case compute_cip_envelope (rq_session_key q) (rq_nodes q) (rq_body q) (Some c) (rq_task_id q) (rq_qos q) (Some t) (rq_balance q) of
        (t', r) \<Rightarrow> (case session_run c (the t') qs of (t'', rs) \<Rightarrow> (t'', r # rs)))"

definition dispatched :: "(cip_error + pydict option) list \<Rightarrow> nat" where
  "dispatched rs = length (filter (\<lambda>r. case r of Inr (Some _) \<Rightarrow> True | _ \<Rightarrow> False) rs)"

lemma dispatched_simps [simp]:
  "dispatched [] = 0" "dispatched (Inr (Some e) # rs) = Suc (dispatched rs)"
  "\<nexists>env. r = Inr (Some env) \<Longrightarrow> dispatched (r # rs) = dispatched rs"
  by (auto simp: dispatched_def split: sum.splits option.splits)

lemma session_run_spend:
  assumes "session_run c t qs = (t', rs)"
  shows "bt_budget t' = bt_budget t \<and> bt_spent t' = bt_spent t + real (dispatched rs) \<and>
    (\<forall>b. bt_budget t = Some b \<and> bt_spent t \<le> b \<longrightarrow> bt_spent t' \<le> b)"
  using assms
proof (induction qs arbitrary: t rs)
  case Nil
  then show ?case by auto
next
  case (Cons q qs)
  let ?r = "compute_cip_envelope (rq_session_key q) (rq_nodes q) (rq_body q) (Some c) (rq_task_id q) (rq_qos q) (Some t) (rq_balance q)"
  obtain t1 r where r: "?r = (t1, r)" by fastforce
  obtain rs' where rs: "session_run c (the t1) qs = (t', rs')" "rs = r # rs'"
    using Cons.prems r by (auto split: prod.splits)
  note IH = Cons.IH [OF rs(1)]
  show ?case
  proof (cases "\<exists>env. r = Inr (Some env)")
    case True
    then obtain env where "r = Inr (Some env)" by blast
    with r have "affordable 1 c (Some t) (rq_balance q)" "t1 = Some (record_spend t 1)"
      by (auto elim: compute_cip_envelope_Some)
    with IH rs(2) \<open>r = Inr (Some env)\<close> show ?thesis
      by (auto simp: affordable_def record_spend_def)
  next
    case False
    with r have "t1 = Some t" using compute_cip_envelope_no_spend by blast
    with IH rs(2) False show ?thesis by auto
  qed
qed

fun award_run ::
  "(pydict \<Rightarrow> int option) \<Rightarrow> replay_cache \<Rightarrow> (time \<times> worker_receipt \<times> string option) list \<Rightarrow> (pydict option \<times> bool) list" where
  "award_run post cache [] = []"
| "award_run post cache ((now, r, expected) # as) =
     (case submit_award post cache now r expected of (cache', res) \<Rightarrow> res # award_run post cache' as)"

lemma award_run_sent:
  assumes "i < length as" "as ! i = (now, r, expected)" "fst (award_run post cache as ! i) = Some payload"
  shows "payload = award_payload r 1000 \<and> (expected \<noteq> None \<longrightarrow> wr_cip_session_key r = expected) \<and>
    \<not> replay_run cache (map (\<lambda>(t, r, _). (t, wr_nonce r)) as) ! i"
  using assms
proof (induction post cache as arbitrary: i rule: award_run.induct)
  case (2 post cache t r0 exp0 as)
  obtain c' res where sub: "submit_award post cache t r0 exp0 = (c', res)" by (cases "submit_award post cache t r0 exp0")
  have c': "c' = fst (is_replay cache t (wr_nonce r0))"
    using sub by (auto simp: submit_award_def Let_def split: prod.splits if_splits)
  show ?case
  proof (cases i)
    case 0
    with 2 sub have "fst res = Some payload" "(t, r0, exp0) = (now, r, expected)" by auto
    with sub 0 show ?thesis by (auto simp: submit_award_def Let_def split: prod.splits if_splits)
  next
    case (Suc k)
    with 2 sub c' show ?thesis by (auto simp: split_beta)
  qed
qed simp

lemma award_run_length: "length (award_run post cache as) = length as"
  by (induction post cache as rule: award_run.induct) (auto split: prod.splits)

subsection \<open>Properties\<close>

text \<open>Remote dispatch passes every gate and no other request does: a decision is \<open>REMOTE\<close> exactly when cooperative
  inference is enabled, the task is affordable (task ceiling, session budget, consumer balance), a sensitive prompt
  was opted in, local-first finds no matching loopback node, and there are at least as many eligible workers as
  replicas; only then a session key is issued. Under local-first the decision is never an error, and an error is
  \<open>IICP-E036\<close> or \<open>IICP-E022\<close>.\<close>

lemma dispatch_gates_exact:
  assumes "decide_dispatch key credits sensitivity workers c node_list intent tracker replicas balance = Inr d"
    "num_of replicas = Some r"
  shows "(dd_result d = REMOTE \<longleftrightarrow>
      cc_enabled c \<and> affordable credits c tracker balance \<and> (sensitivity = PStr ''high'' \<longrightarrow> cc_send_sensitive_prompts c) \<and>
      (cc_strategy c = LOCAL_FIRST \<longrightarrow> (\<forall>ns. node_list = Some ns \<longrightarrow> (\<forall>n \<in> set ns.
         is_local_endpoint (ni_endpoint n) \<longrightarrow> intent \<noteq> None \<and> ni_intent n \<noteq> None \<and> ni_intent n \<noteq> intent))) \<and>
      max r 1 \<le> real (length workers)) \<and>
    dd_session_key d = (if dd_result d = REMOTE then Some key else None) \<and>
    (cc_strategy c = LOCAL_FIRST \<longrightarrow> dd_result d \<noteq> ERROR) \<and>
    (dd_result d = ERROR \<longrightarrow> dd_error_code d \<in> {Some ''IICP-E036'', Some ''IICP-E022''})"
proof (cases "affordability_gate credits c tracker balance")
  case None
  then show ?thesis
    using assms unfolding should_dispatch_remote_iff [symmetric]
    by (auto simp: decide_dispatch_def affordability_gate_None [symmetric] local_decision_def error_decision_def not_less
        split: if_splits option.splits)
next
  case (Some blocked)
  then have "\<not> affordable credits c tracker balance" by (simp add: affordability_gate_None [symmetric])
  with Some assms affordability_gate_Some [OF Some] show ?thesis
    by (auto simp: decide_dispatch_def local_decision_def split: if_splits)
qed

text \<open>C33: A session never spends more than its budget: over any sequence of requests on one tracker the recorded spend is
  exactly the number of envelopes issued, and with a budget that number never exceeds it, whatever the requests
  contain.\<close>

theorem session_budget_respected:
  "case session_run c (new_budget_tracker budget) qs of
     (t, rs) \<Rightarrow> bt_spent t = real (dispatched rs) \<and> length rs = length qs \<and>
       (case budget of None \<Rightarrow> True | Some b \<Rightarrow> real (dispatched rs) \<le> max 0 b)"
proof -
  obtain t rs where run: "session_run c (new_budget_tracker budget) qs = (t, rs)" by fastforce
  have len: "session_run c t0 qs = (t1, rs) \<Longrightarrow> length rs = length qs" for t0 t1
    by (induction qs arbitrary: t0 t1 rs) (auto split: prod.splits)
  have none: "dispatched rs = 0" if "budget = Some b" "b < 0" for b
  proof -
    have "session_run c t0 qs = (t1, rs) \<Longrightarrow> bt_budget t0 = Some b \<Longrightarrow> bt_spent t0 = 0 \<Longrightarrow> dispatched rs = 0" for t0 t1
    proof (induction qs arbitrary: t0 t1 rs)
      case (Cons q qs)
      obtain t2 r where r: "compute_cip_envelope (rq_session_key q) (rq_nodes q) (rq_body q) (Some c) (rq_task_id q)
          (rq_qos q) (Some t0) (rq_balance q) = (t2, r)" by fastforce
      have no: "\<nexists>env. r = Inr (Some env)"
        using r Cons.prems that by (auto elim!: compute_cip_envelope_Some simp: affordable_def)
      then have "t2 = Some t0" using r compute_cip_envelope_no_spend by blast
      with Cons r no show ?case by (auto split: prod.splits)
    qed simp
    with run that show ?thesis by (simp add: new_budget_tracker_def)
  qed
  show ?thesis
    using run session_run_spend [OF run] len [OF run] none
    by (auto simp: new_budget_tracker_def max_def not_le split: option.splits)
qed

text \<open>A receipt is awarded once per window: over any run of award submissions on a clock that does not go back, two
  payloads sent for the same nonce are at least the replay window apart, and every payload sent is the one of a
  receipt that carries the session key the dispatch expects.\<close>

lemma award_at_most_once:
  assumes "sorted (map fst as)" "i < j" "j < length as" "as ! i = (ti, ri, ki)" "as ! j = (tj, rj, kj)"
    "wr_nonce ri = wr_nonce rj"
    "fst (award_run post (new_replay_cache window) as ! i) = Some pld_i" "fst (award_run post (new_replay_cache window) as ! j) = Some pld_j"
  shows "ti + window \<le> tj \<and> pld_j = award_payload rj 1000 \<and> (kj \<noteq> None \<longrightarrow> wr_cip_session_key rj = kj)"
proof -
  let ?ps = "map (\<lambda>(t, r, _). (t, wr_nonce r)) as"
  let ?s = "new_replay_cache window"
  have "sorted (map fst ?ps)" using assms(1) by (simp add: case_prod_unfold o_def)
  moreover have "\<not> replay_run ?s ?ps ! i" "\<not> replay_run ?s ?ps ! j"
    using award_run_sent [OF _ assms(4,7)] award_run_sent [OF _ assms(5,8)] assms(2,3) by auto
  ultimately have "fst (?ps ! i) + window \<le> fst (?ps ! j)"
    using replay.once_per_window [of ?s ?ps i j] assms(2-6)
    by (auto simp: replay_run_eq new_replay_cache_def)
  then show ?thesis using assms(2-5) award_run_sent [OF assms(3,5,8)] by auto
qed

text \<open>A receipt for the witnesses.\<close>

definition sample_receipt :: worker_receipt where
  "sample_receipt = \<lparr>wr_task_id = ''t'', wr_worker_node_id = ''w'', wr_tokens_used = 5, wr_nonce = ''n'', wr_signature = ''s'',
     wr_issued_at = ''i'', wr_expires_at = None, wr_cip_session_key = Some ''k'', wr_cip_parent_task_id = None,
     wr_response_hash = None\<rparr>"

text \<open>The two request validators agree up to one case: on a typed request, the parse-time gate accepts exactly what the
  wire model \<open>CIPCallFields\<close> accepts, and in addition a majority vote of a single replica, which the wire model
  refuses.\<close>

lemma validators_agree:
  assumes "sget body ''cip'' = PDict cip" "sget cip ''policy'' = PStr p" "sget cip ''replicas'' = PInt r"
    "sget cip ''quorum'' = (case q of None \<Rightarrow> PNone | Some k \<Rightarrow> PInt k)"
  shows "validate_cip_request_fields body = Inr None \<longleftrightarrow>
    is_ok (cip_call_fields p r q) \<or> (p = ''majority_vote'' \<and> r = 1 \<and> q \<in> {None, Some 1})"
proof -
  have "odd r \<and> r < 3 \<and> \<not> r < 1 \<longleftrightarrow> r = 1" by presburger
  moreover have "odd r \<and> r < 3 \<and> \<not> a < 1 \<and> \<not> r < a \<longleftrightarrow> r = 1 \<and> a = 1" for a by presburger
  ultimately show ?thesis using assms
    by (cases q) (auto simp: validate_cip_request_fields_def cip_call_fields_def VALID_CIP_POLICIES_def in_set_def Let_def)
qed

end
