(* ===== verification/Runtime_Identity.thy ===== *)
theory Runtime_Identity
  imports Py_Value
begin

text \<open>
  The model-visible runtime context: \<open>runtime_identity.py\<close> (rendering and insertion into a chat) and
  \<open>proxy/runtime_identity.py\<close> (the same for one candidate of the proxy). The literal text of the capsule is kept
  in full because its length counts against the rendered limit.
\<close>

definition contains :: "string \<Rightarrow> string \<Rightarrow> bool" where
  "contains s sub = list_ex (\<lambda>t. starts_with t sub) (suffixes s)"

definition utf8_len :: "string \<Rightarrow> nat" where
  "utf8_len s = sum_list (map (\<lambda>c. if (of_char c :: nat) < 128 then 1 else 2) s)"

definition RUNTIME_IDENTITY_MARKER :: string where "RUNTIME_IDENTITY_MARKER = ''IICP-RUNTIME-CONTEXT/1''"
definition CHAT_INTENT :: string where "CHAT_INTENT = ''urn:iicp:intent:llm:chat:v1''"
definition MAX_RENDERED_UTF8_BYTES :: nat where "MAX_RENDERED_UTF8_BYTES = 2048"
definition MAX_FACT_UTF8_BYTES :: nat where "MAX_FACT_UTF8_BYTES = 160"
definition MAX_CAPABILITIES :: nat where "MAX_CAPABILITIES = 32"

definition BASE_CAPSULE :: string where
  "BASE_CAPSULE =
     ''This request reached you through IICP, the Intent-based Inter-agent Communication Protocol. '' @
     ''IICP is a provider-neutral control plane that turns a requested intent and constraints into '' @
     ''discovery, eligibility evaluation and provider selection; execution then uses a supported provider '' @
     ''mechanism. You are the selected model or service, not IICP. If asked what IICP is or stands for, '' @
     ''use this definition. IICP does not mean Industrial Internet of Things Computing. Use only supplied '' @
     ''runtime facts and do not guess missing facts.''"

definition SELECTION_TEXT :: "(string, string) dict" where
  "SELECTION_TEXT =
     [(''matched_intent_and_constraints'', ''This service matched the requested intent and constraints.''),
      (''explicit_model_match'', ''This service matched the requested model and constraints.''),
      (''fallback_after_unavailable_candidate'', ''This service was selected after an earlier candidate was unavailable.''),
      (''intentional_exploration'', ''This service was selected for an intentional routing exploration.''),
      (''local_browser_execution'', ''This model is running locally in the browser.'')]"

record identity_options =
  io_mode :: string
  io_instruction_channel :: string
  io_selected_model :: "string option"
  io_effective_capabilities :: "string list"
  io_selection_reason :: "string option"
  io_client_name :: "string option"
  io_client_version :: "string option"
  io_connection_mode :: "string option"

definition default_options :: identity_options where
  "default_options = \<lparr>io_mode = ''auto'', io_instruction_channel = ''system'', io_selected_model = None,
     io_effective_capabilities = [], io_selection_reason = None, io_client_name = None, io_client_version = None,
     io_connection_mode = None\<rparr>"

record chat_message =
  cm_role :: string
  cm_content :: string

datatype identity_error = IdentityValue string | RuntimeIdentityContextUnsupported

definition with_runtime_facts ::
  "identity_options option \<Rightarrow> string \<Rightarrow> string \<Rightarrow> string \<Rightarrow> string option \<Rightarrow> string list \<Rightarrow> string \<Rightarrow> identity_options" where
  "with_runtime_facts options name version mode model caps reason =
     (case options of None \<Rightarrow> default_options | Some o' \<Rightarrow> o')
       \<lparr>io_client_name := Some name, io_client_version := Some version, io_connection_mode := Some mode,
        io_selected_model := model, io_effective_capabilities := caps, io_selection_reason := Some reason\<rparr>"

definition checked_fact :: "string \<Rightarrow> string \<Rightarrow> identity_error + string" where
  "checked_fact v name =
     (if v = [] \<or> list_ex (\<lambda>c. (of_char c :: nat) < 32 \<or> (of_char c :: nat) = 127) v
      then Inl (IdentityValue ''contains control characters'')
      else if utf8_len v > MAX_FACT_UTF8_BYTES then Inl (IdentityValue ''exceeds the bounded fact limit'')
      else Inr v)"

definition present :: "string option \<Rightarrow> bool" where
  "present v \<longleftrightarrow> (case v of None \<Rightarrow> False | Some s \<Rightarrow> s \<noteq> [])"

fun join :: "string \<Rightarrow> string list \<Rightarrow> string" where
  "join sep [] = []"
| "join sep [x] = x"
| "join sep (x # y # xs) = x @ sep @ join sep (y # xs)"

definition client_line :: "identity_options \<Rightarrow> identity_error + string list" where
  "client_line opt =
     (if present (io_client_name opt) \<or> present (io_client_version opt)
      then if \<not> present (io_client_name opt) \<or> \<not> present (io_client_version opt)
           then Inl (IdentityValue ''runtime identity client name and version must be supplied together'')
           else bind_result (checked_fact (the (io_client_name opt)) ''client name'') (\<lambda>n.
                bind_result (checked_fact (the (io_client_version opt)) ''client version'') (\<lambda>v.
                  Inr [''- client: '' @ n @ '' '' @ v]))
      else Inr [])"

definition connection_line :: "identity_options \<Rightarrow> identity_error + string list" where
  "connection_line opt =
     (case io_connection_mode opt of
        None \<Rightarrow> Inr []
      | Some m \<Rightarrow>
          if m = ''routed'' then Inr [''- connection: routed through IICP to an eligible provider.'']
          else if m = ''local_browser''
          then Inr [''- connection: This model is running locally in the browser; no remote IICP provider was selected.'']
          else Inl (IdentityValue ''runtime identity connection_mode is unsupported''))"

definition model_line :: "identity_options \<Rightarrow> identity_error + string list" where
  "model_line opt =
     (if present (io_selected_model opt)
      then bind_result (checked_fact (the (io_selected_model opt)) ''selected model'') (\<lambda>m. Inr [''- selected model: '' @ m])
      else Inr [])"

definition capability_line :: "identity_options \<Rightarrow> identity_error + string list" where
  "capability_line opt =
     (if io_effective_capabilities opt = [] then Inr []
      else if length (io_effective_capabilities opt) > MAX_CAPABILITIES
      then Inl (IdentityValue ''runtime identity effective capabilities exceed the bounded count'')
      else bind_result (map_result (\<lambda>v. checked_fact v ''effective capability'') (io_effective_capabilities opt))
             (\<lambda>cs. Inr [''- effective capabilities: '' @ join '', '' cs]))"

definition selection_line :: "identity_options \<Rightarrow> identity_error + string list" where
  "selection_line opt =
     (case io_selection_reason opt of
        None \<Rightarrow> Inr []
      | Some r \<Rightarrow>
          (case map_of SELECTION_TEXT r of
             None \<Rightarrow> Inl (IdentityValue ''selection_reason is not an approved bounded value'')
           | Some t \<Rightarrow> Inr [''- selection: '' @ t]))"

definition render_runtime_identity :: "string \<Rightarrow> identity_options \<Rightarrow> identity_error + string" where
  "render_runtime_identity intent opt =
     bind_result (checked_fact intent ''intent'') (\<lambda>i.
     bind_result (client_line opt) (\<lambda>client.
     bind_result (connection_line opt) (\<lambda>connection.
     bind_result (model_line opt) (\<lambda>model.
     bind_result (capability_line opt) (\<lambda>capabilities.
     bind_result (selection_line opt) (\<lambda>selection.
       let rendered = join [CHR 0x0A]
             ([''['' @ RUNTIME_IDENTITY_MARKER @ '']'', BASE_CAPSULE, ''Runtime facts:'', ''- intent: '' @ i] @
              client @ connection @ model @ capabilities @ selection)
       in if utf8_len rendered > MAX_RENDERED_UTF8_BYTES
          then Inl (IdentityValue ''runtime identity context exceeds the 2048-byte limit'') else Inr rendered))))))"

definition instruction_role :: "chat_message \<Rightarrow> bool" where
  "instruction_role m \<longleftrightarrow> cm_role m \<in> {''system'', ''developer''}"

definition marked :: "chat_message \<Rightarrow> bool" where
  "marked m \<longleftrightarrow> instruction_role m \<and> contains (cm_content m) RUNTIME_IDENTITY_MARKER"

definition compose_runtime_identity ::
  "chat_message list \<Rightarrow> string \<Rightarrow> identity_options option \<Rightarrow> identity_error + chat_message list" where
  "compose_runtime_identity original intent options =
     (let resolved = (case options of None \<Rightarrow> default_options | Some o' \<Rightarrow> o') in
      if intent \<noteq> CHAT_INTENT then Inr original
      else if io_mode resolved \<notin> {''auto'', ''explicit'', ''required''}
      then (if io_mode resolved = ''disabled'' then Inr original
            else Inl (IdentityValue ''runtime identity mode is unsupported''))
      else if io_instruction_channel resolved \<notin> {''system'', ''unsupported''}
      then Inl (IdentityValue ''runtime identity instruction channel is unsupported'')
      else if io_instruction_channel resolved = ''unsupported''
      then (if io_mode resolved = ''required'' then Inl RuntimeIdentityContextUnsupported else Inr original)
      else if list_ex marked original then Inr original
      else bind_result (render_runtime_identity intent resolved) (\<lambda>content.
             Inr (takeWhile instruction_role original @ [\<lparr>cm_role = ''system'', cm_content = content\<rparr>] @
                  dropWhile instruction_role original)))"

subsection \<open>The proxy's composition for one candidate\<close>

definition ALLOWED_MODES :: "string list" where
  "ALLOWED_MODES = [''auto'', ''disabled'', ''explicit'', ''required'']"

definition mode_from_header :: "string option \<Rightarrow> identity_error + string" where
  "mode_from_header v =
     (let mode = lower (strip (if present v then the v else ''auto'')) in
      if mode \<notin> set ALLOWED_MODES then Inl (IdentityValue ''invalid_runtime_identity_mode'') else Inr mode)"

definition options_from_header :: "string option \<Rightarrow> identity_error + identity_options" where
  "options_from_header v = bind_result (mode_from_header v) (\<lambda>mode. Inr (default_options\<lparr>io_mode := mode\<rparr>))"

text \<open>The chat messages of a payload, if every entry is a dictionary with text role and content.\<close>

definition message_of :: "pyval \<Rightarrow> chat_message option" where
  "message_of raw =
     (case raw of
        PDict m \<Rightarrow>
          (case (sget m ''role'', sget m ''content'') of
             (PStr role, PStr content) \<Rightarrow> Some \<lparr>cm_role = role, cm_content = content\<rparr>
           | _ \<Rightarrow> None)
      | _ \<Rightarrow> None)"

fun messages_of :: "pyval list \<Rightarrow> chat_message list option" where
  "messages_of [] = Some []"
| "messages_of (r # rs) =
     (case message_of r of
        None \<Rightarrow> None
      | Some m \<Rightarrow> (case messages_of rs of None \<Rightarrow> None | Some ms \<Rightarrow> Some (m # ms)))"

definition message_dict :: "chat_message \<Rightarrow> pyval" where
  "message_dict m = PDict [(PStr ''role'', PStr (cm_role m)), (PStr ''content'', PStr (cm_content m))]"

text \<open>\<open>{**d, k: v}\<close> for a text key.\<close>

fun with_entry :: "pydict \<Rightarrow> string \<Rightarrow> pyval \<Rightarrow> pydict" where
  "with_entry [] k v = [(PStr k, v)]"
| "with_entry ((k', v') # d) k v = (if py_eq k' (PStr k) then (k', v) # d else (k', v') # with_entry d k v)"

lemma sget_with_entry [simp]: "sget (with_entry d k v) k' = (if k' = k then v else sget d k')"
  by (induction d k v rule: with_entry.induct) (auto simp: sget_def get_or_def)

definition advertised_models :: "pydict \<Rightarrow> string list" where
  "advertised_models node =
     (case sget node ''models'' of
        PList ms \<Rightarrow> concat (map (\<lambda>m. case m of PStr s \<Rightarrow> [s] | _ \<Rightarrow> []) ms)
      | _ \<Rightarrow> [])"

definition compose_proxy_payload ::
  "string \<Rightarrow> pydict \<Rightarrow> string \<Rightarrow> pydict \<Rightarrow> nat \<Rightarrow> identity_options \<Rightarrow> identity_error + pydict" where
  "compose_proxy_payload version payload intent node candidate_index options =
     (case sget payload ''messages'' of
        PList raw \<Rightarrow>
          (case messages_of raw of
             None \<Rightarrow> Inr payload
           | Some messages \<Rightarrow>
               let requested = (case sget payload ''model'' of PStr m \<Rightarrow> Some m | _ \<Rightarrow> None);
                   advertised = advertised_models node;
                   matched = (case requested of None \<Rightarrow> None | Some m \<Rightarrow> if m \<in> set advertised then Some m else None);
                   selected = (if matched = None \<and> length advertised = 1 then Some (advertised ! 0) else matched);
                   opt = with_runtime_facts (Some options) ''iicp-client-python-proxy'' version ''routed'' selected []
                     (if candidate_index = 0 then ''matched_intent_and_constraints'' else ''fallback_after_unavailable_candidate'')
               in bind_result (compose_runtime_identity messages intent (Some opt)) (\<lambda>composed.
                    Inr (with_entry payload ''messages'' (PList (map message_dict composed)))))
      | _ \<Rightarrow> Inr payload)"

subsection \<open>Facts\<close>

lemma contains_append: "contains (a @ sub @ b) sub"
proof -
  have "sub @ b \<in> set (suffixes (a @ sub @ b))" by (simp add: suffix_def)
  moreover have "starts_with (sub @ b) sub" by (simp add: starts_with_def)
  ultimately show ?thesis unfolding contains_def list_ex_iff by blast
qed

lemma render_bounds:
  assumes "render_runtime_identity intent opt = Inr text"
  shows "utf8_len text \<le> MAX_RENDERED_UTF8_BYTES" "contains text RUNTIME_IDENTITY_MARKER"
proof -
  from assms obtain b where t: "text = CHR ''['' # RUNTIME_IDENTITY_MARKER @ b"
    and bound: "utf8_len text \<le> MAX_RENDERED_UTF8_BYTES"
    by (auto simp: render_runtime_identity_def Let_def result_simps not_less split: if_splits)
  from bound show "utf8_len text \<le> MAX_RENDERED_UTF8_BYTES" .
  have "text = [CHR ''[''] @ RUNTIME_IDENTITY_MARKER @ b" by (simp add: t)
  then show "contains text RUNTIME_IDENTITY_MARKER" using contains_append by metis
qed

subsection \<open>Properties\<close>

text \<open>Composition keeps the application's messages: when it succeeds, the result is the conversation unchanged, or the
  conversation with one system message inserted after its leading instruction messages; that message carries the
  marker and is at most 2048 bytes long, and composing again, with whatever options do not fail, changes nothing.\<close>

lemma composition_preserves_chat:
  assumes "compose_runtime_identity msgs intent options = Inr out"
  shows "out = msgs \<or>
    (\<exists>content. out = takeWhile instruction_role msgs @ [\<lparr>cm_role = ''system'', cm_content = content\<rparr>] @ dropWhile instruction_role msgs \<and>
      contains content RUNTIME_IDENTITY_MARKER \<and> utf8_len content \<le> 2048 \<and>
      (\<forall>options' out'. compose_runtime_identity out intent options' = Inr out' \<longrightarrow> out' = out))"
proof (cases "out = msgs")
  case False
  with assms obtain content where c: "render_runtime_identity intent (case options of None \<Rightarrow> default_options | Some o' \<Rightarrow> o') = Inr content"
      and out: "out = takeWhile instruction_role msgs @ [\<lparr>cm_role = ''system'', cm_content = content\<rparr>] @ dropWhile instruction_role msgs"
    by (auto simp: compose_runtime_identity_def Let_def result_simps split: if_splits)
  note r = render_bounds [OF c]
  have "list_ex marked out" using r(2) by (simp add: out marked_def instruction_role_def)
  then have "\<forall>options' out'. compose_runtime_identity out intent options' = Inr out' \<longrightarrow> out' = out"
    by (auto simp: compose_runtime_identity_def Let_def split: if_splits)
  with out r show ?thesis by (auto simp: MAX_RENDERED_UTF8_BYTES_def)
qed simp

end
