(* ===== verification/Fallback.thy ===== *)
theory Fallback
  imports Cip Runtime_Identity
begin

text \<open>
  Choosing nodes and getting an answer from one of them: \<open>proxy/routing/selector.py\<close>, \<open>fallback.py\<close>,
  \<open>aggregator.py\<close> and the node cache \<open>proxy/network/peer_cache.py\<close>. The hash of a canonical JSON result and the
  directory's discovery are parameters. Log lines are left out; dashes outside Latin-1 in message texts are written
  \<open>--\<close>.
\<close>

subsection \<open>Filtering with errors\<close>

fun filter_result :: "('a \<Rightarrow> 'e + bool) \<Rightarrow> 'a list \<Rightarrow> 'e + 'a list" where
  "filter_result f [] = Inr []"
| "filter_result f (x # xs) =
     (case f x of
        Inl e \<Rightarrow> Inl e
      | Inr keep \<Rightarrow>
          (case filter_result f xs of Inl e \<Rightarrow> Inl e | Inr ys \<Rightarrow> Inr (if keep then x # ys else ys)))"

lemma filter_result_Inr [result_simps]:
  "filter_result f xs = Inr ys \<longleftrightarrow> (\<forall>x \<in> set xs. is_ok (f x)) \<and> ys = filter (\<lambda>x. f x = Inr True) xs"
proof (induction xs arbitrary: ys)
  case (Cons x xs)
  show ?case
  proof (cases "f x")
    case (Inr keep)
    show ?thesis
    proof (cases "filter_result f xs")
      case e: (Inl e)
      then have "\<not> (\<forall>x \<in> set xs. is_ok (f x))" using Cons.IH [of "filter (\<lambda>x. f x = Inr True) xs"] by auto
      with e Inr show ?thesis by auto
    next
      case zs: (Inr zs)
      with Cons.IH [of zs] Inr show ?thesis by auto
    qed
  qed simp
qed auto

subsection \<open>The selector\<close>

definition MAX_WORKER_LOAD :: real where "MAX_WORKER_LOAD = 8 / 10"

text \<open>A numeric field of a node; comparing anything else with a number raises.\<close>

definition number_field :: "node_entry \<Rightarrow> string \<Rightarrow> real \<Rightarrow> py_error + real" where
  "number_field n k dflt =
     (case num_of (get_or (n_fields n) k (PFloat dflt)) of None \<Rightarrow> Inl TypeError | Some x \<Rightarrow> Inr x)"

text \<open>\<open>set(node.get("models", []))\<close>: the elements of a list, the characters of a text, the keys of a dictionary, the
  numbers of a byte string.\<close>

definition node_models :: "node_entry \<Rightarrow> py_error + pyval list" where
  "node_models n =
     (let hashed = (\<lambda>xs. if list_all hashable xs then Inr xs else Inl TypeError) in
      case get_or (n_fields n) ''models'' (PList []) of
        PList xs \<Rightarrow> hashed xs
      | PStr s \<Rightarrow> Inr (map (\<lambda>c. PStr [c]) s)
      | PDict d \<Rightarrow> Inr (map fst d)
      | PBytes bs \<Rightarrow> Inr (map (\<lambda>b. PInt (uint b)) bs)
      | _ \<Rightarrow> Inl TypeError)"

definition model_matches :: "node_entry \<Rightarrow> string list \<Rightarrow> py_error + bool" where
  "model_matches n requested =
     (if requested = [] then Inr True
      else bind_result (node_models n) (\<lambda>ms. Inr (list_ex (\<lambda>m. in_strs m requested) ms)))"

definition rank_keep :: "real \<Rightarrow> node_entry \<Rightarrow> py_error + bool" where
  "rank_keep min_reputation n =
     (if \<not> truthy (get_or (n_fields n) ''available'' (PBool False)) then Inr False
      else bind_result (number_field n ''load'' 0) (\<lambda>load.
        if load \<ge> MAX_WORKER_LOAD then Inr False
        else bind_result (number_field n ''reputation_score'' 1) (\<lambda>rep. Inr (\<not> rep < min_reputation))))"

definition rank :: "real \<Rightarrow> node_entry list \<Rightarrow> string list option \<Rightarrow> py_error + node_entry list" where
  "rank min_reputation nodes requested_models =
     bind_result (filter_result (rank_keep min_reputation) nodes) (\<lambda>available.
       case requested_models of
         None \<Rightarrow> Inr available
       | Some [] \<Rightarrow> Inr available
       | Some requested \<Rightarrow>
           bind_result (filter_result (\<lambda>n. model_matches n requested) available) (\<lambda>matching.
             Inr (if matching \<noteq> [] then matching else available)))"

definition multiplier :: "node_entry \<Rightarrow> py_error + real" where
  "multiplier n = number_field n ''credit_cost_multiplier'' 1"

text \<open>\<open>min(candidates, key=...)\<close> keeps the first of the smallest.\<close>

fun cheapest :: "(node_entry \<Rightarrow> real) \<Rightarrow> node_entry list \<Rightarrow> node_entry option" where
  "cheapest f [] = None"
| "cheapest f (n # ns) =
     (case cheapest f ns of None \<Rightarrow> Some n | Some m \<Rightarrow> if f n \<le> f m then Some n else Some m)"

definition price :: "node_entry \<Rightarrow> real" where
  "price n = (case multiplier n of Inr x \<Rightarrow> x | Inl _ \<Rightarrow> 0)"

text \<open>The filters after ranking, in the order the code applies them.\<close>

definition quality_stage :: "real option \<Rightarrow> node_entry list \<Rightarrow> py_error + node_entry list" where
  "quality_stage min_quality_score candidates =
     (case min_quality_score of
        None \<Rightarrow> Inr candidates
      | Some q \<Rightarrow> filter_result (\<lambda>n. bind_result (number_field n ''score'' 0) (\<lambda>s. Inr (s \<ge> q))) candidates)"

definition price_stage :: "real option \<Rightarrow> node_entry list \<Rightarrow> py_error + node_entry list" where
  "price_stage max_multiplier candidates =
     (case max_multiplier of
        None \<Rightarrow> Inr candidates
      | Some m \<Rightarrow> filter_result (\<lambda>n. bind_result (multiplier n) (\<lambda>x. Inr (x \<le> m))) candidates)"

definition budget_stage :: "real option \<Rightarrow> int \<Rightarrow> node_entry list \<Rightarrow> py_error + node_entry list" where
  "budget_stage max_credits expected_tokens candidates =
     (case max_credits of
        None \<Rightarrow> Inr candidates
      | Some budget \<Rightarrow>
          if candidates = [] then Inr candidates
          else bind_result (filter_result (\<lambda>n. bind_result (multiplier n)
                   (\<lambda>x. Inr (of_int ((expected_tokens + 999) div 1000) * x \<le> budget))) candidates) (\<lambda>in_budget.
                 Inr (if in_budget = [] then [the (cheapest price candidates)] else in_budget)))"

definition select ::
  "real \<Rightarrow> node_entry list \<Rightarrow> string list option \<Rightarrow> real option \<Rightarrow> real option \<Rightarrow> real option \<Rightarrow> int \<Rightarrow> py_error + node_entry list" where
  "select min_reputation nodes requested_models max_multiplier min_quality_score max_credits expected_tokens =
     bind_result (rank min_reputation nodes requested_models) (\<lambda>ranked.
     bind_result (quality_stage min_quality_score ranked) (\<lambda>good.
     bind_result (price_stage max_multiplier good) (\<lambda>affordable.
       budget_stage max_credits expected_tokens affordable)))"

subsection \<open>Checks on a worker's response\<close>

definition verify_receipt_hash :: "(pyval option \<Rightarrow> string) \<Rightarrow> pydict \<Rightarrow> string option" where
  "verify_receipt_hash result_hash response =
     (case sget response ''cip_receipt'' of
        PNone \<Rightarrow> None
      | raw \<Rightarrow>
          let receipt_hash = (case raw of PDict r \<Rightarrow> sget r ''response_hash'' | _ \<Rightarrow> PNone) in
          if receipt_hash = PNone then Some ''response_hash_missing''
          else let actual = (case sget response ''result'' of PNone \<Rightarrow> result_hash None | v \<Rightarrow> result_hash (Some v)) in
            if receipt_hash \<noteq> PStr actual then Some ''response_hash_mismatch'' else None)"

definition build_cip_aggregation :: "string \<Rightarrow> int \<Rightarrow> int \<Rightarrow> string option \<Rightarrow> int option \<Rightarrow> pydict" where
  "build_cip_aggregation policy sent answered worker quorum =
     [(PStr ''policy'', PStr policy),
      (PStr ''replicas_dispatched'', PInt sent),
      (PStr ''replicas_responded'', PInt answered),
      (PStr ''selected_worker_id'', case worker of None \<Rightarrow> PNone | Some w \<Rightarrow> PStr w)] @
     (if policy = ''majority_vote''
      then [(PStr ''cip_vote_count'', PInt answered),
            (PStr ''cip_quorum_threshold'', PInt (case quorum of Some q \<Rightarrow> q | None \<Rightarrow> max 1 (sent div 2 + 1)))]
      else case quorum of None \<Rightarrow> [] | Some q \<Rightarrow> [(PStr ''cip_quorum_threshold'', PInt q)])"

text \<open>How the chain treats a response: it is returned (after the trace has been completed), discarded with a reason, or
  the handling itself raises (by class name). \<open>dict(trace)\<close> of anything but a dictionary is taken to raise; it is
  reached only with an envelope that carries no session key.\<close>

datatype acceptance = Accepted pyval | Discarded string | HandlerRaised string

definition session_key_check :: "pydict \<Rightarrow> pydict \<Rightarrow> py_error + string option" where
  "session_key_check envelope response =
     (case sget envelope ''cip_session_key'' of
        PNone \<Rightarrow> Inr None
      | expected \<Rightarrow>
          let trace = sget response ''trace'' in
          case (if truthy trace then trace else PDict []) of
            PDict t \<Rightarrow> if py_eq (sget t ''cip_session_key'') expected then Inr None else Inr (Some ''cip_session_key_mismatch'')
          | _ \<Rightarrow> Inl AttributeError)"

definition accept_response ::
  "(pyval option \<Rightarrow> string) \<Rightarrow> pydict option \<Rightarrow> string \<Rightarrow> int \<Rightarrow> int option \<Rightarrow> node_entry \<Rightarrow> pyval \<Rightarrow> acceptance" where
  "accept_response result_hash cip_envelope policy replicas quorum node response =
     (case cip_envelope of
        None \<Rightarrow> Accepted response
      | Some envelope \<Rightarrow>
          (case response of
             PDict r \<Rightarrow>
               (case session_key_check envelope r of
                  Inl _ \<Rightarrow> HandlerRaised ''AttributeError''
                | Inr (Some reason) \<Rightarrow> Discarded reason
                | Inr None \<Rightarrow>
                    (case verify_receipt_hash result_hash r of
                       Some reason \<Rightarrow> Discarded reason
                     | None \<Rightarrow>
                         (let trace = sget r ''trace''; agg = PDict (build_cip_aggregation policy replicas 1 (n_node_id node) quorum) in
                          case (if truthy trace then trace else PDict []) of
                            PDict t \<Rightarrow> Accepted (PDict (with_entry r ''trace'' (PDict (with_entry t ''cip_aggregation'' agg))))
                          | _ \<Rightarrow> HandlerRaised ''TypeError'')))
           | _ \<Rightarrow> HandlerRaised ''AttributeError''))"

subsection \<open>The chain\<close>

record fallback_chain =
  fc_has_replay_cache :: bool
  fc_directory_url :: string
  fc_node_token :: string

text \<open>A background award: the raw receipt and the session key it is checked against.\<close>

definition schedule_award :: "fallback_chain \<Rightarrow> pyval \<Rightarrow> pydict \<Rightarrow> (pyval \<times> pyval) list" where
  "schedule_award fc response envelope =
     (if \<not> fc_has_replay_cache fc \<or> fc_directory_url fc = [] then []
      else case response of
          PDict r \<Rightarrow> if truthy (sget r ''cip_receipt'') then [(sget r ''cip_receipt'', sget envelope ''cip_session_key'')] else []
        | _ \<Rightarrow> [])"

fun error_class :: "route_error \<Rightarrow> string" where
  "error_class (CircuitOpenError _) = ''circuit_open''"
| "error_class CapacityExceededError = ''CapacityExceededError''"
| "error_class AssertionError = ''AssertionError''"
| "error_class (NotRoutable _) = ''ValueError''"
| "error_class (RaisedPy KeyError) = ''KeyError''"
| "error_class (RaisedPy TypeError) = ''TypeError''"
| "error_class (RaisedPy AttributeError) = ''AttributeError''"
| "error_class (RaisedPy IndexError) = ''IndexError''"
| "error_class (RaisedPy (ValueError _)) = ''ValueError''"
| "error_class (RaisedHttp (TimeoutException c)) = c"
| "error_class (RaisedHttp ConnectError) = ''ConnectError''"
| "error_class (RaisedHttp RemoteProtocolError) = ''RemoteProtocolError''"
| "error_class (RaisedHttp (HTTPStatusError _ _)) = ''HTTPStatusError''"
| "error_class (RaisedHttp (OtherException c)) = c"

record chain_request =
  ch_call :: task_call
  ch_policy :: string
  ch_replicas :: int
  ch_quorum :: "int option"
  ch_identity :: "identity_options option"
  ch_version :: string

definition error_body :: "chain_request \<Rightarrow> string \<Rightarrow> string \<Rightarrow> pydict" where
  "error_body q code message =
     [(PStr ''task_id'', PStr (tc_task_id (ch_call q))),
      (PStr ''status'', PStr ''error''),
      (PStr ''result'', PNone),
      (PStr ''metrics'', PDict [(PStr ''latency_ms'', PInt 0)]),
      (PStr ''error'', PDict [(PStr ''code'', PStr code), (PStr ''message'', PStr message)])] @
     (case tc_cip_envelope (ch_call q) of
        None \<Rightarrow> []
      | Some _ \<Rightarrow>
          [(PStr ''trace'', PDict [(PStr ''cip_aggregation'',
              PDict (build_cip_aggregation (ch_policy q) (ch_replicas q) 0 None (ch_quorum q)))])])"

definition no_candidates :: "chain_request \<Rightarrow> pydict" where
  "no_candidates q = error_body q ''IICP-E033''
     (''No nodes serve intent '' @ [CHR 0x27] @ tc_intent (ch_call q) @ [CHR 0x27] @
      '' -- directory was reachable and returned 0 candidates after filtering. Verify your intent URN matches a registered capability; '' @
      ''check the /nodes page on iicp.network for current providers; or wait for new providers to join.'')"

definition exhausted :: "chain_request \<Rightarrow> string \<Rightarrow> pydict" where
  "exhausted q last_error = error_body q ''no_available_node'' (''All nodes exhausted. Last error: '' @ last_error)"

text \<open>The payload for a candidate: composing it happens outside the \<open>try\<close>, so its exceptions leave the chain.\<close>

definition candidate_payload :: "chain_request \<Rightarrow> nat \<Rightarrow> node_entry \<Rightarrow> identity_error + pydict" where
  "candidate_payload q i node =
     (case ch_identity q of
        None \<Rightarrow> Inr (tc_payload (ch_call q))
      | Some opt \<Rightarrow> compose_proxy_payload (ch_version q) (tc_payload (ch_call q)) (tc_intent (ch_call q)) (n_fields node) i opt)"

text \<open>One round of the loop: compose, route, check. An exception of routing or of the checks is a reason to go on.\<close>

definition try_candidate ::
  "(pyval option \<Rightarrow> string) \<Rightarrow> ('s \<Rightarrow> node_entry \<Rightarrow> task_call \<Rightarrow> 's \<times> (route_error + pyval)) \<Rightarrow> chain_request
    \<Rightarrow> nat \<Rightarrow> node_entry \<Rightarrow> 's \<Rightarrow> 's \<times> (identity_error + acceptance)" where
  "try_candidate h attempt q i node s =
     (case candidate_payload q i node of
        Inl e \<Rightarrow> (s, Inl e)
      | Inr payload \<Rightarrow>
          (case attempt s node (ch_call q\<lparr>tc_payload := payload\<rparr>) of
             (s1, Inl e) \<Rightarrow> (s1, Inr (HandlerRaised (error_class e)))
           | (s1, Inr response) \<Rightarrow>
               (s1, Inr (accept_response h (tc_cip_envelope (ch_call q)) (ch_policy q) (ch_replicas q) (ch_quorum q) node response))))"

fun try_nodes ::
  "(pyval option \<Rightarrow> string) \<Rightarrow> ('s \<Rightarrow> node_entry \<Rightarrow> task_call \<Rightarrow> 's \<times> (route_error + pyval)) \<Rightarrow> fallback_chain \<Rightarrow> chain_request
    \<Rightarrow> nat \<Rightarrow> node_entry list \<Rightarrow> string \<Rightarrow> 's \<Rightarrow> 's \<times> (pyval \<times> pyval) list \<times> (identity_error + pyval)" where
  "try_nodes h attempt fc q i [] last_error s = (s, [], Inr (PDict (exhausted q last_error)))"
| "try_nodes h attempt fc q i (node # nodes) last_error s =
     (case try_candidate h attempt q i node s of
        (s1, Inl e) \<Rightarrow> (s1, [], Inl e)
      | (s1, Inr (Accepted r)) \<Rightarrow>
          (s1, (case tc_cip_envelope (ch_call q) of None \<Rightarrow> [] | Some e \<Rightarrow> schedule_award fc r e), Inr r)
      | (s1, Inr (Discarded reason)) \<Rightarrow> try_nodes h attempt fc q (Suc i) nodes reason s1
      | (s1, Inr (HandlerRaised c)) \<Rightarrow> try_nodes h attempt fc q (Suc i) nodes c s1)"

definition route_attempt ::
  "guard_env \<Rightarrow> 'w world_ops \<Rightarrow> task_router \<times> 'w \<Rightarrow> node_entry \<Rightarrow> task_call \<Rightarrow> (task_router \<times> 'w) \<times> (route_error + pyval)" where
  "route_attempt env ops s node c = (case route env ops (fst s) (snd s) node c of (s', _, r) \<Rightarrow> (s', r))"

definition fallback_execute ::
  "(pyval option \<Rightarrow> string) \<Rightarrow> guard_env \<Rightarrow> 'w world_ops \<Rightarrow> fallback_chain \<Rightarrow> task_router \<times> 'w \<Rightarrow> node_entry list \<Rightarrow> chain_request
    \<Rightarrow> (task_router \<times> 'w) \<times> (pyval \<times> pyval) list \<times> (identity_error + pyval)" where
  "fallback_execute h env ops fc s nodes q =
     (if nodes = [] then (s, [], Inr (PDict (no_candidates q)))
      else try_nodes h (route_attempt env ops) fc q 0 nodes ''no_nodes_available'' s)"

subsection \<open>The aggregator\<close>

text \<open>\<open>ResultAggregator.execute\<close> after the fan-out: the rounds of \<open>asyncio.wait\<close> hand over the finished calls, in some
  order, as results or exceptions (\<open>None\<close>); the first with status \<open>success\<close> wins. A result without a \<open>get\<close> raises
  inside the same \<open>try\<close>.\<close>

fun first_success :: "pyval option list \<Rightarrow> pyval option \<Rightarrow> pyval option \<times> pyval option" where
  "first_success [] first_error = (None, first_error)"
| "first_success (r # rs) first_error =
     (case r of
        Some (PDict d) \<Rightarrow>
          if sget d ''status'' = PStr ''success'' then (Some (PDict d), first_error)
          else first_success rs (if first_error = None then Some (PDict d) else first_error)
      | _ \<Rightarrow> first_success rs first_error)"

definition aggregator_error :: "string \<Rightarrow> string \<Rightarrow> string \<Rightarrow> pydict" where
  "aggregator_error task_id code message =
     [(PStr ''task_id'', PStr task_id),
      (PStr ''status'', PStr ''error''),
      (PStr ''result'', PNone),
      (PStr ''metrics'', PDict [(PStr ''latency_ms'', PInt 0)]),
      (PStr ''error'', PDict [(PStr ''code'', PStr code), (PStr ''message'', PStr message)])]"

definition aggregate :: "string \<Rightarrow> pyval option list list \<Rightarrow> pyval" where
  "aggregate task_id rounds =
     (case first_success (concat rounds) None of
        (Some r, _) \<Rightarrow> r
      | (None, Some e) \<Rightarrow> if truthy e then e else PDict (aggregator_error task_id ''all_nodes_failed'' ''All redundant nodes failed'')
      | (None, None) \<Rightarrow> PDict (aggregator_error task_id ''all_nodes_failed'' ''All redundant nodes failed''))"

text \<open>The nodes the task is sent to: \<open>nodes[:fan_out]\<close>.\<close>

definition fan_out_targets :: "int \<Rightarrow> node_entry list \<Rightarrow> node_entry list" where
  "fan_out_targets fan_out nodes =
     (if fan_out \<ge> 0 then take (nat fan_out) nodes else take (length nodes - nat (- fan_out)) nodes)"

definition aggregator_execute :: "int \<Rightarrow> node_entry list \<Rightarrow> string \<Rightarrow> string \<Rightarrow> (node_entry list \<Rightarrow> pyval option list list) \<Rightarrow> pyval" where
  "aggregator_execute fan_out nodes task_id intent race =
     (if nodes = []
      then PDict (aggregator_error task_id ''IICP-E033''
        (''No nodes serve intent '' @ [CHR 0x27] @ intent @ [CHR 0x27] @ '' -- directory was reachable and returned 0 candidates '' @
         ''after filtering. Verify intent URN, check /nodes for current providers, or wait.''))
      else aggregate task_id (race (fan_out_targets fan_out nodes)))"

subsection \<open>The node cache\<close>

record peer_cache =
  pc_ttl_s :: time
  pc_cache :: "(string, node_entry list \<times> time) dict"

definition get_nodes :: "peer_cache \<Rightarrow> time \<Rightarrow> string \<Rightarrow> node_entry list option" where
  "get_nodes pc now intent =
     (case map_of (pc_cache pc) intent of
        None \<Rightarrow> None
      | Some (nodes, ts) \<Rightarrow> if now - ts > pc_ttl_s pc then None else Some nodes)"

text \<open>\<open>found\<close> is what the directory answers (\<open>None\<close> when the query raises), \<open>now\<close> the clock when it has.\<close>

definition fetch_and_cache :: "peer_cache \<Rightarrow> time \<Rightarrow> string \<Rightarrow> node_entry list option \<Rightarrow> peer_cache \<times> node_entry list" where
  "fetch_and_cache pc now intent found =
     (case found of
        None \<Rightarrow> (pc, [])
      | Some nodes \<Rightarrow> (pc\<lparr>pc_cache := AList.update intent (nodes, now) (pc_cache pc)\<rparr>, nodes))"

text \<open>One turn of the refresh loop: every intent cached at its start is fetched again, in order.\<close>

definition refresh_round :: "peer_cache \<Rightarrow> (string \<Rightarrow> time \<times> node_entry list option) \<Rightarrow> peer_cache" where
  "refresh_round pc directory =
     foldl (\<lambda>c intent. fst (fetch_and_cache c (fst (directory intent)) intent (snd (directory intent)))) pc (map fst (pc_cache pc))"

subsection \<open>Facts\<close>

lemma cheapest_least:
  "ns \<noteq> [] \<Longrightarrow> \<exists>n. cheapest f ns = Some n \<and> n \<in> set ns \<and> (\<forall>m \<in> set ns. f n \<le> f m)"
proof (induction ns)
  case (Cons n ns)
  then show ?case by (cases "ns = []") (force split: option.splits)+
qed simp

lemma number_field_Inr: "number_field n k d = Inr x \<longleftrightarrow> num_of (get_or (n_fields n) k (PFloat d)) = Some x"
  by (auto simp: number_field_def split: option.splits)

text \<open>What a node has to offer to be ranked.\<close>

definition serviceable :: "real \<Rightarrow> node_entry \<Rightarrow> bool" where
  "serviceable min_reputation n \<longleftrightarrow>
     truthy (get_or (n_fields n) ''available'' (PBool False)) \<and>
     (\<exists>l r. num_of (get_or (n_fields n) ''load'' (PFloat 0)) = Some l \<and> l < MAX_WORKER_LOAD \<and>
        num_of (get_or (n_fields n) ''reputation_score'' (PFloat 1)) = Some r \<and> min_reputation \<le> r)"

lemma rank_keep_iff: "rank_keep m n = Inr True \<longleftrightarrow> serviceable m n"
  by (auto simp: rank_keep_def serviceable_def number_field_Inr bind_result_Inr_iff not_less not_le split: if_splits)

lemma rank_sound:
  assumes "rank m nodes requested = Inr out"
  shows "subseq out nodes \<and> (\<forall>n \<in> set out. serviceable m n)"
proof -
  have "subseq (filter P (filter Q nodes)) nodes" for P Q
    by (meson subseq_filter_left subseq_order.order_trans)
  with assms show ?thesis
    by (auto simp: rank_def result_simps rank_keep_iff subseq_filter_left split: option.splits list.splits if_splits)
qed

lemma subseq_subset: "subseq xs ys \<Longrightarrow> x \<in> set xs \<Longrightarrow> x \<in> set ys"
  by (auto elim: list_emb_set)

lemma quality_stage_sound:
  "quality_stage q xs = Inr ys \<Longrightarrow>
   subseq ys xs \<and> (\<forall>b. q = Some b \<longrightarrow> (\<forall>n \<in> set ys. \<exists>x. number_field n ''score'' 0 = Inr x \<and> b \<le> x))"
  by (auto simp: quality_stage_def result_simps subseq_filter_left split: option.splits)

lemma price_stage_sound:
  "price_stage m xs = Inr ys \<Longrightarrow> subseq ys xs \<and> (\<forall>b. m = Some b \<longrightarrow> (\<forall>n \<in> set ys. \<exists>x. multiplier n = Inr x \<and> x \<le> b))"
  by (auto simp: price_stage_def result_simps subseq_filter_left split: option.splits)

lemma budget_stage_sound:
  assumes "budget_stage mc tokens xs = Inr ys"
  shows "subseq ys xs \<and> (ys = [] \<longrightarrow> xs = []) \<and>
    (\<forall>b. mc = Some b \<longrightarrow>
       (\<forall>n \<in> set ys. \<exists>x. multiplier n = Inr x \<and> of_int ((tokens + 999) div 1000) * x \<le> b) \<or>
       (\<exists>n. ys = [n] \<and> (\<forall>k \<in> set xs. price n \<le> price k)))"
proof (cases "\<exists>b. mc = Some b \<and> xs \<noteq> []")
  case False
  with assms show ?thesis by (auto simp: budget_stage_def split: option.splits if_splits)
next
  case True
  then obtain b where b: "mc = Some b" "xs \<noteq> []" by blast
  obtain c where c: "cheapest price xs = Some c" "c \<in> set xs" "\<forall>k \<in> set xs. price c \<le> price k"
    using cheapest_least [OF b(2), of price] by blast
  then have "subseq [c] xs" by (simp add: subseq_singleton_left)
  with assms b c show ?thesis
    by (auto simp: budget_stage_def result_simps subseq_filter_left split: if_splits)
qed

text \<open>The states of a chain in which no candidate has been accepted so far.\<close>

fun chain_state where
  "chain_state h attempt q nodes s 0 = s"
| "chain_state h attempt q nodes s (Suc i) = fst (try_candidate h attempt q i (nodes ! i) (chain_state h attempt q nodes s i))"

definition chain_verdict where
  "chain_verdict h attempt q nodes s i = snd (try_candidate h attempt q i (nodes ! i) (chain_state h attempt q nodes s i))"

definition passed_over :: "identity_error + acceptance \<Rightarrow> string option" where
  "passed_over v =
     (case v of Inr (Discarded why) \<Rightarrow> Some why | Inr (HandlerRaised c) \<Rightarrow> Some c | _ \<Rightarrow> None)"

text \<open>The result of a chain, by the first candidate that is not passed over.\<close>

definition chain_outcome ::
  "fallback_chain \<Rightarrow> chain_request \<Rightarrow> identity_error + acceptance \<Rightarrow> (pyval \<times> pyval) list \<times> (identity_error + pyval)" where
  "chain_outcome fc q v =
     (case v of
        Inr (Accepted r) \<Rightarrow> (case tc_cip_envelope (ch_call q) of None \<Rightarrow> [] | Some e \<Rightarrow> schedule_award fc r e, Inr r)
      | Inr _ \<Rightarrow> ([], Inr PNone)
      | Inl e \<Rightarrow> ([], Inl e))"

lemma try_nodes_stops:
  assumes "\<forall>j. i \<le> j \<and> j < k \<longrightarrow> passed_over (chain_verdict h attempt q nodes s j) \<noteq> None"
    "passed_over (chain_verdict h attempt q nodes s k) = None" "i \<le> k" "k < length nodes"
  shows "try_nodes h attempt fc q i (drop i nodes) l (chain_state h attempt q nodes s i) =
    (chain_state h attempt q nodes s (Suc k), chain_outcome fc q (chain_verdict h attempt q nodes s k))"
  using assms
proof (induction "k - i" arbitrary: i l)
  case 0
  then have ik: "i = k" by simp
  obtain s1 v where c: "try_candidate h attempt q k (nodes ! k) (chain_state h attempt q nodes s k) = (s1, v)" by fastforce
  with 0 ik show ?case
    by (auto simp: Cons_nth_drop_Suc [symmetric] chain_outcome_def chain_verdict_def passed_over_def
        split: sum.splits acceptance.splits)
next
  case (Suc d)
  then have i: "i < k" "i < length nodes" by auto
  obtain s1 v where c: "try_candidate h attempt q i (nodes ! i) (chain_state h attempt q nodes s i) = (s1, v)" by fastforce
  have p: "passed_over v \<noteq> None" using Suc.prems(1) i(1) c by (auto simp: chain_verdict_def)
  have "try_nodes h attempt fc q (Suc i) (drop (Suc i) nodes) l' (chain_state h attempt q nodes s (Suc i)) =
    (chain_state h attempt q nodes s (Suc k), chain_outcome fc q (chain_verdict h attempt q nodes s k))" for l'
    using Suc.hyps(1) [of "Suc i" l'] Suc.hyps(2) Suc.prems i by auto
  with c p i show ?case
    by (auto simp: Cons_nth_drop_Suc [symmetric] passed_over_def split: sum.splits acceptance.splits)
qed

lemma try_nodes_exhausts:
  assumes "\<forall>j. i \<le> j \<and> j < length nodes \<longrightarrow> passed_over (chain_verdict h attempt q nodes s j) \<noteq> None" "i \<le> length nodes"
  shows "try_nodes h attempt fc q i (drop i nodes) l (chain_state h attempt q nodes s i) =
    (chain_state h attempt q nodes s (length nodes), [],
     Inr (PDict (exhausted q (if i = length nodes then l
        else the (passed_over (chain_verdict h attempt q nodes s (length nodes - 1)))))))"
  using assms
proof (induction "length nodes - i" arbitrary: i l)
  case (Suc d)
  then have i: "i < length nodes" by auto
  obtain s1 v where c: "try_candidate h attempt q i (nodes ! i) (chain_state h attempt q nodes s i) = (s1, v)" by fastforce
  obtain why where p: "passed_over v = Some why" using Suc.prems(1) i c by (auto simp: chain_verdict_def)
  have IH: "try_nodes h attempt fc q (Suc i) (drop (Suc i) nodes) why (chain_state h attempt q nodes s (Suc i)) =
    (chain_state h attempt q nodes s (length nodes), [],
     Inr (PDict (exhausted q (if Suc i = length nodes then why
        else the (passed_over (chain_verdict h attempt q nodes s (length nodes - 1)))))))"
    using Suc.hyps(1) [of "Suc i" why] Suc.hyps(2) Suc.prems i by auto
  have "the (passed_over (chain_verdict h attempt q nodes s (length nodes - 1))) = why" if "Suc i = length nodes"
  proof -
    from that have "length nodes - 1 = i" by simp
    then show ?thesis by (simp add: chain_verdict_def c p)
  qed
  with IH c p i show ?case
    by (auto simp: Cons_nth_drop_Suc [symmetric] passed_over_def split: sum.splits acceptance.splits)
qed simp

text \<open>A response bound to a dispatch: it echoes the session key, a receipt it carries vouches for its result, and the
  aggregation block added to its trace passes the program's own validator.\<close>

definition bound_response :: "(pyval option \<Rightarrow> string) \<Rightarrow> string \<Rightarrow> pyval \<Rightarrow> bool" where
  "bound_response h key v \<longleftrightarrow>
     (\<exists>d t. v = PDict d \<and> sget d ''trace'' = PDict t \<and> sget t ''cip_session_key'' = PStr key \<and>
        (sget d ''cip_receipt'' \<noteq> PNone \<longrightarrow>
           (\<exists>rc. sget d ''cip_receipt'' = PDict rc \<and>
              sget rc ''response_hash'' = PStr (h (if sget d ''result'' = PNone then None else Some (sget d ''result''))))) \<and>
        (\<exists>agg. sget t ''cip_aggregation'' = PDict agg \<and> is_ok (validate_cross_fields agg)))"

lemma aggregation_valid:
  "1 \<le> replicas \<Longrightarrow> is_ok (validate_cross_fields (build_cip_aggregation policy replicas 1 worker quorum))"
  "0 \<le> replicas \<Longrightarrow> is_ok (validate_cross_fields (build_cip_aggregation policy replicas 0 None quorum))"
  by (auto simp: validate_cross_fields_def build_cip_aggregation_def split: option.splits)

lemma verify_receipt_hash_ok:
  assumes "verify_receipt_hash h r = None" "sget r ''cip_receipt'' \<noteq> PNone"
  shows "\<exists>rc. sget r ''cip_receipt'' = PDict rc \<and>
    sget rc ''response_hash'' = PStr (h (if sget r ''result'' = PNone then None else Some (sget r ''result'')))"
  using assms by (auto simp: verify_receipt_hash_def Let_def split: pyval.splits if_splits)

lemma session_key_check_ok:
  assumes "session_key_check e r = Inr None" "sget e ''cip_session_key'' = PStr key"
  shows "\<exists>t. sget r ''trace'' = PDict t \<and> truthy (sget r ''trace'') \<and> sget t ''cip_session_key'' = PStr key"
  using assms by (auto simp: session_key_check_def Let_def split: pyval.splits if_splits)

lemma accept_response_bound:
  assumes "accept_response h (Some e) policy replicas quorum node response = Accepted v"
    "sget e ''cip_session_key'' = PStr key" "1 \<le> replicas"
  shows "bound_response h key v"
proof -
  from assms(1) obtain r where r: "response = PDict r" "session_key_check e r = Inr None" "verify_receipt_hash h r = None"
    by (auto simp: accept_response_def split: pyval.splits sum.splits option.splits)
  from session_key_check_ok [OF r(2) assms(2)] obtain t where
    t: "sget r ''trace'' = PDict t" "truthy (PDict t)" "sget t ''cip_session_key'' = PStr key" by auto
  with assms(1) r have v: "v = PDict (with_entry r ''trace'' (PDict (with_entry t ''cip_aggregation''
      (PDict (build_cip_aggregation policy replicas 1 (n_node_id node) quorum)))))"
    by (simp add: accept_response_def Let_def)
  show ?thesis unfolding bound_response_def v
    using verify_receipt_hash_ok [OF r(3)] t(3) aggregation_valid(1) [OF assms(3)] by auto
qed

lemma try_candidate_bound:
  assumes "snd (try_candidate h attempt q i node s) = Inr (Accepted v)"
    "tc_cip_envelope (ch_call q) = Some e" "sget e ''cip_session_key'' = PStr key" "1 \<le> ch_replicas q"
  shows "bound_response h key v"
  using assms accept_response_bound
  by (auto simp: try_candidate_def split: sum.splits prod.splits)

lemma try_nodes_bound:
  assumes "try_nodes h attempt fc q i nodes l s = (s', awards, Inr v)"
    "tc_cip_envelope (ch_call q) = Some e" "sget e ''cip_session_key'' = PStr key" "1 \<le> ch_replicas q"
  shows "(\<exists>why. v = PDict (exhausted q why)) \<and> awards = [] \<or> bound_response h key v \<and> awards = schedule_award fc v e"
  using assms(1)
proof (induction nodes arbitrary: i l s)
  case (Cons node nodes)
  obtain s1 r where c: "try_candidate h attempt q i node s = (s1, r)" by fastforce
  show ?case
  proof (cases "\<exists>v'. r = Inr (Accepted v')")
    case True
    then obtain v' where "r = Inr (Accepted v')" by blast
    with Cons.prems c assms(2) have "v' = v" "awards = schedule_award fc v e" by auto
    moreover from this have "bound_response h key v"
      using try_candidate_bound [of h attempt q i node s v] c \<open>r = Inr (Accepted v')\<close> assms(2-4) by simp
    ultimately show ?thesis by blast
  next
    case False
    with Cons c show ?thesis by (auto split: sum.splits acceptance.splits)
  qed
qed auto

subsection \<open>Properties\<close>

text \<open>The chain answers with the first acceptable candidate: candidates are tried in order, the first that is not
  passed over decides (its completed response, or the exception of composing its payload), and no later candidate
  is contacted; when all are passed over the answer is \<open>no_available_node\<close> with the last reason, and without
  candidates it is \<open>IICP-E033\<close> and nothing is contacted.\<close>

lemma fallback_exact:
  fixes h env ops fc s nodes q
  defines "verdict i \<equiv> chain_verdict h (route_attempt env ops) q nodes s i"
    and "state i \<equiv> chain_state h (route_attempt env ops) q nodes s i"
  shows "(nodes = [] \<longrightarrow> fallback_execute h env ops fc s nodes q = (s, [], Inr (PDict (no_candidates q)))) \<and>
    (\<forall>k < length nodes. (\<forall>j < k. passed_over (verdict j) \<noteq> None) \<and> passed_over (verdict k) = None \<longrightarrow>
       fallback_execute h env ops fc s nodes q = (state (Suc k), chain_outcome fc q (verdict k))) \<and>
    (nodes \<noteq> [] \<and> (\<forall>j < length nodes. passed_over (verdict j) \<noteq> None) \<longrightarrow>
       fallback_execute h env ops fc s nodes q =
         (state (length nodes), [], Inr (PDict (exhausted q (the (passed_over (verdict (length nodes - 1))))))))"
  using try_nodes_stops [where i = 0 and h = h and attempt = "route_attempt env ops" and q = q and nodes = nodes and s = s and fc = fc]
    try_nodes_exhausts [where i = 0 and h = h and attempt = "route_attempt env ops" and q = q and nodes = nodes and s = s and fc = fc]
  unfolding verdict_def state_def
  by (auto simp: fallback_execute_def)

text \<open>C34: Only bound responses leave the chain: with an envelope that carries a session key, what the chain returns is one
  of its own error bodies, or a response that echoes the key, whose receipt (if any) carries the hash of its result,
  and whose completed trace passes the aggregation validator; an award is scheduled for such a response only.\<close>

theorem cip_response_bound:
  assumes "fallback_execute h env ops fc s nodes q = (s', awards, Inr v)"
    "tc_cip_envelope (ch_call q) = Some e" "sget e ''cip_session_key'' = PStr key" "1 \<le> ch_replicas q"
  shows "(v = PDict (no_candidates q) \<or> (\<exists>why. v = PDict (exhausted q why))) \<and> awards = [] \<or>
    bound_response h key v \<and> awards = schedule_award fc v e"
proof (cases "nodes = []")
  case True
  with assms(1) show ?thesis by (simp add: fallback_execute_def)
next
  case False
  with assms(1) have "try_nodes h (route_attempt env ops) fc q 0 nodes ''no_nodes_available'' s = (s', awards, Inr v)"
    by (simp add: fallback_execute_def)
  from try_nodes_bound [OF this assms(2-4)] show ?thesis by blast
qed

text \<open>Selection filters and never reorders: the selected nodes are a subsequence of the directory's list, each available,
  below the load ceiling and above the reputation threshold, of the demanded quality and price; with a budget, all
  fit it, or the selection is one cheapest candidate, and a nonempty candidate list never becomes empty.\<close>

lemma select_sound:
  assumes "select m nodes requested max_mult min_quality max_credits tokens = Inr out"
  shows "subseq out nodes \<and> (\<forall>n \<in> set out. serviceable m n) \<and>
    (\<forall>b. min_quality = Some b \<longrightarrow> (\<forall>n \<in> set out. \<exists>x. number_field n ''score'' 0 = Inr x \<and> b \<le> x)) \<and>
    (\<forall>b. max_mult = Some b \<longrightarrow> (\<forall>n \<in> set out. \<exists>x. multiplier n = Inr x \<and> x \<le> b)) \<and>
    (\<forall>b. max_credits = Some b \<longrightarrow>
       (\<forall>n \<in> set out. \<exists>x. multiplier n = Inr x \<and> of_int ((tokens + 999) div 1000) * x \<le> b) \<or>
       (\<exists>n cs. out = [n] \<and> select m nodes requested max_mult min_quality None tokens = Inr cs \<and> (\<forall>k \<in> set cs. price n \<le> price k))) \<and>
    (out = [] \<longrightarrow> select m nodes requested max_mult min_quality None tokens = Inr [])"
proof -
  obtain ranked good cands where stages: "rank m nodes requested = Inr ranked" "quality_stage min_quality ranked = Inr good"
      "price_stage max_mult good = Inr cands" "budget_stage max_credits tokens cands = Inr out"
    using assms by (auto simp: select_def result_simps)
  note s = rank_sound [OF stages(1)] quality_stage_sound [OF stages(2)] price_stage_sound [OF stages(3)]
    budget_stage_sound [OF stages(4)]
  have cands: "select m nodes requested max_mult min_quality None tokens = Inr cands"
    by (simp add: select_def stages budget_stage_def)
  have "subseq out nodes" using s by (meson subseq_order.order_trans)
  moreover have "set out \<subseteq> set cands" "set out \<subseteq> set good" "set out \<subseteq> set ranked"
    using s by (meson subseq_subset subsetI)+
  ultimately show ?thesis using s cands by (auto 0 4)
qed

text \<open>Two nodes and a request for the witnesses.\<close>

definition plain_node :: "string \<Rightarrow> pydict \<Rightarrow> node_entry" where
  "plain_node i fs = \<lparr>n_node_id = Some i, n_endpoint = None, n_transport_endpoint = None, n_fields = fs\<rparr>"

definition sample_request :: "pydict option \<Rightarrow> chain_request" where
  "sample_request e = \<lparr>ch_call = \<lparr>tc_task_id = ''1'', tc_intent = ''i'', tc_payload = [], tc_timeout_ms = 1000, tc_trace_id = None,
       tc_cip_envelope = e, tc_source_node_id = None\<rparr>, ch_policy = ''best_of_n'', ch_replicas = 1, ch_quorum = None,
     ch_identity = None, ch_version = ''v''\<rparr>"

definition sample_chain :: fallback_chain where
  "sample_chain = \<lparr>fc_has_replay_cache = True, fc_directory_url = ''d'', fc_node_token = ''t''\<rparr>"

definition sample_env :: guard_env where
  "sample_env = \<lparr>ge_flagged = (\<lambda>_. False), ge_allow_loopback = None, ge_native_tcp = None\<rparr>"

definition sample_router :: task_router where
  "sample_router = \<lparr>tr_token = ''t'', tr_retry = new_retry_manager 3 200, tr_circuit = new_circuit_breaker 5 30\<rparr>"

theorem cip_response_bound_witness:
  "\<exists>s' v. fallback_execute (\<lambda>_. []) sample_env scripted sample_chain
      (sample_router, ([Inr (PDict [(PStr ''trace'', PDict [(PStr ''cip_session_key'', PStr ''k'')])])], 0))
      [(plain_node ''a'' [])\<lparr>n_endpoint := Some ''https://example.org''\<rparr>]
      (sample_request (Some [(PStr ''cip_session_key'', PStr ''k'')])) = (s', [], Inr v) \<and> bound_response (\<lambda>_. []) ''k'' v"
proof -
  let ?e = "[(PStr ''cip_session_key'', PStr ''k'')]"
  let ?w = "([Inr (PDict [(PStr ''trace'', PDict ?e)])], 0) :: script"
  let ?node = "(plain_node ''a'' [])\<lparr>n_endpoint := Some ''https://example.org''\<rparr>"
  have ssrf: "is_ssrf_safe (\<lambda>_. False) None ''https://example.org'' = Inr True" by code_simp
  have up: "[0 ..< 3] = [0, 1, 2 :: nat]" by (simp add: upt_rec)
  obtain s' aw v where run: "fallback_execute (\<lambda>_. []) sample_env scripted sample_chain (sample_router, ?w) [?node]
      (sample_request (Some ?e)) = (s', aw, Inr v)"
      and aw: "aw = []" and v: "\<exists>d. v = PDict (with_entry [(PStr ''trace'', PDict ?e)] ''trace'' d)"
    by (simp add: fallback_execute_def try_candidate_def candidate_payload_def route_attempt_def route_def plain_node_def
        sample_request_def sample_env_def sample_router_def ssrf breaker_check_def breaker_allow_def new_circuit_breaker_def
        retry_run_def new_retry_manager_def up submit_task_def scripted_def Let_def experimental_native_enabled_def
        new_node_client_def accept_response_def session_key_check_def verify_receipt_hash_def schedule_award_def sample_chain_def)
  have "sget (exhausted (sample_request (Some ?e)) why) ''status'' = PStr ''error''"
    "sget (no_candidates (sample_request (Some ?e))) ''status'' = PStr ''error''" for why
    by (simp_all add: exhausted_def no_candidates_def error_body_def)
  moreover have "\<exists>d. v = PDict d \<and> sget d ''status'' = PNone" using v by auto
  ultimately have "v \<noteq> PDict (no_candidates (sample_request (Some ?e))) \<and> (\<forall>why. v \<noteq> PDict (exhausted (sample_request (Some ?e)) why))"
    by auto
  with cip_response_bound [OF run, of ?e "''k''"] have "bound_response (\<lambda>_. []) ''k'' v" by (simp add: sample_request_def)
  with run aw show ?thesis by blast
qed

end
