(* ===== verification/Admission.thy ===== *)
theory Admission
  imports Py_Value
begin

text \<open>
  Provider-local admission of dispatch tickets (\<open>dispatch_admission.py\<close>): the durable store that redeems each ticket
  identifier once. A database is the list of its rows; an operation runs in one immediate transaction, and \<open>fault\<close>
  says whether SQLite raises in it (connection included), in which case nothing is written. The digest is a
  parameter. Opening the file and creating the schema are not modelled.
\<close>

definition ADMISSION_TERMINAL :: "string list" where
  "ADMISSION_TERMINAL = [''completed'', ''failed'', ''cancelled'', ''expired'', ''rejected'']"

definition jti_char :: "char \<Rightarrow> bool" where
  "jti_char c \<longleftrightarrow> is_ascii_alnum c \<or> c \<in> set ''._:-''"

definition valid_jti :: "string \<Rightarrow> bool" where
  "valid_jti s \<longleftrightarrow> 16 \<le> length s \<and> length s \<le> 256 \<and> list_all jti_char s"

record admission_claim =
  ac_jti :: string
  ac_provider_id :: string
  ac_intent :: string
  ac_not_before :: int
  ac_expires_at :: int

record admission_decision =
  ad_code :: string
  ad_accepted :: bool
  ad_state :: "string option"

definition refusal :: "string \<Rightarrow> admission_decision" where
  "refusal code = \<lparr>ad_code = code, ad_accepted = False, ad_state = None\<rparr>"

record admission_record =
  ar_jti :: string
  ar_provider_digest :: string
  ar_intent_digest :: string
  ar_state :: string
  ar_expires_at :: int
  ar_consumed_at :: int
  ar_updated_at :: int

type_synonym admission_db = "admission_record list"

datatype admission_error = StorageError | AdmissionValueError string | AdmissionKeyError string

definition select_jti :: "admission_db \<Rightarrow> string \<Rightarrow> admission_record option" where
  "select_jti db jti = List.find (\<lambda>r. ar_jti r = jti) db"

text \<open>The checks of \<open>consume\<close> that need no store.\<close>

definition claim_refusal :: "admission_claim \<Rightarrow> string \<Rightarrow> string \<Rightarrow> int \<Rightarrow> int \<Rightarrow> string option" where
  "claim_refusal claim expected_provider_id expected_intent now clock_skew_s =
     (let skew = max 0 clock_skew_s in
      if \<not> valid_jti (ac_jti claim) then Some ''reject_invalid_jti''
      else if ac_provider_id claim \<noteq> expected_provider_id then Some ''reject_provider_binding''
      else if ac_intent claim \<noteq> expected_intent then Some ''reject_intent_binding''
      else if now + skew < ac_not_before claim then Some ''reject_not_yet_valid''
      else if now - skew \<ge> ac_expires_at claim then Some ''reject_expired''
      else None)"

definition accepted_row :: "(string \<Rightarrow> string) \<Rightarrow> admission_claim \<Rightarrow> int \<Rightarrow> admission_record" where
  "accepted_row digest claim now =
     \<lparr>ar_jti = ac_jti claim, ar_provider_digest = digest (ac_provider_id claim), ar_intent_digest = digest (ac_intent claim),
      ar_state = ''accepted'', ar_expires_at = ac_expires_at claim, ar_consumed_at = now, ar_updated_at = now\<rparr>"

definition consume ::
  "(string \<Rightarrow> string) \<Rightarrow> bool \<Rightarrow> admission_db \<Rightarrow> admission_claim \<Rightarrow> string \<Rightarrow> string \<Rightarrow> int \<Rightarrow> int
    \<Rightarrow> admission_db \<times> (admission_error + admission_decision)" where
  "consume digest fault db claim expected_provider_id expected_intent now clock_skew_s =
     (case claim_refusal claim expected_provider_id expected_intent now clock_skew_s of
        Some code \<Rightarrow> (db, Inr (refusal code))
      | None \<Rightarrow>
          if fault then (db, Inl StorageError)
          else case select_jti db (ac_jti claim) of
              Some r \<Rightarrow>
                (db, Inr \<lparr>ad_code = (if ar_state r \<in> set ADMISSION_TERMINAL then ''reject_terminal'' else ''reject_replay''),
                          ad_accepted = False, ad_state = Some (ar_state r)\<rparr>)
            | None \<Rightarrow>
                (db @ [accepted_row digest claim now],
                 Inr \<lparr>ad_code = ''accepted'', ad_accepted = True, ad_state = Some ''accepted''\<rparr>))"

definition evaluate_dispatch_admission ::
  "(string \<Rightarrow> string) \<Rightarrow> bool \<Rightarrow> admission_db \<Rightarrow> admission_claim \<Rightarrow> string \<Rightarrow> string \<Rightarrow> int \<Rightarrow> bool \<Rightarrow> int
    \<Rightarrow> admission_db \<times> admission_decision" where
  "evaluate_dispatch_admission digest fault db claim expected_provider_id expected_intent now trust_verified clock_skew_s =
     (if \<not> trust_verified then (db, refusal ''reject_issuer_key'')
      else case consume digest fault db claim expected_provider_id expected_intent now clock_skew_s of
          (db', Inl _) \<Rightarrow> (db', refusal ''reject_store_unavailable'')
        | (db', Inr d) \<Rightarrow> (db', d))"

definition update_state :: "admission_db \<Rightarrow> string \<Rightarrow> string \<Rightarrow> int \<Rightarrow> admission_db" where
  "update_state db jti state now =
     map (\<lambda>r. if ar_jti r = jti then r\<lparr>ar_state := state, ar_updated_at := now\<rparr> else r) db"

definition admission_transition ::
  "bool \<Rightarrow> admission_db \<Rightarrow> string \<Rightarrow> string \<Rightarrow> int \<Rightarrow> admission_db \<times> (admission_error + admission_record)" where
  "admission_transition fault db jti state now =
     (if state \<notin> set ADMISSION_TERMINAL then (db, Inl (AdmissionValueError ''unsupported terminal admission state''))
      else if fault then (db, Inl StorageError)
      else case select_jti db jti of
          None \<Rightarrow> (db, Inl (AdmissionKeyError jti))
        | Some existing \<Rightarrow>
            if ar_state existing \<in> set ADMISSION_TERMINAL \<and> ar_state existing \<noteq> state
            then (db, Inl (AdmissionValueError ''admission already terminal''))
            else let db' = (if ar_state existing \<noteq> state then update_state db jti state now else db) in
              (db', case select_jti db' jti of None \<Rightarrow> Inl (AdmissionKeyError jti) | Some r \<Rightarrow> Inr r))"

text \<open>\<open>DELETE ... WHERE jti IN (SELECT ... WHERE expires_at < cutoff ORDER BY expires_at LIMIT n)\<close>; rows of equal expiry
  are taken in row order, as the expiry index lists them. The count is the cursor's.\<close>

definition cleanup :: "bool \<Rightarrow> admission_db \<Rightarrow> int \<Rightarrow> int \<Rightarrow> int \<Rightarrow> admission_db \<times> (admission_error + nat)" where
  "cleanup fault db now retention_s bound =
     (if fault then (db, Inl StorageError)
      else let cutoff = now - max 0 retention_s;
               doomed = take (nat (max 1 bound)) (sort_key ar_expires_at (filter (\<lambda>r. ar_expires_at r < cutoff) db));
               gone = (\<lambda>r. ar_jti r \<in> set (map ar_jti doomed))
           in (filter (\<lambda>r. \<not> gone r) db, Inr (length (filter gone db))))"

definition admission_lookup :: "bool \<Rightarrow> admission_db \<Rightarrow> string \<Rightarrow> admission_error + admission_record option" where
  "admission_lookup fault db jti = (if fault then Inl StorageError else Inr (select_jti db jti))"

subsection \<open>Histories\<close>

text \<open>What happens to a store over time, and the identifiers it admits.\<close>

datatype admission_op =
    Redeem bool admission_claim string string int bool int
  | Settle bool string string int
  | Clean bool int int int

fun op_time :: "admission_op \<Rightarrow> int" where
  "op_time (Redeem _ _ _ _ now _ _) = now"
| "op_time (Settle _ _ _ now) = now"
| "op_time (Clean _ now _ _) = now"

fun admission_step :: "(string \<Rightarrow> string) \<Rightarrow> admission_db \<Rightarrow> admission_op \<Rightarrow> admission_db \<times> string option" where
  "admission_step digest db (Redeem fault claim p i now trust skew) =
     (case evaluate_dispatch_admission digest fault db claim p i now trust skew of
        (db', d) \<Rightarrow> (db', if ad_accepted d then Some (ac_jti claim) else None))"
| "admission_step digest db (Settle fault jti state now) = (fst (admission_transition fault db jti state now), None)"
| "admission_step digest db (Clean fault now retention bound) = (fst (cleanup fault db now retention bound), None)"

fun admitted :: "(string \<Rightarrow> string) \<Rightarrow> admission_db \<Rightarrow> admission_op list \<Rightarrow> string list" where
  "admitted digest db [] = []"
| "admitted digest db (x # xs) =
     (case admission_step digest db x of
        (db', Some jti) \<Rightarrow> jti # admitted digest db' xs
      | (db', None) \<Rightarrow> admitted digest db' xs)"

text \<open>Deployment rule: clock skew is at most \<open>R\<close>, and cleanup retains expired rows at least \<open>R\<close>. A ticket identifier
  has one expiry.\<close>

fun op_within :: "int \<Rightarrow> (string \<Rightarrow> int) \<Rightarrow> admission_op \<Rightarrow> bool" where
  "op_within R expiry (Redeem _ claim _ _ _ _ skew) \<longleftrightarrow> max 0 skew \<le> R \<and> ac_expires_at claim = expiry (ac_jti claim)"
| "op_within R expiry (Settle _ _ _ _) \<longleftrightarrow> True"
| "op_within R expiry (Clean _ _ retention _) \<longleftrightarrow> R \<le> max 0 retention"

subsection \<open>Facts\<close>

lemma select_jti_None: "select_jti db jti = None \<longleftrightarrow> (\<forall>r \<in> set db. ar_jti r \<noteq> jti)"
  by (auto simp: select_jti_def find_None_iff)

lemma accepts_iff:
  "ad_accepted (snd (evaluate_dispatch_admission digest fault db claim p i now trust skew)) \<longleftrightarrow>
     trust \<and> \<not> fault \<and> claim_refusal claim p i now skew = None \<and> select_jti db (ac_jti claim) = None"
  by (auto simp: evaluate_dispatch_admission_def consume_def refusal_def split: option.splits)

lemma evaluate_db:
  "fst (evaluate_dispatch_admission digest fault db claim p i now trust skew) =
     (if ad_accepted (snd (evaluate_dispatch_admission digest fault db claim p i now trust skew))
      then db @ [accepted_row digest claim now] else db)"
  by (auto simp: evaluate_dispatch_admission_def consume_def refusal_def split: option.splits)

text \<open>Rows carry the expiry of their identifier, and an identifier is remembered at time \<open>t\<close>: its row is there, or its
  expiry lies more than \<open>R\<close> back.\<close>

definition consistent :: "(string \<Rightarrow> int) \<Rightarrow> admission_db \<Rightarrow> bool" where
  "consistent expiry db \<longleftrightarrow> (\<forall>r \<in> set db. ar_expires_at r = expiry (ar_jti r))"

definition remembered :: "int \<Rightarrow> (string \<Rightarrow> int) \<Rightarrow> string \<Rightarrow> int \<Rightarrow> admission_db \<Rightarrow> bool" where
  "remembered R expiry jti t db \<longleftrightarrow> jti \<in> ar_jti ` set db \<or> expiry jti < t - R"

lemma transition_keeps:
  "map ar_jti (fst (admission_transition fault db jti state now)) = map ar_jti db"
  "map ar_expires_at (fst (admission_transition fault db jti state now)) = map ar_expires_at db"
  by (auto simp: admission_transition_def update_state_def Let_def split: option.splits)

lemma consistent_map:
  "consistent expiry db \<longleftrightarrow> map ar_expires_at db = map expiry (map ar_jti db)"
  by (simp add: consistent_def)

lemma consistent_step:
  assumes "consistent expiry db" "op_within R expiry x"
  shows "consistent expiry (fst (admission_step digest db x))"
proof (cases x)
  case (Redeem fault claim p i now trust skew)
  then have "consistent expiry (fst (evaluate_dispatch_admission digest fault db claim p i now trust skew))"
    by (subst evaluate_db) (use assms in \<open>auto simp: consistent_def accepted_row_def\<close>)
  with Redeem show ?thesis by (auto split: prod.splits)
next
  case (Settle fault jti state now)
  with assms(1) show ?thesis by (simp add: consistent_map transition_keeps)
next
  case (Clean fault now retention bound)
  with assms(1) show ?thesis by (auto simp: consistent_def cleanup_def Let_def)
qed

lemma remembered_step:
  assumes "remembered R expiry jti t db" "consistent expiry db" "t \<le> op_time x" "op_within R expiry x"
  shows "remembered R expiry jti (op_time x) (fst (admission_step digest db x))"
proof (cases "jti \<in> ar_jti ` set db")
  case False
  with assms show ?thesis by (simp add: remembered_def)
next
  case here: True
  show ?thesis
  proof (cases x)
    case (Redeem fault claim p i now trust skew)
    have "ar_jti ` set db \<subseteq> ar_jti ` set (fst (evaluate_dispatch_admission digest fault db claim p i now trust skew))"
      by (subst evaluate_db) auto
    with Redeem here show ?thesis by (auto simp: remembered_def split_beta)
  next
    case (Settle fault jti' state now)
    have "ar_jti ` set (fst (admission_transition fault db jti' state now)) = ar_jti ` set db"
      by (metis transition_keeps(1) list.set_map)
    with Settle here show ?thesis by (simp add: remembered_def)
  next
    case (Clean fault now retention bound)
    have "expiry jti < now - R" if "jti \<notin> ar_jti ` set (fst (cleanup fault db now retention bound))"
    proof -
      let ?old = "filter (\<lambda>r. ar_expires_at r < now - max 0 retention) db"
      from that here have "jti \<in> ar_jti ` set (take (nat (max 1 bound)) (sort_key ar_expires_at ?old))"
        by (auto simp: cleanup_def Let_def split: if_splits)
      then have "jti \<in> ar_jti ` set ?old" by (auto dest!: in_set_takeD)
      with assms(2,4) Clean show ?thesis by (auto simp: consistent_def)
    qed
    with Clean show ?thesis by (auto simp: remembered_def)
  qed
qed

lemma admission_step_accepts:
  assumes "admission_step digest db x = (db', Some jti)"
  shows "jti \<in> ar_jti ` set db'"
    and "op_within R expiry x \<Longrightarrow> consistent expiry db \<Longrightarrow> t \<le> op_time x \<Longrightarrow> \<not> remembered R expiry jti t db"
proof -
  obtain fault claim p i now trust skew where x: "x = Redeem fault claim p i now trust skew"
    using assms by (cases x) auto
  have acc: "ad_accepted (snd (evaluate_dispatch_admission digest fault db claim p i now trust skew))" and j: "jti = ac_jti claim"
    using assms x by (auto split: prod.splits if_splits)
  then show "jti \<in> ar_jti ` set db'"
    using assms x evaluate_db [of digest fault db claim p i now trust skew]
    by (auto simp: accepted_row_def image_iff split: prod.splits)
  assume "op_within R expiry x" "consistent expiry db" "t \<le> op_time x"
  moreover have "now - max 0 skew < ac_expires_at claim" "jti \<notin> ar_jti ` set db"
    using acc j by (auto simp: accepts_iff claim_refusal_def select_jti_None Let_def split: if_splits)
  ultimately show "\<not> remembered R expiry jti t db" using x j by (auto simp: remembered_def)
qed

lemma remembered_not_admitted:
  assumes "remembered R expiry jti t db" "consistent expiry db" "sorted (t # map op_time xs)" "list_all (op_within R expiry) xs"
  shows "jti \<notin> set (admitted digest db xs)"
  using assms
proof (induction xs arbitrary: t db)
  case (Cons x xs)
  let ?db = "fst (admission_step digest db x)"
  have t: "t \<le> op_time x" "op_within R expiry x" using Cons.prems by auto
  have rest: "jti \<notin> set (admitted digest ?db xs)"
    using Cons.prems t by (intro Cons.IH [of "op_time x"] remembered_step consistent_step) auto
  have "snd (admission_step digest db x) \<noteq> Some jti"
    using admission_step_accepts(2) [of digest db x ?db jti R expiry t] Cons.prems(1,2) t by (metis prod.collapse)
  with rest show ?case by (cases "admission_step digest db x") (auto split: option.splits)
qed simp

lemma admitted_distinct:
  assumes "consistent expiry db" "sorted (map op_time xs)" "list_all (op_within R expiry) xs"
  shows "distinct (admitted digest db xs)"
  using assms
proof (induction xs arbitrary: db)
  case (Cons x xs)
  let ?db = "fst (admission_step digest db x)"
  have c: "consistent expiry ?db" using Cons.prems by (intro consistent_step) auto
  have "distinct (admitted digest ?db xs)" using Cons c by auto
  moreover have "jti \<notin> set (admitted digest ?db xs)" if "snd (admission_step digest db x) = Some jti" for jti
  proof -
    have "jti \<in> ar_jti ` set ?db" using admission_step_accepts(1) that by (metis prod.collapse)
    then have "remembered R expiry jti (op_time x) ?db" by (simp add: remembered_def)
    with c Cons.prems show ?thesis by (intro remembered_not_admitted) auto
  qed
  ultimately show ?case by (cases "admission_step digest db x") (auto split: option.splits)
qed simp

subsection \<open>Properties\<close>

text \<open>C37: A dispatch ticket is redeemed once: over any history of redemptions, settlements and cleanups of a store that starts
  empty, storage faults included, on a clock that does not go back, no ticket identifier is admitted twice, provided
  the clock skew allowed never exceeds the time for which expired rows are retained and an identifier has one
  expiry.\<close>

theorem ticket_single_use:
  assumes "sorted (map op_time xs)" "\<forall>x \<in> set xs. op_within R expiry x"
  shows "distinct (admitted digest [] xs)"
  using assms by (intro admitted_distinct) (auto simp: consistent_def list_all_iff)

definition sample_claim :: admission_claim where
  "sample_claim = \<lparr>ac_jti = ''ticket-0123456789'', ac_provider_id = ''p'', ac_intent = ''i'', ac_not_before = 0, ac_expires_at = 100\<rparr>"

theorem ticket_single_use_witness:
  "admitted (\<lambda>s. s) [] [Redeem False sample_claim ''p'' ''i'' 10 True 5, Clean False 20 5 1, Redeem False sample_claim ''p'' ''i'' 30 True 5] =
     [''ticket-0123456789''] \<and> distinct [''ticket-0123456789'']"
proof -
  let ?xs = "[Redeem False sample_claim ''p'' ''i'' 10 True 5, Clean False 20 5 1, Redeem False sample_claim ''p'' ''i'' 30 True 5]"
  have "admitted (\<lambda>s. s) [] ?xs = [''ticket-0123456789'']"
    by (simp add: sample_claim_def evaluate_dispatch_admission_def consume_def claim_refusal_def select_jti_def accepted_row_def
        cleanup_def refusal_def valid_jti_def jti_char_def is_ascii_alnum_def ADMISSION_TERMINAL_def)
  with ticket_single_use [of ?xs 5 "\<lambda>_. 100" "\<lambda>s. s"] show ?thesis by (simp add: sample_claim_def)
qed


end
