(* ===== verification/Http_Body.thy ===== *)
theory Http_Body
  imports Net_Endpoint
begin

text \<open>
  The resource boundary of \<open>POST /v1/task\<close> (\<open>_http_resource.py\<close>): bounded JSON bodies, header validation, and the reader
  of a request body, by declared length or chunked. A byte is a \<^typ>\<open>char\<close> (both have 256 values); a stream is the
  bytes still to come before end of file, and a read returns what is left of it. Parameter: the JSON encoder
  (\<open>json.dumps(...).encode("utf-8")\<close>). Message texts of errors are not modelled.
\<close>

type_synonym octets = "char list"

definition MAX_HTTP_TASK_BODY_BYTES :: nat where "MAX_HTTP_TASK_BODY_BYTES = 1048576"

record body_error =
  be_status :: int
  be_code :: string
  be_close_connection :: bool

text \<open>What a call raises: \<open>HttpTaskBodyError\<close>, or the \<open>ValueError\<close> of \<open>int\<close> on more than 4300 decimal digits.\<close>

datatype body_fault = BodyError body_error | DigitLimit

definition body_refusal :: "int \<Rightarrow> string \<Rightarrow> body_fault" where
  "body_refusal status code = BodyError \<lparr>be_status = status, be_code = code, be_close_connection = True\<rparr>"

definition invalid_body :: body_fault where
  "invalid_body = body_refusal 400 ''invalid_http_body''"

subsection \<open>Bounded JSON\<close>

definition bounded_request_json :: "(pyval \<Rightarrow> octets) \<Rightarrow> pyval \<Rightarrow> body_fault + octets" where
  "bounded_request_json encode value =
     (let encoded = encode value
      in if length encoded > MAX_HTTP_TASK_BODY_BYTES
         then Inl (BodyError \<lparr>be_status = 413, be_code = ''request_too_large'', be_close_connection = False\<rparr>)
         else Inr encoded)"

definition too_large_reply :: "string \<Rightarrow> pyval" where
  "too_large_reply message =
     PDict [(PStr ''error'', PDict [(PStr ''code'', PStr ''response_too_large''), (PStr ''message'', PStr message)])]"

definition bounded_response_json :: "(pyval \<Rightarrow> octets) \<Rightarrow> pyval \<Rightarrow> int \<times> octets" where
  "bounded_response_json encode value =
     (let encoded = encode value
      in if length encoded \<le> MAX_HTTP_TASK_BODY_BYTES then (200, encoded)
         else (500, encode (too_large_reply ''encoded task response exceeds 1048576 bytes'')))"

subsection \<open>Headers\<close>

text \<open>The server's message object lists the values of a repeated header; the HTTP client's joins them with a comma.\<close>

datatype headers = Message "(string \<times> string) list" | Joined "(string \<times> string) list"

definition header_all :: "(string \<times> string) list \<Rightarrow> string \<Rightarrow> string list" where
  "header_all hs name = map snd (filter (\<lambda>(k, _). lower k = lower name) hs)"

fun comma_join :: "string list \<Rightarrow> string" where
  "comma_join [] = []"
| "comma_join [x] = x"
| "comma_join (x # xs) = x @ '', '' @ comma_join xs"

definition header_values :: "headers \<Rightarrow> string \<Rightarrow> string list" where
  "header_values headers name =
     (let raw = (case headers of
          Message hs \<Rightarrow> header_all hs name
        | Joined hs \<Rightarrow> (if header_all hs name = [] then [] else [comma_join (header_all hs name)]))
      in concat (map (\<lambda>item. map strip (split_on (CHR '','') item)) raw))"

definition validate_content_encoding :: "headers \<Rightarrow> body_fault + unit" where
  "validate_content_encoding headers =
     (let encodings = map lower (header_values headers ''Content-Encoding'')
      in if encodings \<noteq> [] \<and> list_ex (\<lambda>v. v \<noteq> ''identity'') encodings
         then Inl (body_refusal 415 ''unsupported_content_encoding'') else Inr ())"

definition content_length :: "headers \<Rightarrow> body_fault + nat option" where
  "content_length headers =
     (let values = header_values headers ''Content-Length''
      in if values = [] then Inr None
         else if list_ex (\<lambda>v. v = [] \<or> \<not> list_all is_digit v) values then Inl invalid_body
         else if list_ex (\<lambda>v. length v > 4300) values then Inl DigitLimit
         else let parsed = map number_of values
           in if length (remdups parsed) \<noteq> 1 then Inl invalid_body else Inr (Some (hd parsed)))"

subsection \<open>Reading\<close>

definition read_exact :: "octets \<Rightarrow> nat \<Rightarrow> body_fault + octets \<times> octets" where
  "read_exact stream n =
     (let data = take n stream in if length data \<noteq> n then Inl invalid_body else Inr (data, drop n stream))"

text \<open>\<open>stream.readline(bound)\<close>: up to and including the first newline, at most \<open>bound\<close> bytes.\<close>

definition newline :: char where "newline = char_of (10 :: nat)"
definition CRLF :: octets where "CRLF = [char_of (13 :: nat), char_of (10 :: nat)]"

fun line_length :: "octets \<Rightarrow> nat" where
  "line_length [] = 0"
| "line_length (c # s) = (if c = newline then 1 else Suc (line_length s))"

definition readline :: "octets \<Rightarrow> nat \<Rightarrow> octets \<times> octets" where
  "readline stream bound = (let k = min bound (line_length stream) in (take k stream, drop k stream))"

text \<open>\<open>bytes.strip()\<close> and \<open>int(text, 16)\<close>: surrounding blanks, one sign, an optional \<open>0x\<close> (which an underscore may
  follow), and hexadecimal digits in which single underscores may separate digits.\<close>

definition is_ascii_space :: "char \<Rightarrow> bool" where
  "is_ascii_space c = (let n = of_char c :: nat in (9 \<le> n \<and> n \<le> 13) \<or> n = 32)"

definition ascii_strip :: "octets \<Rightarrow> octets" where
  "ascii_strip s = rev (dropWhile is_ascii_space (rev (dropWhile is_ascii_space s)))"

definition hex_groups_ok :: "octets \<Rightarrow> bool" where
  "hex_groups_ok s \<longleftrightarrow> list_all (\<lambda>g. g \<noteq> [] \<and> list_all is_hex_digit g) (split_on (CHR ''_'') s)"

definition int_base16 :: "octets \<Rightarrow> int option" where
  "int_base16 text =
     (let s = ascii_strip text;
          neg = (s \<noteq> [] \<and> hd s = CHR ''-'');
          body = (if s \<noteq> [] \<and> hd s \<in> {CHR ''-'', CHR ''+''} then tl s else s);
          prefixed = (take 2 body \<in> {''0x'', ''0X''});
          rest = (if prefixed then (if take 1 (drop 2 body) = ''_'' then drop 3 body else drop 2 body) else body)
      in if hex_groups_ok rest
         then let n = int (hex_number (filter (\<lambda>c. c \<noteq> CHR ''_'') rest)) in Some (if neg then - n else n)
         else None)"

lemma readline_append: "readline stream bound = (line, rest) \<Longrightarrow> stream = line @ rest"
  by (auto simp: readline_def Let_def)

lemma readline_shorter: "(line, rest) = readline stream bound \<Longrightarrow> ends_with line CRLF \<Longrightarrow> length rest < length stream"
  using readline_append [of stream bound line rest] by (cases line) (auto simp: ends_with_def starts_with_def CRLF_def)

text \<open>The trailer after the last chunk.\<close>

function (sequential) read_trailer :: "octets \<Rightarrow> nat \<Rightarrow> body_fault + octets" where
  "read_trailer stream trailer_bytes =
     (case readline stream 8194 of
        (trailer, rest) \<Rightarrow>
          let total = trailer_bytes + length trailer
          in if trailer = CRLF then Inr rest
             else if \<not> ends_with trailer CRLF \<or> total > 8192 then Inl invalid_body
             else read_trailer rest total)"
  by pat_completeness auto
termination
  by (relation "measure (\<lambda>(s, _). length s)")
    (auto dest: readline_shorter)

function (sequential) read_chunked :: "octets \<Rightarrow> octets \<Rightarrow> body_fault + octets \<times> octets" where
  "read_chunked stream body =
     (case readline stream 8194 of
        (line, rest) \<Rightarrow>
          if \<not> ends_with line CRLF \<or> length line > 8193 then Inl invalid_body
          else (case int_base16 (ascii_strip (before (CHR '';'') (take (length line - 2) line))) of
              None \<Rightarrow> Inl invalid_body
            | Some sz \<Rightarrow>
                if sz < 0 then Inl invalid_body
                else if sz = 0
                then (case read_trailer rest 0 of Inl e \<Rightarrow> Inl e | Inr left_over \<Rightarrow> Inr (body, left_over))
                else if length body + nat sz > MAX_HTTP_TASK_BODY_BYTES then Inl (body_refusal 413 ''request_too_large'')
                else (case read_exact rest (nat sz) of
                        Inl e \<Rightarrow> Inl e
                      | Inr (data, rest') \<Rightarrow>
                          (case read_exact rest' 2 of
                             Inl e \<Rightarrow> Inl e
                           | Inr (term, rest'') \<Rightarrow>
                               if term \<noteq> CRLF then Inl invalid_body else read_chunked rest'' (body @ data)))))"
  by pat_completeness auto
termination
  by (relation "measure (\<lambda>(s, _). length s)")
    (auto dest!: readline_shorter simp: read_exact_def Let_def split: if_splits)

declare read_trailer.simps [simp del] read_chunked.simps [simp del]

definition read_task_request_body :: "headers \<Rightarrow> octets \<Rightarrow> body_fault + octets \<times> octets" where
  "read_task_request_body headers stream =
     (case validate_content_encoding headers of
        Inl e \<Rightarrow> Inl e
      | Inr _ \<Rightarrow>
          (case content_length headers of
             Inl e \<Rightarrow> Inl e
           | Inr cl \<Rightarrow>
               let transfer = map lower (header_values headers ''Transfer-Encoding'')
               in if transfer \<noteq> [] \<and> cl \<noteq> None then Inl invalid_body
                  else if transfer \<noteq> []
                  then (if transfer \<noteq> [''chunked''] then Inl invalid_body else read_chunked stream [])
                  else (case cl of
                          None \<Rightarrow> Inr ([], stream)
                        | Some n \<Rightarrow>
                            if n > MAX_HTTP_TASK_BODY_BYTES then Inl (body_refusal 413 ''request_too_large'')
                            else read_exact stream n)))"

subsection \<open>Responses\<close>

definition validate_response_headers :: "headers \<Rightarrow> body_fault + unit" where
  "validate_response_headers headers =
     (case validate_content_encoding headers of
        Inl e \<Rightarrow> Inl e
      | Inr _ \<Rightarrow>
          (case content_length headers of
             Inl e \<Rightarrow> Inl e
           | Inr cl \<Rightarrow>
               (case cl of
                  Some n \<Rightarrow> if n > MAX_HTTP_TASK_BODY_BYTES then Inl (body_refusal 500 ''response_too_large'') else Inr ()
                | None \<Rightarrow> Inr ())))"

definition append_response_chunk :: "octets \<Rightarrow> octets \<Rightarrow> body_fault + octets" where
  "append_response_chunk buffer chunk =
     (if length buffer + length chunk > MAX_HTTP_TASK_BODY_BYTES then Inl (body_refusal 500 ''response_too_large'')
      else Inr (buffer @ chunk))"

subsection \<open>Facts: numbers and lines\<close>

lemma split_on_none: "c \<notin> set s \<Longrightarrow> split_on c s = [s]"
  by (induction s) auto

lemma dropWhile_none: "list_all (\<lambda>c. \<not> P c) s \<Longrightarrow> dropWhile P s = s"
  by (cases s) auto

lemma ascii_strip_none: "list_all (\<lambda>c. \<not> is_ascii_space c) s \<Longrightarrow> ascii_strip s = s"
  by (simp add: ascii_strip_def dropWhile_none)

lemma before_none: "c \<notin> set s \<Longrightarrow> before c s = s"
  by (induction s) (auto simp: before_def)

text \<open>The hexadecimal text of a number.\<close>

definition hex_char :: "nat \<Rightarrow> char" where
  "hex_char d = char_of (if d < 10 then 48 + d else 87 + d)"

fun hex_text :: "nat \<Rightarrow> octets" where
  "hex_text n = (if n < 16 then [hex_char n] else hex_text (n div 16) @ [hex_char (n mod 16)])"

declare hex_text.simps [simp del]

lemma of_hex_char: "d < 16 \<Longrightarrow> of_char (hex_char d) = (if d < 10 then 48 + d else 87 + d)"
  by (simp add: hex_char_def)

lemma hex_char_value: "d < 16 \<Longrightarrow> is_hex_digit (hex_char d) \<and> hex_digit (hex_char d) = d"
  by (simp add: is_hex_digit_def hex_digit_def Let_def of_hex_char)

lemma hex_text_digits: "list_all is_hex_digit (hex_text n)" and hex_text_not_empty: "hex_text n \<noteq> []"
  by (induction n rule: hex_text.induct; subst hex_text.simps; simp add: hex_char_value)+

lemma hex_number_snoc: "hex_number (s @ [c]) = 16 * hex_number s + hex_digit c"
  by (simp add: hex_number_def)

lemma hex_number_text: "hex_number (hex_text n) = n"
proof (induction n rule: hex_text.induct)
  case (1 n)
  show ?case
  proof (cases "n < 16")
    case True
    then show ?thesis by (subst hex_text.simps) (simp add: hex_number_def hex_char_value)
  next
    case False
    with 1 have "hex_number (hex_text (n div 16)) = n div 16" by simp
    with False show ?thesis by (subst hex_text.simps) (simp add: hex_number_snoc hex_char_value)
  qed
qed

lemma hex_text_length: "n < 16 ^ Suc k \<Longrightarrow> length (hex_text n) \<le> Suc k"
proof (induction k arbitrary: n)
  case 0
  then show ?case by (subst hex_text.simps) simp
next
  case (Suc k)
  then have "n div 16 < 16 ^ Suc k" by (simp add: less_mult_imp_div_less mult.commute)
  then have "length (hex_text (n div 16)) \<le> Suc k" by (rule Suc.IH)
  then show ?case by (subst hex_text.simps) simp
qed

lemma hex_digit_char: "is_hex_digit c \<Longrightarrow> \<not> is_ascii_space c \<and> c \<notin> {CHR ''_'', CHR ''-'', CHR ''+'', CHR ''x'', CHR ''X'', CHR '';'', newline}"
  by (auto simp: is_hex_digit_def is_ascii_space_def newline_def Let_def)

lemma hex_text_clean:
  "list_all (\<lambda>c. \<not> is_ascii_space c \<and> c \<notin> {CHR ''_'', CHR ''-'', CHR ''+'', CHR ''x'', CHR ''X'', CHR '';'', newline}) (hex_text n)"
  using hex_text_digits [of n] by (auto simp: list_all_iff dest: hex_digit_char)

lemma int_base16_text: "int_base16 (hex_text n) = Some (int n)"
proof -
  let ?s = "hex_text n"
  have strip: "ascii_strip ?s = ?s"
    using hex_text_clean [of n] by (intro ascii_strip_none) (auto simp: list_all_iff)
  have ne: "?s \<noteq> []" by (rule hex_text_not_empty)
  then have hd: "hd ?s \<notin> {CHR ''-'', CHR ''+''}" using hex_text_clean [of n] by (auto simp: list_all_iff)
  have "take 2 ?s \<notin> {''0x'', ''0X''}"
  proof
    assume "take 2 ?s \<in> {''0x'', ''0X''}"
    then have "CHR ''x'' \<in> set ?s \<or> CHR ''X'' \<in> set ?s" by (metis in_set_takeD insertE list.set_intros(1,2) singletonD)
    with hex_text_clean [of n] show False by (auto simp: list_all_iff)
  qed
  moreover have under: "CHR ''_'' \<notin> set ?s" using hex_text_clean [of n] by (auto simp: list_all_iff)
  moreover have "hex_groups_ok ?s"
    using under ne hex_text_digits [of n] by (simp add: hex_groups_ok_def split_on_none)
  moreover have "filter (\<lambda>c. c \<noteq> CHR ''_'') ?s = ?s" using under by (intro filter_True) auto
  ultimately show ?thesis using strip ne hd by (simp add: int_base16_def Let_def hex_number_text)
qed

lemma line_length_line: "newline \<notin> set s \<Longrightarrow> line_length (s @ CRLF @ r) = length s + 2"
  by (induction s) (auto simp: CRLF_def newline_def)

lemma readline_line:
  assumes "newline \<notin> set s" "length s + 2 \<le> bound"
  shows "readline (s @ CRLF @ r) bound = (s @ CRLF, r)"
proof -
  have "min bound (line_length (s @ CRLF @ r)) = length s + 2" using assms by (simp add: line_length_line)
  moreover have "take (length s + 2) (s @ CRLF @ r) = s @ CRLF" "drop (length s + 2) (s @ CRLF @ r) = r"
    by (simp_all add: CRLF_def)
  ultimately show ?thesis by (simp only: readline_def Let_def)
qed

lemma ends_with_CRLF [simp]: "ends_with (s @ CRLF) CRLF" "ends_with CRLF CRLF" "length CRLF = 2"
  by (simp_all add: ends_with_def starts_with_def CRLF_def)

subsection \<open>Facts: the chunked reader\<close>

text \<open>A chunked body as a sender writes it.\<close>

definition chunk_text :: "octets \<Rightarrow> octets" where
  "chunk_text data = hex_text (length data) @ CRLF @ data @ CRLF"

definition chunked_text :: "octets list \<Rightarrow> octets" where
  "chunked_text chunks = concat (map chunk_text chunks) @ ''0'' @ CRLF @ CRLF"

lemma read_trailer_end: "read_trailer (CRLF @ rest) k = Inr rest"
  using readline_line [of "[]" 8194 rest] by (subst read_trailer.simps) simp

lemma read_chunked_end: "read_chunked (''0'' @ CRLF @ CRLF @ rest) body = Inr (body, rest)"
proof -
  have "readline (''0'' @ CRLF @ CRLF @ rest) 8194 = (''0'' @ CRLF, CRLF @ rest)"
    by (rule readline_line) (simp_all add: newline_def char_of_eq_iff)
  moreover have "int_base16 (ascii_strip (before (CHR '';'') ''0'')) = Some 0"
    by (simp add: before_def ascii_strip_def is_ascii_space_def int_base16_def hex_groups_ok_def is_hex_digit_def hex_number_def hex_digit_def Let_def)
  ultimately show ?thesis
    by (subst read_chunked.simps) (use ends_with_CRLF(1) [of "''0''"] in \<open>simp add: read_trailer_end\<close>)
qed

lemma read_exact_append: "read_exact (data @ rest) (length data) = Inr (data, rest)"
  by (simp add: read_exact_def)

lemma read_chunked_step:
  assumes "data \<noteq> []" "length body + length data \<le> MAX_HTTP_TASK_BODY_BYTES"
  shows "read_chunked (chunk_text data @ rest) body = read_chunked rest (body @ data)"
proof -
  let ?h = "hex_text (length data)"
  have clean: "newline \<notin> set ?h" "CHR '';'' \<notin> set ?h" "list_all (\<lambda>c. \<not> is_ascii_space c) ?h"
    using hex_text_clean [of "length data"] by (auto simp: list_all_iff)
  have "length data < 16 ^ Suc 5" using assms by (simp add: MAX_HTTP_TASK_BODY_BYTES_def)
  then have len: "length ?h \<le> 6" using hex_text_length [of "length data" 5] by simp
  then have "readline (?h @ CRLF @ (data @ CRLF @ rest)) 8194 = (?h @ CRLF, data @ CRLF @ rest)"
    using clean(1) by (intro readline_line) auto
  moreover have "int_base16 (ascii_strip (before (CHR '';'') ?h)) = Some (int (length data))"
    using clean by (simp add: before_none ascii_strip_none int_base16_text)
  moreover have "read_exact (CRLF @ rest) 2 = Inr (CRLF, rest)" using read_exact_append [of CRLF rest] by simp
  ultimately show ?thesis
    using assms len unfolding chunk_text_def
    by (subst read_chunked.simps) (simp add: read_exact_append not_less [symmetric])
qed

lemma read_chunked_text:
  assumes "[] \<notin> set chunks" "length body + length (concat chunks) \<le> MAX_HTTP_TASK_BODY_BYTES"
  shows "read_chunked (chunked_text chunks @ rest) body = Inr (body @ concat chunks, rest)"
  using assms
proof (induction chunks arbitrary: body)
  case Nil
  then show ?case using read_chunked_end [of rest body] by (simp add: chunked_text_def)
next
  case (Cons c cs)
  have "read_chunked (chunked_text (c # cs) @ rest) body = read_chunked (chunk_text c @ (chunked_text cs @ rest)) body"
    by (simp add: chunked_text_def)
  also have "\<dots> = read_chunked (chunked_text cs @ rest) (body @ c)" using Cons.prems by (intro read_chunked_step) auto
  also have "\<dots> = Inr (body @ concat (c # cs), rest)" using Cons.prems by (subst Cons.IH) auto
  finally show ?case .
qed

lemma read_trailer_suffix: "read_trailer s k = Inr rest \<Longrightarrow> suffix rest s"
proof (induction s k rule: read_trailer.induct)
  case (1 s k)
  obtain t r where rl: "readline s 8194 = (t, r)" by (rule prod.exhaust)
  then have "suffix r s" by (auto dest!: readline_append simp: suffix_def)
  with 1 rl show ?case
    by (subst (asm) read_trailer.simps) (auto simp: Let_def split: if_splits intro: suffix_order.trans)
qed

lemma read_exact_Inr: "read_exact s n = Inr (data, rest) \<Longrightarrow> length data = n \<and> s = data @ rest"
  by (auto simp: read_exact_def Let_def split: if_splits)

lemma read_chunked_bound:
  "read_chunked s body = Inr (b, rest) \<Longrightarrow> length body \<le> MAX_HTTP_TASK_BODY_BYTES \<Longrightarrow>
   length b \<le> MAX_HTTP_TASK_BODY_BYTES \<and> suffix rest s"
proof (induction s body rule: read_chunked.induct)
  case (1 s body)
  obtain l r where rl: "readline s 8194 = (l, r)" by (rule prod.exhaust)
  then have sr: "suffix r s" by (auto dest!: readline_append simp: suffix_def)
  obtain sz where line: "\<not> (\<not> ends_with l CRLF \<or> length l > 8193)"
    "int_base16 (ascii_strip (before (CHR '';'') (take (length l - 2) l))) = Some sz" "\<not> sz < 0"
    using "1.prems" rl by (subst (asm) read_chunked.simps) (auto split: if_splits option.splits)
  show ?case
  proof (cases "sz = 0")
    case True
    with "1.prems" rl line have "read_trailer r 0 = Inr rest" "b = body"
      by (subst (asm) read_chunked.simps; auto split: sum.splits)+
    with "1.prems" sr show ?thesis by (auto dest: read_trailer_suffix intro: suffix_order.trans)
  next
    case False
    obtain data r' where d: "read_exact r (nat sz) = Inr (data, r')" "length body + nat sz \<le> MAX_HTTP_TASK_BODY_BYTES"
      and rest: "\<exists>r''. read_exact r' 2 = Inr (CRLF, r'') \<and> read_chunked r'' (body @ data) = Inr (b, rest)"
      using "1.prems" rl line False
      by (subst (asm) read_chunked.simps) (auto split: sum.splits if_splits)
    then obtain r'' where r'': "read_exact r' 2 = Inr (CRLF, r'')" "read_chunked r'' (body @ data) = Inr (b, rest)" by blast
    have "length b \<le> MAX_HTTP_TASK_BODY_BYTES \<and> suffix rest r''"
    proof (rule "1.IH")
      show "length (body @ data) \<le> MAX_HTTP_TASK_BODY_BYTES" using d read_exact_Inr [OF d(1)] by simp
    qed (use rl line False d r'' in auto)
    moreover have "suffix r'' r" using read_exact_Inr [OF d(1)] read_exact_Inr [OF r''(1)] by (auto simp: suffix_def)
    ultimately show ?thesis using sr by (auto intro: suffix_order.trans)
  qed
qed

lemma split_on_not_empty: "split_on c s \<noteq> []"
  by (cases s) auto

lemma split_on_append: "split_on c (v @ c # u) = split_on c v @ split_on c u"
  by (induction v) (auto simp: split_on_not_empty)

lemma strip_split_blank: "map strip (split_on (CHR '','') (CHR '' '' # t)) = map strip (split_on (CHR '','') t)"
  by (cases "split_on (CHR '','') t") (auto simp: split_on_not_empty strip_def is_space_def)

lemma comma_join_split:
  "vs \<noteq> [] \<Longrightarrow> map strip (split_on (CHR '','') (comma_join vs)) = concat (map (\<lambda>v. map strip (split_on (CHR '','') v)) vs)"
  by (induction vs rule: comma_join.induct) (auto simp: split_on_append strip_split_blank simp del: split_on.simps)

text \<open>Both header objects give the same values.\<close>

lemma header_values_joined: "header_values (Joined hs) name = header_values (Message hs) name"
  by (simp add: header_values_def comma_join_split)

lemma digits_value: "digits n \<noteq> [] \<and> list_all is_digit (digits n) \<and> number_of (digits n) = n"
proof (induction n rule: digits.induct)
  case (1 n)
  have d: "is_digit (char_of (48 + k)) \<and> of_char (char_of (48 + k)) - 48 = k" if "k < 10" for k :: nat
    using that by (simp add: is_digit_def)
  show ?case
  proof (cases "n < 10")
    case True
    then show ?thesis by (subst (1 2 3) digits.simps) (simp add: number_of_def d)
  next
    case False
    with 1 have "digits (n div 10) \<noteq> [] \<and> list_all is_digit (digits (n div 10)) \<and> number_of (digits (n div 10)) = n div 10" by simp
    with False d [of "n mod 10"] show ?thesis
      by (subst (1 2 3) digits.simps) (simp add: number_of_def)
  qed
qed

lemma digits_length: "n < 10 ^ Suc k \<Longrightarrow> length (digits n) \<le> Suc k"
proof (induction k arbitrary: n)
  case 0
  then show ?case by (subst digits.simps) simp
next
  case (Suc k)
  then have "length (digits (n div 10)) \<le> Suc k" by (intro Suc.IH) (simp add: less_mult_imp_div_less mult.commute)
  then show ?case by (subst digits.simps) simp
qed

lemma digit_char: "is_digit c \<Longrightarrow> \<not> is_space c \<and> c \<noteq> CHR '',''"
  by (auto simp: is_digit_def is_space_def Let_def)

lemma header_digits: "map strip (split_on (CHR '','') (digits n)) = [digits n]"
proof -
  have "list_all (\<lambda>c. \<not> is_space c) (digits n)" "CHR '','' \<notin> set (digits n)"
    using digits_value [of n] by (auto simp: list_all_iff dest: digit_char)
  then show ?thesis by (simp add: split_on_none strip_def dropWhile_none)
qed

subsection \<open>Properties\<close>

text \<open>C35: The body reader is safe on every input, well formed or not. It always returns; if it accepts, the body has at most
  1048576 bytes, the unread bytes are a suffix of the stream, the framing was unambiguous (never both a declared
  length and a transfer encoding, and never two different declared lengths), and a body with a declared length has
  exactly that length.\<close>

theorem body_reader_bounded:
  "case read_task_request_body headers stream of
     Inl _ \<Rightarrow> True
   | Inr (body, rest) \<Rightarrow>
       length body \<le> MAX_HTTP_TASK_BODY_BYTES \<and> suffix rest stream \<and>
       (header_values headers ''Transfer-Encoding'' = [] \<or> header_values headers ''Content-Length'' = []) \<and>
       (\<forall>v \<in> set (header_values headers ''Content-Length''). number_of v = length body)"
proof (cases "read_task_request_body headers stream")
  case (Inr p)
  obtain body rest where p: "p = (body, rest)" by (rule prod.exhaust)
  obtain cl where cl: "content_length headers = Inr cl"
    using Inr by (auto simp: read_task_request_body_def split: sum.splits)
  let ?te = "header_values headers ''Transfer-Encoding''"
  have framing: "if ?te \<noteq> [] then cl = None \<and> read_chunked stream [] = Inr p
    else case cl of None \<Rightarrow> p = ([], stream) | Some n \<Rightarrow> n \<le> MAX_HTTP_TASK_BODY_BYTES \<and> read_exact stream n = Inr p"
    using Inr cl
    by (simp add: read_task_request_body_def Let_def split: sum.splits if_splits option.splits)
  have none: "cl = None \<Longrightarrow> header_values headers ''Content-Length'' = []"
    using cl by (auto simp: content_length_def Let_def split: if_splits)
  have len: "\<forall>v \<in> set (header_values headers ''Content-Length''). number_of v = n" if "cl = Some n" for n
  proof -
    let ?vs = "map number_of (header_values headers ''Content-Length'')"
    from cl that have "length (remdups ?vs) = 1" "hd ?vs = n" "?vs \<noteq> []"
      by (auto simp: content_length_def Let_def split: if_splits)
    then have "set ?vs = {n}" by (metis card_1_singletonE hd_in_set length_remdups_card_conv singletonD)
    then show ?thesis by auto
  qed
  show ?thesis
  proof (cases cl)
    case None
    then have "length body \<le> MAX_HTTP_TASK_BODY_BYTES \<and> suffix rest stream"
      using framing p read_chunked_bound [of stream "[]" body rest] by (simp split: if_splits)
    with Inr p none [OF None] show ?thesis by simp
  next
    case (Some n)
    then have "?te = []" "n \<le> MAX_HTTP_TASK_BODY_BYTES" "read_exact stream n = Inr (body, rest)"
      using framing p by (simp_all split: if_splits)
    with Inr p len [OF Some] read_exact_Inr [of stream n body rest] show ?thesis
      by (auto simp: suffix_def)
  qed
qed simp

theorem body_reader_bounded_witness:
  "let headers = Message [(''Content-Length'', ''5'')] in
   read_task_request_body headers ''hello!'' = Inr (''hello'', ''!'') \<and> length ''hello'' \<le> MAX_HTTP_TASK_BODY_BYTES \<and>
   (\<forall>v \<in> set (header_values headers ''Content-Length''). number_of v = 5)"
proof -
  let ?h = "Message [(''Content-Length'', ''5'')]"
  have vals: "header_values ?h ''Content-Length'' = [''5'']" "header_values ?h ''Transfer-Encoding'' = []"
    "header_values ?h ''Content-Encoding'' = []" "number_of ''5'' = 5" "list_all is_digit ''5''"
    by code_simp+
  then have "read_task_request_body ?h ''hello!'' = Inr (''hello'', ''!'')"
    by (simp add: read_task_request_body_def validate_content_encoding_def content_length_def read_exact_def MAX_HTTP_TASK_BODY_BYTES_def)
  with body_reader_bounded [where headers = ?h and stream = "''hello!''"] show ?thesis by simp
qed

text \<open>What a sender writes is what the reader returns, for both framings, and the bytes after the message stay unread: a
  body sent in chunks of any positive sizes, and a body sent with its length, of at most 1048576 bytes in total.\<close>

lemma request_body_roundtrip:
  assumes "[] \<notin> set chunks" "length (concat chunks) \<le> MAX_HTTP_TASK_BODY_BYTES"
  shows "read_task_request_body (Message [(''Transfer-Encoding'', ''chunked'')]) (chunked_text chunks @ rest) = Inr (concat chunks, rest) \<and>
    read_task_request_body (Message [(''Content-Length'', digits (length (concat chunks)))]) (concat chunks @ rest) = Inr (concat chunks, rest)"
proof -
  let ?n = "length (concat chunks)"
  let ?te = "Message [(''Transfer-Encoding'', ''chunked'')]" and ?cl = "Message [(''Content-Length'', digits ?n)]"
  have te: "header_values ?te ''Content-Encoding'' = []" "header_values ?te ''Content-Length'' = []"
    "header_values ?te ''Transfer-Encoding'' = [''chunked'']"
    by (simp_all add: header_values_def header_all_def lower_def lower_char_def strip_def is_space_def)
  have cl: "header_values ?cl ''Content-Encoding'' = []" "header_values ?cl ''Content-Length'' = [digits ?n]"
    "header_values ?cl ''Transfer-Encoding'' = []"
    using header_digits [of ?n] by (simp_all add: header_values_def header_all_def lower_def lower_char_def)
  have "length (digits ?n) \<le> 4300"
    using digits_length [of ?n 6] assms(2) by (simp add: MAX_HTTP_TASK_BODY_BYTES_def)
  then have "content_length ?cl = Inr (Some ?n)"
    using cl digits_value [of ?n] by (simp add: content_length_def)
  then show ?thesis
    using te cl assms read_chunked_text [of chunks "[]" rest] read_exact_append [of "concat chunks" rest]
    by (simp add: read_task_request_body_def validate_content_encoding_def content_length_def lower_def lower_char_def)
qed

end
