(* ===== verification/Http_Client.thy ===== *)
theory Http_Client
  imports Http_Body
begin

text \<open>
  The client's HTTP helpers (\<open>_http.py\<close>) and the error type they raise (\<open>errors.py\<close>). The network is an abstract world: what
  the resolver answers and the clock reads in a state, and the effect and outcome of a request. The HTTP package's URL
  parser (\<open>httpx.URL\<close>), \<open>urljoin\<close>, the JSON encoder and the JSON decoder are parameters. A call that sends returns, next to
  its outcome, the list of the requests it sent. Message texts, trace headers and TLS contexts are not modelled.
\<close>

subsection \<open>Errors\<close>

record iicp_error =
  ie_code :: pyval
  ie_component :: string
  ie_retryable :: bool
  ie_http_status :: "int option"

text \<open>What a call raises: the typed error, a Python exception, or an exception of the HTTP package that nothing translates.\<close>

datatype client_error = Iicp iicp_error | PyError py_error | HttpPackage string

definition iicp :: "string \<Rightarrow> string \<Rightarrow> bool \<Rightarrow> client_error" where
  "iicp code component retryable =
     Iicp \<lparr>ie_code = PStr code, ie_component = component, ie_retryable = retryable, ie_http_status = None\<rparr>"

definition RETRYABLE_CODES :: "string list" where
  "RETRYABLE_CODES = [''IICP-E003'', ''IICP-E004'', ''IICP-E005'']"

definition py_or :: "pyval \<Rightarrow> pyval \<Rightarrow> pyval" where
  "py_or a b = (if truthy a then a else b)"

definition status_code_text :: "int \<Rightarrow> string" where
  "status_code_text status = ''IICP-E'' @ replicate (3 - length (int_text status)) (CHR ''0'') @ int_text status"

definition from_http :: "int \<Rightarrow> pyval \<Rightarrow> string \<Rightarrow> client_error" where
  "from_http status body component =
     (case body of
        PDict d \<Rightarrow>
          let nested = (case sget d ''error'' of PDict n \<Rightarrow> n | _ \<Rightarrow> []);
              code = py_or (sget d ''code'') (py_or (sget nested ''code'') (PStr (status_code_text status)))
          in (case in_set code RETRYABLE_CODES of
                Inl e \<Rightarrow> PyError e
              | Inr known \<Rightarrow> Iicp \<lparr>ie_code = code, ie_component = component, ie_retryable = known \<or> status \<in> {429, 503},
                                   ie_http_status = Some status\<rparr>)
      | _ \<Rightarrow> PyError AttributeError)"

subsection \<open>The network\<close>

datatype net_failure = TimedOut | RequestFailed

record http_response =
  hr_status :: int
  hr_headers :: "(string \<times> string) list"
  hr_chunks :: "octets list"
  hr_broken :: "net_failure option"

record 'w http_ops =
  hw_addresses :: "'w \<Rightarrow> string \<Rightarrow> nat \<Rightarrow> string list option"
  hw_clock :: "'w \<Rightarrow> time"
  hw_get :: "string \<Rightarrow> pydict \<Rightarrow> (string \<times> string) list \<Rightarrow> 'w \<Rightarrow> 'w \<times> (net_failure + http_response)"
  hw_send :: "resolved_endpoint option \<Rightarrow> string \<Rightarrow> octets \<Rightarrow> (string \<times> string) list \<Rightarrow> 'w \<Rightarrow> 'w \<times> (net_failure + http_response)"

record http_env =
  he_ip_text :: "ip_addr \<Rightarrow> string"
  he_private :: "string option"
  he_origin :: "string \<Rightarrow> (string \<times> string \<times> nat option) option"
  he_join :: "string \<Rightarrow> string \<Rightarrow> string"
  he_encode :: "pyval \<Rightarrow> octets"
  he_decode :: "octets \<Rightarrow> pyval option"

definition is_success :: "http_response \<Rightarrow> bool" where
  "is_success r \<longleftrightarrow> 200 \<le> hr_status r \<and> hr_status r < 300"

definition net_error :: "string \<Rightarrow> net_failure \<Rightarrow> client_error" where
  "net_error component f =
     iicp (case f of TimedOut \<Rightarrow> ''IICP-E003'' | RequestFailed \<Rightarrow> ''IICP-E004'') component True"

definition body_fault_error :: "string \<Rightarrow> body_fault \<Rightarrow> client_error" where
  "body_fault_error component f =
     (case f of
        BodyError e \<Rightarrow> Iicp \<lparr>ie_code = PStr (be_code e), ie_component = component, ie_retryable = False, ie_http_status = Some (be_status e)\<rparr>
      | DigitLimit \<Rightarrow> PyError (ValueError ''int digit limit''))"

definition endpoint_refused :: "string \<Rightarrow> client_error" where
  "endpoint_refused component = iicp ''IICP-ENDPOINT-REFUSED'' component False"

text \<open>The whole body of a response read at once (\<open>client.get\<close>).\<close>

definition response_content :: "http_response \<Rightarrow> octets" where
  "response_content r = concat (hr_chunks r)"

subsection \<open>\<open>get_json\<close>\<close>

definition safe_json :: "http_env \<Rightarrow> http_response \<Rightarrow> pyval" where
  "safe_json env r =
     (case he_decode env (response_content r) of
        Some v \<Rightarrow> v
      | None \<Rightarrow> PDict [(PStr ''message'', PStr (take 200 (response_content r)))])"

definition get_json ::
  "http_env \<Rightarrow> 'w http_ops \<Rightarrow> 'w \<Rightarrow> string \<Rightarrow> pydict \<Rightarrow> (string \<times> string) list \<Rightarrow> string \<Rightarrow> 'w \<times> (client_error + pyval)" where
  "get_json env ops w url params headers component =
     (case hw_get ops url params headers w of
        (w', Inl f) \<Rightarrow> (w', Inl (net_error component f))
      | (w', Inr r) \<Rightarrow>
          (w', case hr_broken r of
                 Some f \<Rightarrow> Inl (net_error component f)
               | None \<Rightarrow>
                   if \<not> is_success r then Inl (from_http (hr_status r) (safe_json env r) component)
                   else (case he_decode env (response_content r) of
                           None \<Rightarrow> Inl (PyError (ValueError ''JSON''))
                         | Some v \<Rightarrow> Inr v)))"

subsection \<open>\<open>post_json\<close>\<close>

record sent_request =
  sr_endpoint :: "resolved_endpoint option"
  sr_url :: string
  sr_body :: octets

datatype redirect_step = Final http_response | Follow string

definition response_header :: "http_response \<Rightarrow> string \<Rightarrow> string option" where
  "response_header r name =
     (let vs = header_all (hr_headers r) name in if vs = [] then None else Some (comma_join vs))"

definition redirect_target :: "http_env \<Rightarrow> string \<Rightarrow> bool \<Rightarrow> string \<Rightarrow> http_response \<Rightarrow> client_error + redirect_step" where
  "redirect_target env component last_round current r =
     (if hr_status r \<in> {307, 308}
      then (case response_header r ''location'' of
              None \<Rightarrow> Inl (endpoint_refused component)
            | Some location \<Rightarrow>
                if last_round \<or> location = [] then Inl (endpoint_refused component)
                else let next_url = he_join env current location
                  in (case he_origin env next_url of
                        None \<Rightarrow> Inl (HttpPackage ''InvalidURL'')
                      | Some next_origin \<Rightarrow>
                          if Some next_origin \<noteq> he_origin env current then Inl (endpoint_refused component)
                          else Inr (Follow next_url)))
      else if 300 \<le> hr_status r \<and> hr_status r < 400 then Inl (endpoint_refused component)
      else Inr (Final r))"

definition pinned_round ::
  "http_env \<Rightarrow> 'w http_ops \<Rightarrow> string \<Rightarrow> octets \<Rightarrow> (string \<times> string) list \<Rightarrow> bool \<Rightarrow> 'w \<Rightarrow> string
    \<Rightarrow> 'w \<times> sent_request list \<times> (client_error + redirect_step)" where
  "pinned_round env ops component encoded headers last_round w current =
     (case resolve_endpoint (hw_addresses ops w) (he_ip_text env) (he_private env) current None of
        Inl (Refused _) \<Rightarrow> (w, [], Inl (endpoint_refused ''sdk''))
      | Inl (PyRaised e) \<Rightarrow> (w, [], Inl (PyError e))
      | Inr ep \<Rightarrow>
          if he_origin env current = None then (w, [], Inl (HttpPackage ''InvalidURL''))
          else (case hw_send ops (Some ep) current encoded headers w of
                  (w', Inl f) \<Rightarrow> (w', [\<lparr>sr_endpoint = Some ep, sr_url = current, sr_body = encoded\<rparr>], Inl (net_error component f))
                | (w', Inr r) \<Rightarrow>
                    (w', [\<lparr>sr_endpoint = Some ep, sr_url = current, sr_body = encoded\<rparr>],
                     redirect_target env component last_round current r)))"

text \<open>\<open>for redirect_count in range(4)\<close>, with \<open>k\<close> rounds after the current one.\<close>

fun pinned_loop ::
  "http_env \<Rightarrow> 'w http_ops \<Rightarrow> string \<Rightarrow> octets \<Rightarrow> (string \<times> string) list \<Rightarrow> 'w \<Rightarrow> string \<Rightarrow> nat
    \<Rightarrow> 'w \<times> sent_request list \<times> (client_error + http_response)" where
  "pinned_loop env ops component encoded headers w current k =
     (case pinned_round env ops component encoded headers (k = 0) w current of
        (w', sent, Inl e) \<Rightarrow> (w', sent, Inl e)
      | (w', sent, Inr (Final r)) \<Rightarrow> (w', sent, Inr r)
      | (w', sent, Inr (Follow next_url)) \<Rightarrow>
          (case k of
             0 \<Rightarrow> (w', sent, Inl (PyError (ValueError ''unreachable'')))
           | Suc k' \<Rightarrow>
               (case pinned_loop env ops component encoded headers w' next_url k' of
                  (w'', sent', res) \<Rightarrow> (w'', sent @ sent', res))))"

declare pinned_loop.simps [simp del]

fun collect :: "octets \<Rightarrow> octets list \<Rightarrow> body_fault + octets" where
  "collect buffer [] = Inr buffer"
| "collect buffer (c # cs) =
     (case append_response_chunk buffer c of Inl e \<Rightarrow> Inl e | Inr b \<Rightarrow> collect b cs)"

definition read_response :: "http_env \<Rightarrow> string \<Rightarrow> http_response \<Rightarrow> client_error + pydict" where
  "read_response env component r =
     (case validate_response_headers (Joined (hr_headers r)) of
        Inl e \<Rightarrow> Inl (body_fault_error component e)
      | Inr _ \<Rightarrow>
          (case collect [] (hr_chunks r) of
             Inl e \<Rightarrow> Inl (body_fault_error component e)
           | Inr content \<Rightarrow>
               if hr_broken r \<noteq> None then Inl (HttpPackage ''body interrupted'')
               else (case he_decode env content of
                       None \<Rightarrow>
                         if is_success r
                         then Inl (Iicp \<lparr>ie_code = PStr ''invalid_http_body'', ie_component = component, ie_retryable = False,
                                        ie_http_status = Some 500\<rparr>)
                         else Inl (from_http (hr_status r)
                                (PDict [(PStr ''error'', PDict [(PStr ''code'', PStr ''invalid_http_body'')])]) component)
                     | Some v \<Rightarrow>
                         if \<not> is_success r then Inl (from_http (hr_status r) v component)
                         else (case v of
                                 PDict d \<Rightarrow> Inr d
                               | _ \<Rightarrow> Inl (Iicp \<lparr>ie_code = PStr ''invalid_http_body'', ie_component = component,
                                               ie_retryable = False, ie_http_status = Some 500\<rparr>)))))"

definition post_json ::
  "http_env \<Rightarrow> 'w http_ops \<Rightarrow> 'w \<Rightarrow> string \<Rightarrow> pyval \<Rightarrow> string \<Rightarrow> (string \<times> string) list \<Rightarrow> bool
    \<Rightarrow> 'w \<times> sent_request list \<times> (client_error + pydict \<times> int)" where
  "post_json env ops w url body component headers pin_provider_endpoint =
     (case bounded_request_json (he_encode env) body of
        Inl e \<Rightarrow> (w, [], Inl (body_fault_error component e))
      | Inr encoded \<Rightarrow>
          (case (if pin_provider_endpoint then pinned_loop env ops component encoded headers w url 3
                 else if he_origin env url = None then (w, [], Inl (HttpPackage ''InvalidURL''))
                 else (case hw_send ops None url encoded headers w of
                         (w', res) \<Rightarrow> (w', [\<lparr>sr_endpoint = None, sr_url = url, sr_body = encoded\<rparr>],
                           case res of Inl f \<Rightarrow> Inl (net_error component f) | Inr r \<Rightarrow> Inr r))) of
             (w', sent, Inl e) \<Rightarrow> (w', sent, Inl e)
           | (w', sent, Inr r) \<Rightarrow>
               (w', sent,
                case read_response env component r of
                  Inl e \<Rightarrow> Inl e
                | Inr d \<Rightarrow> Inr (d, \<lfloor>(hw_clock ops w' - hw_clock ops w) * 1000\<rfloor>))))"

subsection \<open>Facts\<close>

text \<open>What may be sent: only the encoded body, only within the origin, and only through an endpoint that was resolved for
  this very URL.\<close>

definition guarded_request :: "http_env \<Rightarrow> (string \<times> string \<times> nat option) option \<Rightarrow> octets \<Rightarrow> sent_request \<Rightarrow> bool" where
  "guarded_request env origin encoded s \<longleftrightarrow>
     he_origin env (sr_url s) = origin \<and> sr_body s = encoded \<and>
     (\<exists>ep g. sr_endpoint s = Some ep \<and> resolve_endpoint g (he_ip_text env) (he_private env) (sr_url s) None = Inr ep)"

lemma resolved_public:
  assumes "resolve_endpoint g t env url None = Inr ep" "\<not> private_endpoints_allowed env" "connect_tcp ep host = Some a"
  shows "\<exists>ip. ip_address a = Some ip \<and> ip_public ip"
proof -
  note r = resolve_endpoint_Inr [OF assms(1)]
  have "a \<in> set (re_addresses ep)" using r(2) assms(3) by (auto simp: connect_tcp_def split: if_splits)
  moreover have "any_prohibited (re_addresses ep) False = Inr False" using r(3) assms(2) by simp
  ultimately show ?thesis by (rule any_prohibited_clear [rotated])
qed

lemma pinned_round_guarded:
  assumes "pinned_round env ops component encoded headers b w current = (w', sent, res)"
  shows "length sent \<le> 1" "\<forall>s \<in> set sent. guarded_request env (he_origin env current) encoded s"
    "res = Inr (Follow nxt) \<Longrightarrow> he_origin env nxt = he_origin env current"
    "b \<Longrightarrow> res \<noteq> Inr (Follow nxt)"
    "res = Inr (Final r) \<Longrightarrow> sent \<noteq> []"
  using assms
  by (auto simp: pinned_round_def guarded_request_def redirect_target_def Let_def
      split: sum.splits endpoint_error.splits if_splits prod.splits option.splits)

lemma pinned_loop_guarded:
  assumes "pinned_loop env ops component encoded headers w current k = (w', sent, res)"
  shows "length sent \<le> Suc k \<and> (\<forall>s \<in> set sent. guarded_request env (he_origin env current) encoded s) \<and> (is_ok res \<longrightarrow> sent \<noteq> [])"
  using assms
proof (induction k arbitrary: w current w' sent res)
  case 0
  obtain v out r where round: "pinned_round env ops component encoded headers True w current = (v, out, r)"
    by (metis prod_cases3)
  note g = pinned_round_guarded [OF round]
  show ?case
  proof (cases r)
    case (Inr step)
    with 0 round g show ?thesis by (cases step) (auto simp: pinned_loop.simps [of _ _ _ _ _ _ _ 0])
  qed (use 0 round g in \<open>auto simp: pinned_loop.simps [of _ _ _ _ _ _ _ 0]\<close>)
next
  case (Suc k)
  obtain v out r where round: "pinned_round env ops component encoded headers False w current = (v, out, r)"
    by (metis prod_cases3)
  note g = pinned_round_guarded [OF round]
  show ?case
  proof (cases "\<exists>nxt. r = Inr (Follow nxt)")
    case True
    then obtain nxt where r: "r = Inr (Follow nxt)" by blast
    obtain v' out' res' where rest: "pinned_loop env ops component encoded headers v nxt k = (v', out', res')"
      by (metis prod_cases3)
    with Suc.prems round r have "sent = out @ out'" "res = res'"
      by (simp_all add: pinned_loop.simps [of _ _ _ _ _ _ _ "Suc k"])
    with Suc.IH [OF rest] g r show ?thesis by auto
  next
    case False
    with Suc.prems round g show ?thesis
      by (auto simp: pinned_loop.simps [of _ _ _ _ _ _ _ "Suc k"] split: sum.splits redirect_step.splits)
  qed
qed

text \<open>A request to a provider stays where it was meant to go. Whatever the network answers, \<open>post_json\<close> on a pinned provider
  endpoint returns after at most four requests; each of them carries exactly the encoded body, of at most 1048576
  bytes, to a URL of the original origin, through an endpoint resolved for that URL, and (without the private-network
  opt-in) its socket goes to a public address; a body that is too large is never sent; and a result is
  only returned after a request was sent.\<close>

lemma post_json_guarded:
  assumes "post_json env ops w url body component headers True = (w', sent, res)"
  shows "length sent \<le> 4 \<and> (is_ok res \<longrightarrow> sent \<noteq> []) \<and>
    (length (he_encode env body) > MAX_HTTP_TASK_BODY_BYTES \<longrightarrow> sent = []) \<and>
    (\<forall>s \<in> set sent. he_origin env (sr_url s) = he_origin env url \<and> sr_body s = he_encode env body \<and>
       (\<exists>ep. sr_endpoint s = Some ep \<and> re_url ep = sr_url s \<and>
          (\<forall>host a. \<not> private_endpoints_allowed (he_private env) \<longrightarrow> connect_tcp ep host = Some a \<longrightarrow>
             (\<exists>ip. ip_address a = Some ip \<and> ip_public ip))))"
proof (cases "length (he_encode env body) > MAX_HTTP_TASK_BODY_BYTES")
  case True
  with assms show ?thesis by (auto simp: post_json_def bounded_request_json_def)
next
  case False
  obtain v out r where loop: "pinned_loop env ops component (he_encode env body) headers w url 3 = (v, out, r)"
    by (metis prod_cases3)
  with assms False have "sent = out" "is_ok res \<Longrightarrow> is_ok r"
    by (auto simp: post_json_def bounded_request_json_def split: sum.splits)
  moreover note g = pinned_loop_guarded [OF loop]
  moreover have "he_origin env (sr_url s) = he_origin env url \<and> sr_body s = he_encode env body \<and>
       (\<exists>ep. sr_endpoint s = Some ep \<and> re_url ep = sr_url s \<and>
          (\<forall>host a. \<not> private_endpoints_allowed (he_private env) \<longrightarrow> connect_tcp ep host = Some a \<longrightarrow>
             (\<exists>ip. ip_address a = Some ip \<and> ip_public ip)))"
    if "guarded_request env (he_origin env url) (he_encode env body) s" for s
    using that resolved_public resolve_endpoint_Inr(4) unfolding guarded_request_def by blast
  ultimately show ?thesis using False by auto
qed

end
