(* ===== verification/Client_Checks.thy ===== *)
theory Client_Checks
  imports Http_Client Runtime_Identity
begin

text \<open>
  The client's checks around discovery: which intents it refuses before contacting anyone (\<open>policy.py\<close> with the packaged
  taxonomy \<open>data/intent-risk-taxonomy.json\<close>), the verification of a directory's dispatch ticket (\<open>dispatch_ticket.py\<close>) and of a
  restricted directory's decision (\<open>restricted_directory.py\<close>). Parameters: the signature check, the decoding of a
  base64 JSON text, and \<open>int\<close> on text.
\<close>

subsection \<open>Intent policy\<close>

record prohibited_rule =
  pr_rule_id :: string
  pr_label :: string
  pr_fragments :: "string list"

definition PROHIBITED_INTENT_RULES :: "prohibited_rule list" where
  "PROHIBITED_INTENT_RULES =
     [
      \<lparr>pr_rule_id = ''eu-ai-act-social-scoring'', pr_label = ''social scoring'',
       pr_fragments = [''social-scoring'', ''social_scoring'', ''social:scoring'']\<rparr>,
      \<lparr>pr_rule_id = ''eu-ai-act-criminal-risk'', pr_label = ''individual criminal risk prediction'',
       pr_fragments = [''criminal-risk'', ''criminal_risk'', ''criminal:risk'', ''predict-crime'']\<rparr>,
      \<lparr>pr_rule_id = ''eu-ai-act-workplace-education-emotion'', pr_label = ''workplace or education emotion recognition'',
       pr_fragments = [''emotion:workplace'', ''emotion:education'', ''workplace-monitoring'', ''education-monitoring'', ''worker-monitoring'']\<rparr>,
      \<lparr>pr_rule_id = ''eu-ai-act-protected-trait-biometric'', pr_label = ''biometric protected-trait classification'',
       pr_fragments = [''protected-trait'', ''protected_trait'', ''biometric:protected'']\<rparr>,
      \<lparr>pr_rule_id = ''eu-ai-act-untargeted-face-scraping'', pr_label = ''untargeted facial image scraping for recognition databases'',
       pr_fragments = [''untargeted-scraping'', ''untargeted_scraping'', ''face-scraping'', ''facial-scraping'']\<rparr>,
      \<lparr>pr_rule_id = ''eu-ai-act-realtime-remote-biometric-id'', pr_label = ''real-time remote biometric identification'',
       pr_fragments = [''remote-biometric:realtime'', ''realtime-remote-biometric'', ''real-time-remote-biometric'']\<rparr>,
      \<lparr>pr_rule_id = ''eu-ai-act-nonconsensual-sexual-deepfake'', pr_label = ''non-consensual sexual deepfake or CSAM generation'',
       pr_fragments = [''nonconsensual-sexual'', ''non-consensual-sexual'', ''child-sexual-abuse'', ''csam'']\<rparr>]"

record intent_rule =
  ir_category :: string
  ir_rule_id :: string
  ir_label :: string
  ir_fragments :: "string list"

definition taxonomy :: "intent_rule list" where
  "taxonomy =
     [
      \<lparr>ir_category = ''prohibited'', ir_rule_id = ''eu-ai-act-social-scoring'',
       ir_label = ''social scoring'',
       ir_fragments = [''social-scoring'', ''social_scoring'', ''social:scoring'']\<rparr>,
      \<lparr>ir_category = ''prohibited'', ir_rule_id = ''eu-ai-act-criminal-risk'',
       ir_label = ''individual criminal risk prediction'',
       ir_fragments = [''criminal-risk'', ''criminal_risk'', ''criminal:risk'', ''predict-crime'']\<rparr>,
      \<lparr>ir_category = ''prohibited'', ir_rule_id = ''eu-ai-act-workplace-education-emotion'',
       ir_label = ''workplace or education emotion recognition'',
       ir_fragments = [''emotion:workplace'', ''emotion:education'', ''workplace-monitoring'', ''education-monitoring'', ''worker-monitoring'']\<rparr>,
      \<lparr>ir_category = ''prohibited'', ir_rule_id = ''eu-ai-act-protected-trait-biometric'',
       ir_label = ''biometric protected-trait classification'',
       ir_fragments = [''protected-trait'', ''protected_trait'', ''biometric:protected'']\<rparr>,
      \<lparr>ir_category = ''prohibited'', ir_rule_id = ''eu-ai-act-untargeted-face-scraping'',
       ir_label = ''untargeted facial image scraping for recognition databases'',
       ir_fragments = [''untargeted-scraping'', ''untargeted_scraping'', ''face-scraping'', ''facial-scraping'']\<rparr>,
      \<lparr>ir_category = ''prohibited'', ir_rule_id = ''eu-ai-act-realtime-remote-biometric-id'',
       ir_label = ''real-time remote biometric identification'',
       ir_fragments = [''remote-biometric:realtime'', ''realtime-remote-biometric'', ''real-time-remote-biometric'']\<rparr>,
      \<lparr>ir_category = ''prohibited'', ir_rule_id = ''eu-ai-act-nonconsensual-sexual-deepfake'',
       ir_label = ''non-consensual sexual deepfake or CSAM generation'',
       ir_fragments = [''nonconsensual-sexual'', ''non-consensual-sexual'', ''child-sexual-abuse'', ''csam'']\<rparr>,
      \<lparr>ir_category = ''high_risk'', ir_rule_id = ''eu-ai-act-employment-workforce'',
       ir_label = ''employment, recruitment, worker management or worker monitoring decision'',
       ir_fragments = [''employment:hiring'', ''employment:screen'', ''employment:rank'', ''recruitment:decision'', ''workforce:decision'', ''worker-management'', ''worker:performance'', ''worker:discipline'']\<rparr>,
      \<lparr>ir_category = ''high_risk'', ir_rule_id = ''eu-ai-act-education-admission-grading'',
       ir_label = ''education admission, assessment or grading decision'',
       ir_fragments = [''education:admission'', ''education:grading'', ''education:grade'', ''student:admission'', ''student:assess'', ''exam-grading'']\<rparr>,
      \<lparr>ir_category = ''high_risk'', ir_rule_id = ''eu-ai-act-credit-essential-services'',
       ir_label = ''credit scoring or essential-services access decision'',
       ir_fragments = [''credit-scoring'', ''credit:score'', ''credit:decision'', ''essential-services'', ''benefits:eligibility'', ''public-benefit:eligibility'']\<rparr>,
      \<lparr>ir_category = ''high_risk'', ir_rule_id = ''eu-ai-act-law-enforcement-border-justice'',
       ir_label = ''law enforcement, migration, asylum, border, justice or democratic-process decision'',
       ir_fragments = [''law-enforcement'', ''law_enforcement'', ''migration:decision'', ''asylum:decision'', ''border-control'', ''justice:decision'', ''democratic-process'', ''election:decision'']\<rparr>,
      \<lparr>ir_category = ''high_risk'', ir_rule_id = ''eu-ai-act-healthcare-critical-infrastructure'',
       ir_label = ''healthcare decision or critical-infrastructure safety component'',
       ir_fragments = [''healthcare:decision'', ''medical:diagnosis'', ''medical:triage'', ''clinical:decision'', ''critical-infrastructure'', ''grid:stabilize'', ''hospital:surge-capacity'']\<rparr>,
      \<lparr>ir_category = ''high_risk'', ir_rule_id = ''eu-ai-act-physical-world-control'',
       ir_label = ''robotics, drone, IoT or physical-world control'',
       ir_fragments = [''robotics:control'', ''robotics:fleet'', ''drone:control'', ''drone:search'', ''iot:actuate'', ''physical-world'', ''system_control'']\<rparr>,
      \<lparr>ir_category = ''transparency_risk'', ir_rule_id = ''eu-ai-act-ai-interaction'',
       ir_label = ''AI interaction or generated content notice required'',
       ir_fragments = [''chatbot'', ''ai-assistant'', ''synthetic-media'', ''deepfake:labelled'', ''content:generate-public'', ''creative:generate'']\<rparr>]"

definition normalized :: "string \<Rightarrow> string" where
  "normalized intent = lower (strip intent)"

definition prohibited_intent_reason :: "string \<Rightarrow> string option" where
  "prohibited_intent_reason intent =
     map_option (\<lambda>r. pr_label r @ '' ('' @ pr_rule_id r @ '')'')
       (List.find (\<lambda>r. list_ex (contains (normalized intent)) (pr_fragments r)) PROHIBITED_INTENT_RULES)"

definition first_rule :: "string \<Rightarrow> intent_rule option" where
  "first_rule intent = List.find (\<lambda>r. list_ex (contains (normalized intent)) (ir_fragments r)) taxonomy"

definition classify_intent :: "string \<Rightarrow> string" where
  "classify_intent intent = (case first_rule intent of None \<Rightarrow> ''minimal_or_general'' | Some r \<Rightarrow> ir_category r)"

definition intent_risk_reason :: "string \<Rightarrow> string option" where
  "intent_risk_reason intent = map_option (\<lambda>r. ir_label r @ '' ('' @ ir_rule_id r @ '')'') (first_rule intent)"

definition POLICY_REFUSAL_CODE :: string where "POLICY_REFUSAL_CODE = ''IICP-POLICY-001''"

definition ensure_intent_allowed :: "string \<Rightarrow> client_error + unit" where
  "ensure_intent_allowed intent =
     (if classify_intent intent \<notin> {''prohibited'', ''high_risk''} then Inr ()
      else Inl (iicp POLICY_REFUSAL_CODE ''sdk'' False))"

text \<open>\<open>_validate_intent\<close> (\<open>client.py\<close>): \<open>re.match\<close> with a final \<open>$\<close> also lets one line feed follow.\<close>

definition intent_char :: "char \<Rightarrow> bool" where
  "intent_char c \<longleftrightarrow> (let n = of_char c :: nat in (97 \<le> n \<and> n \<le> 122) \<or> (48 \<le> n \<and> n \<le> 57)) \<or> c \<in> set ''_:/-''"

definition intent_shape :: "string \<Rightarrow> bool" where
  "intent_shape s \<longleftrightarrow>
     starts_with s ''urn:iicp:intent:'' \<and>
     (let rest = drop 16 s; body = (if rest \<noteq> [] \<and> last rest = newline then butlast rest else rest)
      in body \<noteq> [] \<and> list_all intent_char body)"

definition validate_intent :: "string \<Rightarrow> client_error + unit" where
  "validate_intent intent =
     (if \<not> intent_shape intent then Inl (iicp ''IICP-E001'' ''proxy'' False) else ensure_intent_allowed intent)"

subsection \<open>Dispatch tickets\<close>

definition TICKET_DOMAIN :: string where
  "TICKET_DOMAIN = ''iicp:dispatch-route-ticket:v1'' @ [newline]"

definition TICKET_AUDIENCE :: string where "TICKET_AUDIENCE = ''iicp.directory.dispatch''"

record ticket_claims =
  tc_v :: pyval
  tc_typ :: pyval
  tc_iss :: pyval
  tc_aud :: pyval
  tc_jti :: pyval
  tc_node_id :: pyval
  tc_intent :: pyval
  tc_iat :: pyval
  tc_exp :: pyval
  tc_policy_manifest_sha256 :: pyval

definition b64pad :: "string \<Rightarrow> string" where
  "b64pad s =
     map (\<lambda>c. if c = CHR ''-'' then CHR ''+'' else if c = CHR ''_'' then CHR ''/'' else c)
       (s @ replicate ((4 - length s mod 4) mod 4) (CHR ''=''))"

text \<open>\<open>int(v)\<close>; on text it is \<open>parse\<close>.\<close>

fun int_value :: "(string \<Rightarrow> int option) \<Rightarrow> pyval \<Rightarrow> py_error + int" where
  "int_value parse (PInt i) = Inr i"
| "int_value parse (PBool b) = Inr (if b then 1 else 0)"
| "int_value parse (PFloat r) = Inr (if 0 \<le> r then \<lfloor>r\<rfloor> else \<lceil>r\<rceil>)"
| "int_value parse (PStr s) = (case parse s of None \<Rightarrow> Inl (ValueError ''int'') | Some i \<Rightarrow> Inr i)"
| "int_value parse v = Inl TypeError"

definition lower_hex :: "nat \<Rightarrow> pyval \<Rightarrow> bool" where
  "lower_hex n v = (case v of PStr s \<Rightarrow> length s = n \<and> list_all (\<lambda>c. c \<in> set ''0123456789abcdef'') s | _ \<Rightarrow> False)"

record ticket_checks =
  tk_verify :: "string \<Rightarrow> string \<Rightarrow> string \<Rightarrow> bool"
  tk_payload :: "string \<Rightarrow> pyval option"
  tk_int :: "string \<Rightarrow> int option"

definition verify_dispatch_route_ticket ::
  "ticket_checks \<Rightarrow> string \<Rightarrow> string \<Rightarrow> string \<Rightarrow> string \<Rightarrow> string \<Rightarrow> int \<Rightarrow> py_error + ticket_claims option" where
  "verify_dispatch_route_ticket tk token public_key_hex issuer node_id intent now =
     (if CHR ''.'' \<notin> set token \<or> length (after (CHR ''.'') token) \<noteq> 128 then Inr None
      else let payload_b64 = before (CHR ''.'') token; signature_hex = after (CHR ''.'') token
        in if \<not> tk_verify tk public_key_hex signature_hex (TICKET_DOMAIN @ payload_b64) then Inr None
           else case tk_payload tk (b64pad payload_b64) of
               None \<Rightarrow> Inr None
             | Some (PDict p) \<Rightarrow>
                 if \<not> py_eq (sget p ''v'') (PInt 1) \<or> sget p ''typ'' \<noteq> PStr ''dispatch-route-ticket'' \<or> sget p ''iss'' \<noteq> PStr issuer \<or>
                    sget p ''aud'' \<noteq> PStr TICKET_AUDIENCE \<or> sget p ''node_id'' \<noteq> PStr node_id \<or> sget p ''intent'' \<noteq> PStr intent
                 then Inr None
                 else bind_result (int_value (tk_int tk) (get_or p ''exp'' (PInt 0))) (\<lambda>expiry.
                   if expiry \<le> now then Inr None
                   else if \<not> lower_hex 24 (sget p ''jti'') then Inr None
                   else if sget p ''policy_manifest_sha256'' \<noteq> PNone \<and> \<not> lower_hex 64 (sget p ''policy_manifest_sha256'') then Inr None
                   else Inr (Some \<lparr>tc_v = sget p ''v'', tc_typ = sget p ''typ'', tc_iss = sget p ''iss'', tc_aud = sget p ''aud'',
                          tc_jti = sget p ''jti'', tc_node_id = sget p ''node_id'', tc_intent = sget p ''intent'', tc_iat = sget p ''iat'',
                          tc_exp = sget p ''exp'', tc_policy_manifest_sha256 = sget p ''policy_manifest_sha256''\<rparr>))
             | Some _ \<Rightarrow> Inl AttributeError)"

definition policy_manifest_binding_matches :: "ticket_claims \<Rightarrow> pyval \<Rightarrow> bool" where
  "policy_manifest_binding_matches claims route =
     (if tc_policy_manifest_sha256 claims = PNone then True
      else case route of
          PDict r \<Rightarrow>
            let verification = (case sget r ''node_policy_manifest'' of PDict m \<Rightarrow> sget m ''verification'' | _ \<Rightarrow> PNone);
                digest = (case verification of PDict v \<Rightarrow> sget v ''canonical_sha256'' | _ \<Rightarrow> PNone)
            in py_eq digest (tc_policy_manifest_sha256 claims)
        | _ \<Rightarrow> False)"

subsection \<open>Restricted directories\<close>

definition RESTRICTED_PROFILE_ID :: string where "RESTRICTED_PROFILE_ID = ''urn:iicp:profile:restricted-trust-domain:v1''"
definition DECISION_SCHEMA :: string where "DECISION_SCHEMA = ''iicp.restricted-trust-domain.directory-decision.v0''"

datatype secret_ref = EnvironmentSecret string | FileSecret string | OtherSecret string string

record restricted_context =
  rx_domain_id :: string
  rx_authority_id :: string
  rx_subject_id :: string
  rx_subject_kind :: string
  rx_minimum_membership_generation :: int
  rx_membership_credential :: secret_ref

definition restricted_refused :: client_error where
  "restricted_refused = iicp ''restricted_directory_decision_refused'' ''directory'' False"

text \<open>\<open>SecretRef.resolve\<close>: the text of the environment variable; the stripped text of a regular file that is no link and that
  only its owner may access. \<open>env\<close> and \<open>file\<close> stand for the process environment and the file system; the file answer carries whether
  it is such a private regular file.\<close>

record secret_store =
  ss_env :: "string \<Rightarrow> string option"
  ss_file :: "string \<Rightarrow> bool \<times> string"

definition resolve_secret :: "secret_store \<Rightarrow> secret_ref \<Rightarrow> client_error + string" where
  "resolve_secret st ref =
     (let secret = (case ref of
          EnvironmentSecret name \<Rightarrow> (case ss_env st name of None \<Rightarrow> [] | Some s \<Rightarrow> s)
        | FileSecret path \<Rightarrow> (case ss_file st path of (private, content) \<Rightarrow> if private then strip content else [])
        | OtherSecret _ _ \<Rightarrow> [])
      in if secret = [] then Inl restricted_refused else Inr secret)"

definition validate_context :: "secret_store \<Rightarrow> restricted_context \<Rightarrow> client_error + unit" where
  "validate_context st ctx =
     (if strip (rx_domain_id ctx) = [] \<or> strip (rx_authority_id ctx) = [] \<or> strip (rx_subject_id ctx) = [] \<or>
         rx_subject_kind ctx \<notin> {''node'', ''client'', ''directory''} \<or> rx_minimum_membership_generation ctx < 1
      then Inl restricted_refused
      else bind_result (resolve_secret st (rx_membership_credential ctx)) (\<lambda>_. Inr ()))"

definition restricted_headers :: "secret_store \<Rightarrow> restricted_context \<Rightarrow> client_error + (string \<times> string) list" where
  "restricted_headers st ctx =
     bind_result (resolve_secret st (rx_membership_credential ctx)) (\<lambda>secret.
       Inr [(''X-IICP-Membership'', secret), (''X-IICP-Subject-Id'', rx_subject_id ctx)])"

record restricted_eligibility =
  rl_domain_id :: string
  rl_authority_id :: string
  rl_membership_generation :: int
  rl_membership_expires_at :: int

definition DECISION_KEYS :: "string list" where
  "DECISION_KEYS =
     [''schema'', ''profile'', ''decision'', ''operation'', ''domain_id'', ''authority_id'', ''subject_kind'', ''membership_generation'',
      ''membership_expires_at'']"

definition validate_decision :: "pyval \<Rightarrow> restricted_context \<Rightarrow> string \<Rightarrow> int \<Rightarrow> client_error + restricted_eligibility" where
  "validate_decision body ctx operation now =
     (case body of
        PDict b \<Rightarrow>
          (case sget b ''restricted_domain_decision'' of
             PDict raw \<Rightarrow>
               if \<not> (keys_within raw DECISION_KEYS \<and> list_all (\<lambda>k. py_find raw (PStr k) \<noteq> None) DECISION_KEYS)
               then Inl restricted_refused
               else (case (sget raw ''membership_generation'', sget raw ''membership_expires_at'') of
                       (PInt generation, PInt expiry) \<Rightarrow>
                         if sget raw ''schema'' \<noteq> PStr DECISION_SCHEMA \<or> sget raw ''profile'' \<noteq> PStr RESTRICTED_PROFILE_ID \<or>
                            sget raw ''decision'' \<noteq> PStr ''eligible'' \<or> sget raw ''operation'' \<noteq> PStr operation \<or>
                            sget raw ''domain_id'' \<noteq> PStr (rx_domain_id ctx) \<or> sget raw ''authority_id'' \<noteq> PStr (rx_authority_id ctx) \<or>
                            sget raw ''subject_kind'' \<noteq> PStr (rx_subject_kind ctx) \<or>
                            generation < rx_minimum_membership_generation ctx \<or> expiry \<le> now
                         then Inl restricted_refused
                         else Inr \<lparr>rl_domain_id = rx_domain_id ctx, rl_authority_id = rx_authority_id ctx,
                                   rl_membership_generation = generation, rl_membership_expires_at = expiry\<rparr>
                     | _ \<Rightarrow> Inl restricted_refused)
           | _ \<Rightarrow> Inl restricted_refused)
      | _ \<Rightarrow> Inl (PyError AttributeError))"

subsection \<open>Facts\<close>

lemma find_first: "List.find P xs = Some x \<Longrightarrow> x \<in> set xs \<and> P x"
  by (auto simp: find_Some_iff)

text \<open>The rules are ordered: what is refused comes before what is only marked.\<close>

lemma classify_refused:
  "classify_intent intent \<in> {''prohibited'', ''high_risk''} \<longleftrightarrow>
     (\<exists>r \<in> set taxonomy. ir_category r \<in> {''prohibited'', ''high_risk''} \<and> list_ex (contains (normalized intent)) (ir_fragments r))"
proof -
  let ?P = "\<lambda>r. list_ex (contains (normalized intent)) (ir_fragments r)"
  obtain front t where split: "taxonomy = front @ [t]" "list_all (\<lambda>r. ir_category r \<in> {''prohibited'', ''high_risk''}) front"
    "ir_category t = ''transparency_risk''"
    by (rule that [of "butlast taxonomy" "last taxonomy"]) (simp_all add: taxonomy_def)
  show ?thesis
  proof (cases "List.find ?P front")
    case None
    then have "\<not> (\<exists>r \<in> set front. ?P r)" by (simp add: find_None_iff)
    with split(2,3) None show ?thesis unfolding classify_intent_def first_rule_def split(1)
      by (auto simp: find_append split: option.splits dest: find_first)
  next
    case (Some r)
    with split(2,3) show ?thesis unfolding classify_intent_def first_rule_def split(1)
      by (auto simp: find_append list_all_iff dest: find_first)
  qed
qed

text \<open>Every rule of the older, built-in list is a prohibiting rule of the taxonomy.\<close>

lemma prohibited_in_taxonomy:
  "list_all (\<lambda>p. list_ex (\<lambda>r. ir_category r = ''prohibited'' \<and> ir_fragments r = pr_fragments p) taxonomy) PROHIBITED_INTENT_RULES"
  by (simp add: PROHIBITED_INTENT_RULES_def taxonomy_def)

subsection \<open>Properties\<close>

text \<open>Restricted intents are refused before anything is sent: an intent is let through exactly when it has the shape of an
  intent name and its normalized text contains no fragment of a prohibited or high-risk rule of the packaged taxonomy
  (a transparency rule never lets a restricted intent pass); in particular every intent that the built-in
  prohibited list names is refused.\<close>

lemma intent_gate_exact:
  "validate_intent intent = Inr () \<longleftrightarrow>
     intent_shape intent \<and>
     \<not> (\<exists>r \<in> set taxonomy. ir_category r \<in> {''prohibited'', ''high_risk''} \<and> list_ex (contains (normalized intent)) (ir_fragments r)) \<and>
     prohibited_intent_reason intent = None"
proof -
  have "\<exists>r \<in> set taxonomy. ir_category r \<in> {''prohibited'', ''high_risk''} \<and> list_ex (contains (normalized intent)) (ir_fragments r)"
    if "prohibited_intent_reason intent \<noteq> None"
  proof -
    from that obtain p where "p \<in> set PROHIBITED_INTENT_RULES" "list_ex (contains (normalized intent)) (pr_fragments p)"
      by (auto simp: prohibited_intent_reason_def dest: find_first)
    with prohibited_in_taxonomy show ?thesis unfolding list_all_iff list_ex_iff by (metis insertCI)
  qed
  then show ?thesis using classify_refused [of intent] by (auto simp: validate_intent_def ensure_intent_allowed_def)
qed

end
