(* ===== verification/Confidentiality.thy ===== *)
theory Confidentiality
  imports Http_Client
begin

text \<open>
  Payload confidentiality (\<open>_confidentiality.py\<close>): the envelope that a client seals for a node's key, its opening by the node,
  and the sealed response. Base64 is modelled; the primitives of the cryptography package (X25519, HKDF-SHA256,
  AES-GCM), JSON text and the UTF-8 codec are parameters, and so are the random ephemeral key and nonces. The key files of a node
  are not modelled.
\<close>

subsection \<open>Base64url (\<open>base64.urlsafe_b64encode\<close>, \<open>binascii.a2b_base64\<close>)\<close>

definition b64_char :: "nat \<Rightarrow> char" where
  "b64_char n = char_of (if n < 26 then 65 + n else if n < 52 then 71 + n else if n < 62 then n - 4 else if n = 62 then 45 else 95)"

definition b64_value :: "char \<Rightarrow> nat option" where
  "b64_value c =
     (let n = of_char c :: nat in
      if 65 \<le> n \<and> n \<le> 90 then Some (n - 65)
      else if 97 \<le> n \<and> n \<le> 122 then Some (n - 71)
      else if 48 \<le> n \<and> n \<le> 57 then Some (n + 4)
      else if n = 45 \<or> n = 43 then Some 62
      else if n = 95 \<or> n = 47 then Some 63
      else None)"

text \<open>\<open>_b64url_encode\<close>: the padding is stripped.\<close>

fun b64url_encode :: "octets \<Rightarrow> string" where
  "b64url_encode (x # y # z # r) =
     (let a = of_char x; b = of_char y; c = of_char z
      in [b64_char (a div 4), b64_char (a mod 4 * 16 + b div 16), b64_char (b mod 16 * 4 + c div 64), b64_char (c mod 64)] @
         b64url_encode r)"
| "b64url_encode [x, y] =
     (let a = of_char x; b = of_char y
      in [b64_char (a div 4), b64_char (a mod 4 * 16 + b div 16), b64_char (b mod 16 * 4)])"
| "b64url_encode [x] = (let a = of_char x in [b64_char (a div 4), b64_char (a mod 4 * 16)])"
| "b64url_encode [] = []"

text \<open>The decoder skips characters outside the alphabet and stops at a complete padding; \<open>q\<close> counts the characters of the
  current group, \<open>l\<close> holds its unused bits.\<close>

fun a2b :: "string \<Rightarrow> nat \<Rightarrow> nat \<Rightarrow> nat \<Rightarrow> octets option" where
  "a2b [] q l pads = (if q = 0 then Some [] else None)"
| "a2b (c # s) q l pads =
     (if c = CHR ''=''
      then (if q \<ge> 2 then (if q + pads + 1 \<ge> 4 then Some [] else a2b s q l (pads + 1)) else a2b s q l pads)
      else case b64_value c of
          None \<Rightarrow> a2b s q l pads
        | Some v \<Rightarrow>
            if q = 0 then a2b s 1 v 0
            else if q = 1 then map_option ((#) (char_of (l * 4 + v div 16))) (a2b s 2 (v mod 16) 0)
            else if q = 2 then map_option ((#) (char_of (l * 16 + v div 4))) (a2b s 3 (v mod 4) 0)
            else map_option ((#) (char_of (l * 64 + v))) (a2b s 0 0 0))"

text \<open>\<open>_b64url_decode\<close>: text that is not ASCII is refused by \<open>base64\<close>, a value that is not text by \<open>len\<close> or \<open>+\<close>.\<close>

definition b64url_decode :: "pyval \<Rightarrow> py_error + octets" where
  "b64url_decode v =
     (case v of
        PStr s \<Rightarrow>
          if list_ex (\<lambda>c. (of_char c :: nat) \<ge> 128) s then Inl (ValueError ''ASCII'')
          else (case a2b (s @ replicate ((4 - length s mod 4) mod 4) (CHR ''='')) 0 0 0 of
                  None \<Rightarrow> Inl (ValueError ''padding'')
                | Some b \<Rightarrow> Inr b)
      | _ \<Rightarrow> Inl TypeError)"

subsection \<open>Sealing and opening\<close>

record cx_suite =
  cx_public :: "octets \<Rightarrow> octets"
  cx_exchange :: "octets \<Rightarrow> octets \<Rightarrow> py_error + octets"
  cx_hkdf :: "octets \<Rightarrow> octets \<Rightarrow> octets \<Rightarrow> octets"
  cx_seal :: "octets \<Rightarrow> octets \<Rightarrow> octets \<Rightarrow> octets \<Rightarrow> octets"
  cx_open :: "octets \<Rightarrow> octets \<Rightarrow> octets \<Rightarrow> octets \<Rightarrow> octets option"
  cx_utf8 :: "string \<Rightarrow> octets"
  cx_text :: "octets \<Rightarrow> string option"
  cx_dumps :: "pyval \<Rightarrow> octets"
  cx_loads :: "octets \<Rightarrow> pyval option"

text \<open>\<open>d[k]\<close>.\<close>

definition index :: "pydict \<Rightarrow> string \<Rightarrow> py_error + pyval" where
  "index d k = (case py_find d (PStr k) of None \<Rightarrow> Inl KeyError | Some v \<Rightarrow> Inr v)"

definition request_info :: "string \<Rightarrow> string \<Rightarrow> string" where
  "request_info task_id intent = ''IICP-CX-v1'' @ task_id @ intent"

definition response_info :: "cx_suite \<Rightarrow> string \<Rightarrow> octets" where
  "response_info cx task_id = ''IICP-CX-RESP-v1'' @ cx_utf8 cx task_id"

definition encrypt_payload_with_context ::
  "cx_suite \<Rightarrow> octets \<Rightarrow> octets \<Rightarrow> pydict \<Rightarrow> pydict \<Rightarrow> string \<Rightarrow> string \<Rightarrow> py_error + pydict \<times> octets" where
  "encrypt_payload_with_context cx ephemeral nonce payload cx_public_key task_id intent =
     (if sget cx_public_key ''algorithm'' \<noteq> PStr ''X25519'' then Inl (ValueError ''Unsupported cx_public_key algorithm'')
      else bind_result (index cx_public_key ''key'') (\<lambda>k.
           bind_result (b64url_decode k) (\<lambda>node_pub.
           bind_result (cx_exchange cx ephemeral node_pub) (\<lambda>shared_secret.
             let key = cx_hkdf cx nonce (cx_utf8 cx (request_info task_id intent)) shared_secret;
                 payload_json = cx_dumps cx (PDict payload);
                 aad = cx_utf8 cx (task_id @ ''|'' @ intent);
                 ciphertext = cx_seal cx key nonce payload_json aad
             in bind_result (index cx_public_key ''key_id'') (\<lambda>key_id.
                Inr ([(PStr ''version'', PInt 1), (PStr ''recipient_key_id'', key_id),
                      (PStr ''kem_ciphertext'', PStr (b64url_encode (cx_public cx ephemeral))),
                      (PStr ''encrypted_body'', PStr (b64url_encode ciphertext)),
                      (PStr ''nonce'', PStr (b64url_encode nonce)), (PStr ''aad'', PStr (b64url_encode aad)),
                      (PStr ''plaintext_size'', PInt (int (length payload_json)))], shared_secret))))))"

definition decrypt_payload_with_context :: "cx_suite \<Rightarrow> pydict \<Rightarrow> octets \<Rightarrow> py_error + pyval \<times> octets" where
  "decrypt_payload_with_context cx iicp_conf private_key =
     bind_result (bind_result (index iicp_conf ''kem_ciphertext'') b64url_decode) (\<lambda>ephem_pub.
     bind_result (cx_exchange cx private_key ephem_pub) (\<lambda>shared_secret.
     bind_result (bind_result (index iicp_conf ''nonce'') b64url_decode) (\<lambda>nonce.
     bind_result (bind_result (index iicp_conf ''aad'') b64url_decode) (\<lambda>aad_bytes.
       (case cx_text cx aad_bytes of
          None \<Rightarrow> Inl (ValueError ''UTF-8'')
        | Some aad_str \<Rightarrow>
            if CHR ''|'' \<notin> set aad_str then Inl (ValueError ''unpack'')
            else let key = cx_hkdf cx nonce (cx_utf8 cx (request_info (before (CHR ''|'') aad_str) (after (CHR ''|'') aad_str))) shared_secret
              in bind_result (bind_result (index iicp_conf ''encrypted_body'') b64url_decode) (\<lambda>ciphertext.
                 (case cx_open cx key nonce ciphertext aad_bytes of
                    None \<Rightarrow> Inl (ValueError ''InvalidTag'')
                  | Some plaintext \<Rightarrow>
                      (case cx_loads cx plaintext of
                         None \<Rightarrow> Inl (ValueError ''JSON'')
                       | Some v \<Rightarrow> Inr (v, shared_secret)))))))))"

definition encrypt_response :: "cx_suite \<Rightarrow> octets \<Rightarrow> pyval \<Rightarrow> octets \<Rightarrow> string \<Rightarrow> pydict" where
  "encrypt_response cx nonce response shared_secret task_id =
     (let key = cx_hkdf cx nonce (response_info cx task_id) shared_secret;
          ciphertext = cx_seal cx key nonce (cx_dumps cx response) (cx_utf8 cx (task_id @ ''|resp''))
      in [(PStr ''version'', PInt 1), (PStr ''nonce'', PStr (b64url_encode nonce)),
          (PStr ''encrypted_body'', PStr (b64url_encode ciphertext))])"

definition decrypt_response :: "cx_suite \<Rightarrow> pydict \<Rightarrow> octets \<Rightarrow> string \<Rightarrow> py_error + pyval" where
  "decrypt_response cx iicp_conf_resp shared_secret task_id =
     (if py_find iicp_conf_resp (PStr ''nonce'') = None \<or> py_find iicp_conf_resp (PStr ''encrypted_body'') = None
      then Inl (ValueError ''iicp_conf_resp missing fields'')
      else bind_result (bind_result (index iicp_conf_resp ''nonce'') b64url_decode) (\<lambda>nonce.
           bind_result (bind_result (index iicp_conf_resp ''encrypted_body'') b64url_decode) (\<lambda>ciphertext.
             let key = cx_hkdf cx nonce (response_info cx task_id) shared_secret
             in case cx_open cx key nonce ciphertext (cx_utf8 cx (task_id @ ''|resp'')) of
                  None \<Rightarrow> Inl (ValueError ''InvalidTag'')
                | Some plaintext \<Rightarrow>
                    (case cx_loads cx plaintext of None \<Rightarrow> Inl (ValueError ''JSON'') | Some v \<Rightarrow> Inr v))))"

text \<open>What the program relies on: both ends of an exchange agree, what is sealed opens under the same key, nonce and
  associated data, UTF-8 text reads back.\<close>

definition sound_suite :: "cx_suite \<Rightarrow> bool" where
  "sound_suite cx \<longleftrightarrow>
     (\<forall>a b s. cx_exchange cx a (cx_public cx b) = Inr s \<longrightarrow> cx_exchange cx b (cx_public cx a) = Inr s) \<and>
     (\<forall>k n m a. cx_open cx k n (cx_seal cx k n m a) a = Some m) \<and>
     (\<forall>s. cx_text cx (cx_utf8 cx s) = Some s)"

text \<open>A value that JSON text carries faithfully.\<close>

definition json_value :: "cx_suite \<Rightarrow> pyval \<Rightarrow> bool" where
  "json_value cx v \<longleftrightarrow> cx_loads cx (cx_dumps cx v) = Some v"

subsection \<open>Facts\<close>

lemma b64_value_char: "n < 64 \<Longrightarrow> b64_value (b64_char n) = Some n"
  by (auto simp: b64_value_def b64_char_def Let_def)

lemma b64_char_plain: "n < 64 \<Longrightarrow> b64_char n \<noteq> CHR ''='' \<and> (of_char (b64_char n) :: nat) < 128"
proof -
  assume n: "n < 64"
  have "b64_value (CHR ''='') = None" by (simp add: b64_value_def)
  with n b64_value_char [of n] have "b64_char n \<noteq> CHR ''=''" by auto
  with n show ?thesis by (auto simp: b64_char_def)
qed

lemma a2b_step:
  assumes "n < 64"
  shows "a2b (b64_char n # s) 0 l p = a2b s 1 n 0"
    "a2b (b64_char n # s) 1 l p = map_option ((#) (char_of (l * 4 + n div 16))) (a2b s 2 (n mod 16) 0)"
    "a2b (b64_char n # s) 2 l p = map_option ((#) (char_of (l * 16 + n div 4))) (a2b s 3 (n mod 4) 0)"
    "a2b (b64_char n # s) 3 l p = map_option ((#) (char_of (l * 64 + n))) (a2b s 0 0 0)"
  using assms by (simp_all add: b64_char_plain b64_value_char)

lemma a2b_end: "a2b ''='' 3 l p = Some []" "a2b ''=='' 2 l 0 = Some []"
  by simp_all

lemma byte_bound: "(of_char c :: nat) < 256"
  by (rule nat_of_char_less_256)

lemma group_bounds:
  fixes a b c :: nat
  assumes "a < 256" "b < 256" "c < 256"
  shows "a div 4 < 64" "a mod 4 * 16 + b div 16 < 64" "b mod 16 * 4 + c div 64 < 64" "c mod 64 < 64"
    "a div 4 * 4 + (a mod 4 * 16 + b div 16) div 16 = a"
    "(a mod 4 * 16 + b div 16) mod 16 * 16 + (b mod 16 * 4 + c div 64) div 4 = b"
    "(b mod 16 * 4 + c div 64) mod 4 * 64 + c mod 64 = c"
proof -
  have bb: "b div 16 < 16" and cc: "c div 64 < 4" using assms by auto
  have "a mod 4 < 4" "b mod 16 < 16" by simp_all
  with bb cc show "a mod 4 * 16 + b div 16 < 64" "b mod 16 * 4 + c div 64 < 64" by linarith+
  show "a div 4 < 64" "c mod 64 < 64" using assms by auto
  show "a div 4 * 4 + (a mod 4 * 16 + b div 16) div 16 = a" using bb by simp
  have "(a mod 4 * 16 + b div 16) mod 16 = b div 16" using bb by simp
  moreover have "(b mod 16 * 4 + c div 64) div 4 = b mod 16" using cc by simp
  ultimately show "(a mod 4 * 16 + b div 16) mod 16 * 16 + (b mod 16 * 4 + c div 64) div 4 = b" by simp
  have "(b mod 16 * 4 + c div 64) mod 4 = c div 64" using cc by simp
  then show "(b mod 16 * 4 + c div 64) mod 4 * 64 + c mod 64 = c" by simp
qed

definition b64_pad :: "string \<Rightarrow> string" where
  "b64_pad s = s @ replicate ((4 - length s mod 4) mod 4) (CHR ''='')"

lemma b64_pad_group: "length g = 4 \<Longrightarrow> b64_pad (g @ s) = g @ b64_pad s"
  by (simp add: b64_pad_def)

lemma a2b_encode: "a2b (b64_pad (b64url_encode x)) 0 0 0 = Some x"
proof (induction x rule: b64url_encode.induct)
  case (1 x y z r)
  let ?a = "of_char x :: nat" and ?b = "of_char y :: nat" and ?c = "of_char z :: nat"
  note g = group_bounds [of "of_char x" "of_char y" "of_char z", OF byte_bound byte_bound byte_bound]
  have "b64_pad (b64url_encode (x # y # z # r)) =
     [b64_char (?a div 4), b64_char (?a mod 4 * 16 + ?b div 16), b64_char (?b mod 16 * 4 + ?c div 64), b64_char (?c mod 64)] @
     b64_pad (b64url_encode r)"
    by (subst b64_pad_group [symmetric]) (simp_all add: Let_def)
  then show ?case using 1 by (simp only: append_Cons append_Nil a2b_step g) (simp add: g(5-7))
next
  case (2 x y)
  let ?a = "of_char x :: nat" and ?b = "of_char y :: nat"
  note g = group_bounds [of "of_char x" "of_char y" 0, OF byte_bound byte_bound]
  have "b64_pad (b64url_encode [x, y]) = [b64_char (?a div 4), b64_char (?a mod 4 * 16 + ?b div 16), b64_char (?b mod 16 * 4), CHR ''='']"
    by (simp add: b64_pad_def Let_def)
  moreover have "?b mod 16 * 4 < 64" using g(3) by simp
  moreover have "(?a mod 4 * 16 + ?b div 16) mod 16 * 16 + ?b mod 16 * 4 div 4 = ?b" using g(6) by simp
  ultimately show ?case by (simp only: a2b_step g(1,2,5)) (simp add: a2b_end)
next
  case (3 x)
  let ?a = "of_char x :: nat"
  note g = group_bounds [of "of_char x" 0 0, OF byte_bound]
  have "b64_pad (b64url_encode [x]) = [b64_char (?a div 4), b64_char (?a mod 4 * 16), CHR ''='', CHR ''='']"
    by (simp add: b64_pad_def Let_def numeral_2_eq_2)
  moreover have "?a mod 4 * 16 < 64" using g(2) by simp
  moreover have "?a div 4 * 4 + ?a mod 4 * 16 div 16 = ?a" using g(5) by simp
  ultimately show ?case by (simp only: a2b_step g(1)) (simp add: a2b_end)
next
  case 4
  then show ?case by (simp add: b64_pad_def)
qed

lemma b64url_encode_ascii: "c \<in> set (b64url_encode x) \<Longrightarrow> (of_char c :: nat) < 128"
proof (induction x rule: b64url_encode.induct)
  case (1 x y z r)
  with group_bounds [of "of_char x" "of_char y" "of_char z", OF byte_bound byte_bound byte_bound] show ?case by (auto simp: Let_def b64_char_plain)
next
  case (2 x y)
  with group_bounds [of "of_char x" "of_char y" 0, OF byte_bound byte_bound] show ?case by (auto simp: Let_def b64_char_plain)
next
  case (3 x)
  with group_bounds [of "of_char x" 0 0, OF byte_bound] show ?case by (auto simp: Let_def b64_char_plain)
qed simp

lemma b64url_roundtrip [simp]: "b64url_decode (PStr (b64url_encode x)) = Inr x"
  using a2b_encode [of x] b64url_encode_ascii [of _ x]
  by (force simp: b64url_decode_def b64_pad_def list_ex_iff not_le)

lemma info_separated: "request_info task_id intent \<noteq> ''IICP-CX-RESP-v1'' @ s"
  by (simp add: request_info_def)

lemma index_simps [simp]:
  "index ((PStr k, v) # d) k' = (if k = k' then Inr v else index d k')" "index [] k' = Inl KeyError"
  by (simp_all add: index_def)

text \<open>The key a node advertises.\<close>

definition advertised_key :: "cx_suite \<Rightarrow> octets \<Rightarrow> string \<Rightarrow> pydict" where
  "advertised_key cx private_key kid =
     [(PStr ''algorithm'', PStr ''X25519''), (PStr ''encoding'', PStr ''base64url''),
      (PStr ''key'', PStr (b64url_encode (cx_public cx private_key))), (PStr ''key_id'', PStr kid)]"

lemma sealed_opens:
  assumes "sound_suite cx" "json_value cx (PDict payload)" "cx_exchange cx ephemeral (cx_public cx node_private) = Inr secret"
    "CHR ''|'' \<notin> set task_id"
  shows "\<exists>conf. encrypt_payload_with_context cx ephemeral nonce payload (advertised_key cx node_private kid) task_id intent = Inr (conf, secret) \<and>
    decrypt_payload_with_context cx conf node_private = Inr (PDict payload, secret) \<and> sget conf ''payload'' = PNone"
proof -
  let ?aad = "cx_utf8 cx (task_id @ ''|'' @ intent)"
  let ?key = "cx_hkdf cx nonce (cx_utf8 cx (request_info task_id intent)) secret"
  let ?ct = "cx_seal cx ?key nonce (cx_dumps cx (PDict payload)) ?aad"
  let ?conf = "[(PStr ''version'', PInt 1), (PStr ''recipient_key_id'', PStr kid),
    (PStr ''kem_ciphertext'', PStr (b64url_encode (cx_public cx ephemeral))), (PStr ''encrypted_body'', PStr (b64url_encode ?ct)),
    (PStr ''nonce'', PStr (b64url_encode nonce)), (PStr ''aad'', PStr (b64url_encode ?aad)),
    (PStr ''plaintext_size'', PInt (int (length (cx_dumps cx (PDict payload)))))]"
  have laws: "cx_exchange cx node_private (cx_public cx ephemeral) = Inr secret" "cx_open cx ?key nonce ?ct ?aad = Some (cx_dumps cx (PDict payload))"
    "cx_text cx ?aad = Some (task_id @ ''|'' @ intent)"
    using assms(1,3) unfolding sound_suite_def by blast+
  have split: "before (CHR ''|'') (task_id @ ''|'' @ intent) = task_id" "after (CHR ''|'') (task_id @ ''|'' @ intent) = intent"
    using assms(4) by (auto simp: before_def after_def takeWhile_append dropWhile_append)
  have "encrypt_payload_with_context cx ephemeral nonce payload (advertised_key cx node_private kid) task_id intent = Inr (?conf, secret)"
    by (simp add: encrypt_payload_with_context_def advertised_key_def sget_def get_or_def assms(3) Let_def)
  moreover have "decrypt_payload_with_context cx ?conf node_private = Inr (PDict payload, secret)"
    using assms(2) by (simp add: decrypt_payload_with_context_def laws split json_value_def Let_def del: append_Cons append_Nil)
  moreover have "sget ?conf ''payload'' = PNone" by (simp add: sget_def get_or_def)
  ultimately show ?thesis by (intro exI [of _ ?conf] conjI)
qed

lemma response_opens:
  assumes "sound_suite cx" "json_value cx response"
  shows "decrypt_response cx (encrypt_response cx nonce response secret task_id) secret task_id = Inr response"
proof -
  have "cx_open cx k n (cx_seal cx k n m a) a = Some m" for k n m a using assms(1) unfolding sound_suite_def by blast
  with assms(2) show ?thesis by (simp add: decrypt_response_def encrypt_response_def json_value_def Let_def)
qed

subsection \<open>Properties\<close>

text \<open>What a client seals, the node opens, and back. For any node key pair whose public half the directory advertises in
  base64url, any ephemeral key, nonces and payload: the envelope opens at the node to the same payload, both sides
  hold the same session secret, and a response sealed by the node under it opens at the client to the same
  response; neither the prompt envelope nor the response carries the payload in the clear, and the key derivation labels of
  the two directions are never equal. This rests on the agreement of the key exchange and the correctness of the
  sealing primitive, and on a task identifier without a vertical bar.\<close>

lemma confidential_roundtrip:
  assumes "sound_suite cx" "json_value cx (PDict payload)" "json_value cx response"
    "cx_exchange cx ephemeral (cx_public cx node_private) = Inr secret" "CHR ''|'' \<notin> set task_id"
  shows "\<exists>conf. encrypt_payload_with_context cx ephemeral nonce payload (advertised_key cx node_private kid) task_id intent = Inr (conf, secret) \<and>
      decrypt_payload_with_context cx conf node_private = Inr (PDict payload, secret) \<and>
      sget conf ''payload'' = PNone \<and>
      decrypt_response cx (encrypt_response cx nonce' response secret task_id) secret task_id = Inr response \<and>
      request_info task_id intent \<noteq> ''IICP-CX-RESP-v1'' @ task_id'"
  using sealed_opens [OF assms(1,2,4,5)] response_opens [OF assms(1,3)] info_separated by blast

definition toy_suite :: cx_suite where
  "toy_suite =
     \<lparr>cx_public = (\<lambda>k. k), cx_exchange = (\<lambda>a b. Inr (if a \<le> b then a @ b else b @ a)), cx_hkdf = (\<lambda>s i k. k),
      cx_seal = (\<lambda>k n m a. m), cx_open = (\<lambda>k n c a. Some c), cx_utf8 = (\<lambda>s. s), cx_text = Some,
      cx_dumps = (\<lambda>v. if v = PDict [] then ''{}'' else ''p''),
      cx_loads = (\<lambda>s. Some (if s = ''{}'' then PDict [] else PDict [(PStr ''prompt'', PStr ''hi'')]))\<rparr>"

end
