(* ===== verification/Node_Policy.thy ===== *)
theory Node_Policy
  imports Py_Value
begin

text \<open>
  Which discovered nodes may receive a prompt, and in which order they are tried: the routing policy
  (\<open>routing_policy.py\<close>), the client's selection strategies (\<open>IicpClient._select_candidates\<close>, \<open>selection.py\<close>) and the
  optional candidate ranker. Parameters: the digest that hides node identifiers from the ranker, the ranker itself
  (code of the embedding application), the text of values that are neither strings nor integers, and the draws of the
  random generator.
\<close>

subsection \<open>Data (\<open>types.py\<close>)\<close>

record routing_policy =
  rp_profile :: string
  rp_allowed_regions :: "string list option"
  rp_require_encryption :: "bool option"
  rp_require_policy_manifest :: "bool option"
  rp_require_no_payload_retention :: "bool option"
  rp_allow_remote_executor :: "bool option"
  rp_known_operator_only :: "bool option"
  rp_required_manifest_identity_level :: "string option"

definition default_policy :: routing_policy where
  "default_policy =
     \<lparr>rp_profile = ''standard'', rp_allowed_regions = None, rp_require_encryption = None, rp_require_policy_manifest = None,
      rp_require_no_payload_retention = None, rp_allow_remote_executor = None, rp_known_operator_only = None,
      rp_required_manifest_identity_level = None\<rparr>"

record node =
  n_node_id :: string
  n_endpoint :: string
  n_score :: real
  n_available :: bool
  n_region :: string
  n_load :: real
  n_latency_estimate_ms :: pyval
  n_reputation_score :: pyval
  n_health_label :: pyval
  n_exposure_mode :: pyval
  n_cx_public_key :: "pydict option"
  n_transport :: "pyval list option"
  n_directory_observed_reachable :: "bool option"
  n_route_evidence :: "string option"
  n_routing_hint :: "string option"
  n_browser_usable :: "bool option"
  n_latency_evidence :: "pydict option"
  n_health_reasons :: "pyval list option"
  n_trust_progress :: "pydict option"
  n_sdk_release :: "pydict option"
  n_node_policy_manifest :: "pydict option"
  n_dispatch_ticket_id_prefix :: pyval
  n_models :: "string list option"

text \<open>Truth of an optional dictionary or list: absent and empty are both false.\<close>

definition filled :: "'a list option \<Rightarrow> bool" where
  "filled x = (case x of None \<Rightarrow> False | Some ys \<Rightarrow> ys \<noteq> [])"

subsection \<open>Policy resolution\<close>

record policy_defaults =
  d_encryption :: bool
  d_remote :: bool
  d_manifest :: bool
  d_no_retention :: bool
  d_regions :: "string list option"

definition EU_REGION_PREFIXES :: "string list" where "EU_REGION_PREFIXES = [''eu'', ''eea'']"

definition standard_defaults :: policy_defaults where
  "standard_defaults = \<lparr>d_encryption = True, d_remote = True, d_manifest = False, d_no_retention = False, d_regions = None\<rparr>"

definition profile_table :: "(string \<times> policy_defaults) list" where
  "profile_table =
     [(''standard'', standard_defaults),
      (''sensitive'', standard_defaults\<lparr>d_remote := False\<rparr>),
      (''eu_restricted'', standard_defaults\<lparr>d_regions := Some EU_REGION_PREFIXES\<rparr>),
      (''strict_policy'', standard_defaults\<lparr>d_manifest := True, d_no_retention := True\<rparr>),
      (''debug_override'', standard_defaults\<lparr>d_encryption := False\<rparr>)]"

definition normal_profile :: "string \<Rightarrow> string" where
  "normal_profile p = lower (map (\<lambda>c. if c = CHR ''-'' then CHR ''_'' else c) (if p = [] then ''standard'' else p))"

definition resolved_policy :: "routing_policy option \<Rightarrow> routing_policy" where
  "resolved_policy policy =
     (let src = (case policy of None \<Rightarrow> default_policy | Some p \<Rightarrow> p);
          wanted = normal_profile (rp_profile src);
          (prof, d) = (case map_of profile_table wanted of None \<Rightarrow> (''standard'', standard_defaults) | Some d \<Rightarrow> (wanted, d));
          pick = (\<lambda>x b. Some (case x of None \<Rightarrow> b | Some v \<Rightarrow> v))
      in \<lparr>rp_profile = prof,
          rp_allowed_regions = (case rp_allowed_regions src of None \<Rightarrow> d_regions d | Some rs \<Rightarrow> Some rs),
          rp_require_encryption = pick (rp_require_encryption src) (d_encryption d),
          rp_require_policy_manifest = pick (rp_require_policy_manifest src) (d_manifest d),
          rp_require_no_payload_retention = pick (rp_require_no_payload_retention src) (d_no_retention d),
          rp_allow_remote_executor = pick (rp_allow_remote_executor src) (d_remote d),
          rp_known_operator_only = pick (rp_known_operator_only src) False,
          rp_required_manifest_identity_level = rp_required_manifest_identity_level src\<rparr>)"

subsection \<open>Checks of one node\<close>

definition region_allowed :: "string \<Rightarrow> string list \<Rightarrow> bool" where
  "region_allowed reg allowed =
     (let value = lower (strip reg) in
      list_ex (\<lambda>raw. let item = lower (strip raw) in
        item \<noteq> [] \<and> (value = item \<or> starts_with value (item @ ''-'') \<or> item = ''eea'' \<and> starts_with value ''eu-'')) allowed)"

definition manifest_signed_verified :: "pydict option \<Rightarrow> bool" where
  "manifest_signed_verified manifest =
     (case manifest of
        None \<Rightarrow> False
      | Some m \<Rightarrow> m \<noteq> [] \<and>
          ((case sget m ''verification'' of PDict v \<Rightarrow> sget v ''status'' = PStr ''signed_valid'' | _ \<Rightarrow> False) \<or>
           sget m ''evidence'' = PStr ''signed_verified''))"

definition declares_no_payload_retention :: "pydict option \<Rightarrow> bool" where
  "declares_no_payload_retention manifest =
     (case manifest of
        None \<Rightarrow> False
      | Some m \<Rightarrow> m \<noteq> [] \<and> (case sget m ''retention'' of PDict r \<Rightarrow> sget r ''task_payload'' = PStr ''none'' | _ \<Rightarrow> False))"

definition MANIFEST_IDENTITY_RANK :: "(string \<times> int) list" where
  "MANIFEST_IDENTITY_RANK =
     [(''self_attested'', 0), (''signed_valid'', 1), (''operator_bound'', 2), (''known_operator'', 3), (''rotated'', -1), (''revoked'', -1)]"

definition identity_rank :: "string \<Rightarrow> int" where
  "identity_rank level = (case map_of MANIFEST_IDENTITY_RANK level of None \<Rightarrow> -1 | Some r \<Rightarrow> r)"

definition manifest_identity_rejection_reason :: "(pyval \<Rightarrow> string) \<Rightarrow> pydict option \<Rightarrow> string \<Rightarrow> string option" where
  "manifest_identity_rejection_reason text_of manifest required_level =
     (let wanted = lower (strip required_level);
          required = (if wanted \<in> {''signed_valid'', ''operator_bound'', ''known_operator''} then wanted else ''known_operator'')
      in case manifest of
           None \<Rightarrow> Some ''missing_manifest_identity''
         | Some m \<Rightarrow>
             if m = [] then Some ''missing_manifest_identity''
             else let v = sget m ''manifest_identity_level'';
                      level = (if truthy v then lower (strip (py_str text_of v)) else [])
               in if level = [] then Some ''missing_manifest_identity''
                  else if level \<in> {''revoked'', ''rotated''} then Some ''policy_manifest_revoked_or_rotated''
                  else if identity_rank level < identity_rank required then Some ''manifest_identity_level_too_low''
                  else None)"

definition node_rejection_reason :: "(pyval \<Rightarrow> string) \<Rightarrow> node \<Rightarrow> routing_policy \<Rightarrow> bool \<Rightarrow> string option" where
  "node_rejection_reason text_of n policy allow_plaintext_debug =
     (let manifest = n_node_policy_manifest n;
          level = (case rp_required_manifest_identity_level policy of
                     Some l \<Rightarrow> if l \<noteq> [] then l else if rp_known_operator_only policy = Some True then ''known_operator'' else []
                   | None \<Rightarrow> if rp_known_operator_only policy = Some True then ''known_operator'' else [])
      in if rp_allow_remote_executor policy = Some False then Some ''remote_executor_disabled''
         else if filled (rp_allowed_regions policy) \<and> \<not> region_allowed (n_region n) (the (rp_allowed_regions policy))
         then Some ''region_not_allowed''
         else if rp_require_encryption policy = Some True \<and> \<not> filled (n_cx_public_key n) \<and> \<not> allow_plaintext_debug
         then Some ''missing_encryption_key''
         else if rp_require_policy_manifest policy = Some True \<and> \<not> filled manifest then Some ''missing_policy_manifest''
         else if rp_profile policy = ''strict_policy'' \<and> \<not> manifest_signed_verified manifest
         then Some ''policy_manifest_not_signed''
         else if rp_require_no_payload_retention policy = Some True \<and> \<not> declares_no_payload_retention manifest
         then Some ''payload_retention_not_none''
         else if level \<noteq> [] then manifest_identity_rejection_reason text_of manifest level
         else None)"

record policy_decision =
  eligible :: "node list"
  rejected_reasons :: "string list"
  skipped_keyless :: nat

definition filter_step :: "(pyval \<Rightarrow> string) \<Rightarrow> routing_policy \<Rightarrow> bool \<Rightarrow> policy_decision \<Rightarrow> node \<Rightarrow> policy_decision" where
  "filter_step text_of effective allow_plaintext_debug d n =
     (case node_rejection_reason text_of n effective allow_plaintext_debug of
        Some reason \<Rightarrow>
          d\<lparr>rejected_reasons := rejected_reasons d @ [reason],
            skipped_keyless := (if reason = ''missing_encryption_key'' then Suc (skipped_keyless d) else skipped_keyless d)\<rparr>
      | None \<Rightarrow> d\<lparr>eligible := eligible d @ [n]\<rparr>)"

definition filter_nodes_for_routing_policy ::
  "(pyval \<Rightarrow> string) \<Rightarrow> node list \<Rightarrow> routing_policy option \<Rightarrow> bool \<Rightarrow> policy_decision" where
  "filter_nodes_for_routing_policy text_of nodes policy allow_plaintext_debug =
     foldl (filter_step text_of (resolved_policy policy) allow_plaintext_debug)
       \<lparr>eligible = [], rejected_reasons = [], skipped_keyless = 0\<rparr> nodes"

subsection \<open>Selection strategies\<close>

text \<open>The order of tries is made of \<open>chosen\<close> first and the leading nodes after it. The number of tries is at least 1 at
  every call.\<close>

fun weighted_pick :: "('a \<times> real) list \<Rightarrow> real \<Rightarrow> 'a \<Rightarrow> 'a" where
  "weighted_pick [] remaining final = final"
| "weighted_pick ((n, w) # rest) remaining final =
     (if remaining - w \<le> 0 then n else weighted_pick rest (remaining - w) final)"

definition node_weight :: "node \<Rightarrow> real" where
  "node_weight n = max (n_score n) (1/100) / (1 + max 0 (min (n_load n) 1))"

definition weighted_v1_order :: "node list \<Rightarrow> nat \<Rightarrow> real \<Rightarrow> int \<Rightarrow> node list" where
  "weighted_v1_order nodes max_retries random_value top_k =
     (if length nodes \<le> 1 then take max_retries nodes
      else let pool = take (nat (max 1 (min (int (length nodes)) top_k))) nodes;
               weights = map node_weight pool;
               remaining = max 0 (min random_value (999999999/1000000000)) * sum_list weights;
               chosen = weighted_pick (zip pool weights) remaining (last pool)
           in take max_retries (chosen # filter (\<lambda>n. n_node_id n \<noteq> n_node_id chosen) (take max_retries nodes)))"

record draws =
  dr_random :: real
  dr_choice :: nat

text \<open>\<open>random.choices\<close> with weights: bisection of the cumulative weights, clipped to the last index.\<close>

definition choices_index :: "real list \<Rightarrow> real \<Rightarrow> nat" where
  "choices_index weights u =
     (let x = u * sum_list weights
      in min (length (takeWhile (\<lambda>i. sum_list (take (Suc i) weights) \<le> x) [0..<length weights])) (length weights - 1))"

definition explore :: "node \<Rightarrow> node list \<Rightarrow> nat \<Rightarrow> node list" where
  "explore chosen all_nodes top_n =
     chosen # take (top_n - 1) (filter (\<lambda>n. n_node_id n \<noteq> n_node_id chosen) (take top_n all_nodes))"

record routing_config =
  routing_epsilon :: real
  routing_strategy :: string
  routing_top_k :: int
  routing_softmax_tau :: real

definition select_candidates :: "routing_config \<Rightarrow> draws \<Rightarrow> node list \<Rightarrow> nat \<Rightarrow> node list" where
  "select_candidates cfg r all_nodes top_n =
     (if routing_strategy cfg = ''deterministic'' \<or> length all_nodes \<le> 1 then take top_n all_nodes
      else if routing_strategy cfg = ''weighted_v1'' then weighted_v1_order all_nodes top_n (dr_random r) (routing_top_k cfg)
      else if routing_strategy cfg = ''softmax_top_k''
      then let pool = take (nat (max 1 (min (int (length all_nodes)) (routing_top_k cfg)))) all_nodes;
               tau = max (1/1000) (routing_softmax_tau cfg);
               max_score = Max (set (map n_score pool));
               weights = map (\<lambda>n. exp ((n_score n - max_score) / tau)) pool
           in explore (pool ! choices_index weights (dr_random r)) all_nodes top_n
      else if dr_random r < routing_epsilon cfg
      then explore (all_nodes ! (dr_choice r mod length all_nodes)) all_nodes top_n
      else take top_n all_nodes)"

subsection \<open>Candidate ranker\<close>

record candidate_evidence =
  ce_schema_version :: string
  ce_candidate_ref :: string
  ce_models :: "string list"
  ce_directory_score :: real
  ce_load :: real
  ce_health_label :: pyval
  ce_directory_observed_reachable :: "bool option"

record ranker_decision =
  rd_candidate_ref :: string
  rd_policy_id :: string
  rd_mode :: string

datatype ranker_reply = NoOpinion | Ranked ranker_decision | ForeignObject | RankerRaised

datatype ranker_error = BadReply | BadPolicyId | BadMode | OutsideEligible | RankerFailed

definition opaque_ref :: "(string \<Rightarrow> string) \<Rightarrow> string \<Rightarrow> string \<Rightarrow> string" where
  "opaque_ref sha256 realm value = sha256 (''iicp:'' @ realm @ '':v0'' @ [char_of (10 :: nat)] @ value)"

definition candidate_evidence_v0 :: "(string \<Rightarrow> string) \<Rightarrow> node \<Rightarrow> candidate_evidence" where
  "candidate_evidence_v0 sha256 n =
     \<lparr>ce_schema_version = ''iicp-candidate-evidence-v0'', ce_candidate_ref = opaque_ref sha256 ''candidate'' (n_node_id n),
      ce_models = (case n_models n of None \<Rightarrow> [] | Some ms \<Rightarrow> ms), ce_directory_score = n_score n, ce_load = n_load n,
      ce_health_label = n_health_label n, ce_directory_observed_reachable = n_directory_observed_reachable n\<rparr>"

definition valid_policy_id :: "string \<Rightarrow> bool" where
  "valid_policy_id v \<longleftrightarrow> v \<noteq> [] \<and> length v \<le> 64 \<and> list_all (\<lambda>c. is_ascii_alnum c \<or> c \<in> set ''._-'') v"

definition apply_candidate_ranker ::
  "(string \<Rightarrow> string) \<Rightarrow> (string \<Rightarrow> candidate_evidence list \<Rightarrow> ranker_reply) \<Rightarrow> string \<Rightarrow> node list \<Rightarrow> node list \<Rightarrow> nat
    \<Rightarrow> ranker_error + node list \<times> ranker_decision option" where
  "apply_candidate_ranker sha256 ranker task_id eligible_nodes built_in_order bound =
     (let evidence = map (candidate_evidence_v0 sha256) eligible_nodes
      in case ranker (opaque_ref sha256 ''request'' task_id) evidence of
           RankerRaised \<Rightarrow> Inl RankerFailed
         | NoOpinion \<Rightarrow> Inr (built_in_order, None)
         | ForeignObject \<Rightarrow> Inl BadReply
         | Ranked d \<Rightarrow>
             if \<not> valid_policy_id (rd_policy_id d) then Inl BadPolicyId
             else if rd_mode d \<notin> {''normal'', ''exploration''} then Inl BadMode
             else case List.find (\<lambda>(c, n). ce_candidate_ref c = rd_candidate_ref d) (zip evidence eligible_nodes) of
                 None \<Rightarrow> Inl OutsideEligible
               | Some (_, selected) \<Rightarrow>
                   Inr (take bound (selected # filter (\<lambda>n. n_node_id n \<noteq> n_node_id selected) built_in_order), Some d))"

definition ranker_receipt_profile :: "ranker_decision \<Rightarrow> nat \<Rightarrow> string" where
  "ranker_receipt_profile d selected_candidate_index =
     ''external_ranker/'' @ rd_policy_id d @ ''/'' @ (if selected_candidate_index = 0 then rd_mode d else ''fallback'')"

subsection \<open>Facts: the policy\<close>

lemma normal_profile_known [simp]:
  "normal_profile ''standard'' = ''standard''" "normal_profile ''sensitive'' = ''sensitive''"
  "normal_profile ''eu_restricted'' = ''eu_restricted''" "normal_profile ''strict_policy'' = ''strict_policy''"
  "normal_profile ''debug_override'' = ''debug_override''"
  by (simp_all add: normal_profile_def lower_def lower_char_def)

lemma resolved_profile_known:
  "rp_profile (resolved_policy p) \<in> {''standard'', ''sensitive'', ''eu_restricted'', ''strict_policy'', ''debug_override''}"
  by (auto simp: resolved_policy_def profile_table_def Let_def split: option.splits if_splits prod.splits)

lemma resolved_policy_idem: "resolved_policy (Some (resolved_policy p)) = resolved_policy p"
proof -
  obtain prof d where *: "(case map_of profile_table (normal_profile (rp_profile (case p of None \<Rightarrow> default_policy | Some q \<Rightarrow> q))) of
      None \<Rightarrow> (''standard'', standard_defaults)
    | Some d \<Rightarrow> (normal_profile (rp_profile (case p of None \<Rightarrow> default_policy | Some q \<Rightarrow> q)), d)) = (prof, d)"
    by (rule prod.exhaust)
  then have "map_of profile_table (normal_profile prof) = Some d \<and> normal_profile prof = prof"
    by (auto simp: profile_table_def split: option.splits if_splits)
  with * show ?thesis
    by (auto simp: resolved_policy_def Let_def split: option.splits)
qed

lemma filter_step_fold:
  "foldl (filter_step text_of q a) d ns =
     \<lparr>eligible = eligible d @ filter (\<lambda>n. node_rejection_reason text_of n q a = None) ns,
      rejected_reasons = rejected_reasons d @ List.map_filter (\<lambda>n. node_rejection_reason text_of n q a) ns,
      skipped_keyless = skipped_keyless d +
        length (filter (\<lambda>n. node_rejection_reason text_of n q a = Some ''missing_encryption_key'') ns)\<rparr>"
  by (induction ns arbitrary: d) (auto simp: filter_step_def map_filter_simps split: option.splits)

lemma filter_nodes_fields:
  "eligible (filter_nodes_for_routing_policy text_of ns p a) =
     filter (\<lambda>n. node_rejection_reason text_of n (resolved_policy p) a = None) ns"
  "rejected_reasons (filter_nodes_for_routing_policy text_of ns p a) =
     List.map_filter (\<lambda>n. node_rejection_reason text_of n (resolved_policy p) a) ns"
  "skipped_keyless (filter_nodes_for_routing_policy text_of ns p a) =
     length (filter (\<lambda>n. node_rejection_reason text_of n (resolved_policy p) a = Some ''missing_encryption_key'') ns)"
  by (simp_all add: filter_nodes_for_routing_policy_def filter_step_fold)

lemma accepted_node:
  assumes "node_rejection_reason text_of n q a = None"
  shows "rp_require_encryption q = Some True \<Longrightarrow> filled (n_cx_public_key n) \<or> a"
    "rp_allow_remote_executor q \<noteq> Some False"
    "filled (rp_allowed_regions q) \<Longrightarrow> region_allowed (n_region n) (the (rp_allowed_regions q))"
    "rp_profile q = ''strict_policy'' \<Longrightarrow> manifest_signed_verified (n_node_policy_manifest n)"
    "rp_require_no_payload_retention q = Some True \<Longrightarrow> declares_no_payload_retention (n_node_policy_manifest n)"
  using assms by (simp_all add: node_rejection_reason_def Let_def split: if_splits)

lemma profile_defaults_of:
  "rp_require_encryption (resolved_policy (Some (default_policy\<lparr>rp_profile := p\<rparr>))) = Some (normal_profile p \<noteq> ''debug_override'')"
  "rp_allow_remote_executor (resolved_policy (Some (default_policy\<lparr>rp_profile := p\<rparr>))) = Some (normal_profile p \<noteq> ''sensitive'')"
  "rp_allowed_regions (resolved_policy (Some (default_policy\<lparr>rp_profile := p\<rparr>))) =
     (if normal_profile p = ''eu_restricted'' then Some [''eu'', ''eea''] else None)"
  "rp_require_no_payload_retention (resolved_policy (Some (default_policy\<lparr>rp_profile := p\<rparr>))) = Some (normal_profile p = ''strict_policy'')"
  "rp_profile (resolved_policy (Some (default_policy\<lparr>rp_profile := p\<rparr>))) = ''strict_policy'' \<longleftrightarrow> normal_profile p = ''strict_policy''"
  by (simp_all add: resolved_policy_def default_policy_def profile_table_def standard_defaults_def EU_REGION_PREFIXES_def Let_def)

subsection \<open>Facts: the order of tries\<close>

text \<open>What every order of tries keeps: only eligible nodes, at most \<open>k\<close>, each identifier once, and some node if there is one.\<close>

definition fair_order :: "node list \<Rightarrow> nat \<Rightarrow> node list \<Rightarrow> bool" where
  "fair_order nodes k order \<longleftrightarrow>
     set order \<subseteq> set nodes \<and> length order \<le> k \<and> (distinct (map n_node_id nodes) \<longrightarrow> distinct (map n_node_id order)) \<and>
     (nodes \<noteq> [] \<longrightarrow> 0 < k \<longrightarrow> order \<noteq> [])"

lemma distinct_key_filter: "distinct (map f xs) \<Longrightarrow> distinct (map f (filter P xs))"
  by (induction xs) auto

lemma distinct_key_take: "distinct (map f xs) \<Longrightarrow> distinct (map f (take k xs))"
  by (simp add: take_map [symmetric] distinct_take)

lemma fair_take: "fair_order nodes k (take k nodes)"
  by (auto simp: fair_order_def distinct_key_take dest: in_set_takeD)

lemma fair_front:
  assumes "c \<in> set nodes" "set rest \<subseteq> set nodes" "distinct (map n_node_id nodes) \<longrightarrow> distinct (map n_node_id rest)"
  shows "fair_order nodes k (take k (c # filter (\<lambda>n. n_node_id n \<noteq> n_node_id c) rest))"
proof -
  let ?order = "c # filter (\<lambda>n. n_node_id n \<noteq> n_node_id c) rest"
  have "distinct (map n_node_id ?order)" if "distinct (map n_node_id nodes)"
    using assms(3) that by (auto intro: distinct_key_filter)
  moreover have "set ?order \<subseteq> set nodes" using assms by auto
  moreover have "set (take k ?order) \<subseteq> set ?order" by (rule set_take_subset)
  ultimately show ?thesis
    using distinct_key_take [of n_node_id ?order k] unfolding fair_order_def by auto
qed

lemma fair_explore:
  assumes "c \<in> set nodes" "0 < k"
  shows "fair_order nodes k (explore c nodes k)"
proof -
  have "explore c nodes k = take k (c # filter (\<lambda>n. n_node_id n \<noteq> n_node_id c) (take k nodes))"
    using assms(2) by (cases k) (auto simp: explore_def)
  then show ?thesis
    using fair_front [OF assms(1), of "take k nodes" k] by (auto simp: distinct_key_take dest: in_set_takeD)
qed

lemma weighted_pick_in: "weighted_pick ps r final \<in> insert final (fst ` set ps)"
  by (induction ps r final rule: weighted_pick.induct) auto

lemma pool_not_empty: "ns \<noteq> [] \<Longrightarrow> take (nat (max 1 (min (int (length ns)) k))) ns \<noteq> []"
  by (cases ns) auto

lemma fair_weighted: "fair_order nodes k (weighted_v1_order nodes k u top_k)"
proof (cases "length nodes \<le> 1")
  case True
  then show ?thesis by (simp add: weighted_v1_order_def fair_take)
next
  case False
  let ?pool = "take (nat (max 1 (min (int (length nodes)) top_k))) nodes"
  let ?w = "map node_weight ?pool"
  let ?c = "weighted_pick (zip ?pool ?w) (max 0 (min u (999999999/1000000000)) * sum_list ?w) (last ?pool)"
  have "?pool \<noteq> []" using False pool_not_empty [of nodes top_k] by fastforce
  then have "?c \<in> set ?pool"
    using weighted_pick_in [of "zip ?pool ?w" "max 0 (min u (999999999/1000000000)) * sum_list ?w" "last ?pool"]
    by (auto dest: set_zip_leftD)
  then have "?c \<in> set nodes" by (rule in_set_takeD)
  then have "fair_order nodes k (take k (?c # filter (\<lambda>n. n_node_id n \<noteq> n_node_id ?c) (take k nodes)))"
    by (rule fair_front) (auto simp: distinct_key_take dest: in_set_takeD)
  with False show ?thesis by (simp add: weighted_v1_order_def Let_def)
qed

lemma choices_index_less: "weights \<noteq> [] \<Longrightarrow> choices_index weights u < length weights"
  by (auto simp: choices_index_def Let_def min_less_iff_disj)

lemma fair_select:
  assumes "0 < k"
  shows "fair_order nodes k (select_candidates cfg r nodes k)"
proof (cases "length nodes \<le> 1")
  case False
  let ?pool = "take (nat (max 1 (min (int (length nodes)) (routing_top_k cfg)))) nodes"
  have ne: "?pool \<noteq> []" using False pool_not_empty [of nodes "routing_top_k cfg"] by fastforce
  have "?pool ! choices_index ws (dr_random r) \<in> set nodes" if "length ws = length ?pool" for ws
  proof -
    from ne that have "ws \<noteq> []" by (metis length_0_conv)
    with that have "choices_index ws (dr_random r) < length ?pool" by (metis choices_index_less)
    then show ?thesis by (rule in_set_takeD [OF nth_mem])
  qed
  moreover have "nodes ! (dr_choice r mod length nodes) \<in> set nodes" using False by (intro nth_mem) (auto intro: mod_less_divisor)
  ultimately show ?thesis
    using assms by (auto simp: select_candidates_def Let_def fair_take fair_weighted intro!: fair_explore)
qed (simp add: select_candidates_def fair_take)

lemma fair_ranked:
  assumes "apply_candidate_ranker sha256 ranker task_id nodes order k = Inr (cs, d)" "fair_order nodes k order"
  shows "fair_order nodes k cs"
proof -
  have "cs = order \<or> (\<exists>s \<in> set nodes. cs = take k (s # filter (\<lambda>n. n_node_id n \<noteq> n_node_id s) order))"
    using assms(1) unfolding apply_candidate_ranker_def Let_def
    by (fastforce simp: find_Some_iff split: ranker_reply.splits if_splits option.splits)
  then consider "cs = order" | s where "s \<in> set nodes" "cs = take k (s # filter (\<lambda>n. n_node_id n \<noteq> n_node_id s) order)"
    by blast
  then show ?thesis
    using assms(2) fair_front [of _ nodes order k] by cases (auto simp: fair_order_def)
qed

subsection \<open>Properties\<close>

text \<open>C36: The routing profiles guarantee what they name. Whatever the caller leaves open, and whatever spelling the
  profile name has: an unset or unknown profile counts as standard; a node let through under \<open>standard\<close>,
  \<open>sensitive\<close>, \<open>eu_restricted\<close> or \<open>strict_policy\<close> defaults has an encryption key unless plaintext was allowed; \<open>sensitive\<close>
  lets no remote node through; \<open>eu_restricted\<close> only nodes of an EU or EEA region; \<open>strict_policy\<close> only nodes with a
  signed manifest that declares no payload retention.\<close>

theorem profile_guarantees:
  assumes "n \<in> set (eligible (filter_nodes_for_routing_policy text_of ns (Some (default_policy\<lparr>rp_profile := p\<rparr>)) plaintext))"
  shows "n \<in> set ns \<and>
    (normal_profile p \<noteq> ''debug_override'' \<longrightarrow> filled (n_cx_public_key n) \<or> plaintext) \<and>
    normal_profile p \<noteq> ''sensitive'' \<and>
    (normal_profile p = ''eu_restricted'' \<longrightarrow> region_allowed (n_region n) [''eu'', ''eea'']) \<and>
    (normal_profile p = ''strict_policy'' \<longrightarrow>
       manifest_signed_verified (n_node_policy_manifest n) \<and> declares_no_payload_retention (n_node_policy_manifest n))"
proof -
  let ?q = "resolved_policy (Some (default_policy\<lparr>rp_profile := p\<rparr>))"
  have "n \<in> set ns" and "node_rejection_reason text_of n ?q plaintext = None" using assms by (auto simp: filter_nodes_fields)
  note accepted = accepted_node [OF this(2)]
  note q = profile_defaults_of [of p]
  show ?thesis using accepted \<open>n \<in> set ns\<close> unfolding q by (auto simp: filled_def)
qed

definition plain_node :: "string \<Rightarrow> pydict option \<Rightarrow> string \<Rightarrow> node" where
  "plain_node i key reg =
     \<lparr>n_node_id = i, n_endpoint = ''https://example.org'', n_score = 1, n_available = True, n_region = reg, n_load = 0,
      n_latency_estimate_ms = PNone, n_reputation_score = PNone, n_health_label = PNone, n_exposure_mode = PNone,
      n_cx_public_key = key, n_transport = None, n_directory_observed_reachable = None, n_route_evidence = None,
      n_routing_hint = None, n_browser_usable = None, n_latency_evidence = None, n_health_reasons = None,
      n_trust_progress = None, n_sdk_release = None, n_node_policy_manifest = None, n_dispatch_ticket_id_prefix = PNone,
      n_models = None\<rparr>"

theorem profile_guarantees_witness:
  "let n = plain_node ''a'' (Some [(PStr ''algorithm'', PStr ''X25519'')]) ''EU-west'' in
   n \<in> set (eligible (filter_nodes_for_routing_policy (\<lambda>_. []) [n, plain_node ''b'' None ''us-east''] (Some (default_policy\<lparr>rp_profile := ''EU-restricted''\<rparr>)) False)) \<and>
   region_allowed ''EU-west'' [''eu'', ''eea'']"
proof -
  let ?n = "plain_node ''a'' (Some [(PStr ''algorithm'', PStr ''X25519'')]) ''EU-west''"
  have p: "normal_profile ''EU-restricted'' = ''eu_restricted''"
    by code_simp
  have r: "region_allowed ''EU-west'' [''eu'', ''eea'']" by code_simp
  have "?n \<in> set (eligible (filter_nodes_for_routing_policy (\<lambda>_. []) [?n, plain_node ''b'' None ''us-east''] (Some (default_policy\<lparr>rp_profile := ''EU-restricted''\<rparr>)) False))"
    by (simp add: filter_nodes_fields resolved_policy_def default_policy_def p r profile_table_def standard_defaults_def
        EU_REGION_PREFIXES_def node_rejection_reason_def plain_node_def filled_def)
  with profile_guarantees [OF this] p show ?thesis by (simp add: plain_node_def)
qed

end
