(* ===== verification/Client.thy ===== *)
theory Client
  imports Client_Checks Confidentiality Node_Policy
begin

text \<open>
  The client (\<open>client.py\<close>, \<open>request_projection.py\<close>): discovery of routes by ticket or by listing, selection, and
  submission with retries and fallback. Effects go through a world: the network of \<open>Http_Client\<close>, the wall clock, the random
  generator, the sleeping clock, the secrets. A submission returns, next to its outcome, the list of its task
  posts: the node, the body, and the requests that \<open>post_json\<close> made for it. Logging, trace headers and error texts are
  not modelled, nor is the table of restricted eligibilities, which nothing reads.
\<close>

subsection \<open>Data (\<open>types.py\<close>)\<close>

record profile_request =
  pq_profile_id :: string
  pq_profile_version :: string
  pq_profile_fixture_sha256 :: string
  pq_required :: bool

record client_config =
  cc_directory_url :: string
  cc_region :: "string option"
  cc_timeout_ms :: int
  cc_max_retries :: int
  cc_routing :: routing_config
  cc_node_token :: "string option"
  cc_consumer_auth_mode :: string
  cc_routing_policy :: routing_policy
  cc_route_discovery_mode :: string
  cc_profile_request :: "profile_request option"
  cc_restricted_directory :: "restricted_context option"

record task_constraints =
  kc_timeout_ms :: int
  kc_qos :: string
  kc_region :: "string option"
  kc_model :: "string option"
  kc_min_reputation :: "real option"

record route_constraints =
  rc_region :: "string option"
  rc_qos :: "string option"
  rc_model :: "string option"
  rc_min_reputation :: "real option"
  rc_browser_usable_only :: bool
  rc_profile_request :: "profile_request option"
  rc_limit :: int

definition default_route_constraints :: route_constraints where
  "default_route_constraints =
     \<lparr>rc_region = None, rc_qos = None, rc_model = None, rc_min_reputation = None, rc_browser_usable_only = False,
      rc_profile_request = None, rc_limit = 10\<rparr>"

record task_request =
  tq_intent :: string
  tq_payload :: pydict
  tq_constraints :: task_constraints
  tq_route_constraints :: "route_constraints option"
  tq_auth_node_token :: "string option"
  tq_source_node_id :: "string option"
  tq_routing_policy :: "routing_policy option"

record discover_options =
  do_region :: "string option"
  do_qos :: "string option"
  do_min_reputation :: "real option"
  do_model :: "string option"
  do_limit :: int
  do_browser_usable_only :: bool
  do_profile_request :: "profile_request option"

record profile_negotiation =
  pn_requested :: bool
  pn_status :: "string option"
  pn_reason :: "string option"
  pn_dispatch_allowed :: "bool option"

record node_list =
  nl_nodes :: "node list"
  nl_query_ms :: int
  nl_profile_negotiation :: "profile_negotiation option"
  nl_diversity_evidence :: "pydict option"

record task_response =
  tr_task_id :: pyval
  tr_status :: pyval
  tr_result :: pyval
  tr_latency_ms :: int
  tr_tokens_used :: pyval
  tr_node_id :: string
  tr_ticket_id_prefix :: pyval
  tr_selection_profile :: string
  tr_eligible_count :: nat
  tr_node_prefix :: string
  tr_negotiation :: "(string option \<times> string option) option"

text \<open>\<open>a or b\<close> for optional text: an empty text counts as absent.\<close>

definition text_or :: "string option \<Rightarrow> string option \<Rightarrow> string option" where
  "text_or a b = (if present a then a else b)"

subsection \<open>Projection (\<open>request_projection.py\<close>)\<close>

definition project_route_options :: "task_request \<Rightarrow> client_config \<Rightarrow> discover_options" where
  "project_route_options request config =
     (let route = (case tq_route_constraints request of None \<Rightarrow> default_route_constraints | Some r \<Rightarrow> r);
          c = tq_constraints request
      in \<lparr>do_region = text_or (rc_region route) (text_or (kc_region c) (cc_region config)),
          do_qos = text_or (rc_qos route) (Some (kc_qos c)),
          do_min_reputation = (case rc_min_reputation route of None \<Rightarrow> kc_min_reputation c | Some r \<Rightarrow> Some r),
          do_model = text_or (rc_model route) (kc_model c),
          do_limit = rc_limit route,
          do_browser_usable_only = rc_browser_usable_only route,
          do_profile_request = (case rc_profile_request route of None \<Rightarrow> cc_profile_request config | Some p \<Rightarrow> Some p)\<rparr>)"

definition project_execution_constraints :: "task_request \<Rightarrow> pydict" where
  "project_execution_constraints request =
     (let c = tq_constraints request
      in [(PStr ''timeout_ms'', PInt (kc_timeout_ms c)), (PStr ''qos'', PStr (kc_qos c))] @
         (if present (kc_model c) then [(PStr ''model'', PStr (the (kc_model c)))] else []))"

subsection \<open>Environment and state\<close>

record client_env =
  ce_http :: http_env
  ce_plaintext :: "string option"
  ce_flagged :: "ip_addr \<Rightarrow> bool"
  ce_text :: "pyval \<Rightarrow> string"
  ce_float :: "string \<Rightarrow> real option"
  ce_sha256 :: "string \<Rightarrow> string"
  ce_ranker :: "(string \<Rightarrow> candidate_evidence list \<Rightarrow> ranker_reply) option"
  ce_suite :: cx_suite
  ce_ticket :: ticket_checks
  ce_secrets :: secret_store
  ce_version :: string

record 'w client_ops =
  cw_http :: "'w http_ops"
  cw_time :: "'w \<Rightarrow> time"
  cw_draws :: "'w \<Rightarrow> draws"
  cw_uuid :: "'w \<Rightarrow> string"
  cw_ephemeral :: "'w \<Rightarrow> octets \<times> octets"
  cw_sleep :: "real \<Rightarrow> 'w \<Rightarrow> 'w"

record client_state =
  cs_ct_cache :: "((string \<times> string) \<times> (pyval \<times> int)) list"
  cs_dispatch_ticket_key :: "string option"

subsection \<open>Endpoints\<close>

text \<open>\<open>_is_ssrf_safe\<close>; \<open>flagged\<close> is \<open>is_private or is_loopback or is_link_local or is_reserved\<close>.\<close>

definition client_ssrf_safe :: "(ip_addr \<Rightarrow> bool) \<Rightarrow> string option \<Rightarrow> string \<Rightarrow> py_error + bool" where
  "client_ssrf_safe flagged private_env url =
     (case urlparse url of
        Inl e \<Rightarrow> Inl e
      | Inr parsed \<Rightarrow> Inr (
          if u_scheme parsed \<notin> {''http'', ''https''} then False
          else let host = lower (case url_hostname parsed of None \<Rightarrow> [] | Some h \<Rightarrow> h) in
            if host = [] then False
            else if private_endpoints_allowed private_env then True
            else if host \<in> {''localhost'', ''0.0.0.0'', ''::1'', ''::''} then False
            else if list_ex (ends_with host) [''.local'', ''.internal'', ''.lan'', ''.test'', ''.invalid'', ''.localhost''] then False
            else case ip_address host of
                Some a \<Rightarrow> \<not> flagged a
              | None \<Rightarrow> CHR ''.'' \<in> set host))"

definition cx_plaintext_fallback_allowed :: "string option \<Rightarrow> bool" where
  "cx_plaintext_fallback_allowed v =
     (lower (strip (case v of None \<Rightarrow> [] | Some s \<Rightarrow> s)) \<in> {''1'', ''true'', ''yes'', ''on''})"

definition is_browser_usable_endpoint :: "string \<Rightarrow> py_error + bool" where
  "is_browser_usable_endpoint url =
     (case urlparse url of
        Inl e \<Rightarrow> Inl e
      | Inr parsed \<Rightarrow> Inr (
          if u_scheme parsed = ''https'' then True
          else if u_scheme parsed \<noteq> ''http'' then False
          else lower (case url_hostname parsed of None \<Rightarrow> [] | Some h \<Rightarrow> h) \<in> {''localhost'', ''127.0.0.1'', ''::1''}))"

subsection \<open>Construction\<close>

record client_vars =
  cv_route_mode :: "string option"
  cv_epsilon :: "string option"
  cv_strategy :: "string option"
  cv_top_k :: "string option"
  cv_softmax_tau :: "string option"

definition construct_client ::
  "(string \<Rightarrow> real option) \<Rightarrow> (string \<Rightarrow> int option) \<Rightarrow> secret_store \<Rightarrow> client_vars \<Rightarrow> client_config \<Rightarrow> client_error + client_config" where
  "construct_client to_float to_int secrets vars cfg =
     (if cc_timeout_ms cfg > 120000 then Inl (PyError (ValueError ''timeout_ms''))
      else if cc_route_discovery_mode cfg \<notin> {''auto'', ''ticketed'', ''legacy''} then Inl (PyError (ValueError ''route_discovery_mode''))
      else if cc_consumer_auth_mode cfg \<notin> {''optional'', ''required'', ''disabled''} then Inl (PyError (ValueError ''consumer_auth_mode''))
      else let
          mode = (if cc_route_discovery_mode cfg = ''auto'' \<and> cv_route_mode vars \<in> Some ` {''auto'', ''ticketed'', ''legacy''}
                  then the (cv_route_mode vars) else cc_route_discovery_mode cfg);
          r = cc_routing cfg;
          eps = (case cv_epsilon vars of
                   None \<Rightarrow> routing_epsilon r
                 | Some s \<Rightarrow> (case to_float s of None \<Rightarrow> routing_epsilon r | Some x \<Rightarrow> max 0 (min 1 x)));
          strategy = (if cv_strategy vars \<in> Some ` {''deterministic'', ''epsilon'', ''softmax_top_k'', ''weighted_v1''}
                      then the (cv_strategy vars) else routing_strategy r);
          top_k = (case cv_top_k vars of
                     None \<Rightarrow> max 1 (routing_top_k r)
                   | Some s \<Rightarrow> (case to_int s of None \<Rightarrow> routing_top_k r | Some k \<Rightarrow> max 1 k));
          tau = (case cv_softmax_tau vars of
                   None \<Rightarrow> max (1/1000) (routing_softmax_tau r)
                 | Some s \<Rightarrow> (case to_float s of None \<Rightarrow> routing_softmax_tau r | Some x \<Rightarrow> max (1/1000) x));
          cfg' = cfg\<lparr>cc_route_discovery_mode := mode,
            cc_routing := \<lparr>routing_epsilon = eps, routing_strategy = strategy, routing_top_k = top_k, routing_softmax_tau = tau\<rparr>\<rparr>
        in case cc_restricted_directory cfg of
             None \<Rightarrow> Inr cfg'
           | Some ctx \<Rightarrow>
               bind_result (validate_context secrets ctx) (\<lambda>_.
                 if mode = ''legacy'' then Inl (PyError (ValueError ''restricted directory mode cannot use legacy route discovery''))
                 else Inr cfg'))"

subsection \<open>Consumer tokens\<close>

definition remove_suffix :: "string \<Rightarrow> string \<Rightarrow> string" where
  "remove_suffix suf s = (if suf \<noteq> [] \<and> ends_with s suf then take (length s - length suf) s else s)"

definition directory_root :: "client_config \<Rightarrow> string" where
  "directory_root cfg = remove_suffix ''/api'' (rstrip_char (CHR ''/'') (cc_directory_url cfg))"

definition wall_time :: "'w client_ops \<Rightarrow> 'w \<Rightarrow> int" where
  "wall_time ops w = \<lfloor>cw_time ops w\<rfloor>"

definition token_of_response ::
  "client_env \<Rightarrow> restricted_context option \<Rightarrow> int \<Rightarrow> http_response \<Rightarrow> client_error + (pyval \<times> int) option" where
  "token_of_response env restricted now r =
     (if hr_status r \<noteq> 201 then Inr None
      else (case he_decode (ce_http env) (response_content r) of
              None \<Rightarrow> Inl (PyError (ValueError ''JSON''))
            | Some data \<Rightarrow>
                bind_result (case restricted of
                    None \<Rightarrow> Inr ()
                  | Some ctx \<Rightarrow> bind_result (validate_decision data ctx ''consumer_token'' now) (\<lambda>_. Inr ())) (\<lambda>_.
                  (case data of
                     PDict d \<Rightarrow>
                       (case int_value (tk_int (ce_ticket env)) (get_or d ''expires_at'' (PInt 0)) of
                          Inl e \<Rightarrow> Inl (PyError e)
                        | Inr expiry \<Rightarrow>
                            let token = get_or d ''token'' (PStr [])
                            in Inr (if truthy token then Some (token, expiry) else None))
                   | _ \<Rightarrow> Inl (PyError AttributeError)))))"

text \<open>The request; an exception is only passed on in restricted mode.\<close>

definition fetch_consumer_token ::
  "client_env \<Rightarrow> 'w client_ops \<Rightarrow> client_config \<Rightarrow> 'w \<Rightarrow> client_state \<Rightarrow> string \<Rightarrow> string
    \<Rightarrow> 'w \<times> client_state \<times> (client_error + pyval option)" where
  "fetch_consumer_token env ops cfg w st target_node_id intent =
     (let restricted = cc_restricted_directory cfg;
          url = directory_root cfg @ ''/api/v1/consumer-token'';
          body = he_encode (ce_http env) (PDict [(PStr ''target_node_id'', PStr target_node_id), (PStr ''intent'', PStr intent)]);
          swallow = (\<lambda>e. if restricted = None then Inr None else Inl e);
          extra = (case restricted of None \<Rightarrow> Inr [] | Some ctx \<Rightarrow> restricted_headers (ce_secrets env) ctx)
      in case extra of
           Inl e \<Rightarrow> (w, st, swallow e)
         | Inr hs \<Rightarrow>
             (case hw_send (cw_http ops) None url body ((''Authorization'', ''Bearer '' @ the (cc_node_token cfg)) # hs) w of
                (w', Inl f) \<Rightarrow> (w', st, swallow (HttpPackage ''request''))
              | (w', Inr r) \<Rightarrow>
                  (if hr_broken r \<noteq> None then (w', st, swallow (HttpPackage ''body interrupted''))
                   else case token_of_response env restricted (wall_time ops w') r of
                     Inl e \<Rightarrow> (w', st, swallow e)
                   | Inr None \<Rightarrow> (w', st, Inr None)
                   | Inr (Some (token, expiry)) \<Rightarrow>
                       (w', st\<lparr>cs_ct_cache := AList.update (target_node_id, intent) (token, expiry) (cs_ct_cache st)\<rparr>, Inr (Some token)))))"

definition acquire_consumer_token ::
  "client_env \<Rightarrow> 'w client_ops \<Rightarrow> client_config \<Rightarrow> 'w \<Rightarrow> client_state \<Rightarrow> string \<Rightarrow> string
    \<Rightarrow> 'w \<times> client_state \<times> (client_error + pyval option)" where
  "acquire_consumer_token env ops cfg w st target_node_id intent =
     (if \<not> present (cc_node_token cfg) then (w, st, Inr None)
      else case map_of (cs_ct_cache st) (target_node_id, intent) of
          Some (tok, expiry) \<Rightarrow>
            if cw_time ops w + 30 < real_of_int expiry then (w, st, Inr (Some tok))
            else fetch_consumer_token env ops cfg w st target_node_id intent
        | None \<Rightarrow> fetch_consumer_token env ops cfg w st target_node_id intent)"

subsection \<open>Routes\<close>

text \<open>\<open>float(v)\<close>; on text it is \<open>parse\<close>.\<close>

definition float_value :: "(string \<Rightarrow> real option) \<Rightarrow> pyval \<Rightarrow> py_error + real" where
  "float_value parse v =
     (case v of
        PStr s \<Rightarrow> (case parse s of None \<Rightarrow> Inl (ValueError ''float'') | Some x \<Rightarrow> Inr x)
      | _ \<Rightarrow> (case num_of v of None \<Rightarrow> Inl TypeError | Some x \<Rightarrow> Inr x))"

definition opt_text :: "pyval \<Rightarrow> string option" where
  "opt_text v = (case v of PStr s \<Rightarrow> Some s | _ \<Rightarrow> None)"
definition opt_bool :: "pyval \<Rightarrow> bool option" where
  "opt_bool v = (case v of PBool b \<Rightarrow> Some b | _ \<Rightarrow> None)"
definition opt_dict :: "pyval \<Rightarrow> pydict option" where
  "opt_dict v = (case v of PDict d \<Rightarrow> Some d | _ \<Rightarrow> None)"
definition opt_list :: "pyval \<Rightarrow> pyval list option" where
  "opt_list v = (case v of PList xs \<Rightarrow> Some xs | _ \<Rightarrow> None)"

definition node_from_route :: "client_env \<Rightarrow> pydict \<Rightarrow> pyval \<Rightarrow> py_error + node option" where
  "node_from_route env raw ticket_id_prefix =
     (case (sget raw ''endpoint'', sget raw ''node_id'') of
        (PStr ep, PStr nid) \<Rightarrow>
          bind_result (client_ssrf_safe (ce_flagged env) (he_private (ce_http env)) ep) (\<lambda>safe.
          if \<not> safe then Inr None
          else let cx_key = py_or (sget raw ''cx_public_key'') (sget raw ''public_key'') in
            bind_result (float_value (ce_float env) (get_or raw ''score'' (PFloat 0))) (\<lambda>sc.
            bind_result (float_value (ce_float env) (py_or (get_or raw ''load'' (PFloat 0)) (PFloat 0))) (\<lambda>ld.
              Inr (Some \<lparr>n_node_id = nid, n_endpoint = ep, n_score = sc, n_available = truthy (get_or raw ''available'' (PBool True)),
                n_region = py_str (ce_text env) (get_or raw ''region'' (PStr [])), n_load = ld,
                n_latency_estimate_ms = sget raw ''latency_estimate_ms'', n_reputation_score = sget raw ''reputation_score'',
                n_health_label = sget raw ''health_label'', n_exposure_mode = sget raw ''exposure_mode'',
                n_cx_public_key = opt_dict cx_key, n_transport = opt_list (sget raw ''transport''),
                n_directory_observed_reachable = opt_bool (sget raw ''directory_observed_reachable''),
                n_route_evidence = opt_text (sget raw ''route_evidence''), n_routing_hint = opt_text (sget raw ''routing_hint''),
                n_browser_usable = opt_bool (sget raw ''browser_usable''), n_latency_evidence = opt_dict (sget raw ''latency_evidence''),
                n_health_reasons = opt_list (sget raw ''health_reasons''), n_trust_progress = opt_dict (sget raw ''trust_progress''),
                n_sdk_release = opt_dict (sget raw ''sdk_release''), n_node_policy_manifest = opt_dict (sget raw ''node_policy_manifest''),
                n_dispatch_ticket_id_prefix = ticket_id_prefix,
                n_models = map_option (\<lambda>ms. List.map_filter opt_text ms) (opt_list (sget raw ''models''))\<rparr>))))
      | _ \<Rightarrow> Inr None)"

definition route_query :: "client_config \<Rightarrow> string \<Rightarrow> discover_options \<Rightarrow> pydict" where
  "route_query cfg intent options =
     (let reg = text_or (do_region options) (cc_region cfg)
      in (if present reg then [(PStr ''region'', PStr (the reg))] else []) @
         (if present (do_qos options) then [(PStr ''qos'', PStr (the (do_qos options)))] else []) @
         (case do_min_reputation options of None \<Rightarrow> [] | Some r \<Rightarrow> [(PStr ''min_reputation'', PFloat r)]) @
         (if present (do_model options) then [(PStr ''model'', PStr (the (do_model options)))] else []))"

subsection \<open>Ticketed discovery\<close>

datatype ticket_fault = LegacyDiscoveryRequired | TicketFault client_error
datatype ticket_outcome = Route node | NoRoute

text \<open>The verification key, fetched once.\<close>

definition dispatch_ticket_key ::
  "client_env \<Rightarrow> 'w client_ops \<Rightarrow> client_config \<Rightarrow> (string \<times> string) list \<Rightarrow> 'w \<Rightarrow> client_state \<Rightarrow> 'w \<times> client_state \<times> (client_error + unit)" where
  "dispatch_ticket_key env ops cfg headers w st =
     (if cs_dispatch_ticket_key st \<noteq> None then (w, st, Inr ())
      else (case hw_get (cw_http ops) (rstrip_char (CHR ''/'') (cc_directory_url cfg) @ ''/v1/directory-key'') [] headers w of
              (w', Inl f) \<Rightarrow> (w', st, Inl (HttpPackage ''request''))
            | (w', Inr r) \<Rightarrow>
                if hr_broken r \<noteq> None then (w', st, Inl (HttpPackage ''body interrupted''))
                else if hr_status r \<noteq> 200 then (w', st, Inr ())
                else (case he_decode (ce_http env) (response_content r) of
                        None \<Rightarrow> (w', st, Inl (PyError (ValueError ''JSON'')))
                      | Some (PDict d) \<Rightarrow>
                          (case sget d ''public_key'' of
                             PStr key \<Rightarrow> (w', st\<lparr>cs_dispatch_ticket_key := Some key\<rparr>, Inr ())
                           | _ \<Rightarrow> (w', st, Inr ()))
                      | Some _ \<Rightarrow> (w', st, Inr ()))))"

text \<open>The route of a verified ticket.\<close>

definition ticket_route ::
  "client_env \<Rightarrow> client_config \<Rightarrow> string option \<Rightarrow> string \<Rightarrow> int \<Rightarrow> pyval \<Rightarrow> client_error + node" where
  "ticket_route env cfg key intent now data =
     (let field = (\<lambda>k. case data of PDict d \<Rightarrow> sget d k | _ \<Rightarrow> PNone);
          unverified = iicp ''IICP-DISPATCH-TICKET-UNVERIFIED'' ''directory'' False
      in case (field ''ticket'', field ''node_id'', data) of
           (PStr ticket, PStr nid, PDict d) \<Rightarrow>
             if \<not> present key then Inl unverified
             else (case verify_dispatch_route_ticket (ce_ticket env) ticket (the key) (directory_root cfg) nid intent now of
                     Inl e \<Rightarrow> Inl (PyError e)
                   | Inr None \<Rightarrow> Inl unverified
                   | Inr (Some claims) \<Rightarrow>
                       let route = get_or d ''route'' (PDict [])
                       in if \<not> policy_manifest_binding_matches claims route
                          then Inl (iicp ''IICP-POLICY-MANIFEST-BINDING-MISMATCH'' ''directory'' False)
                          else (case route of
                                  PDict r \<Rightarrow>
                                    (case node_from_route env (with_entry r ''node_id'' (PStr nid)) (sget d ''ticket_id_prefix'') of
                                       Inl e \<Rightarrow> Inl (PyError e)
                                     | Inr (Some n) \<Rightarrow> Inr n
                                     | Inr None \<Rightarrow> Inl (iicp ''IICP-DISPATCH-TICKET-MALFORMED'' ''directory'' False))
                                | _ \<Rightarrow> Inl (iicp ''IICP-DISPATCH-TICKET-MALFORMED'' ''directory'' False)))
         | _ \<Rightarrow> Inl unverified)"

text \<open>\<open>data.get("error", {}).get("code")\<close> for a dictionary, \<open>None\<close> for anything else.\<close>

definition error_code_of :: "pyval \<Rightarrow> py_error + pyval" where
  "error_code_of data =
     (case data of
        PDict d \<Rightarrow> (case get_or d ''error'' (PDict []) of PDict e \<Rightarrow> Inr (sget e ''code'') | _ \<Rightarrow> Inl AttributeError)
      | _ \<Rightarrow> Inr PNone)"

definition refused_ticket :: "client_config \<Rightarrow> int \<Rightarrow> pyval \<Rightarrow> ticket_fault + ticket_outcome" where
  "refused_ticket cfg status code =
     (if status = 404 \<and> code = PStr ''no_route_available'' then Inr NoRoute
      else if status \<in> {404, 405, 501} \<or> status = 503 \<and> code = PStr ''not_configured''
      then Inl (if cc_restricted_directory cfg \<noteq> None
                then TicketFault (iicp ''restricted_directory_fallback_refused'' ''directory'' False) else LegacyDiscoveryRequired)
      else Inl (TicketFault (iicp (''IICP-DISPATCH-TICKET-'' @ int_text status) ''directory'' (status \<ge> 500))))"

definition request_ticket ::
  "client_env \<Rightarrow> 'w client_ops \<Rightarrow> client_config \<Rightarrow> (string \<times> string) list \<Rightarrow> string \<Rightarrow> discover_options \<Rightarrow> 'w \<Rightarrow> client_state \<Rightarrow> string list
    \<Rightarrow> 'w \<times> client_state \<times> (ticket_fault + ticket_outcome)" where
  "request_ticket env ops cfg headers intent options w st excluded =
     (let query = [(PStr ''intent'', PStr intent), (PStr ''limit'', PInt (min (do_limit options) 50))] @ route_query cfg intent options @
            [(PStr ''exclude_node_id_prefixes'', PList (map PStr excluded))];
          url = rstrip_char (CHR ''/'') (cc_directory_url cfg) @ ''/v1/dispatch/ticket''
      in case hw_send (cw_http ops) None url (he_encode (ce_http env) (PDict query)) headers w of
           (w1, Inl f) \<Rightarrow> (w1, st, Inl (TicketFault (HttpPackage ''request'')))
         | (w1, Inr r) \<Rightarrow>
             if hr_broken r \<noteq> None then (w1, st, Inl (TicketFault (HttpPackage ''body interrupted'')))
             else let data = (case he_decode (ce_http env) (response_content r) of None \<Rightarrow> PDict [] | Some v \<Rightarrow> v)
               in (case error_code_of data of
                     Inl e \<Rightarrow> (w1, st, Inl (TicketFault (PyError e)))
                   | Inr code \<Rightarrow>
                       if hr_status r \<noteq> 201 then (w1, st, refused_ticket cfg (hr_status r) code)
                       else (case (case cc_restricted_directory cfg of
                                     None \<Rightarrow> Inr ()
                                   | Some ctx \<Rightarrow> bind_result (validate_decision data ctx ''dispatch_ticket'' (wall_time ops w1)) (\<lambda>_. Inr ())) of
                               Inl e \<Rightarrow> (w1, st, Inl (TicketFault e))
                             | Inr _ \<Rightarrow>
                                 (case dispatch_ticket_key env ops cfg headers w1 st of
                                    (w2, st2, Inl e) \<Rightarrow> (w2, st2, Inl (TicketFault e))
                                  | (w2, st2, Inr _) \<Rightarrow>
                                      (w2, st2,
                                       case ticket_route env cfg (cs_dispatch_ticket_key st2) intent (wall_time ops w2) data of
                                         Inl e \<Rightarrow> Inl (TicketFault e)
                                       | Inr n \<Rightarrow> Inr (Route n))))))"

text \<open>\<open>for _ in range(max(1, max_retries))\<close>.\<close>

fun ticket_loop ::
  "client_env \<Rightarrow> 'w client_ops \<Rightarrow> client_config \<Rightarrow> (string \<times> string) list \<Rightarrow> string \<Rightarrow> discover_options \<Rightarrow> 'w \<Rightarrow> client_state \<Rightarrow> nat
    \<Rightarrow> node list \<Rightarrow> 'w \<times> client_state \<times> (ticket_fault + node list)" where
  "ticket_loop env ops cfg headers intent options w st 0 candidates = (w, st, Inr candidates)"
| "ticket_loop env ops cfg headers intent options w st (Suc k) candidates =
     (case request_ticket env ops cfg headers intent options w st (map (\<lambda>n. take 8 (n_node_id n)) candidates) of
        (w', st', Inl e) \<Rightarrow> (w', st', Inl e)
      | (w', st', Inr NoRoute) \<Rightarrow> (w', st', Inr candidates)
      | (w', st', Inr (Route n)) \<Rightarrow> ticket_loop env ops cfg headers intent options w' st' k (candidates @ [n]))"

definition ticketed_candidates ::
  "client_env \<Rightarrow> 'w client_ops \<Rightarrow> client_config \<Rightarrow> 'w \<Rightarrow> client_state \<Rightarrow> string \<Rightarrow> discover_options
    \<Rightarrow> 'w \<times> client_state \<times> (ticket_fault + node list)" where
  "ticketed_candidates env ops cfg w st intent options =
     (case (case cc_restricted_directory cfg of None \<Rightarrow> Inr [] | Some ctx \<Rightarrow> restricted_headers (ce_secrets env) ctx) of
        Inl e \<Rightarrow> (w, st, Inl (TicketFault e))
      | Inr hs \<Rightarrow> ticket_loop env ops cfg hs intent options w st (nat (max 1 (cc_max_retries cfg))) [])"

subsection \<open>Listed discovery\<close>

text \<open>\<open>for x in v\<close>: the keys of a dictionary, the characters of a text.\<close>

definition iterate :: "pyval \<Rightarrow> py_error + pyval list" where
  "iterate v =
     (case v of
        PList xs \<Rightarrow> Inr xs
      | PDict d \<Rightarrow> Inr (map fst d)
      | PStr s \<Rightarrow> Inr (map (\<lambda>c. PStr [c]) s)
      | PBytes b \<Rightarrow> Inr (map (\<lambda>x. PInt (uint x)) b)
      | _ \<Rightarrow> Inl TypeError)"

definition sliceable :: "pyval \<Rightarrow> bool" where
  "sliceable v = (case v of PStr _ \<Rightarrow> True | PList _ \<Rightarrow> True | PBytes _ \<Rightarrow> True | _ \<Rightarrow> False)"

text \<open>One row: nothing for a row that is skipped. The warning for an unsafe row slices its identifier.\<close>

definition discovered_node :: "client_env \<Rightarrow> bool \<Rightarrow> pyval \<Rightarrow> py_error + node option" where
  "discovered_node env browser_only row =
     (case row of
        PDict raw \<Rightarrow>
          (case node_from_route env raw PNone of
             Inl e \<Rightarrow> Inl e
           | Inr None \<Rightarrow> if sliceable (get_or raw ''node_id'' (PStr ''?'')) then Inr None else Inl TypeError
           | Inr (Some n) \<Rightarrow>
               if \<not> browser_only then Inr (Some n)
               else bind_result (case n_browser_usable n of Some b \<Rightarrow> Inr b | None \<Rightarrow> is_browser_usable_endpoint (n_endpoint n)) (\<lambda>ok.
                      Inr (if ok then Some n else None)))
      | _ \<Rightarrow> Inl AttributeError)"

fun discovered_nodes :: "client_env \<Rightarrow> bool \<Rightarrow> pyval list \<Rightarrow> py_error + node list" where
  "discovered_nodes env browser_only [] = Inr []"
| "discovered_nodes env browser_only (row # rows) =
     bind_result (discovered_node env browser_only row) (\<lambda>n.
     bind_result (discovered_nodes env browser_only rows) (\<lambda>ns.
       Inr (case n of None \<Rightarrow> ns | Some x \<Rightarrow> x # ns)))"

definition negotiation_of :: "pyval \<Rightarrow> profile_negotiation option" where
  "negotiation_of raw =
     (case raw of
        PDict d \<Rightarrow> Some \<lparr>pn_requested = truthy (get_or d ''requested'' (PBool False)), pn_status = opt_text (sget d ''status''),
                      pn_reason = opt_text (sget d ''reason''), pn_dispatch_allowed = opt_bool (sget d ''dispatch_allowed'')\<rparr>
      | _ \<Rightarrow> None)"

definition profile_unsupported :: "profile_request option \<Rightarrow> profile_negotiation option \<Rightarrow> bool" where
  "profile_unsupported request negotiation =
     (case request of
        None \<Rightarrow> False
      | Some q \<Rightarrow> pq_required q \<and>
          (case negotiation of
             None \<Rightarrow> True
           | Some n \<Rightarrow> pn_status n \<noteq> Some ''compatible'' \<or> pn_dispatch_allowed n \<noteq> Some True))"

definition discover_params :: "client_config \<Rightarrow> string \<Rightarrow> discover_options \<Rightarrow> pydict" where
  "discover_params cfg intent opts =
     [(PStr ''limit'', PInt (min (do_limit opts) 50)), (PStr ''intent'', PStr intent)] @ route_query cfg intent opts @
     (case do_profile_request opts of
        None \<Rightarrow> []
      | Some q \<Rightarrow> [(PStr ''profile_id'', PStr (pq_profile_id q)), (PStr ''profile_version'', PStr (pq_profile_version q)),
                 (PStr ''profile_fixture_sha256'', PStr (pq_profile_fixture_sha256 q)),
                 (PStr ''profile_required'', PStr (if pq_required q then ''true'' else ''false''))])"

definition listed_nodes ::
  "client_env \<Rightarrow> client_config \<Rightarrow> discover_options \<Rightarrow> int \<Rightarrow> int \<Rightarrow> pyval \<Rightarrow> client_error + node_list" where
  "listed_nodes env cfg opts now elapsed data =
     bind_result (case cc_restricted_directory cfg of
         None \<Rightarrow> Inr ()
       | Some ctx \<Rightarrow> bind_result (validate_decision data ctx ''discovery'' now) (\<lambda>_. Inr ())) (\<lambda>_.
       (case data of
          PDict d \<Rightarrow>
            let negotiation = negotiation_of (sget d ''profile_negotiation'')
            in if profile_unsupported (do_profile_request opts) negotiation
               then Inl (iicp ''unsupported_pre_normative_profile'' ''directory'' False)
               else (case bind_result (iterate (get_or d ''nodes'' (PList []))) (discovered_nodes env (do_browser_usable_only opts)) of
                       Inl e \<Rightarrow> Inl (PyError e)
                     | Inr ns \<Rightarrow> Inr \<lparr>nl_nodes = ns, nl_query_ms = elapsed, nl_profile_negotiation = negotiation,
                                   nl_diversity_evidence = opt_dict (sget d ''diversity_evidence'')\<rparr>)
        | _ \<Rightarrow> Inl (PyError AttributeError)))"

definition discover ::
  "client_env \<Rightarrow> 'w client_ops \<Rightarrow> client_config \<Rightarrow> 'w \<Rightarrow> string \<Rightarrow> discover_options \<Rightarrow> 'w \<times> (client_error + node_list)" where
  "discover env ops cfg w intent opts =
     (case (case cc_restricted_directory cfg of None \<Rightarrow> Inr [] | Some ctx \<Rightarrow> restricted_headers (ce_secrets env) ctx) of
        Inl e \<Rightarrow> (w, Inl e)
      | Inr hs \<Rightarrow>
          (case get_json (ce_http env) (cw_http ops) w (cc_directory_url cfg @ ''/v1/discover'') (discover_params cfg intent opts) hs ''directory'' of
             (w', Inl e) \<Rightarrow> (w', Inl e)
           | (w', Inr data) \<Rightarrow>
               (w', listed_nodes env cfg opts (wall_time ops w')
                      \<lfloor>(hw_clock (cw_http ops) w' - hw_clock (cw_http ops) w) * 1000\<rfloor> data)))"

subsection \<open>Submission\<close>

definition find_routes ::
  "client_env \<Rightarrow> 'w client_ops \<Rightarrow> client_config \<Rightarrow> 'w \<Rightarrow> client_state \<Rightarrow> task_request
    \<Rightarrow> 'w \<times> client_state \<times> (client_error + node_list)" where
  "find_routes env ops cfg w st request =
     (let options = project_route_options request cfg;
          listing = (\<lambda>w st. case discover env ops cfg w (tq_intent request) options of (w', r) \<Rightarrow> (w', st, r))
      in if cc_route_discovery_mode cfg = ''legacy'' \<or> cc_profile_request cfg \<noteq> None then listing w st
         else (case ticketed_candidates env ops cfg w st (tq_intent request) options of
                 (w', st', Inr ns) \<Rightarrow>
                   (w', st', Inr \<lparr>nl_nodes = ns, nl_query_ms = 0, nl_profile_negotiation = None, nl_diversity_evidence = None\<rparr>)
               | (w', st', Inl (TicketFault e)) \<Rightarrow> (w', st', Inl e)
               | (w', st', Inl LegacyDiscoveryRequired) \<Rightarrow>
                   if cc_route_discovery_mode cfg = ''ticketed''
                   then (w', st', Inl (iicp ''IICP-DISPATCH-TICKET-UNAVAILABLE'' ''directory'' False))
                   else listing w' st'))"

text \<open>The chat messages of a request and the identity options, for requests made by \<open>chat\<close>.\<close>

type_synonym identity_context = "(chat_message list \<times> identity_options option) option"

definition selected_model :: "task_request \<Rightarrow> node \<Rightarrow> string option" where
  "selected_model request n =
     (case n_models n of
        None \<Rightarrow> None
      | Some ms \<Rightarrow>
          if present (kc_model (tq_constraints request)) \<and> the (kc_model (tq_constraints request)) \<in> set ms
          then kc_model (tq_constraints request)
          else if length ms = 1 then Some (hd ms) else None)"

definition candidate_payload_of ::
  "client_env \<Rightarrow> task_request \<Rightarrow> identity_context \<Rightarrow> nat \<Rightarrow> node \<Rightarrow> client_error + pydict" where
  "candidate_payload_of env request identity candidate_index n =
     (case identity of
        None \<Rightarrow> Inr (tq_payload request)
      | Some (messages, options) \<Rightarrow>
          (case compose_runtime_identity messages (tq_intent request)
                  (Some (with_runtime_facts options ''iicp-client-python'' (ce_version env) ''routed'' (selected_model request n) []
                     (if candidate_index = 0 then ''matched_intent_and_constraints'' else ''fallback_after_unavailable_candidate''))) of
             Inl _ \<Rightarrow> Inl (PyError (ValueError ''runtime identity''))
           | Inr ms \<Rightarrow> Inr (with_entry (tq_payload request) ''messages'' (PList (map message_dict ms)))))"

text \<open>The task body for one node, with the session secret and whether the response must be encrypted.\<close>

definition task_body_of ::
  "client_env \<Rightarrow> octets \<times> octets \<Rightarrow> task_request \<Rightarrow> string \<Rightarrow> pydict \<Rightarrow> node \<Rightarrow> client_error + pydict \<times> octets option \<times> bool" where
  "task_body_of env random_keys request task_id payload n =
     (let base = [(PStr ''task_id'', PStr task_id), (PStr ''intent'', PStr (tq_intent request)),
            (PStr ''constraints'', PDict (project_execution_constraints request))] @
            (if present (tq_auth_node_token request)
             then [(PStr ''auth'', PDict [(PStr ''node_token'', PStr (the (tq_auth_node_token request)))])] else []) @
            (if present (tq_source_node_id request) then [(PStr ''source_node_id'', PStr (the (tq_source_node_id request)))] else [])
      in if filled (n_cx_public_key n)
         then (case encrypt_payload_with_context (ce_suite env) (fst random_keys) (snd random_keys) payload (the (n_cx_public_key n))
                       task_id (tq_intent request) of
                 Inl e \<Rightarrow> Inl (PyError e)
               | Inr (conf, secret) \<Rightarrow>
                   let required = (case get_or (the (n_cx_public_key n)) ''features'' (PList []) of
                         PList fs \<Rightarrow> list_ex (\<lambda>f. f = PStr ''response_encryption_v1'') fs | _ \<Rightarrow> False)
                   in Inr (base @ [(PStr ''iicp_conf'', PDict conf)] @
                             (if required then [(PStr ''cx_response_encryption'', PStr ''required'')] else []), Some secret, required))
         else Inr (base @ [(PStr ''payload'', PDict payload)], None, False))"

definition open_response ::
  "client_env \<Rightarrow> bool \<Rightarrow> octets option \<Rightarrow> string \<Rightarrow> pydict \<Rightarrow> client_error + pydict" where
  "open_response env required secret task_id raw =
     (if \<not> required then Inr raw
      else case (sget raw ''iicp_conf_resp'', secret) of
          (PDict envelope, Some s) \<Rightarrow>
            (case decrypt_response (ce_suite env) envelope s task_id of
               Inl e \<Rightarrow> Inl (PyError e)
             | Inr (PDict d) \<Rightarrow> Inr d
             | Inr _ \<Rightarrow> Inl (iicp ''IICP-CX-RESP-INVALID'' ''sdk'' False))
        | _ \<Rightarrow> Inl (iicp ''IICP-CX-RESP-REQUIRED'' ''sdk'' False))"

record selection_context =
  sc_eligible_count :: nat
  sc_ranker :: "ranker_decision option"
  sc_negotiation :: "profile_negotiation option"

definition task_response_of ::
  "client_config \<Rightarrow> selection_context \<Rightarrow> string \<Rightarrow> nat \<Rightarrow> node \<Rightarrow> pydict \<Rightarrow> int \<Rightarrow> client_error + task_response" where
  "task_response_of cfg sc task_id candidate_index n raw elapsed =
     (case get_or raw ''usage'' (PDict []) of
        PDict usage \<Rightarrow>
          Inr \<lparr>tr_task_id = get_or raw ''task_id'' (PStr task_id), tr_status = get_or raw ''status'' (PStr ''success''),
               tr_result = sget raw ''result'', tr_latency_ms = elapsed, tr_tokens_used = sget usage ''total_tokens'',
               tr_node_id = n_node_id n, tr_ticket_id_prefix = n_dispatch_ticket_id_prefix n,
               tr_selection_profile = (case sc_ranker sc of
                   Some d \<Rightarrow> ranker_receipt_profile d candidate_index
                 | None \<Rightarrow> if sc_negotiation sc \<noteq> None then routing_strategy (cc_routing cfg) else ''directory_ticket_v1''),
               tr_eligible_count = sc_eligible_count sc, tr_node_prefix = take 8 (n_node_id n),
               tr_negotiation = map_option (\<lambda>p. (pn_status p, pn_reason p)) (sc_negotiation sc)\<rparr>
      | _ \<Rightarrow> Inl (PyError AttributeError))"

record task_post =
  tp_node :: node
  tp_body :: pydict
  tp_sent :: "sent_request list"

datatype attempt_end = Answered task_response | Raised client_error | NextNode "iicp_error option"

text \<open>\<open>for attempt in range(max_retries)\<close> on one node; \<open>k\<close> attempts are left.\<close>

fun attempt_loop ::
  "client_env \<Rightarrow> 'w client_ops \<Rightarrow> client_config \<Rightarrow> selection_context \<Rightarrow> string \<Rightarrow> nat \<Rightarrow> node \<Rightarrow> pydict \<Rightarrow> octets option \<Rightarrow> bool
    \<Rightarrow> (string \<times> string) list \<Rightarrow> 'w \<Rightarrow> nat \<Rightarrow> nat \<Rightarrow> iicp_error option \<Rightarrow> 'w \<times> task_post list \<times> attempt_end" where
  "attempt_loop env ops cfg sc task_id i n body secret required headers w attempt 0 last_exc = (w, [], NextNode last_exc)"
| "attempt_loop env ops cfg sc task_id i n body secret required headers w attempt (Suc k) last_exc =
     (case post_json (ce_http env) (cw_http ops) w (n_endpoint n @ ''/v1/task'') (PDict body) ''adapter'' headers True of
        (w', sent, res) \<Rightarrow>
          let post = \<lparr>tp_node = n, tp_body = body, tp_sent = sent\<rparr>;
              outcome = bind_result res (\<lambda>(raw, elapsed). bind_result (open_response env required secret task_id raw) (\<lambda>d.
                          task_response_of cfg sc task_id i n d elapsed))
          in (case outcome of
                Inr response \<Rightarrow> (w', [post], Answered response)
              | Inl (Iicp e) \<Rightarrow>
                  if \<not> ie_retryable e then (w', [post], Raised (Iicp e))
                  else if in_strs (ie_code e) [''IICP-E003'', ''IICP-E004''] then (w', [post], NextNode (Some e))
                  else if k = 0 then (w', [post], NextNode (Some e))
                  else (case attempt_loop env ops cfg sc task_id i n body secret required headers
                               (cw_sleep ops (1/2 * real (attempt + 1)) w') (Suc attempt) k (Some e) of
                          (w'', posts, fin) \<Rightarrow> (w'', post # posts, fin))
              | Inl e \<Rightarrow> (w', [post], Raised e)))"

definition try_node ::
  "client_env \<Rightarrow> 'w client_ops \<Rightarrow> client_config \<Rightarrow> selection_context \<Rightarrow> task_request \<Rightarrow> identity_context \<Rightarrow> string \<Rightarrow> 'w \<Rightarrow> client_state
    \<Rightarrow> nat \<Rightarrow> node \<Rightarrow> iicp_error option \<Rightarrow> 'w \<times> client_state \<times> task_post list \<times> attempt_end" where
  "try_node env ops cfg sc request identity task_id w st i n last_exc =
     (case bind_result (candidate_payload_of env request identity i n) (\<lambda>payload.
             task_body_of env (cw_ephemeral ops w) request task_id payload n) of
        Inl e \<Rightarrow> (w, st, [], Raised e)
      | Inr (body, secret, required) \<Rightarrow>
          (case (if cc_consumer_auth_mode cfg = ''disabled'' then (w, st, Inr None)
                 else acquire_consumer_token env ops cfg w st (n_node_id n) (tq_intent request)) of
             (w', st', Inl e) \<Rightarrow> (w', st', [], Raised e)
           | (w', st', Inr ct) \<Rightarrow>
               let token = (case ct of None \<Rightarrow> PNone | Some v \<Rightarrow> v)
               in if cc_consumer_auth_mode cfg = ''required'' \<and> \<not> truthy token
                  then (w', st', [], Raised (iicp ''IICP-CONSUMER-AUTH-REQUIRED'' ''directory'' True))
                  else (case attempt_loop env ops cfg sc task_id i n body secret required
                               (if truthy token then [(''X-IICP-Consumer-Token'', py_str (ce_text env) token)] else [])
                               w' 0 (nat (cc_max_retries cfg)) last_exc of
                          (w'', posts, fin) \<Rightarrow> (w'', st', posts, fin))))"

fun try_candidates ::
  "client_env \<Rightarrow> 'w client_ops \<Rightarrow> client_config \<Rightarrow> selection_context \<Rightarrow> task_request \<Rightarrow> identity_context \<Rightarrow> string \<Rightarrow> 'w \<Rightarrow> client_state
    \<Rightarrow> nat \<Rightarrow> node list \<Rightarrow> iicp_error option \<Rightarrow> 'w \<times> client_state \<times> task_post list \<times> (client_error + task_response)" where
  "try_candidates env ops cfg sc request identity task_id w st i [] last_exc =
     (w, st, [], Inl (case last_exc of None \<Rightarrow> PyError TypeError | Some e \<Rightarrow> Iicp e))"
| "try_candidates env ops cfg sc request identity task_id w st i (n # ns) last_exc =
     (case try_node env ops cfg sc request identity task_id w st i n last_exc of
        (w', st', posts, Answered r) \<Rightarrow> (w', st', posts, Inr r)
      | (w', st', posts, Raised e) \<Rightarrow> (w', st', posts, Inl e)
      | (w', st', posts, NextNode last') \<Rightarrow>
          (case try_candidates env ops cfg sc request identity task_id w' st' (Suc i) ns last' of
             (w'', st'', posts', res) \<Rightarrow> (w'', st'', posts @ posts', res)))"

text \<open>What is eligible under the effective policy, and in which order it is tried.\<close>

definition effective_policy :: "client_config \<Rightarrow> task_request \<Rightarrow> routing_policy" where
  "effective_policy cfg request =
     resolved_policy (Some (case tq_routing_policy request of None \<Rightarrow> cc_routing_policy cfg | Some p \<Rightarrow> p))"

definition plaintext_allowed :: "client_env \<Rightarrow> client_config \<Rightarrow> task_request \<Rightarrow> bool" where
  "plaintext_allowed env cfg request \<longleftrightarrow>
     cx_plaintext_fallback_allowed (ce_plaintext env) \<or> rp_require_encryption (effective_policy cfg request) = Some False"

definition choose_candidates ::
  "client_env \<Rightarrow> client_config \<Rightarrow> draws \<Rightarrow> task_request \<Rightarrow> string \<Rightarrow> node list
    \<Rightarrow> client_error + (policy_decision \<times> node list \<times> ranker_decision option)" where
  "choose_candidates env cfg r request task_id nodes =
     (let decision = filter_nodes_for_routing_policy (ce_text env) nodes (Some (effective_policy cfg request)) (plaintext_allowed env cfg request);
          top_n = nat (max 1 (cc_max_retries cfg))
      in if eligible decision = [] \<and> skipped_keyless decision \<noteq> 0 \<and> length (rejected_reasons decision) = skipped_keyless decision
         then Inl (iicp ''IICP-CX-REQUIRED'' ''sdk'' True)
         else if eligible decision = [] then Inl (iicp ''IICP-POLICY-ROUTING'' ''sdk'' False)
         else let built_in = select_candidates (cc_routing cfg) r (eligible decision) top_n
           in (case ce_ranker env of
                 None \<Rightarrow> Inr (decision, built_in, None)
               | Some ranker \<Rightarrow>
                   (case apply_candidate_ranker (ce_sha256 env) ranker task_id (eligible decision) built_in top_n of
                      Inl _ \<Rightarrow> Inl (iicp ''IICP-CANDIDATE-RANKER-REFUSED'' ''sdk'' False)
                    | Inr (cs, d) \<Rightarrow> Inr (decision, cs, d))))"

definition submit ::
  "client_env \<Rightarrow> 'w client_ops \<Rightarrow> client_config \<Rightarrow> 'w \<Rightarrow> client_state \<Rightarrow> task_request \<Rightarrow> identity_context
    \<Rightarrow> 'w \<times> client_state \<times> task_post list \<times> (client_error + task_response)" where
  "submit env ops cfg w st request identity =
     (case validate_intent (tq_intent request) of
        Inl e \<Rightarrow> (w, st, [], Inl e)
      | Inr _ \<Rightarrow>
          (case find_routes env ops cfg w st request of
             (w1, st1, Inl e) \<Rightarrow> (w1, st1, [], Inl e)
           | (w1, st1, Inr nl) \<Rightarrow>
               if nl_nodes nl = [] then (w1, st1, [], Inl (iicp ''IICP-E006'' ''directory'' True))
               else let task_id = cw_uuid ops w1
                 in (case choose_candidates env cfg (cw_draws ops w1) request task_id (nl_nodes nl) of
                       Inl e \<Rightarrow> (w1, st1, [], Inl e)
                     | Inr (decision, candidates, rd) \<Rightarrow>
                         try_candidates env ops cfg
                           \<lparr>sc_eligible_count = length (eligible decision), sc_ranker = rd, sc_negotiation = nl_profile_negotiation nl\<rparr>
                           request identity task_id w1 st1 0 candidates None)))"

subsection \<open>Chat\<close>

record chat_options =
  co_model :: "string option"
  co_max_tokens :: "int option"
  co_temperature :: "real option"
  co_timeout_ms :: "int option"
  co_qos :: string
  co_region :: "string option"
  co_min_reputation :: "real option"
  co_browser_usable_only :: bool
  co_profile_request :: "profile_request option"
  co_node_token :: "string option"
  co_routing_policy :: "routing_policy option"
  co_runtime_identity :: "identity_options option"

record chat_choice =
  ch_role :: pyval
  ch_content :: pyval
  ch_finish_reason :: pyval

record chat_response =
  cr_id :: pyval
  cr_choices :: "chat_choice list"
  cr_prompt_tokens :: pyval
  cr_completion_tokens :: pyval
  cr_total_tokens :: pyval
  cr_model :: pyval
  cr_node_id :: string

definition chat_request :: "client_config \<Rightarrow> chat_message list \<Rightarrow> chat_options \<Rightarrow> task_request" where
  "chat_request cfg messages opts =
     \<lparr>tq_intent = CHAT_INTENT,
      tq_payload = [(PStr ''messages'', PList (map message_dict messages))] @
        (if present (co_model opts) then [(PStr ''model'', PStr (the (co_model opts)))] else []) @
        (case co_max_tokens opts of None \<Rightarrow> [] | Some k \<Rightarrow> [(PStr ''max_tokens'', PInt k)]) @
        (case co_temperature opts of None \<Rightarrow> [] | Some t \<Rightarrow> [(PStr ''temperature'', PFloat t)]),
      tq_constraints = \<lparr>kc_timeout_ms = (case co_timeout_ms opts of Some t \<Rightarrow> if t = 0 then cc_timeout_ms cfg else t | None \<Rightarrow> cc_timeout_ms cfg),
        kc_qos = co_qos opts, kc_region = None, kc_model = co_model opts, kc_min_reputation = None\<rparr>,
      tq_route_constraints = Some \<lparr>rc_region = co_region opts, rc_qos = Some (co_qos opts), rc_model = co_model opts,
        rc_min_reputation = co_min_reputation opts, rc_browser_usable_only = co_browser_usable_only opts,
        rc_profile_request = co_profile_request opts, rc_limit = 10\<rparr>,
      tq_auth_node_token = co_node_token opts, tq_source_node_id = None, tq_routing_policy = co_routing_policy opts\<rparr>"

definition chat_choice_of :: "pyval \<Rightarrow> py_error + chat_choice" where
  "chat_choice_of c =
     (case c of
        PDict d \<Rightarrow>
          (case get_or d ''message'' (PDict []) of
             PDict m \<Rightarrow> Inr \<lparr>ch_role = get_or m ''role'' (PStr ''assistant''), ch_content = get_or m ''content'' (PStr []),
                         ch_finish_reason = get_or d ''finish_reason'' (PStr ''stop'')\<rparr>
           | _ \<Rightarrow> Inl AttributeError)
      | _ \<Rightarrow> Inl AttributeError)"

definition chat_response_of :: "chat_options \<Rightarrow> task_response \<Rightarrow> py_error + chat_response" where
  "chat_response_of opts response =
     (case py_or (tr_result response) (PDict []) of
        PDict result \<Rightarrow>
          bind_result (iterate (get_or result ''choices'' (PList []))) (\<lambda>raw.
          bind_result (map_result chat_choice_of raw) (\<lambda>choices.
            (case get_or result ''usage'' (PDict []) of
               PDict usage \<Rightarrow> Inr \<lparr>cr_id = tr_task_id response, cr_choices = choices,
                 cr_prompt_tokens = get_or usage ''prompt_tokens'' (PInt 0), cr_completion_tokens = get_or usage ''completion_tokens'' (PInt 0),
                 cr_total_tokens = get_or usage ''total_tokens'' (PInt 0),
                 cr_model = get_or result ''model'' (PStr (case co_model opts of None \<Rightarrow> [] | Some m \<Rightarrow> m)), cr_node_id = tr_node_id response\<rparr>
             | _ \<Rightarrow> Inl AttributeError)))
      | _ \<Rightarrow> Inl AttributeError)"

definition chat ::
  "client_env \<Rightarrow> 'w client_ops \<Rightarrow> client_config \<Rightarrow> 'w \<Rightarrow> client_state \<Rightarrow> chat_message list \<Rightarrow> chat_options
    \<Rightarrow> 'w \<times> client_state \<times> task_post list \<times> (client_error + chat_response)" where
  "chat env ops cfg w st messages opts =
     (case submit env ops cfg w st (chat_request cfg messages opts) (Some (messages, co_runtime_identity opts)) of
        (w', st', posts, Inl e) \<Rightarrow> (w', st', posts, Inl e)
      | (w', st', posts, Inr r) \<Rightarrow>
          (w', st', posts, case chat_response_of opts r of Inl e \<Rightarrow> Inl (PyError e) | Inr c \<Rightarrow> Inr c))"

subsection \<open>Facts: what is posted, and to whom\<close>

text \<open>One post: to the task URL of its node, and with the prompt in the clear only if the node has no key.\<close>

definition sealed_post :: "task_request \<Rightarrow> string \<Rightarrow> task_post \<Rightarrow> bool" where
  "sealed_post request task_id p \<longleftrightarrow>
     sget (tp_body p) ''intent'' = PStr (tq_intent request) \<and> sget (tp_body p) ''task_id'' = PStr task_id \<and>
     (if filled (n_cx_public_key (tp_node p))
      then sget (tp_body p) ''payload'' = PNone \<and> is_dict (sget (tp_body p) ''iicp_conf'')
      else sget (tp_body p) ''iicp_conf'' = PNone \<and> is_dict (sget (tp_body p) ''payload''))"

lemma sget_Cons: "sget ((PStr k, v) # d) k' = (if k = k' then v else sget d k')" "sget [] k' = PNone"
  by (simp_all add: sget_def get_or_def)

lemma task_body_sealed:
  assumes "task_body_of env keys request task_id payload n = Inr (body, secret, required)"
  shows "sealed_post request task_id \<lparr>tp_node = n, tp_body = body, tp_sent = sent\<rparr>"
  using assms by (auto simp: task_body_of_def sealed_post_def sget_Cons Let_def split: if_splits sum.splits prod.splits)

lemma attempt_loop_posts:
  "attempt_loop env ops cfg sc task_id i n body secret required headers w attempt k last_exc = (w', posts, fin) \<Longrightarrow>
   length posts \<le> k \<and> (\<forall>p \<in> set posts. tp_node p = n \<and> tp_body p = body) \<and>
   (\<forall>p \<in> set posts. \<exists>v v' res. post_json (ce_http env) (cw_http ops) v (n_endpoint n @ ''/v1/task'') (PDict body) ''adapter'' headers True = (v', tp_sent p, res))"
proof (induction k arbitrary: w attempt last_exc w' posts fin)
  case (Suc k)
  obtain v sent res where post: "post_json (ce_http env) (cw_http ops) w (n_endpoint n @ ''/v1/task'') (PDict body) ''adapter'' headers True = (v, sent, res)"
    by (metis prod_cases3)
  let ?p = "\<lparr>tp_node = n, tp_body = body, tp_sent = sent\<rparr>"
  have "posts = [?p] \<or> (\<exists>u a l u' ps f. attempt_loop env ops cfg sc task_id i n body secret required headers u a k l = (u', ps, f) \<and> posts = ?p # ps)"
    using Suc.prems post
    by (auto simp: Let_def split: sum.splits client_error.splits if_splits prod.splits)
  with Suc.IH post show ?case by fastforce
qed simp

lemma try_node_posts:
  assumes "try_node env ops cfg sc request identity task_id w st i n last_exc = (w', st', posts, fin)"
  shows "length posts \<le> nat (cc_max_retries cfg) \<and>
    (\<forall>p \<in> set posts. tp_node p = n \<and> sealed_post request task_id p \<and>
       (\<exists>v v' hs res. post_json (ce_http env) (cw_http ops) v (n_endpoint n @ ''/v1/task'') (PDict (tp_body p)) ''adapter'' hs True = (v', tp_sent p, res)))"
proof (cases "posts = []")
  case False
  then obtain payload body secret required v u hs f where
      body: "task_body_of env (cw_ephemeral ops w) request task_id payload n = Inr (body, secret, required)"
    and loop: "attempt_loop env ops cfg sc task_id i n body secret required hs v 0 (nat (cc_max_retries cfg)) last_exc = (u, posts, f)"
    using assms unfolding try_node_def
    by (auto simp: Let_def bind_result_Inr_iff split: sum.splits if_splits prod.splits)
  show ?thesis
    using attempt_loop_posts [OF loop] task_body_sealed [OF body] unfolding sealed_post_def by fastforce
qed simp

lemma try_candidates_posts:
  "try_candidates env ops cfg sc request identity task_id w st i ns last_exc = (w', st', posts, res) \<Longrightarrow>
   length posts \<le> length ns * nat (cc_max_retries cfg) \<and>
   (\<forall>p \<in> set posts. tp_node p \<in> set ns \<and> sealed_post request task_id p \<and>
      (\<exists>v v' hs r. post_json (ce_http env) (cw_http ops) v (n_endpoint (tp_node p) @ ''/v1/task'') (PDict (tp_body p)) ''adapter'' hs True = (v', tp_sent p, r)))"
proof (induction ns arbitrary: w st i last_exc w' st' posts res)
  case (Cons n ns)
  obtain v s ps fin where node: "try_node env ops cfg sc request identity task_id w st i n last_exc = (v, s, ps, fin)"
    by (metis prod_cases4)
  note first = try_node_posts [OF node]
  show ?case
  proof (cases "\<exists>l. fin = NextNode l")
    case True
    then obtain l where l: "fin = NextNode l" by blast
    obtain v' s' ps' res' where rest: "try_candidates env ops cfg sc request identity task_id v s (Suc i) ns l = (v', s', ps', res')"
      by (metis prod_cases4)
    with Cons.prems node l have "posts = ps @ ps'" by simp
    with first Cons.IH [OF rest] show ?thesis by auto
  next
    case False
    with Cons.prems node have "posts = ps" by (cases fin) auto
    with first show ?thesis by auto
  qed
qed simp

lemma effective_policy_resolved: "resolved_policy (Some (effective_policy cfg request)) = effective_policy cfg request"
  by (simp add: effective_policy_def resolved_policy_idem)

lemma effective_encryption: "\<exists>b. rp_require_encryption (effective_policy cfg request) = Some b"
  by (auto simp: effective_policy_def resolved_policy_def Let_def split: prod.splits)

lemma chosen_candidates:
  assumes "choose_candidates env cfg r request task_id nodes = Inr (decision, candidates, rd)"
  shows "fair_order (eligible decision) (nat (max 1 (cc_max_retries cfg))) candidates" "eligible decision \<noteq> []"
    "set (eligible decision) =
       {n \<in> set nodes. node_rejection_reason (ce_text env) n (effective_policy cfg request) (plaintext_allowed env cfg request) = None}"
proof -
  let ?k = "nat (max 1 (cc_max_retries cfg))"
  let ?b = "select_candidates (cc_routing cfg) r (eligible decision) ?k"
  have d: "decision = filter_nodes_for_routing_policy (ce_text env) nodes (Some (effective_policy cfg request)) (plaintext_allowed env cfg request)"
    and ne: "eligible decision \<noteq> []"
    and c: "candidates = ?b \<or> (\<exists>ranker. apply_candidate_ranker (ce_sha256 env) ranker task_id (eligible decision) ?b ?k = Inr (candidates, rd))"
    using assms by (auto simp: choose_candidates_def Let_def split: if_splits option.splits sum.splits)
  have "fair_order (eligible decision) ?k ?b" by (rule fair_select) simp
  with c show "fair_order (eligible decision) ?k candidates" using fair_ranked by blast
  show "eligible decision \<noteq> []" by (rule ne)
  show "set (eligible decision) =
       {n \<in> set nodes. node_rejection_reason (ce_text env) n (effective_policy cfg request) (plaintext_allowed env cfg request) = None}"
    unfolding d by (auto simp: filter_nodes_fields effective_policy_resolved)
qed

text \<open>A submission that posts has passed every stage before.\<close>

lemma submit_posts:
  assumes "submit env ops cfg w st request identity = (w', st', posts, res)" "posts \<noteq> []"
  obtains w1 st1 nl decision candidates rd sc where
    "validate_intent (tq_intent request) = Inr ()" "find_routes env ops cfg w st request = (w1, st1, Inr nl)"
    "choose_candidates env cfg (cw_draws ops w1) request (cw_uuid ops w1) (nl_nodes nl) = Inr (decision, candidates, rd)"
    "try_candidates env ops cfg sc request identity (cw_uuid ops w1) w1 st1 0 candidates None = (w', st', posts, res)"
proof -
  from assms have v: "validate_intent (tq_intent request) = Inr ()"
    by (cases "validate_intent (tq_intent request)") (auto simp: submit_def)
  obtain w1 st1 r where f: "find_routes env ops cfg w st request = (w1, st1, r)" by (metis prod_cases3)
  with assms v obtain nl where nl: "r = Inr nl" "nl_nodes nl \<noteq> []"
    by (cases r) (auto simp: submit_def split: if_splits)
  with assms v f obtain decision candidates rd where
    "choose_candidates env cfg (cw_draws ops w1) request (cw_uuid ops w1) (nl_nodes nl) = Inr (decision, candidates, rd)"
    by (cases "choose_candidates env cfg (cw_draws ops w1) request (cw_uuid ops w1) (nl_nodes nl)") (auto simp: submit_def Let_def)
  with assms v f nl show thesis by (intro that) (auto simp: submit_def Let_def)
qed

lemma post_plaintext:
  assumes "node_rejection_reason (ce_text env) (tp_node p) (effective_policy cfg request) (plaintext_allowed env cfg request) = None"
    "sealed_post request task_id p"
  shows "if filled (n_cx_public_key (tp_node p)) then sget (tp_body p) ''payload'' = PNone \<and> is_dict (sget (tp_body p) ''iicp_conf'')
    else plaintext_allowed env cfg request"
proof (cases "rp_require_encryption (effective_policy cfg request) = Some True")
  case True
  with accepted_node(1) [OF assms(1)] assms(2) show ?thesis by (auto simp: sealed_post_def)
next
  case False
  then have "rp_require_encryption (effective_policy cfg request) = Some False" using effective_encryption [of cfg request] by auto
  with assms(2) show ?thesis by (auto simp: sealed_post_def plaintext_allowed_def)
qed

subsection \<open>Facts: ticketed routes\<close>

lemma node_from_route_fields:
  assumes "node_from_route env raw pre = Inr (Some n)"
  shows "sget raw ''node_id'' = PStr (n_node_id n)" "client_ssrf_safe (ce_flagged env) (he_private (ce_http env)) (n_endpoint n) = Inr True"
  using assms
  by (auto simp: node_from_route_def bind_result_Inr_iff Let_def split: pyval.splits if_splits)

text \<open>A ticket for a node: signed under the key, issued by this directory for this node and intent, not expired at \<open>now\<close>.\<close>

definition ticket_for :: "client_env \<Rightarrow> client_config \<Rightarrow> string \<Rightarrow> string \<Rightarrow> string \<Rightarrow> int \<Rightarrow> bool" where
  "ticket_for env cfg key intent nid now \<longleftrightarrow>
     (\<exists>payload signature p expiry.
        tk_verify (ce_ticket env) key signature (TICKET_DOMAIN @ payload) \<and> tk_payload (ce_ticket env) (b64pad payload) = Some (PDict p) \<and>
        sget p ''iss'' = PStr (directory_root cfg) \<and> sget p ''aud'' = PStr TICKET_AUDIENCE \<and> sget p ''node_id'' = PStr nid \<and>
        sget p ''intent'' = PStr intent \<and> int_value (tk_int (ce_ticket env)) (get_or p ''exp'' (PInt 0)) = Inr expiry \<and> now < expiry)"

lemma verified_ticket:
  assumes "verify_dispatch_route_ticket (ce_ticket env) token key (directory_root cfg) nid intent now = Inr (Some claims)"
  shows "ticket_for env cfg key intent nid now"
  using assms unfolding verify_dispatch_route_ticket_def ticket_for_def Let_def
  by (auto simp: bind_result_Inr_iff not_le split: if_splits option.splits pyval.splits)

lemma ticket_route_verified:
  assumes "ticket_route env cfg key intent now data = Inr n"
  shows "\<exists>k. key = Some k \<and> ticket_for env cfg k intent (n_node_id n) now \<and>
    client_ssrf_safe (ce_flagged env) (he_private (ce_http env)) (n_endpoint n) = Inr True"
proof -
  obtain ticket nid claims r pre where key: "present key"
    and v: "verify_dispatch_route_ticket (ce_ticket env) ticket (the key) (directory_root cfg) nid intent now = Inr (Some claims)"
    and n: "node_from_route env (with_entry r ''node_id'' (PStr nid)) pre = Inr (Some n)"
    using assms unfolding ticket_route_def Let_def
    by (auto split: pyval.splits if_splits sum.splits option.splits)
  have "n_node_id n = nid" using node_from_route_fields(1) [OF n] by simp
  with verified_ticket [OF v] node_from_route_fields(2) [OF n] key show ?thesis
    by (auto simp: present_def split: option.splits)
qed

lemma dispatch_key_kept:
  "dispatch_ticket_key env ops cfg hs w st = (w', st', r) \<Longrightarrow> cs_dispatch_ticket_key st = Some k \<Longrightarrow> cs_dispatch_ticket_key st' = Some k"
  by (auto simp: dispatch_ticket_key_def)

text \<open>One round: the key, once known, stays; a route is verified under it.\<close>

lemma request_ticket_verified:
  assumes "request_ticket env ops cfg hs intent options w st excluded = (w', st', r)"
  shows "cs_dispatch_ticket_key st = Some k \<Longrightarrow> cs_dispatch_ticket_key st' = Some k"
    "r = Inr (Route n) \<Longrightarrow> \<exists>k. cs_dispatch_ticket_key st' = Some k \<and> ticket_for env cfg k intent (n_node_id n) (wall_time ops w') \<and>
       client_ssrf_safe (ce_flagged env) (he_private (ce_http env)) (n_endpoint n) = Inr True"
  using assms unfolding request_ticket_def Let_def
  by (auto simp: refused_ticket_def dest: dispatch_key_kept ticket_route_verified split: prod.splits sum.splits if_splits)

lemma ticket_loop_verified:
  assumes "ticket_loop env ops cfg hs intent options w st k ns = (w', st', Inr ms)"
    "\<forall>n \<in> set ns. \<exists>key now. cs_dispatch_ticket_key st = Some key \<and> ticket_for env cfg key intent (n_node_id n) now \<and>
       client_ssrf_safe (ce_flagged env) (he_private (ce_http env)) (n_endpoint n) = Inr True"
  shows "length ms \<le> length ns + k \<and>
    (\<forall>n \<in> set ms. \<exists>key now. cs_dispatch_ticket_key st' = Some key \<and> ticket_for env cfg key intent (n_node_id n) now \<and>
       client_ssrf_safe (ce_flagged env) (he_private (ce_http env)) (n_endpoint n) = Inr True)"
  using assms
proof (induction k arbitrary: w st ns)
  case (Suc k)
  obtain v s r where req: "request_ticket env ops cfg hs intent options w st (map (\<lambda>n. take 8 (n_node_id n)) ns) = (v, s, r)"
    by (metis prod_cases3)
  note one = request_ticket_verified [OF req]
  have old: "\<forall>n \<in> set ns. \<exists>key now. cs_dispatch_ticket_key s = Some key \<and> ticket_for env cfg key intent (n_node_id n) now \<and>
       client_ssrf_safe (ce_flagged env) (he_private (ce_http env)) (n_endpoint n) = Inr True"
    using Suc.prems(2) one(1) by blast
  from Suc.prems(1) req consider "r = Inr NoRoute" "st' = s" "ms = ns"
    | n where "r = Inr (Route n)" "ticket_loop env ops cfg hs intent options v s k (ns @ [n]) = (w', st', Inr ms)"
    by (auto split: sum.splits ticket_outcome.splits)
  then show ?case
  proof cases
    case 1
    with old show ?thesis by auto
  next
    case (2 n)
    have "\<forall>m \<in> set (ns @ [n]). \<exists>key now. cs_dispatch_ticket_key s = Some key \<and> ticket_for env cfg key intent (n_node_id m) now \<and>
       client_ssrf_safe (ce_flagged env) (he_private (ce_http env)) (n_endpoint m) = Inr True"
      using old one(2) [OF 2(1)] by auto
    from Suc.IH [OF 2(2) this] show ?thesis by simp
  qed
qed auto

subsection \<open>Properties\<close>


text \<open>A directory that lists one node, and a node that answers with an empty object.\<close>

definition sample_listing :: pyval where
  "sample_listing = PDict [(PStr ''nodes'', PList [PDict [(PStr ''endpoint'', PStr ''https://example.org''), (PStr ''node_id'', PStr ''n1''),
     (PStr ''cx_public_key'', PDict (advertised_key toy_suite ''k'' ''id''))]])]"

definition sample_http :: http_env where
  "sample_http =
     \<lparr>he_ip_text = (\<lambda>_. []), he_private = None, he_origin = (\<lambda>_. Some ([], [], None)), he_join = (\<lambda>_ l. l),
      he_encode = (\<lambda>_. ''{}''), he_decode = (\<lambda>x. Some (if x = ''L'' then sample_listing else PDict []))\<rparr>"

definition sample_env :: client_env where
  "sample_env =
     \<lparr>ce_http = sample_http, ce_plaintext = None, ce_flagged = (\<lambda>_. False), ce_text = (\<lambda>_. []), ce_float = (\<lambda>_. None),
      ce_sha256 = (\<lambda>s. s), ce_ranker = None, ce_suite = toy_suite,
      ce_ticket = \<lparr>tk_verify = (\<lambda>_ _ _. False), tk_payload = (\<lambda>_. None), tk_int = (\<lambda>_. None)\<rparr>,
      ce_secrets = \<lparr>ss_env = (\<lambda>_. None), ss_file = (\<lambda>_. (False, []))\<rparr>, ce_version = ''1''\<rparr>"

definition ok_response :: "octets \<Rightarrow> http_response" where
  "ok_response content = \<lparr>hr_status = 200, hr_headers = [], hr_chunks = [content], hr_broken = None\<rparr>"

definition sample_ops :: "unit client_ops" where
  "sample_ops =
     \<lparr>cw_http = \<lparr>hw_addresses = (\<lambda>_ _ _. Some [''93.184.216.34'']), hw_clock = (\<lambda>_. 0),
        hw_get = (\<lambda>_ _ _ w. (w, Inr (ok_response ''L''))), hw_send = (\<lambda>_ _ _ _ w. (w, Inr (ok_response ''{}'')))\<rparr>,
      cw_time = (\<lambda>_. 0), cw_draws = (\<lambda>_. \<lparr>dr_random = 0, dr_choice = 0\<rparr>), cw_uuid = (\<lambda>_. ''t''), cw_ephemeral = (\<lambda>_. (''e'', ''n'')),
      cw_sleep = (\<lambda>_ w. w)\<rparr>"

definition sample_config :: client_config where
  "sample_config =
     \<lparr>cc_directory_url = ''https://d.example'', cc_region = None, cc_timeout_ms = 1000, cc_max_retries = 1,
      cc_routing = \<lparr>routing_epsilon = 0, routing_strategy = ''deterministic'', routing_top_k = 1, routing_softmax_tau = 1\<rparr>,
      cc_node_token = None, cc_consumer_auth_mode = ''optional'', cc_routing_policy = default_policy,
      cc_route_discovery_mode = ''legacy'', cc_profile_request = None, cc_restricted_directory = None\<rparr>"

definition sample_task :: task_request where
  "sample_task =
     \<lparr>tq_intent = ''urn:iicp:intent:a'', tq_payload = [(PStr ''prompt'', PStr ''hi'')],
      tq_constraints = \<lparr>kc_timeout_ms = 1000, kc_qos = ''interactive'', kc_region = None, kc_model = None, kc_min_reputation = None\<rparr>,
      tq_route_constraints = None, tq_auth_node_token = None, tq_source_node_id = None, tq_routing_policy = None\<rparr>"

definition sample_node :: node where
  "sample_node = (plain_node ''n1'' (Some (advertised_key toy_suite ''k'' ''id'')) [])\<lparr>n_score := 0\<rparr>"

lemma sample_url:
  "urlparse ''https://example.org/v1/task'' = Inr \<lparr>u_scheme = ''https'', u_netloc = ''example.org''\<rparr>"
  "urlparse ''https://example.org'' = Inr \<lparr>u_scheme = ''https'', u_netloc = ''example.org''\<rparr>"
  "url_hostname \<lparr>u_scheme = ''https'', u_netloc = ''example.org''\<rparr> = Some ''example.org''"
  "\<not> url_has_user \<lparr>u_scheme = ''https'', u_netloc = ''example.org''\<rparr>"
  "url_port \<lparr>u_scheme = ''https'', u_netloc = ''example.org''\<rparr> = Inr None"
  "ip_address ''example.org'' = None" "\<not> private_endpoints_allowed None"
  by code_simp+

lemma sample_resolved:
  "resolve_endpoint (\<lambda>_ _. Some [''93.184.216.34'']) (\<lambda>_. []) None ''https://example.org/v1/task'' None =
     Inr \<lparr>re_url = ''https://example.org/v1/task'', re_host = ''example.org'', re_port = 443, re_addresses = [''93.184.216.34'']\<rparr>"
proof -
  have "lower (rstrip_char (CHR ''.'') ''example.org'') = ''example.org''" "ip_address ''93.184.216.34'' = Some (V4 0x5DB8D822)"
    "hostname_allowed ''example.org'' False"
    by code_simp+
  moreover have "ip_allowed (V4 0x5DB8D822)" by (simp add: policy_exact ip_public_def v4_special_def)
  ultimately show ?thesis by (simp add: resolve_endpoint_def sample_url address_allowed_def)
qed

lemma sample_simps [simp]:
  "ce_http sample_env = sample_http" "he_ip_text sample_http = (\<lambda>_. [])" "he_private sample_http = None"
  "he_origin sample_http u = Some ([], [], None)" "he_encode sample_http v = ''{}''"
  "he_decode sample_http x = Some (if x = ''L'' then sample_listing else PDict [])"
  "hw_addresses (cw_http sample_ops) = (\<lambda>_ _ _. Some [''93.184.216.34''])" "hw_clock (cw_http sample_ops) w = 0"
  "hw_send (cw_http sample_ops) ep url body hs w = (w, Inr (ok_response ''{}''))"
  "hw_get (cw_http sample_ops) url ps hs w = (w, Inr (ok_response ''L''))"
  by (simp_all add: sample_env_def sample_http_def sample_ops_def)

lemma sample_post:
  "post_json sample_http (cw_http sample_ops) () ''https://example.org/v1/task'' body component hs True =
     ((), [\<lparr>sr_endpoint = Some \<lparr>re_url = ''https://example.org/v1/task'', re_host = ''example.org'', re_port = 443, re_addresses = [''93.184.216.34'']\<rparr>,
            sr_url = ''https://example.org/v1/task'', sr_body = ''{}''\<rparr>], Inr ([], 0))"
proof -
  have "read_response sample_http component (ok_response ''{}'') = Inr []"
    by (simp add: read_response_def validate_response_headers_def validate_content_encoding_def content_length_def
      header_values_def header_all_def append_response_chunk_def MAX_HTTP_TASK_BODY_BYTES_def is_success_def ok_response_def)
  moreover have "redirect_target sample_http component False u (ok_response ''{}'') = Inr (Final (ok_response ''{}''))" for u
    by (simp add: redirect_target_def ok_response_def)
  ultimately show ?thesis
    by (simp add: post_json_def bounded_request_json_def MAX_HTTP_TASK_BODY_BYTES_def pinned_loop.simps [of _ _ _ _ _ _ _ 3]
        pinned_round_def sample_resolved)
qed

lemma sample_found:
  "find_routes sample_env sample_ops sample_config () st sample_task =
     ((), st, Inr \<lparr>nl_nodes = [sample_node], nl_query_ms = 0, nl_profile_negotiation = None, nl_diversity_evidence = None\<rparr>)"
proof -
  have safe: "client_ssrf_safe (\<lambda>_. False) None ''https://example.org'' = Inr True"
    by (simp add: client_ssrf_safe_def sample_url) code_simp
  have key: "advertised_key toy_suite ''k'' ''id'' \<noteq> []" by (simp add: advertised_key_def)
  have "node_from_route sample_env [(PStr ''endpoint'', PStr ''https://example.org''), (PStr ''node_id'', PStr ''n1''),
     (PStr ''cx_public_key'', PDict (advertised_key toy_suite ''k'' ''id''))] PNone = Inr (Some sample_node)"
    using key
    by (simp add: node_from_route_def sget_Cons safe get_or_def py_or_def float_value_def opt_text_def opt_bool_def opt_dict_def opt_list_def
        sample_node_def plain_node_def sample_env_def)
  moreover have "cc_restricted_directory sample_config = None" "cc_route_discovery_mode sample_config = ''legacy''"
    "do_browser_usable_only (project_route_options sample_task sample_config) = False"
    "do_profile_request (project_route_options sample_task sample_config) = None"
    by (simp_all add: sample_config_def project_route_options_def sample_task_def default_route_constraints_def Let_def)
  ultimately show ?thesis
    by (simp add: find_routes_def discover_def get_json_def is_success_def ok_response_def response_content_def listed_nodes_def
        sample_listing_def sget_Cons get_or_def negotiation_of_def profile_unsupported_def iterate_def discovered_node_def opt_dict_def)
qed

lemma sample_chosen:
  "\<exists>d. choose_candidates sample_env sample_config r sample_task ''t'' [sample_node] = Inr (d, [sample_node], None)"
proof -
  have e: "effective_policy sample_config sample_task = resolved_policy (Some default_policy)"
    by (simp add: effective_policy_def sample_config_def sample_task_def)
  have p: "\<not> plaintext_allowed sample_env sample_config sample_task"
    unfolding plaintext_allowed_def e by (simp add: resolved_policy_def default_policy_def profile_table_def standard_defaults_def
        cx_plaintext_fallback_allowed_def sample_env_def strip_def lower_def)
  have "node_rejection_reason (ce_text sample_env) sample_node (resolved_policy (Some default_policy)) False = None"
    by (simp add: node_rejection_reason_def resolved_policy_def default_policy_def profile_table_def standard_defaults_def
        sample_node_def plain_node_def filled_def advertised_key_def)
  moreover have "ce_ranker sample_env = None" "routing_strategy (cc_routing sample_config) = ''deterministic''" "cc_max_retries sample_config = 1"
    by (simp_all add: sample_env_def sample_config_def)
  ultimately show ?thesis using p
    by (simp add: choose_candidates_def e filter_nodes_fields resolved_policy_idem select_candidates_def)
qed

lemma sample_body:
  "\<exists>body s. task_body_of sample_env keys sample_task ''t'' payload sample_node = Inr (body, Some s, False)"
proof -
  have "\<exists>conf s. encrypt_payload_with_context toy_suite (fst keys) (snd keys) payload (advertised_key toy_suite ''k'' ''id'') ''t'' ''urn:iicp:intent:a'' = Inr (conf, s)"
    by (simp add: encrypt_payload_with_context_def advertised_key_def sget_Cons toy_suite_def Let_def del: b64url_encode.simps)
  then show ?thesis
    by (auto simp: task_body_of_def sample_node_def plain_node_def filled_def sample_env_def sample_task_def advertised_key_def get_or_def Let_def)
qed



definition sample_ticket_data :: pyval where
  "sample_ticket_data = PDict [(PStr ''ticket'', PStr (''a.'' @ replicate 128 (CHR ''0''))), (PStr ''node_id'', PStr ''n1''), (PStr ''public_key'', PStr ''k''),
     (PStr ''route'', PDict [(PStr ''endpoint'', PStr ''https://example.org'')])]"

definition sample_claims :: pydict where
  "sample_claims = [(PStr ''v'', PInt 1), (PStr ''typ'', PStr ''dispatch-route-ticket''), (PStr ''iss'', PStr ''https://d.example''),
     (PStr ''aud'', PStr TICKET_AUDIENCE), (PStr ''node_id'', PStr ''n1''), (PStr ''intent'', PStr ''i''), (PStr ''exp'', PInt 100),
     (PStr ''jti'', PStr (replicate 24 (CHR ''0'')))]"

definition ticket_env :: client_env where
  "ticket_env = sample_env\<lparr>ce_http := sample_http\<lparr>he_decode := (\<lambda>_. Some sample_ticket_data)\<rparr>,
     ce_ticket := \<lparr>tk_verify = (\<lambda>_ _ _. True), tk_payload = (\<lambda>_. Some (PDict sample_claims)), tk_int = (\<lambda>_. None)\<rparr>\<rparr>"

definition ticket_ops :: "unit client_ops" where
  "ticket_ops = sample_ops\<lparr>cw_http := (cw_http sample_ops)\<lparr>hw_send := (\<lambda>_ _ _ _ w. (w, Inr ((ok_response [])\<lparr>hr_status := 201\<rparr>)))\<rparr>\<rparr>"

lemma sample_verified:
  "\<exists>claims. verify_dispatch_route_ticket (ce_ticket ticket_env) (''a.'' @ replicate 128 (CHR ''0'')) ''k'' ''https://d.example'' ''n1'' ''i'' 0 = Inr (Some claims) \<and>
     tc_policy_manifest_sha256 claims = PNone"
proof -
  have hex: "lower_hex 24 (PStr (replicate 24 (CHR ''0'')))" by (simp add: lower_hex_def list_all_length)
  show ?thesis
    by (simp add: verify_dispatch_route_ticket_def ticket_env_def sample_claims_def sget_Cons get_or_def after_def before_def hex)
qed

lemma sample_ticket_route:
  "\<exists>n. ticket_route ticket_env sample_config (Some ''k'') ''i'' 0 sample_ticket_data = Inr n \<and> n_node_id n = ''n1''"
proof -
  have root: "directory_root sample_config = ''https://d.example''" unfolding sample_config_def by code_simp
  have safe: "client_ssrf_safe (ce_flagged ticket_env) (he_private (ce_http ticket_env)) ''https://example.org'' = Inr True"
    by (simp add: client_ssrf_safe_def sample_url ticket_env_def sample_env_def) code_simp
  obtain claims where "verify_dispatch_route_ticket (ce_ticket ticket_env) (''a.'' @ replicate 128 (CHR ''0'')) ''k'' ''https://d.example'' ''n1'' ''i'' 0 = Inr (Some claims)"
    "tc_policy_manifest_sha256 claims = PNone"
    using sample_verified by blast
  then show ?thesis
    by (simp add: ticket_route_def sample_ticket_data_def sget_Cons present_def root get_or_def policy_manifest_binding_matches_def
        node_from_route_def safe float_value_def py_or_def)
qed


end
