(* ===== verification/Capacity.thy ===== *)
theory Capacity
  imports Py_Value
begin

text \<open>
  How many tasks a provider runs at once: the gate of the native server (\<open>concurrency.py\<close>), the service classes
  (\<open>scheduler.py\<close>), the availability windows (\<open>availability.py\<close>), and the slots of the HTTP server (\<open>node.py\<close>), whose
  threads interleave between the semaphore and the job counter.
\<close>

subsection \<open>The gate of the native server (\<open>ConcurrencyGate\<close>)\<close>

text \<open>The semaphore of \<open>asyncio\<close> keeps a value and a queue of waiters; it is locked when the value is zero or someone
  waits. Between two suspension points a coroutine runs alone, so entering (when it does not wait) and leaving are
  one step each.\<close>

record concurrency_gate =
  cg_max :: int
  cg_value :: int
  cg_waiters :: nat
  cg_active :: int

definition new_gate :: "int \<Rightarrow> py_error + concurrency_gate" where
  "new_gate max_concurrent =
     (if max_concurrent < 1 then Inl (ValueError ''max_concurrent must be >= 1'')
      else Inr \<lparr>cg_max = max_concurrent, cg_value = max_concurrent, cg_waiters = 0, cg_active = 0\<rparr>)"

definition gate_locked :: "concurrency_gate \<Rightarrow> bool" where
  "gate_locked g \<longleftrightarrow> cg_value g = 0 \<or> cg_waiters g > 0"

datatype gate_entry = Entered | CapacityExceeded int | Waiting

definition gate_acquire :: "concurrency_gate \<Rightarrow> concurrency_gate \<times> gate_entry" where
  "gate_acquire g =
     (if gate_locked g \<and> cg_active g \<ge> cg_max g then (g, CapacityExceeded (cg_max g))
      else if \<not> gate_locked g then (g\<lparr>cg_value := cg_value g - 1, cg_active := cg_active g + 1\<rparr>, Entered)
      else (g\<lparr>cg_waiters := Suc (cg_waiters g)\<rparr>, Waiting))"

definition gate_release :: "concurrency_gate \<Rightarrow> concurrency_gate" where
  "gate_release g = g\<lparr>cg_active := cg_active g - 1, cg_value := cg_value g + 1\<rparr>"

definition gate_load :: "concurrency_gate \<Rightarrow> real" where
  "gate_load g = (if cg_max g = 0 then 1 else of_int (cg_active g) / of_int (cg_max g))"

text \<open>A history of the gate: arrivals, and departures of tasks that entered.\<close>

inductive gate_reachable :: "int \<Rightarrow> concurrency_gate \<Rightarrow> bool" for n where
  gate_start: "new_gate n = Inr g \<Longrightarrow> gate_reachable n g"
| gate_arrival: "gate_reachable n g \<Longrightarrow> gate_reachable n (fst (gate_acquire g))"
| gate_departure: "gate_reachable n g \<Longrightarrow> 0 < cg_active g \<Longrightarrow> gate_reachable n (gate_release g)"

subsection \<open>Service classes (\<open>scheduler.py\<close>)\<close>

definition QOS_PRIORITY :: "(string option \<times> int) list" where
  "QOS_PRIORITY =
     [(Some ''realtime'', 0), (Some ''interactive'', 1), (Some ''batch'', 2), (Some ''best_effort'', 3), (Some ''best-effort'', 3), (None, 3)]"

definition qos_priority :: "string option \<Rightarrow> int" where
  "qos_priority qos = (case map_of QOS_PRIORITY qos of None \<Rightarrow> 3 | Some p \<Rightarrow> p)"

definition QUEUE_ELIGIBLE :: "string list" where "QUEUE_ELIGIBLE = [''realtime'', ''interactive'']"
definition QUEUE_WAIT_S :: real where "QUEUE_WAIT_S = 2"

definition is_queue_eligible :: "pyval \<Rightarrow> py_error + bool" where
  "is_queue_eligible qos = in_set qos QUEUE_ELIGIBLE"

subsection \<open>Availability windows (\<open>availability.py\<close>)\<close>

record availability_window =
  aw_start :: string
  aw_end :: string
  aw_share :: real

definition clock_text :: "nat \<Rightarrow> nat \<Rightarrow> string" where
  "clock_text h m =
     [char_of (48 + h div 10), char_of (48 + h mod 10), CHR '':'', char_of (48 + m div 10), char_of (48 + m mod 10)]"

definition in_window :: "availability_window \<Rightarrow> string \<Rightarrow> bool" where
  "in_window w current =
     (if aw_start w \<le> aw_end w then aw_start w \<le> current \<and> current \<le> aw_end w
      else aw_start w \<le> current \<or> current \<le> aw_end w)"

definition current_share :: "availability_window list \<Rightarrow> nat \<Rightarrow> nat \<Rightarrow> real" where
  "current_share windows h m =
     (if windows = [] then 1
      else case List.find (\<lambda>w. in_window w (clock_text h m)) windows of Some w \<Rightarrow> aw_share w | None \<Rightarrow> 1 / 2)"

definition effective_max_concurrent :: "availability_window list \<Rightarrow> int \<Rightarrow> nat \<Rightarrow> nat \<Rightarrow> int" where
  "effective_max_concurrent windows base_max h m =
     (if base_max \<le> 0 then 0
      else let share = current_share windows h m
        in if share \<le> 0 then 0 else max 1 \<lfloor>of_int base_max * share\<rfloor>)"

definition is_within_window :: "availability_window list \<Rightarrow> nat \<Rightarrow> nat \<Rightarrow> bool" where
  "is_within_window windows h m \<longleftrightarrow> windows = [] \<or> current_share windows h m > 0"

subsection \<open>The slots of the HTTP server (\<open>IicpNode\<close>)\<close>

text \<open>One request thread each: it takes a slot of the semaphore, counts itself as a job, runs, gives the slot back, and
  stops counting itself, in four separate steps, as in \<open>_task\<close>.\<close>

datatype slot_phase = Idle | Holding | Running | Leaving

record slot_state =
  sl_sem :: int
  sl_active :: int
  sl_phases :: "slot_phase list"

inductive slot_step :: "slot_state \<Rightarrow> slot_state \<Rightarrow> bool" where
  take_slot: "i < length (sl_phases s) \<Longrightarrow> sl_phases s ! i = Idle \<Longrightarrow> 0 < sl_sem s \<Longrightarrow>
    slot_step s (s\<lparr>sl_sem := sl_sem s - 1, sl_phases := (sl_phases s)[i := Holding]\<rparr>)"
| count_job: "i < length (sl_phases s) \<Longrightarrow> sl_phases s ! i = Holding \<Longrightarrow>
    slot_step s (s\<lparr>sl_active := sl_active s + 1, sl_phases := (sl_phases s)[i := Running]\<rparr>)"
| give_slot: "i < length (sl_phases s) \<Longrightarrow> sl_phases s ! i = Running \<Longrightarrow>
    slot_step s (s\<lparr>sl_sem := sl_sem s + 1, sl_phases := (sl_phases s)[i := Leaving]\<rparr>)"
| uncount_job: "i < length (sl_phases s) \<Longrightarrow> sl_phases s ! i = Leaving \<Longrightarrow>
    slot_step s (s\<lparr>sl_active := sl_active s - 1, sl_phases := (sl_phases s)[i := Idle]\<rparr>)"

inductive_cases slot_stepE: "slot_step s t"

definition slot_start :: "int \<Rightarrow> nat \<Rightarrow> slot_state" where
  "slot_start max_concurrent threads = \<lparr>sl_sem = max_concurrent, sl_active = 0, sl_phases = replicate threads Idle\<rparr>"

definition in_phase :: "slot_phase set \<Rightarrow> slot_state \<Rightarrow> nat" where
  "in_phase ps s = length (filter (\<lambda>p. p \<in> ps) (sl_phases s))"

subsection \<open>Facts\<close>

definition gate_invariant :: "int \<Rightarrow> concurrency_gate \<Rightarrow> bool" where
  "gate_invariant n g \<longleftrightarrow>
     cg_max g = n \<and> 1 \<le> n \<and> cg_value g + cg_active g = n \<and> cg_waiters g = 0 \<and> 0 \<le> cg_active g \<and> cg_active g \<le> n"

lemma gate_reachable_invariant: "gate_reachable n g \<Longrightarrow> gate_invariant n g"
  by (induction rule: gate_reachable.induct)
    (auto simp: gate_invariant_def new_gate_def gate_acquire_def gate_release_def gate_locked_def split: if_splits)

lemma filter_update:
  "i < length xs \<Longrightarrow>
   int (length (filter P (xs[i := x]))) = int (length (filter P xs)) + (if P x then 1 else 0) - (if P (xs ! i) then 1 else 0)"
proof (induction xs arbitrary: i)
  case (Cons y ys)
  show ?case
  proof (cases i)
    case (Suc j)
    with Cons have "int (length (filter P (ys[j := x]))) =
      int (length (filter P ys)) + (if P x then 1 else 0) - (if P (ys ! j) then 1 else 0)" by simp
    with Suc show ?thesis by (cases "P x"; cases "P (ys ! j)") auto
  qed (use Cons in auto)
qed simp

definition slot_invariant :: "int \<Rightarrow> slot_state \<Rightarrow> bool" where
  "slot_invariant n s \<longleftrightarrow>
     0 \<le> sl_sem s \<and> sl_sem s + int (in_phase {Holding, Running} s) = n \<and> sl_active s = int (in_phase {Running, Leaving} s)"

lemma slot_step_invariant: "slot_step s t \<Longrightarrow> slot_invariant n s \<Longrightarrow> slot_invariant n t"
  by (erule slot_stepE) (auto simp: slot_invariant_def in_phase_def filter_update)

lemma slot_reachable_invariant:
  assumes "slot_step\<^sup>*\<^sup>* (slot_start n k) s" "0 \<le> n"
  shows "slot_invariant n s"
  using assms(1)
proof (induction rule: rtranclp_induct)
  case base
  then show ?case using assms(2) by (simp add: slot_invariant_def slot_start_def in_phase_def)
next
  case (step s t)
  then show ?case by (blast intro: slot_step_invariant)
qed

lemma in_phase_mono: "ps \<subseteq> qs \<Longrightarrow> in_phase ps s \<le> in_phase qs s"
proof -
  assume sub: "ps \<subseteq> qs"
  have "length (filter (\<lambda>p. p \<in> ps) xs) \<le> length (filter (\<lambda>p. p \<in> qs) xs)" for xs
    using sub by (induction xs) auto
  then show ?thesis by (simp add: in_phase_def)
qed

text \<open>Clock texts compare like minutes of the day.\<close>

lemma clock_digit: "a < 10 \<Longrightarrow> of_char (char_of (48 + a) :: char) = (48 + a :: nat)"
  by simp

lemma digit_order:
  fixes a b :: nat
  assumes "a < 10" "b < 10"
  shows "(char_of (48 + a) :: char) < char_of (48 + b) \<longleftrightarrow> a < b" "(char_of (48 + a) :: char) = char_of (48 + b) \<longleftrightarrow> a = b"
proof -
  show "(char_of (48 + a) :: char) < char_of (48 + b) \<longleftrightarrow> a < b" using assms by (simp add: less_char_def)
  have "a = b" if "(char_of (48 + a) :: char) = char_of (48 + b)"
    using arg_cong [OF that, of "of_char :: char \<Rightarrow> nat"] assms by (simp only: clock_digit)
  then show "(char_of (48 + a) :: char) = char_of (48 + b) \<longleftrightarrow> a = b" by auto
qed

lemma lex_less:
  fixes a b a' b' k :: nat
  assumes "b < k" "b' < k"
  shows "k * a + b < k * a' + b' \<longleftrightarrow> a < a' \<or> a = a' \<and> b < b'"
proof (cases "a < a'")
  case True
  then have "k * Suc a \<le> k * a'" by (intro mult_le_mono2) simp
  with True assms show ?thesis by simp
next
  case False
  show ?thesis
  proof (cases "a = a'")
    case False
    with \<open>\<not> a < a'\<close> have "k * Suc a' \<le> k * a" by (intro mult_le_mono2) simp
    with False \<open>\<not> a < a'\<close> assms show ?thesis by simp
  qed (use assms in auto)
qed

lemma digits_less: "(n :: nat) < n' \<longleftrightarrow> n div 10 < n' div 10 \<or> n div 10 = n' div 10 \<and> n mod 10 < n' mod 10"
  using lex_less [of "n mod 10" 10 "n' mod 10" "n div 10" "n' div 10"] by simp

lemma digits_eq: "(n :: nat) = n' \<longleftrightarrow> n div 10 = n' div 10 \<and> n mod 10 = n' mod 10"
  by (metis mod_mult_div_eq)

lemma clock_text_le:
  assumes "h < 24" "m < 60" "h' < 24" "m' < 60"
  shows "clock_text h m \<le> clock_text h' m' \<longleftrightarrow> 60 * h + m \<le> 60 * h' + m'"
proof -
  have d: "h div 10 < 10" "h mod 10 < 10" "m div 10 < 10" "m mod 10 < 10" "h' div 10 < 10" "h' mod 10 < 10" "m' div 10 < 10" "m' mod 10 < 10"
    using assms by auto
  have "clock_text h' m' < clock_text h m \<longleftrightarrow>
    h' div 10 < h div 10 \<or> h' div 10 = h div 10 \<and> (h' mod 10 < h mod 10 \<or> h' mod 10 = h mod 10 \<and>
      (m' div 10 < m div 10 \<or> m' div 10 = m div 10 \<and> m' mod 10 < m mod 10))"
    unfolding clock_text_def by (simp only: Cons_less_Cons digit_order d) auto
  also have "\<dots> \<longleftrightarrow> h' < h \<or> h' = h \<and> m' < m" using digits_less [of h' h] digits_eq [of h' h] digits_less [of m' m] by blast
  also have "\<dots> \<longleftrightarrow> 60 * h' + m' < 60 * h + m" using lex_less [of m' 60 m h' h] assms by simp
  finally show ?thesis by (simp add: not_less [symmetric])
qed

subsection \<open>Properties\<close>



text \<open>The capacity a provider offers follows its windows: with well-formed windows and shares between 0 and 1, the effective
  limit is 0 exactly when the provider is disabled or the share is 0, never exceeds the configured limit, and is at least 1
  otherwise; and a window covers exactly the minutes of the day from its start to its end, across midnight when it
  ends before it starts.\<close>

lemma availability_exact:
  assumes "\<forall>w \<in> set windows. 0 \<le> aw_share w \<and> aw_share w \<le> 1" "h < 24" "m < 60" "sh < 24" "sm < 60" "eh < 24" "em < 60"
  shows "effective_max_concurrent windows n h m \<le> max 0 n \<and>
    (effective_max_concurrent windows n h m = 0 \<longleftrightarrow> n \<le> 0 \<or> current_share windows h m = 0) \<and>
    0 \<le> effective_max_concurrent windows n h m \<and>
    (in_window \<lparr>aw_start = clock_text sh sm, aw_end = clock_text eh em, aw_share = x\<rparr> (clock_text h m) \<longleftrightarrow>
       (let t = 60 * h + m; a = 60 * sh + sm; b = 60 * eh + em in if a \<le> b then a \<le> t \<and> t \<le> b else a \<le> t \<or> t \<le> b))"
proof -
  have share: "0 \<le> current_share windows h m \<and> current_share windows h m \<le> 1"
    using assms(1) by (auto simp: current_share_def find_Some_iff split: option.splits)
  have le: "max 1 \<lfloor>of_int n * current_share windows h m\<rfloor> \<le> n" if "0 < n"
  proof -
    have "of_int n * current_share windows h m \<le> of_int n * 1" using share that by (intro mult_left_mono) auto
    then have "\<lfloor>of_int n * current_share windows h m\<rfloor> \<le> n" by linarith
    with that show ?thesis by simp
  qed
  have "in_window \<lparr>aw_start = clock_text sh sm, aw_end = clock_text eh em, aw_share = x\<rparr> (clock_text h m) \<longleftrightarrow>
       (let t = 60 * h + m; a = 60 * sh + sm; b = 60 * eh + em in if a \<le> b then a \<le> t \<and> t \<le> b else a \<le> t \<or> t \<le> b)"
    using assms(2-7) by (simp add: in_window_def clock_text_le Let_def)
  moreover have "effective_max_concurrent windows n h m \<le> max 0 n" "0 \<le> effective_max_concurrent windows n h m"
    "effective_max_concurrent windows n h m = 0 \<longleftrightarrow> n \<le> 0 \<or> current_share windows h m = 0"
    using share le by (auto simp: effective_max_concurrent_def Let_def)
  ultimately show ?thesis by blast
qed

end
