(* ===== verification/Backend_Stability.thy ===== *)
theory Backend_Stability
  imports Net_Endpoint
begin

text \<open>
  The provider's view of its local model backend (\<open>backend_stability.py\<close>): the observation that decides whether new work is
  drained, its public form, the parsers of the backends' status documents and the probe. Parameters: the text of
  values that are neither text nor integers, and the answers of the backend's status endpoints.
\<close>

record observation =
  ob_backend_state :: string
  ob_reason_class :: string
  ob_drain_until :: "time option"
  ob_observed_at :: time
  ob_diagnostics :: pydict

definition OK_STATE :: string where "OK_STATE = ''ok''"
definition DEGRADED :: string where "DEGRADED = ''degraded''"
definition DRAINING :: string where "DRAINING = ''draining''"

definition observed :: "string \<Rightarrow> string \<Rightarrow> time option \<Rightarrow> time \<Rightarrow> pydict \<Rightarrow> observation" where
  "observed state reason drain moment diagnostics =
     \<lparr>ob_backend_state = state, ob_reason_class = reason, ob_drain_until = drain, ob_observed_at = moment, ob_diagnostics = diagnostics\<rparr>"

definition observer_error :: "time \<Rightarrow> observation" where
  "observer_error now = observed DEGRADED ''observer_error'' None now []"

text \<open>\<open>int(round(x))\<close>: to the nearest integer, halves to the even one.\<close>

definition py_round :: "real \<Rightarrow> int" where
  "py_round x = (let n = \<lfloor>x\<rfloor>; r = x - of_int n in if r < 1/2 then n else if r > 1/2 then n + 1 else if even n then n else n + 1)"

definition retry_after_s :: "observation \<Rightarrow> time \<Rightarrow> int option" where
  "retry_after_s ob now =
     (case ob_drain_until ob of
        None \<Rightarrow> None
      | Some u \<Rightarrow> let remaining = u - now in if remaining \<le> 0 then None else Some (max 1 (py_round remaining)))"

definition is_draining :: "observation \<Rightarrow> time \<Rightarrow> bool" where
  "is_draining ob now \<longleftrightarrow> retry_after_s ob now \<noteq> None \<and> ob_backend_state ob = DRAINING"

definition public_dict :: "observation \<Rightarrow> time \<Rightarrow> pydict" where
  "public_dict ob now =
     [(PStr ''backend_state'', PStr (ob_backend_state ob)), (PStr ''reason_class'', PStr (ob_reason_class ob))] @
     (case retry_after_s ob now of
        None \<Rightarrow> []
      | Some r \<Rightarrow> [(PStr ''retry_after_s'', PInt r), (PStr ''drain_until'', PInt \<lfloor>the (ob_drain_until ob)\<rfloor>)])"

subsection \<open>Parsers\<close>

definition norm_text :: "(pyval \<Rightarrow> string) \<Rightarrow> pyval \<Rightarrow> string" where
  "norm_text text_of v =
     map (\<lambda>c. if c = CHR ''-'' then CHR ''_'' else c) (lower (strip (if truthy v then py_str text_of v else [])))"

definition backend_model_matches :: "string \<Rightarrow> string option \<Rightarrow> bool" where
  "backend_model_matches candidate expected =
     (case expected of
        None \<Rightarrow> True
      | Some e \<Rightarrow> e = [] \<or> candidate = e \<or> before (CHR '':'') candidate = before (CHR '':'') e)"

definition expects :: "string option \<Rightarrow> bool" where
  "expects expected = (case expected of None \<Rightarrow> False | Some e \<Rightarrow> e \<noteq> [])"

definition parse_ollama_ps :: "pyval \<Rightarrow> string option \<Rightarrow> time \<Rightarrow> observation" where
  "parse_ollama_ps data expected_model now =
     (case data of
        PDict d \<Rightarrow>
          (case sget d ''models'' of
             PList ms \<Rightarrow>
               let names = List.map_filter (\<lambda>m. case m of PDict x \<Rightarrow> (case sget x ''name'' of PStr s \<Rightarrow> Some s | _ \<Rightarrow> None) | _ \<Rightarrow> None) ms
               in if expects expected_model \<and> \<not> list_ex (\<lambda>n. backend_model_matches n expected_model) names
                  then observed DEGRADED ''backend_cold'' None now
                         [(PStr ''loaded_model_count'', PInt (int (length names))), (PStr ''expected_model_loaded'', PBool False)]
                  else observed OK_STATE ''ok'' None now [(PStr ''loaded_model_count'', PInt (int (length names)))]
           | _ \<Rightarrow> observer_error now)
      | _ \<Rightarrow> observer_error now)"

record model_scan =
  ms_saw_expected :: bool
  ms_saw_loaded_expected :: bool
  ms_saw_loading :: bool
  ms_saw_unstable :: bool
  ms_loaded_count :: nat

definition first_true :: "pydict \<Rightarrow> string list \<Rightarrow> pyval" where
  "first_true d ks = (case List.find (\<lambda>k. truthy (sget d k)) ks of None \<Rightarrow> sget d (last ks) | Some k \<Rightarrow> sget d k)"

definition scan_instance :: "(pyval \<Rightarrow> string) \<Rightarrow> bool \<Rightarrow> model_scan \<Rightarrow> pyval \<Rightarrow> model_scan" where
  "scan_instance text_of expected sc inst =
     (case inst of
        PDict i \<Rightarrow>
          let state = norm_text text_of (first_true i [''state'', ''status'', ''load_status''])
          in sc\<lparr>ms_loaded_count := Suc (ms_loaded_count sc),
                ms_saw_loaded_expected := ms_saw_loaded_expected sc \<or> expected,
                ms_saw_loading := ms_saw_loading sc \<or> state \<in> {''loading'', ''initializing'', ''starting'', ''warming'', ''warming_up''},
                ms_saw_unstable := ms_saw_unstable sc \<or>
                  state \<in> {''error'', ''failed'', ''crashed'', ''unhealthy'', ''oom'', ''out_of_memory''}\<rparr>
      | _ \<Rightarrow> sc)"

definition scan_item :: "(pyval \<Rightarrow> string) \<Rightarrow> string option \<Rightarrow> model_scan \<Rightarrow> pyval \<Rightarrow> model_scan" where
  "scan_item text_of expected_model sc item =
     (case item of
        PDict d \<Rightarrow>
          let v = first_true d [''id'', ''model_key'', ''path''];
              expected = backend_model_matches (if truthy v then py_str text_of v else []) expected_model;
              instances = (case first_true d [''loaded_instances'', ''loadedInstances''] of PList xs \<Rightarrow> xs | _ \<Rightarrow> [])
          in foldl (scan_instance text_of expected) (sc\<lparr>ms_saw_expected := ms_saw_expected sc \<or> expected\<rparr>) instances
      | _ \<Rightarrow> sc)"

definition parse_lmstudio_models :: "(pyval \<Rightarrow> string) \<Rightarrow> pyval \<Rightarrow> string option \<Rightarrow> time \<Rightarrow> int \<Rightarrow> int \<Rightarrow> observation" where
  "parse_lmstudio_models text_of data expected_model now loading_retry_s unstable_retry_s =
     (case (case data of PDict d \<Rightarrow> get_or d ''data'' (sget d ''models'') | _ \<Rightarrow> PNone) of
        PList items \<Rightarrow>
          let sc = foldl (scan_item text_of expected_model)
                \<lparr>ms_saw_expected = \<not> expects expected_model, ms_saw_loaded_expected = False, ms_saw_loading = False,
                 ms_saw_unstable = False, ms_loaded_count = 0\<rparr> items;
              counted = [(PStr ''loaded_instance_count'', PInt (int (ms_loaded_count sc)))]
          in if ms_saw_unstable sc then observed DRAINING ''backend_unstable'' (Some (now + of_int unstable_retry_s)) now counted
             else if ms_saw_loading sc then observed DRAINING ''backend_loading'' (Some (now + of_int loading_retry_s)) now counted
             else if expects expected_model \<and> (\<not> ms_saw_expected sc \<or> \<not> ms_saw_loaded_expected sc)
             then observed DEGRADED ''backend_cold'' None now (counted @ [(PStr ''expected_model_loaded'', PBool False)])
             else observed OK_STATE ''ok'' None now counted
      | _ \<Rightarrow> observer_error now)"

subsection \<open>The probe\<close>

text \<open>The answer of a status endpoint: unreachable (any exception), a status with a body that may not be JSON.\<close>

datatype probe_answer = Unreachable | Status bool "pyval option"

definition MESH_LOADING :: "time \<Rightarrow> string \<Rightarrow> observation" where
  "MESH_LOADING now what = observed DRAINING ''backend_loading'' (Some (now + 30)) now [(PStr what, PBool False)]"

definition mesh_ready :: "(string \<Rightarrow> probe_answer) \<Rightarrow> string \<Rightarrow> string option \<Rightarrow> time \<Rightarrow> observation" where
  "mesh_ready ask origin expected_model now =
     (case ask (origin @ ''/readyz'') of
        Unreachable \<Rightarrow> observer_error now
      | Status False _ \<Rightarrow> MESH_LOADING now ''ready''
      | Status True _ \<Rightarrow>
          (case ask (origin @ ''/v1/models'') of
             Unreachable \<Rightarrow> observer_error now
           | Status False _ \<Rightarrow> MESH_LOADING now ''ready''
           | Status True None \<Rightarrow> observer_error now
           | Status True (Some body) \<Rightarrow>
               (case (case body of PDict d \<Rightarrow> sget d ''data'' | _ \<Rightarrow> PNone) of
                  PList items \<Rightarrow>
                    let ids = List.map_filter (\<lambda>m. case m of PDict x \<Rightarrow> if truthy (sget x ''id'') then Some (sget x ''id'') else None | _ \<Rightarrow> None) items
                    in if ids = [] then MESH_LOADING now ''selected_model_ready''
                       else if expects expected_model
                       then (if list_ex (\<lambda>v. case v of PStr s \<Rightarrow> backend_model_matches s expected_model | _ \<Rightarrow> False) (takeWhile is_str ids)
                             then observed OK_STATE ''ok'' None now [(PStr ''ready'', PBool True)]
                             else if list_all is_str ids then MESH_LOADING now ''selected_model_ready''
                             else observer_error now)
                       else observed OK_STATE ''ok'' None now [(PStr ''ready'', PBool True)]
                | _ \<Rightarrow> MESH_LOADING now ''ready'')))"

definition lmstudio_probe :: "(pyval \<Rightarrow> string) \<Rightarrow> (string \<Rightarrow> probe_answer) \<Rightarrow> string \<Rightarrow> string \<Rightarrow> string option \<Rightarrow> time \<Rightarrow> observation" where
  "lmstudio_probe text_of ask origin flavor expected_model now =
     (case ask (origin @ ''/api/v1/models'') of
        Unreachable \<Rightarrow> observer_error now
      | Status True None \<Rightarrow> observer_error now
      | Status True (Some v) \<Rightarrow> parse_lmstudio_models text_of v expected_model now 30 60
      | Status False _ \<Rightarrow> if flavor = [] then observed OK_STATE ''ok'' None now [] else observer_error now)"

definition ollama_probe :: "(pyval \<Rightarrow> string) \<Rightarrow> (string \<Rightarrow> probe_answer) \<Rightarrow> string \<Rightarrow> string \<Rightarrow> string option \<Rightarrow> time \<Rightarrow> observation" where
  "ollama_probe text_of ask origin flavor expected_model now =
     (case ask (origin @ ''/api/ps'') of
        Unreachable \<Rightarrow> observer_error now
      | Status True None \<Rightarrow> observer_error now
      | Status True (Some v) \<Rightarrow> parse_ollama_ps v expected_model now
      | Status False _ \<Rightarrow> if flavor = ''ollama'' then observer_error now else lmstudio_probe text_of ask origin flavor expected_model now)"

definition observe_backend_stability ::
  "(pyval \<Rightarrow> string) \<Rightarrow> (string \<Rightarrow> probe_answer) \<Rightarrow> string \<Rightarrow> string option \<Rightarrow> string option \<Rightarrow> time \<Rightarrow> observation" where
  "observe_backend_stability text_of ask backend_url backend expected_model now =
     (let base = rstrip_char (CHR ''/'') backend_url;
          origin = (if ends_with base ''/v1'' then take (length base - 3) base else base);
          flavor = norm_text text_of (case backend of None \<Rightarrow> PNone | Some b \<Rightarrow> PStr b)
      in if base = [] then observer_error now
         else if flavor = ''meshllm'' then mesh_ready ask origin expected_model now
         else if flavor \<in> {''ollama'', []} then ollama_probe text_of ask origin flavor expected_model now
         else if flavor \<in> {''lmstudio'', ''lm_studio'', ''lm_studio_server''}
         then lmstudio_probe text_of ask origin flavor expected_model now
         else observed OK_STATE ''ok'' None now [])"

subsection \<open>Facts\<close>

text \<open>Draining is only ever a timed state: whatever the backend answers, an observation drains exactly when it says until when,
  which is at most a minute after it was made.\<close>

definition timed :: "time \<Rightarrow> observation \<Rightarrow> bool" where
  "timed now ob \<longleftrightarrow> (ob_backend_state ob = DRAINING \<longleftrightarrow> ob_drain_until ob \<noteq> None) \<and>
     (case ob_drain_until ob of None \<Rightarrow> True | Some u \<Rightarrow> u \<le> now + 60)"

lemma states_distinct [simp]: "OK_STATE \<noteq> DRAINING" "DEGRADED \<noteq> DRAINING"
  by (simp_all add: OK_STATE_def DEGRADED_def DRAINING_def)

lemma timed_simple [simp]:
  "timed now (observer_error now)" "timed now (observed OK_STATE r None now d)" "timed now (observed DEGRADED r None now d)"
  "timed now (MESH_LOADING now w)" "u \<le> now + 60 \<Longrightarrow> timed now (observed DRAINING r (Some u) now d)"
  by (simp_all add: timed_def observer_error_def observed_def MESH_LOADING_def)

lemma timed_ollama [simp]: "timed now (parse_ollama_ps data e now)"
  by (simp add: parse_ollama_ps_def Let_def split: pyval.split)

lemma timed_lmstudio [simp]: "timed now (parse_lmstudio_models text_of data e now 30 60)"
  unfolding parse_lmstudio_models_def Let_def
  by (cases "case data of PDict d \<Rightarrow> get_or d ''data'' (sget d ''models'') | _ \<Rightarrow> PNone") auto

lemma timed_mesh [simp]: "timed now (mesh_ready ask origin e now)"
proof -
  have "timed now (case (case body of PDict d \<Rightarrow> sget d ''data'' | _ \<Rightarrow> PNone) of
      PList items \<Rightarrow> f items | _ \<Rightarrow> MESH_LOADING now ''ready'')" if "\<And>items. timed now (f items)" for body f
    using that by (cases "case body of PDict d \<Rightarrow> sget d ''data'' | _ \<Rightarrow> PNone") auto
  then show ?thesis
    unfolding mesh_ready_def Let_def
    by (auto split: probe_answer.split bool.split option.split)
qed

lemma timed_probes [simp]:
  "timed now (lmstudio_probe text_of ask origin flavor e now)" "timed now (ollama_probe text_of ask origin flavor e now)"
  by (simp_all add: lmstudio_probe_def ollama_probe_def split: probe_answer.split bool.split option.split)

lemma timed_observe: "timed now (observe_backend_stability text_of ask url backend e now)"
  by (simp add: observe_backend_stability_def Let_def)

lemma py_round_bounds: "x - 1/2 \<le> of_int (py_round x)" "of_int (py_round x) \<le> x + 1/2"
  by (auto simp: py_round_def Let_def) linarith+

subsection \<open>Properties\<close>

text \<open>Draining ends by itself: whatever the backend's status endpoints answer, an observation drains for at most a minute; while
  it drains the retry hint is at least one second and does not point beyond that minute by more than the rounding; and the
  public form of an observation carries no local diagnostics.\<close>

lemma drain_is_temporary:
  assumes "ob = observe_backend_stability text_of ask backend_url backend expected_model now"
  shows "(\<forall>t. now + 60 \<le> t \<longrightarrow> \<not> is_draining ob t) \<and>
    (\<forall>t. is_draining ob t \<longrightarrow> (\<exists>r. retry_after_s ob t = Some r \<and> 1 \<le> r \<and> of_int r \<le> max 1 (now + 60 - t + 1/2))) \<and>
    (\<forall>t. keys_within (public_dict ob t) [''backend_state'', ''reason_class'', ''retry_after_s'', ''drain_until''])"
proof -
  have timed: "timed now ob" unfolding assms by (rule timed_observe)
  have "\<not> is_draining ob t" if "now + 60 \<le> t" for t
    using timed that by (auto simp: timed_def is_draining_def retry_after_s_def Let_def split: option.splits)
  moreover have "\<exists>r. retry_after_s ob t = Some r \<and> 1 \<le> r \<and> of_int r \<le> max 1 (now + 60 - t + 1/2)" if dr: "is_draining ob t" for t
  proof -
    from dr obtain u where u: "ob_drain_until ob = Some u" "0 < u - t" "retry_after_s ob t = Some (max 1 (py_round (u - t)))"
      by (auto simp: is_draining_def retry_after_s_def Let_def split: option.splits if_splits)
    have "u \<le> now + 60" using timed u(1) by (simp add: timed_def)
    then have "of_int (py_round (u - t)) \<le> now + 60 - t + 1/2" using py_round_bounds(2) [of "u - t"] by linarith
    with u(3) show ?thesis by (auto simp: max_def)
  qed
  moreover have "keys_within (public_dict ob t) [''backend_state'', ''reason_class'', ''retry_after_s'', ''drain_until'']" for t
    by (simp add: public_dict_def keys_within_def in_strs_def split: option.split)
  ultimately show ?thesis by blast
qed

end
