(* ===== verification/Node_Task.thy ===== *)
theory Node_Task
  imports Capacity Backend_Stability Confidentiality Runtime_Identity Ttl_Guard
begin

text \<open>
  The provider's \<open>POST /v1/task\<close> (\<open>IicpNode.serve\<close>, handler \<open>_task\<close> in \<open>node.py\<close>) with what it consults: the per-origin rate
  limit, the nonce and task identifier filters, the cooperative policy (\<open>cip_policy.py\<close>), the backend drain state and
  the availability window. What the world answers during one request (the clocks, whether a slot was free in time, whether the
  event loop is closed, what the task handler does) is the input record. The slots themselves are in \<open>Capacity\<close>. Metrics,
  spans and log output are not modelled.
\<close>

subsection \<open>Cooperative policy (\<open>cip_policy.py\<close>)\<close>

record cip_node_policy =
  np_enabled :: bool
  np_allow_coordinator :: bool
  np_allow_worker :: bool
  np_max_replicas :: int
  np_max_worker_timeout_ms :: int
  np_max_concurrent_remote :: int
  np_allow_tool_execution :: bool
  np_remote_free :: int

definition new_node_policy :: "bool \<Rightarrow> bool \<Rightarrow> bool \<Rightarrow> int \<Rightarrow> int \<Rightarrow> int \<Rightarrow> bool \<Rightarrow> cip_node_policy" where
  "new_node_policy on coordinator worker replicas timeout_ms remote tools =
     \<lparr>np_enabled = on, np_allow_coordinator = coordinator, np_allow_worker = worker, np_max_replicas = max 1 replicas,
      np_max_worker_timeout_ms = max 1 (min 60000 timeout_ms), np_max_concurrent_remote = max 1 remote,
      np_allow_tool_execution = tools, np_remote_free = max 1 remote\<rparr>"

definition permits_intent :: "cip_node_policy \<Rightarrow> string \<Rightarrow> bool" where
  "permits_intent p intent =
     (let parts = split_on (CHR '':'') intent; realm = (if length parts > 3 then parts ! 3 else [])
      in np_allow_tool_execution p \<or> realm \<noteq> ''tool'')"

definition check_coordinator :: "cip_node_policy \<Rightarrow> bool" where
  "check_coordinator p \<longleftrightarrow> np_enabled p \<and> np_allow_coordinator p"

definition check_worker :: "cip_node_policy \<Rightarrow> bool" where
  "check_worker p \<longleftrightarrow> np_enabled p \<and> np_allow_worker p"

definition try_acquire_cip_slot :: "cip_node_policy \<Rightarrow> cip_node_policy \<times> bool" where
  "try_acquire_cip_slot p =
     (if np_remote_free p > 0 then (p\<lparr>np_remote_free := np_remote_free p - 1\<rparr>, True) else (p, False))"

definition release_cip_slot :: "cip_node_policy \<Rightarrow> py_error + cip_node_policy" where
  "release_cip_slot p =
     (if np_remote_free p \<ge> np_max_concurrent_remote p then Inl (ValueError ''Semaphore released too many times'')
      else Inr (p\<lparr>np_remote_free := np_remote_free p + 1\<rparr>))"

definition as_register_policy_block :: "cip_node_policy \<Rightarrow> pydict" where
  "as_register_policy_block p =
     (if \<not> np_enabled p then []
      else [(PStr ''allow_remote_inference'', PBool (np_allow_worker p)), (PStr ''allow_tool_execution'', PBool (np_allow_tool_execution p))])"

subsection \<open>Filters\<close>

text \<open>The two dictionaries with dynamic keys: an empty key is always new; hashing a list or a dictionary raises.\<close>

definition key_find :: "(pyval \<times> time) list \<Rightarrow> pyval \<Rightarrow> time option" where
  "key_find seen k = map_option snd (List.find (\<lambda>(k', _). py_eq k' k) seen)"

definition check_nonce :: "(pyval \<times> time) list \<Rightarrow> time \<Rightarrow> pyval \<Rightarrow> (pyval \<times> time) list \<times> (py_error + bool)" where
  "check_nonce nonces now nonce =
     (if \<not> truthy nonce then (nonces, Inr True)
      else let kept = filter (\<lambda>(_, v). \<not> v < now) nonces
        in if \<not> hashable nonce then (kept, Inl TypeError)
           else if key_find kept nonce \<noteq> None then (kept, Inr False)
           else (kept @ [(nonce, now + 300)], Inr True))"

definition check_task_id :: "(pyval \<times> time) list \<Rightarrow> time \<Rightarrow> pyval \<Rightarrow> (pyval \<times> time) list \<times> (py_error + bool)" where
  "check_task_id seen now task_id =
     (if \<not> truthy task_id then (seen, Inr True)
      else let kept = filter (\<lambda>(_, v). \<not> v \<le> now) seen
        in if \<not> hashable task_id then (kept, Inl TypeError)
           else if key_find kept task_id \<noteq> None then (kept, Inr False)
           else (kept @ [(task_id, now + 300)], Inr True))"

type_synonym rate_buckets = "(string \<times> (time \<times> int)) list"

definition task_rate_allow :: "int \<Rightarrow> rate_buckets \<Rightarrow> time \<Rightarrow> string \<Rightarrow> rate_buckets \<times> bool" where
  "task_rate_allow bound buckets now key =
     (let (start, n) = (case map_of buckets key of None \<Rightarrow> (now, 0) | Some b \<Rightarrow> b);
          (start', n') = (if now - start \<ge> 60 then (now, 0) else (start, n));
          buckets' = AList.update key (start', n' + 1) buckets;
          pruned = (if length buckets' > 4096 then filter (\<lambda>(_, b). fst b \<ge> now - 60) buckets' else buckets')
      in (pruned, n' + 1 \<le> bound))"

subsection \<open>State and input\<close>

record node_config =
  nc_intent :: string
  nc_max_concurrent :: int
  nc_windows :: "availability_window list"
  nc_enable_idempotency :: bool
  nc_task_rate_limit :: int
  nc_policy :: cip_node_policy
  nc_private_key :: "octets option"
  nc_hmac_key :: string
  nc_token :: string

record node_state =
  nd_nonces :: "(pyval \<times> time) list"
  nd_seen_tasks :: "(pyval \<times> time) list"
  nd_rate :: rate_buckets
  nd_tasks_success :: int
  nd_tasks_failed :: int
  nd_latency_total_ms :: real

datatype task_outcome =
    TaskReturned pyval
  | TaskShutdown
  | TaskRuntimeError
  | TaskFailed

record task_input =
  ti_headers :: "(string \<times> string) list"
  ti_stream :: octets
  ti_now :: time
  ti_wall :: time
  ti_clock :: "nat \<times> nat"
  ti_stability :: observation
  ti_active_jobs :: int
  ti_slot_free :: bool
  ti_loop_closed :: bool
  ti_latency_ms :: real

record task_env =
  te_loads :: "octets \<Rightarrow> pyval option"
  te_dumps :: "pyval \<Rightarrow> octets"
  te_suite :: cx_suite
  te_nonce :: octets
  te_text :: "pyval \<Rightarrow> string"
  te_handler :: "pydict \<Rightarrow> task_outcome"

text \<open>An answer, a page of \<open>send_error\<close>, or an exception that ends the request thread; the body handed to the task handler, if it was
  called; and the completion reported to the directory, if any.\<close>

datatype node_reply = Reply int octets | ErrorPage int | Crashed py_error | CrashedOther

record task_result =
  to_reply :: node_reply
  to_executed :: "pydict option"
  to_receipt :: "(pyval \<times> pyval \<times> pyval \<times> pyval) option"

definition refuse :: "node_reply \<Rightarrow> task_result" where
  "refuse r = \<lparr>to_reply = r, to_executed = None, to_receipt = None\<rparr>"

text \<open>The error bodies, without their message text.\<close>

definition error_reply :: "task_env \<Rightarrow> int \<Rightarrow> string \<Rightarrow> pydict \<Rightarrow> node_reply" where
  "error_reply env status code extra = Reply status (te_dumps env (PDict [(PStr ''error'', PDict ((PStr ''code'', PStr code) # extra))]))"

definition header_get :: "(string \<times> string) list \<Rightarrow> string \<Rightarrow> string option" where
  "header_get hs name = (case header_all hs name of [] \<Rightarrow> None | v # _ \<Rightarrow> Some v)"

text \<open>The key a node advertises, with the feature that asks for sealed responses.\<close>

definition node_cx_key :: "cx_suite \<Rightarrow> octets \<Rightarrow> string \<Rightarrow> pydict" where
  "node_cx_key cx private_key kid = advertised_key cx private_key kid @ [(PStr ''features'', PList [PStr ''response_encryption_v1''])]"

subsection \<open>The handler\<close>

text \<open>Decryption and the response demand: the body for the task handler, with the session secret.\<close>

definition open_request :: "task_env \<Rightarrow> node_config \<Rightarrow> pydict \<Rightarrow> node_reply + pydict \<times> octets option" where
  "open_request env cfg body =
     (case sget body ''iicp_conf'' of
        PDict conf \<Rightarrow>
          if py_find body (PStr ''payload'') \<noteq> None then Inr (body, None)
          else if \<not> present (nc_private_key cfg) then Inl (error_reply env 400 ''IICP-CX-01'' [])
          else (case decrypt_payload_with_context (te_suite env) conf (the (nc_private_key cfg)) of
                  Inl _ \<Rightarrow> Inl (error_reply env 400 ''IICP-CX-02'' [])
                | Inr (payload, secret) \<Rightarrow>
                    Inr (with_entry (with_entry body ''payload'' payload) ''_cx_encrypted'' (PBool True), Some secret))
      | _ \<Rightarrow> Inr (body, None))"

definition add_trace :: "string option \<Rightarrow> pydict \<Rightarrow> py_error + pydict" where
  "add_trace traceparent body =
     (if \<not> present traceparent then Inr body
      else case get_or body ''_trace'' (PDict []) of
          PDict t \<Rightarrow> Inr (with_entry body ''_trace'' (PDict (with_entry t ''traceparent'' (PStr (the traceparent)))))
        | _ \<Rightarrow> Inl TypeError)"

text \<open>\<open>{**base, **d}\<close>.\<close>

fun with_key :: "pydict \<Rightarrow> pyval \<Rightarrow> pyval \<Rightarrow> pydict" where
  "with_key [] k v = [(k, v)]"
| "with_key ((k', v') # d) k v = (if py_eq k' k then (k', v) # d else (k', v') # with_key d k v)"

definition merged :: "pydict \<Rightarrow> pydict \<Rightarrow> pydict" where
  "merged base d = foldl (\<lambda>acc (k, v). with_key acc k v) base d"

definition count_task :: "bool \<Rightarrow> real \<Rightarrow> node_state \<Rightarrow> node_state" where
  "count_task ok latency_ms st =
     (if ok then st\<lparr>nd_tasks_success := nd_tasks_success st + 1\<rparr> else st\<lparr>nd_tasks_failed := nd_tasks_failed st + 1\<rparr>)
       \<lparr>nd_latency_total_ms := nd_latency_total_ms st + (if latency_ms > 0 then latency_ms else 0)\<rparr>"

definition backend_error :: "task_env \<Rightarrow> node_state \<Rightarrow> task_input \<Rightarrow> pydict \<Rightarrow> node_state \<times> task_result" where
  "backend_error env st inp body =
     (count_task False (ti_latency_ms inp) st,
      \<lparr>to_reply = error_reply env 500 ''backend_error'' [], to_executed = Some body, to_receipt = None\<rparr>)"

text \<open>The answer to a task whose handler returned a dictionary.\<close>

definition answer_task ::
  "task_env \<Rightarrow> node_config \<Rightarrow> node_state \<Rightarrow> task_input \<Rightarrow> pydict \<Rightarrow> octets option \<Rightarrow> pydict \<Rightarrow> node_state \<times> task_result" where
  "answer_task env cfg st inp body secret result =
     (let task_id = get_or body ''task_id'' (PStr []);
          tokens = (case sget result ''usage'' of PDict u \<Rightarrow> get_or u ''total_tokens'' (PInt 0) | _ \<Rightarrow> PInt 0);
          plain = merged [(PStr ''task_id'', task_id), (PStr ''status'', PStr ''completed''), (PStr ''generated_by_ai'', PBool True)] result;
          sealed = (sget body ''cx_response_encryption'' = PStr ''required'' \<and> secret \<noteq> None)
      in if sealed \<and> \<not> is_str task_id then backend_error env st inp body
         else let response = (if sealed
                    then PDict [(PStr ''task_id'', task_id), (PStr ''status'', PStr ''encrypted''),
                           (PStr ''iicp_conf_resp'', PDict (encrypt_response (te_suite env) (te_nonce env) (PDict plain) (the secret)
                              (py_str (te_text env) task_id)))]
                    else PDict plain);
                  (status, bytes) = bounded_response_json (te_dumps env) response
           in (count_task (status = 200) (ti_latency_ms inp) st,
               \<lparr>to_reply = Reply status bytes, to_executed = Some body,
                to_receipt = (if status = 200 \<and> nc_hmac_key cfg \<noteq> [] \<and> nc_token cfg \<noteq> []
                              then Some (task_id, tokens, PDict result, sget body ''source_node_id'') else None)\<rparr>))"

definition run_task ::
  "task_env \<Rightarrow> node_config \<Rightarrow> node_state \<Rightarrow> task_input \<Rightarrow> pydict \<Rightarrow> octets option \<Rightarrow> node_state \<times> task_result" where
  "run_task env cfg st inp body secret =
     (if ti_loop_closed inp then (st, refuse (ErrorPage 503))
      else case te_handler env body of
          TaskShutdown \<Rightarrow> (st, \<lparr>to_reply = ErrorPage 503, to_executed = Some body, to_receipt = None\<rparr>)
        | TaskRuntimeError \<Rightarrow> (st, \<lparr>to_reply = CrashedOther, to_executed = Some body, to_receipt = None\<rparr>)
        | TaskFailed \<Rightarrow> backend_error env st inp body
        | TaskReturned v \<Rightarrow>
            (case v of PDict result \<Rightarrow> answer_task env cfg st inp body secret result | _ \<Rightarrow> backend_error env st inp body))"

text \<open>From the filters on, with a slot held.\<close>

definition admitted_task :: "task_env \<Rightarrow> node_config \<Rightarrow> node_state \<Rightarrow> task_input \<Rightarrow> pydict \<Rightarrow> node_state \<times> task_result" where
  "admitted_task env cfg st inp body =
     (case check_nonce (nd_nonces st) (ti_now inp) (sget body ''nonce'') of
        (nonces, Inl e) \<Rightarrow> (st\<lparr>nd_nonces := nonces\<rparr>, refuse (Crashed e))
      | (nonces, Inr False) \<Rightarrow> (st\<lparr>nd_nonces := nonces\<rparr>, refuse (error_reply env 409 ''IICP-E011'' []))
      | (nonces, Inr True) \<Rightarrow>
          let st1 = st\<lparr>nd_nonces := nonces\<rparr>
          in (case (if nc_enable_idempotency cfg then check_task_id (nd_seen_tasks st1) (ti_now inp) (sget body ''task_id'')
                    else (nd_seen_tasks st1, Inr True)) of
                (seen, Inl e) \<Rightarrow> (st1\<lparr>nd_seen_tasks := seen\<rparr>, refuse (Crashed e))
              | (seen, Inr False) \<Rightarrow> (st1\<lparr>nd_seen_tasks := seen\<rparr>, refuse (error_reply env 409 ''IICP-E010'' []))
              | (seen, Inr True) \<Rightarrow>
                  let st2 = st1\<lparr>nd_seen_tasks := seen\<rparr>
                  in (case open_request env cfg body of
                        Inl r \<Rightarrow> (st2, refuse r)
                      | Inr (body', secret) \<Rightarrow>
                          if sget body' ''cx_response_encryption'' = PStr ''required'' \<and> secret = None
                          then (st2, refuse (error_reply env 400 ''IICP-CX-03'' []))
                          else (case add_trace (header_get (ti_headers inp) ''traceparent'') body' of
                                  Inl e \<Rightarrow> (st2, refuse (Crashed e))
                                | Inr body'' \<Rightarrow> run_task env cfg st2 inp body'' secret))))"

definition qos_of :: "pydict \<Rightarrow> pyval" where
  "qos_of body =
     (case sget body ''constraints'' of
        PDict c \<Rightarrow> get_or c ''qos_class'' (PStr ''best_effort'')
      | _ \<Rightarrow> PStr ''best_effort'')"

text \<open>The gates in front of the slot. \<open>ti_slot_free\<close> is the answer of the semaphore: with a wait of \<open>QUEUE_WAIT_S\<close> seconds for a
  class that may queue, at once for the others.\<close>

definition gated_task :: "task_env \<Rightarrow> node_config \<Rightarrow> node_state \<Rightarrow> task_input \<Rightarrow> pydict \<Rightarrow> node_state \<times> task_result" where
  "gated_task env cfg st inp body =
     (let qos = qos_of body
      in if (case sget body ''intent'' of PStr i \<Rightarrow> i \<noteq> [] \<and> \<not> permits_intent (nc_policy cfg) i | _ \<Rightarrow> False)
         then (st, refuse (error_reply env 403 ''tool_execution_denied'' []))
         else if is_draining (ti_stability inp) (ti_wall inp)
         then (st, refuse (error_reply env 503 ''IICP-E024''
                [(PStr ''reason'', PStr (ob_reason_class (ti_stability inp))),
                 (PStr ''retry_after_ms'', PInt (the (retry_after_s (ti_stability inp) (ti_wall inp)) * 1000))]))
         else if ti_active_jobs inp \<ge> effective_max_concurrent (nc_windows cfg) (nc_max_concurrent cfg) (fst (ti_clock inp)) (snd (ti_clock inp))
         then (st, refuse (error_reply env 429 ''IICP-E021''
                [(PStr ''qos_class'', qos), (PStr ''reason'', PStr ''availability_window''), (PStr ''retry_after_ms'', PInt 2000)]))
         else case is_queue_eligible qos of
             Inl e \<Rightarrow> (st, refuse (Crashed e))
           | Inr _ \<Rightarrow>
               if \<not> ti_slot_free inp
               then (st, refuse (error_reply env 429 ''IICP-E021'' [(PStr ''qos_class'', qos), (PStr ''retry_after_ms'', PInt 2000)]))
               else admitted_task env cfg st inp body)"

definition node_task :: "task_env \<Rightarrow> node_config \<Rightarrow> node_state \<Rightarrow> task_input \<Rightarrow> node_state \<times> task_result" where
  "node_task env cfg st inp =
     (case read_task_request_body (Message (ti_headers inp)) (ti_stream inp) of
        Inl (BodyError e) \<Rightarrow> (st, refuse (error_reply env (be_status e) (be_code e) []))
      | Inl DigitLimit \<Rightarrow> (st, refuse (Crashed (ValueError ''int digit limit'')))
      | Inr (raw_body, _) \<Rightarrow>
          (case (if nc_task_rate_limit cfg > 0 \<and> present (header_get (ti_headers inp) ''Origin'')
                 then task_rate_allow (nc_task_rate_limit cfg) (nd_rate st) (ti_now inp) (the (header_get (ti_headers inp) ''Origin''))
                 else (nd_rate st, True)) of
             (rate, allowed) \<Rightarrow>
               let st' = st\<lparr>nd_rate := rate\<rparr>
               in if \<not> allowed then (st', refuse (error_reply env 429 ''IICP-E023'' []))
                  else (case (if raw_body = [] then Some (PDict []) else te_loads env raw_body) of
                          Some (PDict body) \<Rightarrow> gated_task env cfg st' inp body
                        | _ \<Rightarrow> (st', refuse (error_reply env 400 ''invalid_http_body'' [])))))"

subsection \<open>Specification of admission\<close>

definition parsed_task :: "task_env \<Rightarrow> octets \<Rightarrow> pyval option" where
  "parsed_task env raw = (if raw = [] then Some (PDict []) else te_loads env raw)"

definition origin_admits :: "node_config \<Rightarrow> node_state \<Rightarrow> task_input \<Rightarrow> bool" where
  "origin_admits cfg st inp \<longleftrightarrow>
     (case header_get (ti_headers inp) ''Origin'' of
        Some origin \<Rightarrow> nc_task_rate_limit cfg \<le> 0 \<or> origin = [] \<or>
          snd (task_rate_allow (nc_task_rate_limit cfg) (nd_rate st) (ti_now inp) origin)
      | None \<Rightarrow> True)"

definition intent_admits :: "node_config \<Rightarrow> pydict \<Rightarrow> bool" where
  "intent_admits cfg body \<longleftrightarrow> (case sget body ''intent'' of PStr i \<Rightarrow> i = [] \<or> permits_intent (nc_policy cfg) i | _ \<Rightarrow> True)"

definition unseen :: "(time \<Rightarrow> bool) \<Rightarrow> (pyval \<times> time) list \<Rightarrow> pyval \<Rightarrow> bool" where
  "unseen live seen k \<longleftrightarrow> \<not> truthy k \<or> hashable k \<and> key_find (filter (\<lambda>(_, v). live v) seen) k = None"

definition capacity_admits :: "node_config \<Rightarrow> task_input \<Rightarrow> bool" where
  "capacity_admits cfg inp \<longleftrightarrow> ti_slot_free inp \<and>
     ti_active_jobs inp < effective_max_concurrent (nc_windows cfg) (nc_max_concurrent cfg) (fst (ti_clock inp)) (snd (ti_clock inp))"

definition opened :: "task_env \<Rightarrow> node_config \<Rightarrow> task_input \<Rightarrow> pydict \<Rightarrow> pydict \<Rightarrow> bool" where
  "opened env cfg inp body b \<longleftrightarrow>
     (\<exists>body' secret. open_request env cfg body = Inr (body', secret) \<and>
        (sget body' ''cx_response_encryption'' = PStr ''required'' \<longrightarrow> secret \<noteq> None) \<and>
        add_trace (header_get (ti_headers inp) ''traceparent'') body' = Inr b)"

subsection \<open>Facts\<close>

lemma run_task_effects [simp]:
  "nd_nonces (fst (run_task env cfg st inp body secret)) = nd_nonces st"
  "nd_seen_tasks (fst (run_task env cfg st inp body secret)) = nd_seen_tasks st"
  "to_executed (snd (run_task env cfg st inp body secret)) = (if ti_loop_closed inp then None else Some body)"
  by (simp_all add: run_task_def answer_task_def backend_error_def count_task_def refuse_def Let_def
      split: task_outcome.split pyval.split prod.split)

lemma refuse_executed [simp]: "to_executed (refuse r) = None" "to_receipt (refuse r) = None"
  by (simp_all add: refuse_def)

lemma check_nonce_new: "snd (check_nonce seen now k) = Inr True \<longleftrightarrow> unseen (\<lambda>v. \<not> v < now) seen k"
  by (auto simp: check_nonce_def unseen_def Let_def)

lemma check_task_id_new: "snd (check_task_id seen now k) = Inr True \<longleftrightarrow> unseen (\<lambda>v. \<not> v \<le> now) seen k"
  by (auto simp: check_task_id_def unseen_def Let_def)

lemma admitted_executed:
  "to_executed (snd (admitted_task env cfg st inp body)) = Some b \<longleftrightarrow>
     unseen (\<lambda>v. \<not> v < ti_now inp) (nd_nonces st) (sget body ''nonce'') \<and>
     (nc_enable_idempotency cfg \<longrightarrow> unseen (\<lambda>v. \<not> v \<le> ti_now inp) (nd_seen_tasks st) (sget body ''task_id'')) \<and>
     opened env cfg inp body b \<and> \<not> ti_loop_closed inp"
proof -
  obtain nonces rn where n: "check_nonce (nd_nonces st) (ti_now inp) (sget body ''nonce'') = (nonces, rn)" by fastforce
  obtain seen rs where s: "check_task_id (nd_seen_tasks st) (ti_now inp) (sget body ''task_id'') = (seen, rs)" by fastforce
  note new = check_nonce_new [of "nd_nonces st" "ti_now inp" "sget body ''nonce''", unfolded n]
    check_task_id_new [of "nd_seen_tasks st" "ti_now inp" "sget body ''task_id''", unfolded s]
  show ?thesis
    using new by (cases "nc_enable_idempotency cfg")
      (auto simp: admitted_task_def n s opened_def Let_def split: sum.splits bool.splits prod.splits if_splits)
qed

lemma gated_executed:
  "to_executed (snd (gated_task env cfg st inp body)) = Some b \<longleftrightarrow>
     intent_admits cfg body \<and> \<not> is_draining (ti_stability inp) (ti_wall inp) \<and> capacity_admits cfg inp \<and>
     hashable (qos_of body) \<and> to_executed (snd (admitted_task env cfg st inp body)) = Some b"
proof -
  have "is_queue_eligible (qos_of body) = (if hashable (qos_of body) then Inr (in_strs (qos_of body) QUEUE_ELIGIBLE) else Inl TypeError)"
    by (simp add: is_queue_eligible_def in_set_def)
  then show ?thesis
    by (auto simp: gated_task_def intent_admits_def capacity_admits_def Let_def split: pyval.splits)
qed

lemma gated_rate:
  "to_executed (snd (gated_task env cfg (st\<lparr>nd_rate := rate\<rparr>) inp body)) = Some b \<longleftrightarrow>
     to_executed (snd (gated_task env cfg st inp body)) = Some b"
  by (simp add: gated_executed admitted_executed)

text \<open>The handler once the body has been read.\<close>

definition task_read :: "task_env \<Rightarrow> node_config \<Rightarrow> node_state \<Rightarrow> task_input \<Rightarrow> bool \<Rightarrow> pyval option \<Rightarrow> node_state \<times> task_result" where
  "task_read env cfg st inp allowed parsed =
     (if \<not> allowed then (st, refuse (error_reply env 429 ''IICP-E023'' []))
      else (case parsed of
              Some (PDict body) \<Rightarrow> gated_task env cfg st inp body
            | _ \<Rightarrow> (st, refuse (error_reply env 400 ''invalid_http_body'' []))))"

lemma task_read_cases:
  obtains (refused) r where "task_read env cfg st inp allowed parsed = (st, refuse r)" "\<nexists>body. allowed \<and> parsed = Some (PDict body)"
  | (gated) body where "task_read env cfg st inp allowed parsed = gated_task env cfg st inp body" "allowed" "parsed = Some (PDict body)"
  by (cases allowed; cases parsed; cases "the parsed") (auto simp: task_read_def)

lemma node_task_read:
  assumes "read_task_request_body (Message (ti_headers inp)) (ti_stream inp) = Inr (raw, rest)"
  shows "\<exists>rate. node_task env cfg st inp =
    task_read env cfg (st\<lparr>nd_rate := rate\<rparr>) inp (origin_admits cfg st inp) (parsed_task env raw)"
proof -
  define limited where "limited = (if nc_task_rate_limit cfg > 0 \<and> present (header_get (ti_headers inp) ''Origin'')
    then task_rate_allow (nc_task_rate_limit cfg) (nd_rate st) (ti_now inp) (the (header_get (ti_headers inp) ''Origin''))
    else (nd_rate st, True))"
  obtain rate allowed where r: "limited = (rate, allowed)" by (cases limited)
  have "allowed = origin_admits cfg st inp"
    using r by (auto simp: limited_def origin_admits_def present_def split: option.splits if_splits)
  moreover have "node_task env cfg st inp = task_read env cfg (st\<lparr>nd_rate := rate\<rparr>) inp allowed (parsed_task env raw)"
    unfolding node_task_def assms sum.case prod.case limited_def [symmetric] r parsed_task_def task_read_def Let_def ..
  ultimately show ?thesis by blast
qed

lemma node_executed:
  "to_executed (snd (node_task env cfg st inp)) = Some b \<longleftrightarrow>
     (\<exists>raw rest body. read_task_request_body (Message (ti_headers inp)) (ti_stream inp) = Inr (raw, rest) \<and>
        parsed_task env raw = Some (PDict body) \<and> origin_admits cfg st inp \<and>
        to_executed (snd (gated_task env cfg st inp body)) = Some b)"
proof (cases "read_task_request_body (Message (ti_headers inp)) (ti_stream inp)")
  case (Inl e)
  then show ?thesis by (cases e) (simp_all add: node_task_def)
next
  case (Inr p)
  then obtain raw rest where p: "p = (raw, rest)" by (cases p)
  obtain rate where n: "node_task env cfg st inp =
    task_read env cfg (st\<lparr>nd_rate := rate\<rparr>) inp (origin_admits cfg st inp) (parsed_task env raw)"
    using node_task_read Inr p by blast
  show ?thesis
    by (rule task_read_cases [of env cfg "st\<lparr>nd_rate := rate\<rparr>" inp "origin_admits cfg st inp" "parsed_task env raw"])
      (auto simp: n Inr p gated_rate)
qed

lemma node_task_cases:
  fixes env :: task_env and cfg :: node_config and st :: node_state and inp :: task_input
  obtains (refused) rate r where "node_task env cfg st inp = (st\<lparr>nd_rate := rate\<rparr>, refuse r)"
  | (gated) rate body where "node_task env cfg st inp = gated_task env cfg (st\<lparr>nd_rate := rate\<rparr>) inp body"
proof (cases "read_task_request_body (Message (ti_headers inp)) (ti_stream inp)")
  case (Inl e)
  then have "\<exists>r. node_task env cfg st inp = (st\<lparr>nd_rate := nd_rate st\<rparr>, refuse r)"
    by (cases e) (simp_all add: node_task_def exI)
  then show ?thesis using refused by blast
next
  case (Inr p)
  then show ?thesis
    using node_task_read [of inp "fst p" "snd p" env cfg st] refused gated task_read_cases by (metis prod.collapse)
qed

text \<open>Text keys are found by equality, so the two filters are dictionaries for them.\<close>

lemma key_find_text: "key_find seen (PStr s) = map_of seen (PStr s)"
proof -
  have eq: "py_eq k (PStr s) \<longleftrightarrow> k = PStr s" for k by (cases k) auto
  show ?thesis by (induction seen) (auto simp: key_find_def eq)
qed

lemma open_request_fields:
  "open_request env cfg body = Inr (body', secret) \<Longrightarrow> k \<noteq> ''payload'' \<Longrightarrow> k \<noteq> ''_cx_encrypted'' \<Longrightarrow> sget body' k = sget body k"
  by (cases "sget body ''iicp_conf''") (auto simp: open_request_def split: if_splits sum.splits)

lemma add_trace_fields: "add_trace tp body = Inr body' \<Longrightarrow> k \<noteq> ''_trace'' \<Longrightarrow> sget body' k = sget body k"
  by (cases "present tp"; cases "get_or body ''_trace'' (PDict [])") (auto simp: add_trace_def)

lemma opened_fields:
  assumes "opened env cfg inp body b" "k \<notin> {''payload'', ''_cx_encrypted'', ''_trace''}"
  shows "sget b k = sget body k"
proof -
  obtain body' secret where "open_request env cfg body = Inr (body', secret)"
    "add_trace (header_get (ti_headers inp) ''traceparent'') body' = Inr b"
    using assms(1) by (auto simp: opened_def)
  then show ?thesis using open_request_fields [of env cfg body body' secret k] add_trace_fields [of _ body' b k] assms(2) by simp
qed

subsection \<open>Histories\<close>

fun node_run :: "node_config \<Rightarrow> node_state \<Rightarrow> (task_env \<times> task_input) list \<Rightarrow> task_result list" where
  "node_run cfg st [] = []"
| "node_run cfg st ((env, inp) # rs) = (case node_task env cfg st inp of (st', r) \<Rightarrow> r # node_run cfg st' rs)"

text \<open>What a filter of the handler promises: it keeps what is still live, notes the key of every executed task, and a task with a
  live key is not executed.\<close>

locale task_filter =
  fixes memory :: "node_state \<Rightarrow> (pyval \<times> time) list"
    and field :: string
    and live :: "time \<Rightarrow> time \<Rightarrow> bool"
    and active :: "node_config \<Rightarrow> bool"
  assumes keeps: "(k, e) \<in> set (memory st) \<Longrightarrow> live (ti_now inp) e \<Longrightarrow> (k, e) \<in> set (memory (fst (node_task env cfg st inp)))"
    and registers: "active cfg \<Longrightarrow> to_executed (snd (node_task env cfg st inp)) = Some b \<Longrightarrow> sget b field = PStr s \<Longrightarrow> s \<noteq> [] \<Longrightarrow>
      (PStr s, ti_now inp + 300) \<in> set (memory (fst (node_task env cfg st inp)))"
    and rejects: "active cfg \<Longrightarrow> (PStr s, e) \<in> set (memory st) \<Longrightarrow> live (ti_now inp) e \<Longrightarrow> s \<noteq> [] \<Longrightarrow>
      to_executed (snd (node_task env cfg st inp)) = Some b \<Longrightarrow> sget b field \<noteq> PStr s"
    and live_earlier: "live t' e \<Longrightarrow> t \<le> t' \<Longrightarrow> live t e"
begin

lemma remembered:
  assumes "active cfg" "(PStr s, e) \<in> set (memory st)" "s \<noteq> []" "\<forall>r \<in> set (take (Suc j) rs). live (ti_now (snd r)) e"
    "j < length rs" "to_executed (node_run cfg st rs ! j) = Some b"
  shows "sget b field \<noteq> PStr s"
  using assms
proof (induction rs arbitrary: st j)
  case (Cons r rs)
  obtain env inp where r: "r = (env, inp)" by (cases r)
  obtain st' res where step: "node_task env cfg st inp = (st', res)" by fastforce
  have live: "live (ti_now inp) e" using Cons.prems(4) r by simp
  show ?case
  proof (cases j)
    case 0
    then show ?thesis using Cons.prems rejects [of cfg s e st inp env b] live step r by simp
  next
    case (Suc i)
    then show ?thesis using Cons.IH [of st' i] Cons.prems keeps [of "PStr s" e st inp env cfg] live step r by simp
  qed
qed simp

lemma executed_once:
  assumes "active cfg" "sorted (map (\<lambda>r. ti_now (snd r)) rs)" "i < j" "j < length rs"
    "to_executed (node_run cfg st rs ! i) = Some b" "to_executed (node_run cfg st rs ! j) = Some b'"
    "sget b field = PStr s" "sget b' field = PStr s" "s \<noteq> []"
  shows "\<not> live (ti_now (snd (rs ! j))) (ti_now (snd (rs ! i)) + 300)"
  using assms
proof (induction rs arbitrary: st i j)
  case (Cons r rs)
  obtain env inp where r: "r = (env, inp)" by (cases r)
  obtain st' res where step: "node_task env cfg st inp = (st', res)" by fastforce
  obtain j' where j: "j = Suc j'" using Cons.prems(3) by (cases j) auto
  show ?case
  proof (cases i)
    case (Suc i')
    then show ?thesis using Cons.IH [of i' j' st'] Cons.prems j r step by simp
  next
    case 0
    have mem: "(PStr s, ti_now inp + 300) \<in> set (memory st')"
      using registers [of cfg env st inp b s] Cons.prems 0 r step by simp
    show ?thesis
    proof
      assume live: "live (ti_now (snd ((r # rs) ! j))) (ti_now (snd ((r # rs) ! i)) + 300)"
      have "live (ti_now (snd q)) (ti_now inp + 300)" if q: "q \<in> set (take (Suc j') rs)" for q
      proof -
        obtain m where "m \<le> j'" "m < length rs" "q = rs ! m"
          using q by (auto simp: in_set_conv_nth less_Suc_eq_le)
        moreover have "sorted (map (\<lambda>r. ti_now (snd r)) rs)" "j' < length rs" using Cons.prems j by simp_all
        ultimately have "ti_now (snd q) \<le> ti_now (snd (rs ! j'))"
          using sorted_nth_mono [of "map (\<lambda>r. ti_now (snd r)) rs" m j'] by simp
        then show ?thesis using live live_earlier j 0 r by simp
      qed
      then show False
        using remembered [of cfg s "ti_now inp + 300" st' j' rs b'] mem Cons.prems j r step by simp
    qed
  qed
qed simp

end

lemma admitted_memory:
  "nd_nonces (fst (admitted_task env cfg st inp body)) = fst (check_nonce (nd_nonces st) (ti_now inp) (sget body ''nonce''))"
  "nd_seen_tasks (fst (admitted_task env cfg st inp body)) =
     (if nc_enable_idempotency cfg \<and> snd (check_nonce (nd_nonces st) (ti_now inp) (sget body ''nonce'')) = Inr True
      then fst (check_task_id (nd_seen_tasks st) (ti_now inp) (sget body ''task_id'')) else nd_seen_tasks st)"
  by (auto simp: admitted_task_def Let_def split: prod.split sum.split bool.split)

lemma gated_memory:
  "fst (gated_task env cfg st inp body) \<in> {st, fst (admitted_task env cfg st inp body)}"
  "to_executed (snd (gated_task env cfg st inp body)) = Some b \<Longrightarrow>
     fst (gated_task env cfg st inp body) = fst (admitted_task env cfg st inp body)"
  by (auto simp: gated_task_def Let_def split: sum.splits if_splits)

lemma check_nonce_keeps: "(k, e) \<in> set seen \<Longrightarrow> now \<le> e \<Longrightarrow> (k, e) \<in> set (fst (check_nonce seen now q))"
  by (auto simp: check_nonce_def Let_def)

lemma check_task_id_keeps: "(k, e) \<in> set seen \<Longrightarrow> now < e \<Longrightarrow> (k, e) \<in> set (fst (check_task_id seen now q))"
  by (auto simp: check_task_id_def Let_def)

lemma unseen_text: "unseen live seen (PStr s) \<Longrightarrow> s \<noteq> [] \<Longrightarrow> (PStr s, e) \<in> set seen \<Longrightarrow> \<not> live e"
  by (auto simp: unseen_def key_find_text map_of_eq_None_iff image_iff split: prod.splits)

lemma executed_filters:
  assumes "to_executed (snd (node_task env cfg st inp)) = Some b"
  shows "unseen (\<lambda>v. \<not> v < ti_now inp) (nd_nonces st) (sget b ''nonce'')"
    "nd_nonces (fst (node_task env cfg st inp)) = fst (check_nonce (nd_nonces st) (ti_now inp) (sget b ''nonce''))"
    "nc_enable_idempotency cfg \<Longrightarrow> unseen (\<lambda>v. \<not> v \<le> ti_now inp) (nd_seen_tasks st) (sget b ''task_id'')"
    "nc_enable_idempotency cfg \<Longrightarrow>
       nd_seen_tasks (fst (node_task env cfg st inp)) = fst (check_task_id (nd_seen_tasks st) (ti_now inp) (sget b ''task_id''))"
proof -
  show "unseen (\<lambda>v. \<not> v < ti_now inp) (nd_nonces st) (sget b ''nonce'')"
    "nc_enable_idempotency cfg \<Longrightarrow> unseen (\<lambda>v. \<not> v \<le> ti_now inp) (nd_seen_tasks st) (sget b ''task_id'')"
    using assms unfolding node_executed gated_executed admitted_executed by (auto simp: opened_fields)
  show "nd_nonces (fst (node_task env cfg st inp)) = fst (check_nonce (nd_nonces st) (ti_now inp) (sget b ''nonce''))"
    "nc_enable_idempotency cfg \<Longrightarrow>
       nd_seen_tasks (fst (node_task env cfg st inp)) = fst (check_task_id (nd_seen_tasks st) (ti_now inp) (sget b ''task_id''))"
  proof (atomize (full), cases rule: node_task_cases [of env cfg st inp])
    case (gated rate body)
    with assms have ex: "to_executed (snd (gated_task env cfg (st\<lparr>nd_rate := rate\<rparr>) inp body)) = Some b" by simp
    then have "opened env cfg inp body b" and new: "unseen (\<lambda>v. \<not> v < ti_now inp) (nd_nonces st) (sget body ''nonce'')"
      by (auto simp: gated_executed admitted_executed)
    then show "nd_nonces (fst (node_task env cfg st inp)) = fst (check_nonce (nd_nonces st) (ti_now inp) (sget b ''nonce'')) \<and>
      (nc_enable_idempotency cfg \<longrightarrow>
       nd_seen_tasks (fst (node_task env cfg st inp)) = fst (check_task_id (nd_seen_tasks st) (ti_now inp) (sget b ''task_id'')))"
      using gated gated_memory(2) [OF ex] by (simp add: admitted_memory opened_fields check_nonce_new)
  qed (use assms in simp)
qed

lemma memory_kept:
  "(k, e) \<in> set (nd_nonces st) \<Longrightarrow> ti_now inp \<le> e \<Longrightarrow> (k, e) \<in> set (nd_nonces (fst (node_task env cfg st inp)))"
  "(k, e) \<in> set (nd_seen_tasks st) \<Longrightarrow> ti_now inp < e \<Longrightarrow> (k, e) \<in> set (nd_seen_tasks (fst (node_task env cfg st inp)))"
proof (atomize (full), cases rule: node_task_cases [of env cfg st inp])
  case (gated rate body)
  show "((k, e) \<in> set (nd_nonces st) \<longrightarrow> ti_now inp \<le> e \<longrightarrow> (k, e) \<in> set (nd_nonces (fst (node_task env cfg st inp)))) \<and>
    ((k, e) \<in> set (nd_seen_tasks st) \<longrightarrow> ti_now inp < e \<longrightarrow> (k, e) \<in> set (nd_seen_tasks (fst (node_task env cfg st inp))))"
    using gated_memory(1) [of env cfg "st\<lparr>nd_rate := rate\<rparr>" inp body]
    unfolding gated by (auto simp: admitted_memory check_nonce_keeps check_task_id_keeps)
qed simp

lemma text_registered:
  "unseen (\<lambda>v. \<not> v < now) seen (PStr s) \<Longrightarrow> s \<noteq> [] \<Longrightarrow> (PStr s, now + 300) \<in> set (fst (check_nonce seen now (PStr s)))"
  "unseen (\<lambda>v. \<not> v \<le> now) seen (PStr s) \<Longrightarrow> s \<noteq> [] \<Longrightarrow> (PStr s, now + 300) \<in> set (fst (check_task_id seen now (PStr s)))"
  by (auto simp: check_nonce_def check_task_id_def unseen_def Let_def)

interpretation nonces: task_filter nd_nonces "''nonce''" "\<lambda>now e. now \<le> e" "\<lambda>_. True"
proof unfold_locales
  show "(PStr s, ti_now inp + 300) \<in> set (nd_nonces (fst (node_task env cfg st inp)))"
    if "to_executed (snd (node_task env cfg st inp)) = Some b" "sget b ''nonce'' = PStr s" "s \<noteq> []" for cfg env st inp b s
    using executed_filters(1,2) [OF that(1)] that(2,3) text_registered(1) by simp
  show "sget b ''nonce'' \<noteq> PStr s"
    if "(PStr s, e) \<in> set (nd_nonces st)" "ti_now inp \<le> e" "s \<noteq> []" "to_executed (snd (node_task env cfg st inp)) = Some b"
    for cfg s e st inp env b
    using executed_filters(1) [OF that(4)] that(1-3) unseen_text [of "\<lambda>v. \<not> v < ti_now inp" "nd_nonces st" s e] by auto
qed (auto intro: memory_kept)

interpretation task_ids: task_filter nd_seen_tasks "''task_id''" "\<lambda>now e. now < e" nc_enable_idempotency
proof unfold_locales
  show "(PStr s, ti_now inp + 300) \<in> set (nd_seen_tasks (fst (node_task env cfg st inp)))"
    if "nc_enable_idempotency cfg" "to_executed (snd (node_task env cfg st inp)) = Some b" "sget b ''task_id'' = PStr s" "s \<noteq> []"
    for cfg env st inp b s
    using executed_filters(3,4) [OF that(2) that(1)] that(3,4) text_registered(2) by simp
  show "sget b ''task_id'' \<noteq> PStr s"
    if "nc_enable_idempotency cfg" "(PStr s, e) \<in> set (nd_seen_tasks st)" "ti_now inp < e" "s \<noteq> []"
      "to_executed (snd (node_task env cfg st inp)) = Some b" for cfg s e st inp env b
    using executed_filters(3) [OF that(5,1)] that(2-4) unseen_text [of "\<lambda>v. \<not> v \<le> ti_now inp" "nd_seen_tasks st" s e] by auto
qed (auto intro: memory_kept)

lemma admitted_runs:
  assumes "to_executed (snd (admitted_task env cfg st inp body)) = Some b"
  shows "\<exists>st2 body' secret. open_request env cfg body = Inr (body', secret) \<and>
    add_trace (header_get (ti_headers inp) ''traceparent'') body' = Inr b \<and>
    snd (admitted_task env cfg st inp body) = snd (run_task env cfg st2 inp b secret)"
proof -
  obtain body' secret where o: "open_request env cfg body = Inr (body', secret)"
    "sget body' ''cx_response_encryption'' = PStr ''required'' \<longrightarrow> secret \<noteq> None"
    "add_trace (header_get (ti_headers inp) ''traceparent'') body' = Inr b"
    using assms unfolding admitted_executed opened_def by blast
  have "\<exists>st2. snd (admitted_task env cfg st inp body) = snd (run_task env cfg st2 inp b secret)"
    using assms o by (auto simp: admitted_task_def Let_def split: prod.split_asm sum.split_asm bool.split_asm if_split_asm)
  with o show ?thesis by blast
qed

lemma node_runs:
  assumes "read_task_request_body (Message (ti_headers inp)) (ti_stream inp) = Inr (raw, rest)" "parsed_task env raw = Some (PDict body)"
    "to_executed (snd (node_task env cfg st inp)) = Some b"
  shows "\<not> ti_loop_closed inp \<and> (\<exists>st2 body' secret. open_request env cfg body = Inr (body', secret) \<and>
    add_trace (header_get (ti_headers inp) ''traceparent'') body' = Inr b \<and>
    snd (node_task env cfg st inp) = snd (run_task env cfg st2 inp b secret))"
proof -
  obtain rate where n: "node_task env cfg st inp =
    task_read env cfg (st\<lparr>nd_rate := rate\<rparr>) inp (origin_admits cfg st inp) (parsed_task env raw)"
    using node_task_read [OF assms(1)] by blast
  let ?st = "st\<lparr>nd_rate := rate\<rparr>"
  have g: "node_task env cfg st inp = gated_task env cfg ?st inp body"
    using assms(3) unfolding n task_read_def assms(2) by (simp split: if_splits)
  then have "to_executed (snd (gated_task env cfg ?st inp body)) = Some b" using assms(3) by simp
  then have e: "to_executed (snd (admitted_task env cfg ?st inp body)) = Some b" "gated_task env cfg ?st inp body = admitted_task env cfg ?st inp body"
    by (auto simp: gated_task_def Let_def split: sum.splits if_splits)
  have "\<not> ti_loop_closed inp" using e(1) by (simp add: admitted_executed)
  then show ?thesis using admitted_runs [OF e(1)] g e(2) by simp
qed

lemma not_executed_effects:
  assumes "to_executed (snd (node_task env cfg st inp)) = None"
  shows "to_receipt (snd (node_task env cfg st inp)) = None"
    "nd_tasks_success (fst (node_task env cfg st inp)) = nd_tasks_success st"
    "nd_tasks_failed (fst (node_task env cfg st inp)) = nd_tasks_failed st"
proof -
  have run: "to_receipt (snd (run_task env cfg s inp body sec)) = None" "fst (run_task env cfg s inp body sec) = s"
    if "to_executed (snd (run_task env cfg s inp body sec)) = None" for s body sec
  proof -
    have "ti_loop_closed inp" using that by (simp split: if_splits)
    then show "to_receipt (snd (run_task env cfg s inp body sec)) = None" "fst (run_task env cfg s inp body sec) = s"
      by (simp_all add: run_task_def)
  qed
  have adm: "to_receipt (snd (admitted_task env cfg s inp body)) = None \<and>
      nd_tasks_success (fst (admitted_task env cfg s inp body)) = nd_tasks_success s \<and>
      nd_tasks_failed (fst (admitted_task env cfg s inp body)) = nd_tasks_failed s"
    if "to_executed (snd (admitted_task env cfg s inp body)) = None" for s body
    using that by (auto simp: admitted_task_def Let_def run split: prod.split_asm sum.split_asm bool.split_asm if_split_asm)
  have gat: "to_receipt (snd (gated_task env cfg s inp body)) = None \<and>
      nd_tasks_success (fst (gated_task env cfg s inp body)) = nd_tasks_success s \<and>
      nd_tasks_failed (fst (gated_task env cfg s inp body)) = nd_tasks_failed s"
    if "to_executed (snd (gated_task env cfg s inp body)) = None" for s body
    using that adm by (auto simp: gated_task_def Let_def split: sum.splits if_splits)
  have "to_receipt (snd (node_task env cfg st inp)) = None \<and>
      nd_tasks_success (fst (node_task env cfg st inp)) = nd_tasks_success st \<and>
      nd_tasks_failed (fst (node_task env cfg st inp)) = nd_tasks_failed st"
  proof (cases rule: node_task_cases [of env cfg st inp])
    case (gated rate body)
    then show ?thesis using assms gat [of "st\<lparr>nd_rate := rate\<rparr>" body] by simp
  qed simp
  then show "to_receipt (snd (node_task env cfg st inp)) = None"
    "nd_tasks_success (fst (node_task env cfg st inp)) = nd_tasks_success st"
    "nd_tasks_failed (fst (node_task env cfg st inp)) = nd_tasks_failed st" by simp_all
qed

subsection \<open>Properties\<close>

text \<open>C6: The provider runs a task exactly when every gate lets it pass: the body is read and parses to an object, the origin is
  within its rate, the intent is permitted, the backend is not draining, the window and the semaphore have room, nonce and
  (if enabled) task identifier are new, the request could be opened and, if a sealed response is demanded, was sealed,
  and the event loop is open. The handler gets the body with its payload decrypted. A task that is not run leaves the
  counters unchanged and reports no completion to the directory.\<close>

theorem task_admission_exact:
  "(to_executed (snd (node_task env cfg st inp)) = Some b \<longleftrightarrow>
     (\<exists>raw rest body. read_task_request_body (Message (ti_headers inp)) (ti_stream inp) = Inr (raw, rest) \<and>
        parsed_task env raw = Some (PDict body) \<and> origin_admits cfg st inp \<and> intent_admits cfg body \<and>
        \<not> is_draining (ti_stability inp) (ti_wall inp) \<and> capacity_admits cfg inp \<and> hashable (qos_of body) \<and>
        unseen (\<lambda>expiry. ti_now inp \<le> expiry) (nd_nonces st) (sget body ''nonce'') \<and>
        (nc_enable_idempotency cfg \<longrightarrow> unseen (\<lambda>expiry. ti_now inp < expiry) (nd_seen_tasks st) (sget body ''task_id'')) \<and>
        opened env cfg inp body b \<and> \<not> ti_loop_closed inp)) \<and>
   (to_executed (snd (node_task env cfg st inp)) = None \<longrightarrow>
     to_receipt (snd (node_task env cfg st inp)) = None \<and>
     nd_tasks_success (fst (node_task env cfg st inp)) = nd_tasks_success st \<and>
     nd_tasks_failed (fst (node_task env cfg st inp)) = nd_tasks_failed st)"
  using not_executed_effects [of env cfg st inp]
  by (auto simp: node_executed gated_executed admitted_executed not_less not_le)

definition posted_task :: pydict where
  "posted_task = [(PStr ''task_id'', PStr ''t1''), (PStr ''nonce'', PStr ''n1''), (PStr ''intent'', PStr ''urn:x''),
     (PStr ''payload'', PDict [])]"

definition sample_task_env :: task_env where
  "sample_task_env = \<lparr>te_loads = (\<lambda>_. Some (PDict posted_task)), te_dumps = (\<lambda>_. ''{}''), te_suite = toy_suite, te_nonce = ''n'',
     te_text = (\<lambda>_. []), te_handler = (\<lambda>_. TaskReturned (PDict []))\<rparr>"

definition sample_node_config :: node_config where
  "sample_node_config = \<lparr>nc_intent = ''urn:iicp:intent:llm:chat:v1'', nc_max_concurrent = 4, nc_windows = [], nc_enable_idempotency = True,
     nc_task_rate_limit = 60, nc_policy = new_node_policy False False False 3 30000 2 False, nc_private_key = None,
     nc_hmac_key = [], nc_token = []\<rparr>"

definition sample_node_state :: node_state where
  "sample_node_state = \<lparr>nd_nonces = [], nd_seen_tasks = [], nd_rate = [], nd_tasks_success = 0, nd_tasks_failed = 0, nd_latency_total_ms = 0\<rparr>"

definition sample_task_input :: "time \<Rightarrow> task_input" where
  "sample_task_input now = \<lparr>ti_headers = [(''Content-Length'', ''2'')], ti_stream = ''{}'', ti_now = now, ti_wall = now,
     ti_clock = (12, 0), ti_stability = observed OK_STATE ''ok'' None now [], ti_active_jobs = 0, ti_slot_free = True,
     ti_loop_closed = False, ti_latency_ms = 5\<rparr>"

lemma sample_read:
  "read_task_request_body (Message (ti_headers (sample_task_input now))) (ti_stream (sample_task_input now)) = Inr (''{}'', [])"
proof -
  let ?h = "Message [(''Content-Length'', ''2'')]"
  have "header_values ?h ''Content-Length'' = [''2'']" "header_values ?h ''Transfer-Encoding'' = []"
    "header_values ?h ''Content-Encoding'' = []" "number_of ''2'' = 2" "list_all is_digit ''2''"
    by code_simp+
  then show ?thesis
    by (simp add: sample_task_input_def read_task_request_body_def validate_content_encoding_def content_length_def read_exact_def
        MAX_HTTP_TASK_BODY_BYTES_def)
qed

lemma sample_no_header: "header_get (ti_headers (sample_task_input now)) ''Origin'' = None"
  "header_get (ti_headers (sample_task_input now)) ''traceparent'' = None"
  by (simp_all add: sample_task_input_def header_get_def header_all_def lower_def lower_char_def)

lemma sample_admits:
  "origin_admits sample_node_config st (sample_task_input now)" "intent_admits sample_node_config posted_task"
  "\<not> is_draining (ti_stability (sample_task_input now)) (ti_wall (sample_task_input now))"
  "capacity_admits sample_node_config (sample_task_input now)" "hashable (qos_of posted_task)"
  "opened sample_task_env sample_node_config (sample_task_input now) posted_task posted_task"
proof -
  show "origin_admits sample_node_config st (sample_task_input now)" by (simp add: origin_admits_def sample_no_header)
  have "split_on (CHR '':'') ''urn:x'' = [''urn'', ''x'']" by code_simp
  then show "intent_admits sample_node_config posted_task"
    by (simp add: intent_admits_def posted_task_def permits_intent_def)
  show "\<not> is_draining (ti_stability (sample_task_input now)) (ti_wall (sample_task_input now))"
    by (simp add: sample_task_input_def is_draining_def observed_def OK_STATE_def DRAINING_def)
  show "capacity_admits sample_node_config (sample_task_input now)"
    by (simp add: capacity_admits_def sample_node_config_def sample_task_input_def effective_max_concurrent_def current_share_def)
  show "hashable (qos_of posted_task)" by (simp add: qos_of_def posted_task_def)
  show "opened sample_task_env sample_node_config (sample_task_input now) posted_task posted_task"
    unfolding opened_def
    by (intro exI [of _ posted_task] exI [of _ None]) (simp add: open_request_def posted_task_def add_trace_def sample_no_header present_def)
qed

lemma sample_executed:
  assumes "unseen (\<lambda>v. now \<le> v) (nd_nonces st) (PStr ''n1'')" "unseen (\<lambda>v. now < v) (nd_seen_tasks st) (PStr ''t1'')"
  shows "to_executed (snd (node_task sample_task_env sample_node_config st (sample_task_input now))) = Some posted_task"
  unfolding node_executed gated_executed admitted_executed
  using assms sample_read [of now] sample_admits
  by (auto simp: parsed_task_def sample_task_env_def sample_task_input_def posted_task_def not_less not_le)

theorem task_admission_exact_witness:
  "to_executed (snd (node_task sample_task_env sample_node_config sample_node_state (sample_task_input 0))) = Some posted_task \<and>
   unseen (\<lambda>expiry. 0 \<le> expiry) (nd_nonces sample_node_state) (sget posted_task ''nonce'')"
proof -
  have "to_executed (snd (node_task sample_task_env sample_node_config sample_node_state (sample_task_input 0))) = Some posted_task"
    by (rule sample_executed) (simp_all add: unseen_def sample_node_state_def key_find_def)
  then show ?thesis
    using task_admission_exact [of sample_task_env sample_node_config sample_node_state "sample_task_input 0" posted_task]
    by (auto simp: unseen_def sample_node_state_def key_find_def posted_task_def)
qed

text \<open>C7: A replayed request is not run again: over any history of requests with a clock that does not run backwards, two executed
  tasks that carry the same nonce lie more than 300 seconds apart, and, with idempotency enabled, two executed
  tasks with the same identifier lie at least 300 seconds apart.\<close>

theorem replay_rejected:
  assumes "sorted (map (\<lambda>r. ti_now (snd r)) rs)" "i < j" "j < length rs"
    "to_executed (node_run cfg st rs ! i) = Some b" "to_executed (node_run cfg st rs ! j) = Some b'"
  shows "(sget b ''nonce'' = PStr s \<longrightarrow> sget b' ''nonce'' = PStr s \<longrightarrow> s \<noteq> [] \<longrightarrow>
      ti_now (snd (rs ! i)) + 300 < ti_now (snd (rs ! j))) \<and>
    (nc_enable_idempotency cfg \<longrightarrow> sget b ''task_id'' = PStr s \<longrightarrow> sget b' ''task_id'' = PStr s \<longrightarrow> s \<noteq> [] \<longrightarrow>
      ti_now (snd (rs ! i)) + 300 \<le> ti_now (snd (rs ! j)))"
  using nonces.executed_once [OF _ assms] task_ids.executed_once [OF _ assms] by (auto simp: not_le not_less)

theorem replay_rejected_witness:
  "\<exists>r0 r1. node_run sample_node_config sample_node_state
      [(sample_task_env, sample_task_input 0), (sample_task_env, sample_task_input 400)] = [r0, r1] \<and>
     to_executed r0 = Some posted_task \<and> to_executed r1 = Some posted_task \<and> (0 :: real) + 300 < 400"
proof -
  let ?i0 = "sample_task_input 0" and ?i1 = "sample_task_input 400"
  obtain st0 r0 where 0: "node_task sample_task_env sample_node_config sample_node_state ?i0 = (st0, r0)" by fastforce
  obtain st1 r1 where 1: "node_task sample_task_env sample_node_config st0 ?i1 = (st1, r1)" by fastforce
  have e0: "to_executed r0 = Some posted_task"
    using sample_executed [of 0 sample_node_state] 0 by (simp add: unseen_def sample_node_state_def key_find_def)
  have "nd_nonces st0 = [(PStr ''n1'', 300)]" "nd_seen_tasks st0 = [(PStr ''t1'', 300)]"
    using executed_filters [of sample_task_env sample_node_config sample_node_state ?i0 posted_task] 0 e0
    by (simp_all add: sample_node_state_def posted_task_def sample_task_input_def check_nonce_def check_task_id_def key_find_def
        sample_node_config_def)
  then have e1: "to_executed r1 = Some posted_task"
    using sample_executed [of 400 st0] 1 by (simp add: unseen_def key_find_def)
  have run: "node_run sample_node_config sample_node_state [(sample_task_env, ?i0), (sample_task_env, ?i1)] = [r0, r1]"
    by (simp add: 0 1)
  show ?thesis
    using replay_rejected [of "[(sample_task_env, ?i0), (sample_task_env, ?i1)]" 0 1 sample_node_config sample_node_state posted_task
        posted_task "''n1''"] run e0 e1
    by (simp add: sample_task_input_def posted_task_def)
qed

end
