(* ===== verification/Relay.thy ===== *)
theory Relay
  imports Tcp_Session Client_Checks Node_Task
begin

text \<open>
  Relay as last resort (\<open>relay_session.py\<close>, \<open>relay_ticket.py\<close> and the relay handlers of \<open>node.py\<close>): the registry of bound
  worker sessions, bind tickets and their replay cache, the binding of workers over the native transport and over HTTP long
  polling, forwarding of tasks and of streams, and the frames a worker sends. Sessions are objects: they live in a store by
  identity, and the registry maps worker identifiers to them. Parameters: CBOR and JSON, the signature check, clocks,
  and the fresh identifiers drawn by the program.
\<close>

subsection \<open>Bind tickets (\<open>relay_ticket.py\<close>)\<close>

definition BIND_DOMAIN :: string where
  "BIND_DOMAIN = ''iicp:relay-bind-ticket:v1'' @ [char_of (10 :: nat)]"

record bind_claims =
  bc_v :: int
  bc_typ :: string
  bc_jti :: string
  bc_iss :: string
  bc_sub :: string
  bc_aud :: string
  bc_iat :: int
  bc_exp :: int

definition verify_relay_bind_ticket ::
  "ticket_checks \<Rightarrow> (pyval \<Rightarrow> string) \<Rightarrow> string \<Rightarrow> string \<Rightarrow> string \<Rightarrow> string \<Rightarrow> int \<Rightarrow> py_error + bind_claims option" where
  "verify_relay_bind_ticket tk txt token public_key_hex worker_id relay_audience now =
     (if CHR ''.'' \<notin> set token \<or> length (after (CHR ''.'') token) \<noteq> 128 then Inr None
      else let b64_payload = before (CHR ''.'') token; sig_hex = after (CHR ''.'') token
        in if \<not> tk_verify tk public_key_hex sig_hex (BIND_DOMAIN @ b64_payload) then Inr None
           else case tk_payload tk (b64pad b64_payload) of
               None \<Rightarrow> Inr None
             | Some (PDict p) \<Rightarrow>
                 if sget p ''typ'' \<noteq> PStr ''relay-bind-ticket'' then Inr None
                 else if \<not> lower_hex 32 (sget p ''jti'') then Inr None
                 else if sget p ''sub'' \<noteq> PStr worker_id then Inr None
                 else bind_result (int_value (tk_int tk) (get_or p ''exp'' (PInt 0))) (\<lambda>exp.
                   if exp \<le> now then Inr None
                   else let aud = py_str txt (get_or p ''aud'' (PStr []))
                     in if aud \<noteq> ''*'' \<and> aud \<noteq> relay_audience then Inr None
                        else bind_result (int_value (tk_int tk) (get_or p ''v'' (PInt 0))) (\<lambda>v.
                             bind_result (int_value (tk_int tk) (get_or p ''iat'' (PInt 0))) (\<lambda>iat.
                               Inr (Some \<lparr>bc_v = v, bc_typ = ''relay-bind-ticket'',
                                 bc_jti = (case sget p ''jti'' of PStr j \<Rightarrow> j | _ \<Rightarrow> []),
                                 bc_iss = py_str txt (get_or p ''iss'' (PStr [])), bc_sub = worker_id, bc_aud = aud,
                                 bc_iat = iat, bc_exp = exp\<rparr>))))
             | Some _ \<Rightarrow> Inl AttributeError)"

definition consume_ticket :: "(string \<times> int) list \<Rightarrow> bind_claims \<Rightarrow> int \<Rightarrow> (string \<times> int) list \<times> bool" where
  "consume_ticket seen claims now =
     (let live = filter (\<lambda>(_, exp). exp > now) seen
      in if bc_jti claims \<in> fst ` set live then (live, False)
         else (live @ [(bc_jti claims, bc_exp claims)], True))"

subsection \<open>Streams (\<open>forward_stream\<close>, \<open>on_stream_response\<close>)\<close>

datatype stream_item = Event pydict | Failure string

record stream_entry =
  se_queue :: "stream_item list"
  se_sequence :: native_sequence

definition STREAM_QUEUE :: nat where "STREAM_QUEUE = 32"

definition new_stream :: "string \<Rightarrow> string \<Rightarrow> string \<Rightarrow> stream_entry" where
  "new_stream session_id call_id task_id = \<lparr>se_queue = [], se_sequence = new_sequence session_id call_id task_id\<rparr>"

text \<open>An event from the worker. An event name that cannot be hashed raises a \<open>TypeError\<close>, which leaves the stream as it was.\<close>

definition put_event :: "stream_entry \<Rightarrow> pydict \<Rightarrow> stream_entry \<times> py_error option" where
  "put_event e event =
     (case seq_accept (se_sequence e) event of
        (_, Inl (SequenceError code)) \<Rightarrow> (e\<lparr>se_queue := [Failure code]\<rparr>, None)
      | (_, Inl SequenceTypeError) \<Rightarrow> (e, Some TypeError)
      | (s, Inr _) \<Rightarrow>
          if length (se_queue e) \<ge> STREAM_QUEUE
          then (e\<lparr>se_queue := [Failure ''relay_backpressure_exceeded''], se_sequence := s\<rparr>, None)
          else (e\<lparr>se_queue := se_queue e @ [Event event], se_sequence := s\<rparr>, None))"

text \<open>The consumer takes the next item: an event to yield, with whether the stream ends there, or the failure it raises.\<close>

datatype take_outcome = Nothing_Yet | Yield pydict bool | Raise string

definition take_event :: "stream_entry \<Rightarrow> stream_entry \<times> take_outcome" where
  "take_event e =
     (case se_queue e of
        [] \<Rightarrow> (e, Nothing_Yet)
      | Event ev # q \<Rightarrow> (e\<lparr>se_queue := q\<rparr>, Yield ev (truthy (sget ev ''is_final'')))
      | Failure code # q \<Rightarrow> (e\<lparr>se_queue := q\<rparr>, Raise code))"

subsection \<open>Sessions\<close>

record poll_state =
  po_intent :: string
  po_models :: "string list"
  po_token :: string
  po_queue :: "pyval list"
  po_last_pull :: time
  po_closed :: bool

datatype transport = Writer bool | Poll poll_state

record relay_session =
  rs_worker_id :: string
  rs_transport :: transport
  rs_pending :: "(string \<times> pyval option) list"
  rs_streams :: "(string \<times> stream_entry) list"

definition LIVENESS_WINDOW :: time where "LIVENESS_WINDOW = 90"

definition is_alive :: "relay_session \<Rightarrow> time \<Rightarrow> bool" where
  "is_alive s now =
     (case rs_transport s of
        Writer closing \<Rightarrow> \<not> closing
      | Poll p \<Rightarrow> \<not> po_closed p \<and> now - po_last_pull p < LIVENESS_WINDOW)"

definition on_response :: "relay_session \<Rightarrow> string \<Rightarrow> pyval \<Rightarrow> relay_session" where
  "on_response s call_id result =
     (case map_of (rs_pending s) call_id of
        Some None \<Rightarrow> s\<lparr>rs_pending := AList.update call_id (Some result) (rs_pending s)\<rparr>
      | _ \<Rightarrow> s)"

definition on_stream_response :: "relay_session \<Rightarrow> string \<Rightarrow> pydict \<Rightarrow> relay_session \<times> py_error option" where
  "on_stream_response s call_id event =
     (case map_of (rs_streams s) call_id of
        None \<Rightarrow> (s, None)
      | Some e \<Rightarrow>
          (case put_event e event of (e', err) \<Rightarrow> (s\<lparr>rs_streams := AList.update call_id e' (rs_streams s)\<rparr>, err)))"

subsection \<open>Registry (\<open>RelaySessionRegistry\<close>)\<close>

definition MAX_RELAY_SESSIONS :: nat where "MAX_RELAY_SESSIONS = 256"
definition DEFAULT_RELAY_BIND_RATE_LIMIT :: int where "DEFAULT_RELAY_BIND_RATE_LIMIT = 30"
definition RELAY_BIND_RATE_WINDOW_S :: time where "RELAY_BIND_RATE_WINDOW_S = 60"

record relay_registry =
  rr_sessions :: "(string \<times> nat) list"
  rr_objects :: "nat \<Rightarrow> relay_session option"
  rr_next :: nat
  rr_max :: nat
  rr_bind_rate_limit :: int
  rr_buckets :: "(string \<times> (time \<times> int)) list"
  rr_seen_tickets :: "(string \<times> int) list"

text \<open>The limit from \<open>IICP_RELAY_BIND_RATE_LIMIT\<close>: \<open>limit_env\<close> is \<open>None\<close> when the variable is unset, \<open>Some None\<close> when it is no integer.\<close>

definition new_relay_registry :: "nat \<Rightarrow> int option option \<Rightarrow> relay_registry" where
  "new_relay_registry max_sessions limit_env =
     \<lparr>rr_sessions = [], rr_objects = (\<lambda>_. None), rr_next = 0, rr_max = max_sessions,
      rr_bind_rate_limit = (case limit_env of
          None \<Rightarrow> DEFAULT_RELAY_BIND_RATE_LIMIT | Some None \<Rightarrow> DEFAULT_RELAY_BIND_RATE_LIMIT | Some (Some n) \<Rightarrow> max 0 n),
      rr_buckets = [], rr_seen_tickets = []\<rparr>"

definition allow_bind :: "relay_registry \<Rightarrow> string \<Rightarrow> bool \<Rightarrow> time \<Rightarrow> relay_registry \<times> bool" where
  "allow_bind r source rebind current =
     (if rebind \<or> rr_bind_rate_limit r = 0 then (r, True)
      else let (start, n) = (case map_of (rr_buckets r) source of None \<Rightarrow> (current, 0) | Some b \<Rightarrow> b);
               (start', n') = (if current - start \<ge> RELAY_BIND_RATE_WINDOW_S then (current, 0) else (start, n));
               buckets = AList.update source (start', n' + 1) (rr_buckets r);
               pruned = (if length buckets > 4096 then filter (\<lambda>(_, b). current - fst b < RELAY_BIND_RATE_WINDOW_S) buckets else buckets)
           in (r\<lparr>rr_buckets := pruned\<rparr>, n' + 1 \<le> rr_bind_rate_limit r))"

definition lookup_session :: "relay_registry \<Rightarrow> string \<Rightarrow> (nat \<times> relay_session) option" where
  "lookup_session r worker_id =
     (case map_of (rr_sessions r) worker_id of
        None \<Rightarrow> None
      | Some k \<Rightarrow> map_option (\<lambda>s. (k, s)) (rr_objects r k))"

definition at_capacity :: "relay_registry \<Rightarrow> string \<Rightarrow> bool" where
  "at_capacity r worker_id \<longleftrightarrow> map_of (rr_sessions r) worker_id = None \<and> length (rr_sessions r) \<ge> rr_max r"

definition bind_session :: "relay_registry \<Rightarrow> string \<Rightarrow> relay_session \<Rightarrow> relay_registry \<times> nat" where
  "bind_session r worker_id s =
     (r\<lparr>rr_sessions := AList.update worker_id (rr_next r) (rr_sessions r), rr_objects := (rr_objects r)(rr_next r := Some s),
        rr_next := Suc (rr_next r)\<rparr>, rr_next r)"

definition unbind_session :: "relay_registry \<Rightarrow> string \<Rightarrow> relay_registry" where
  "unbind_session r worker_id = r\<lparr>rr_sessions := AList.delete worker_id (rr_sessions r)\<rparr>"

definition session_token :: "relay_session \<Rightarrow> string option" where
  "session_token s = (case rs_transport s of Poll p \<Rightarrow> Some (po_token p) | Writer _ \<Rightarrow> None)"

definition get_by_token :: "relay_registry \<Rightarrow> string \<Rightarrow> (nat \<times> relay_session) option" where
  "get_by_token r token =
     (if token = [] then None
      else List.find (\<lambda>(_, s). session_token s = Some token)
             (List.map_filter (\<lambda>(_, k). map_option (\<lambda>s. (k, s)) (rr_objects r k)) (rr_sessions r)))"

definition update_session :: "relay_registry \<Rightarrow> nat \<Rightarrow> relay_session \<Rightarrow> relay_registry" where
  "update_session r k s = r\<lparr>rr_objects := (rr_objects r)(k := Some s)\<rparr>"

subsection \<open>Binding\<close>

text \<open>What both transports check, in this order: ticket, live session, rate, capacity, replay. The clocks are the monotonic one
  and the wall clock in seconds.\<close>

record relay_config =
  rc_checks :: ticket_checks
  rc_text :: "pyval \<Rightarrow> string"
  rc_public_key :: string
  rc_require_ticket :: bool
  rc_audience :: string
  rc_http_port :: int
  rc_dumps :: "pyval \<Rightarrow> bytes"
  rc_loads :: "bytes \<Rightarrow> pyval option"
  rc_json_bytes :: "pyval \<Rightarrow> bytes"
  rc_json_loads :: "pyval \<Rightarrow> pyval option"

datatype bind_refusal = TicketInvalid | TicketRequired | AlreadyBound | RateLimited | AtCapacity | TicketReplayed | BindRaised py_error

definition bind_claims_of :: "relay_config \<Rightarrow> string \<Rightarrow> string \<Rightarrow> int \<Rightarrow> bind_refusal + bind_claims option" where
  "bind_claims_of cfg worker_id ticket wall =
     (if ticket \<noteq> [] \<and> rc_public_key cfg \<noteq> []
      then (case verify_relay_bind_ticket (rc_checks cfg) (rc_text cfg) ticket (rc_public_key cfg) worker_id (rc_audience cfg) wall of
              Inl e \<Rightarrow> Inl (BindRaised e)
            | Inr None \<Rightarrow> Inl TicketInvalid
            | Inr (Some claims) \<Rightarrow> Inr (Some claims))
      else if rc_require_ticket cfg then Inl TicketRequired
      else Inr None)"

definition spend_ticket :: "relay_registry \<Rightarrow> bind_claims option \<Rightarrow> int \<Rightarrow> relay_registry \<times> bool" where
  "spend_ticket r claims wall =
     (case claims of
        None \<Rightarrow> (r, True)
      | Some c \<Rightarrow> (case consume_ticket (rr_seen_tickets r) c wall of (seen, ok) \<Rightarrow> (r\<lparr>rr_seen_tickets := seen\<rparr>, ok)))"

definition admit_bind ::
  "relay_config \<Rightarrow> relay_registry \<Rightarrow> time \<Rightarrow> int \<Rightarrow> string \<Rightarrow> string \<Rightarrow> string \<Rightarrow> relay_registry \<times> (bind_refusal + bind_claims option)" where
  "admit_bind cfg r now wall source worker_id ticket =
     (case bind_claims_of cfg worker_id ticket wall of
        Inl e \<Rightarrow> (r, Inl e)
      | Inr claims \<Rightarrow>
          let existing = lookup_session r worker_id
          in if (case existing of Some (_, s) \<Rightarrow> is_alive s now | None \<Rightarrow> False) then (r, Inl AlreadyBound)
             else (case allow_bind r source (existing \<noteq> None) now of
                     (r1, False) \<Rightarrow> (r1, Inl RateLimited)
                   | (r1, True) \<Rightarrow>
                       if at_capacity r1 worker_id then (r1, Inl AtCapacity)
                       else (case spend_ticket r1 claims wall of
                               (r2, False) \<Rightarrow> (r2, Inl TicketReplayed)
                             | (r2, True) \<Rightarrow> (r2, Inr claims))))"

subsection \<open>Native transport (\<open>RelayAcceptServer\<close>)\<close>

definition relay_make_frame :: "MsgType \<Rightarrow> bytes \<Rightarrow> frame_error + bytes" where
  "relay_make_frame mt payload =
     (if length payload > MAX_FRAME_PAYLOAD then Inl (FrameValueError ''relay frame payload too large'')
      else Inr (IICP_MAGIC @ [word_of_int FRAMING_VERSION, word_of_int (msg_code mt), 0, 0] @ be32 (length payload) @ payload))"

definition relay_read_frame :: "bytes \<Rightarrow> (int \<times> bytes \<times> bytes) option" where
  "relay_read_frame bs =
     (if length bs < FRAME_HEADER_LEN then None
      else let h = unpack_header bs; rest = drop FRAME_HEADER_LEN bs
        in if hd_magic h \<noteq> IICP_MAGIC \<or> hd_version h \<noteq> FRAMING_VERSION \<or> hd_payload_len h > MAX_FRAME_PAYLOAD then None
           else if length rest < hd_payload_len h then None
           else Some (hd_msg_type h, take (hd_payload_len h) rest, drop (hd_payload_len h) rest))"

text \<open>The handshake reads the magic, then the rest of the header, then the payload; it gives the bytes after the INIT frame.\<close>

definition relay_handshake :: "bytes \<Rightarrow> bytes option" where
  "relay_handshake bs =
     (if length bs < 4 \<or> take 4 bs \<noteq> IICP_MAGIC \<or> length bs < FRAME_HEADER_LEN then None
      else let h = unpack_header bs
        in if hd_version h \<noteq> FRAMING_VERSION \<or> hd_payload_len h > MAX_FRAME_PAYLOAD then None
           else if hd_msg_type h \<noteq> msg_code INIT then None
           else if length bs < FRAME_HEADER_LEN + hd_payload_len h then None
           else Some (drop (FRAME_HEADER_LEN + hd_payload_len h) bs))"

fun iterable :: "pyval \<Rightarrow> bool" where
  "iterable PNone = False"
| "iterable (PBool _) = False"
| "iterable (PInt _) = False"
| "iterable (PFloat _) = False"
| "iterable _ = True"

definition refusal_text :: "bind_refusal \<Rightarrow> string" where
  "refusal_text e =
     (case e of
        TicketInvalid \<Rightarrow> ''relay bind ticket invalid''
      | TicketRequired \<Rightarrow> ''relay bind ticket required''
      | AlreadyBound \<Rightarrow> ''worker_id already bound to an alive session''
      | RateLimited \<Rightarrow> ''relay_bind_rate_limited''
      | AtCapacity \<Rightarrow> ''relay at session capacity''
      | TicketReplayed \<Rightarrow> ''relay bind ticket replayed''
      | BindRaised _ \<Rightarrow> [])"

definition new_tcp_session :: "string \<Rightarrow> relay_session" where
  "new_tcp_session worker_id = \<lparr>rs_worker_id = worker_id, rs_transport = Writer False, rs_pending = [], rs_streams = []\<rparr>"

definition frames_of :: "frame_error + bytes \<Rightarrow> bytes list" where
  "frames_of f = (case f of Inl _ \<Rightarrow> [] | Inr b \<Rightarrow> [b])"

text \<open>The bind message of a worker: the frames written, and the session whose loop starts. A connection that breaks while the
  acknowledgement is written (\<open>drained\<close> false) leaves the session bound with its writer closed, and no loop runs.\<close>

definition close_writer :: "relay_registry \<Rightarrow> nat \<Rightarrow> relay_registry" where
  "close_writer r k =
     (case rr_objects r k of None \<Rightarrow> r | Some s \<Rightarrow> update_session r k (s\<lparr>rs_transport := Writer True\<rparr>))"

definition tcp_bind ::
  "relay_config \<Rightarrow> relay_registry \<Rightarrow> time \<Rightarrow> int \<Rightarrow> string \<Rightarrow> bool \<Rightarrow> bytes \<Rightarrow> relay_registry \<times> bytes list \<times> nat option" where
  "tcp_bind cfg r now wall source drained payload =
     (case rc_loads cfg payload of
        Some (PDict body) \<Rightarrow>
          let worker_id = py_str (rc_text cfg) (iget_or body 1 (PStr [])); ticket = py_str (rc_text cfg) (iget_or body 4 (PStr []))
          in if (truthy (iget body 3) \<and> \<not> iterable (iget body 3)) \<or> worker_id = [] then (r, [], None)
             else (case admit_bind cfg r now wall source worker_id ticket of
                 (r1, Inl (BindRaised _)) \<Rightarrow> (r1, [], None)
               | (r1, Inl e) \<Rightarrow>
                   (r1, frames_of (relay_make_frame RELAY_ACK (rc_dumps cfg (PDict [(PInt 1, PStr ''error''), (PInt 2, PStr worker_id),
                      (PInt 3, PStr (refusal_text e))]))), None)
               | (r1, Inr _) \<Rightarrow>
                   (case bind_session r1 worker_id (new_tcp_session worker_id) of
                      (r2, k) \<Rightarrow>
                        (case relay_make_frame RELAY_ACK (rc_dumps cfg (PDict [(PInt 1, PStr ''ok''), (PInt 2, PStr worker_id),
                           (PInt 4, PInt (rc_http_port cfg))])) of
                           Inl _ \<Rightarrow> (close_writer r2 k, [], None)
                         | Inr ack \<Rightarrow> if drained then (r2, [ack], Some k) else (close_writer r2 k, [ack], None))))
      | _ \<Rightarrow> (r, [], None))"

text \<open>A new connection: handshake, bind. The answer has the frames written, and the session with the bytes still to be read.\<close>

definition tcp_connection ::
  "relay_config \<Rightarrow> relay_registry \<Rightarrow> time \<Rightarrow> int \<Rightarrow> string \<Rightarrow> bool \<Rightarrow> bytes \<Rightarrow> relay_registry \<times> bytes list \<times> (nat \<times> bytes) option" where
  "tcp_connection cfg r now wall source drained stream =
     (case relay_handshake stream of
        None \<Rightarrow> (r, [], None)
      | Some rest \<Rightarrow>
          (case relay_make_frame ACK (rc_dumps cfg (PDict [(PInt 1, PInt FRAMING_VERSION)])) of
             Inl _ \<Rightarrow> (r, [], None)
           | Inr ack \<Rightarrow>
               (case relay_read_frame rest of
                  None \<Rightarrow> (r, [ack], None)
                | Some (mt, payload, rest') \<Rightarrow>
                    if mt \<noteq> msg_code RELAY_BIND then (r, [ack], None)
                    else (case tcp_bind cfg r now wall source drained payload of
                            (r', frames, k) \<Rightarrow> (r', ack # frames, map_option (\<lambda>k. (k, rest')) k)))))"

text \<open>One frame of a bound worker: the frames written and whether the loop goes on.\<close>

definition worker_frame :: "relay_config \<Rightarrow> relay_registry \<Rightarrow> nat \<Rightarrow> int \<Rightarrow> bytes \<Rightarrow> relay_registry \<times> bytes list \<times> bool" where
  "worker_frame cfg r k mt payload =
     (case rr_objects r k of
        None \<Rightarrow> (r, [], False)
      | Some s \<Rightarrow>
          if mt = msg_code PING
          then (let echo = (case rc_loads cfg payload of Some (PDict pb) \<Rightarrow> iget_or pb 1 (PBytes []) | _ \<Rightarrow> PBytes [])
                in case relay_make_frame PONG (rc_dumps cfg (PDict (if truthy echo then [(PInt 1, echo)] else []))) of
                     Inl _ \<Rightarrow> (r, [], False)
                   | Inr f \<Rightarrow> (r, [f], True))
          else if mt = msg_code RESPONSE
          then (case rc_loads cfg payload of
                  Some (PDict rb) \<Rightarrow>
                    if py_find rb (PInt 13) \<noteq> None
                    then (case decode_lifecycle_response (PDict rb) of
                            Inl _ \<Rightarrow> (r, [], True)
                          | Inr event \<Rightarrow>
                              (update_session r k (fst (on_stream_response s (py_str (rc_text cfg) (sget event ''call_id'')) event)), [], True))
                    else (let raw5 = iget_or rb 5 (PBytes []); call_id = py_str (rc_text cfg) (iget_or rb 15 (PStr []));
                              result = (case raw5 of PBytes _ \<Rightarrow> rc_json_loads cfg raw5 | PStr _ \<Rightarrow> rc_json_loads cfg raw5 | _ \<Rightarrow> Some (PDict []))
                          in case result of
                               None \<Rightarrow> (r, [], True)
                             | Some v \<Rightarrow> (update_session r k (on_response s call_id v), [], True))
                | _ \<Rightarrow> (r, [], True))
          else (r, [], mt \<noteq> msg_code CLOSE))"

text \<open>When the loop ends: the registry entry goes only if it is still this session; then the writer is closed.\<close>

definition tcp_session_end :: "relay_registry \<Rightarrow> string \<Rightarrow> nat \<Rightarrow> relay_registry" where
  "tcp_session_end r worker_id k =
     close_writer (if map_of (rr_sessions r) worker_id = Some k then unbind_session r worker_id else r) k"

subsection \<open>Forwarding\<close>

text \<open>A consumer's task: a fresh call identifier is noted as pending, then the call goes to the worker, over the writer or into the
  queue it polls. The frame written, or the error that ends the forwarding.\<close>

definition call_body :: "relay_config \<Rightarrow> string \<Rightarrow> pyval \<Rightarrow> pyval" where
  "call_body cfg call_id task = PDict [(PInt 15, PStr call_id), (PInt 5, PBytes (rc_json_bytes cfg task))]"

definition enqueue_call :: "relay_session \<Rightarrow> poll_state \<Rightarrow> pyval \<Rightarrow> relay_session" where
  "enqueue_call s p call = s\<lparr>rs_transport := Poll (p\<lparr>po_queue := po_queue p @ [call]\<rparr>)\<rparr>"

definition forward_task_begin :: "relay_config \<Rightarrow> relay_session \<Rightarrow> string \<Rightarrow> pyval \<Rightarrow> relay_session \<times> (frame_error + bytes list)" where
  "forward_task_begin cfg s call_id task =
     (let s' = s\<lparr>rs_pending := AList.update call_id None (rs_pending s)\<rparr>
      in case rs_transport s of
           Writer _ \<Rightarrow>
             (case relay_make_frame CALL (rc_dumps cfg (call_body cfg call_id task)) of
                Inl e \<Rightarrow> (s\<lparr>rs_pending := AList.delete call_id (rs_pending s)\<rparr>, Inl e)
              | Inr f \<Rightarrow> (s', Inr [f]))
         | Poll p \<Rightarrow> (enqueue_call s' p (PDict [(PStr ''call_id'', PStr call_id), (PStr ''task'', task)]), Inr []))"

text \<open>The wait is over: the result, or \<open>None\<close> when the time ran out.\<close>

definition forward_task_end :: "relay_session \<Rightarrow> string \<Rightarrow> relay_session \<times> pyval option" where
  "forward_task_end s call_id =
     (s\<lparr>rs_pending := AList.delete call_id (rs_pending s)\<rparr>, case map_of (rs_pending s) call_id of Some v \<Rightarrow> v | None \<Rightarrow> None)"

definition or_call_id :: "relay_config \<Rightarrow> pydict \<Rightarrow> string \<Rightarrow> string \<Rightarrow> string" where
  "or_call_id cfg task k call_id = (if truthy (sget task k) then py_str (rc_text cfg) (sget task k) else call_id)"

definition forward_stream_begin :: "relay_config \<Rightarrow> relay_session \<Rightarrow> string \<Rightarrow> pydict \<Rightarrow> relay_session \<times> (frame_error + bytes list)" where
  "forward_stream_begin cfg s call_id task =
     (let task_id = or_call_id cfg task ''task_id'' call_id; session_id = or_call_id cfg task ''session_id'' call_id;
          s' = s\<lparr>rs_streams := AList.update call_id (new_stream session_id call_id task_id) (rs_streams s)\<rparr>
      in case rs_transport s of
           Writer _ \<Rightarrow>
             (case relay_make_frame CALL (rc_dumps cfg (PDict [(PInt 2, PStr session_id), (PInt 15, PStr call_id), (PInt 24, PStr task_id),
                (PInt 5, PBytes (rc_json_bytes cfg (PDict task)))])) of
                Inl e \<Rightarrow> (s\<lparr>rs_streams := AList.delete call_id (rs_streams s)\<rparr>, Inl e)
              | Inr f \<Rightarrow> (s', Inr [f]))
         | Poll p \<Rightarrow>
             (enqueue_call s' p (PDict [(PStr ''call_id'', PStr call_id), (PStr ''task_id'', PStr task_id), (PStr ''session_id'', PStr session_id),
                (PStr ''stream'', PBool True), (PStr ''task'', PDict task)]), Inr []))"

definition forward_stream_take :: "relay_session \<Rightarrow> string \<Rightarrow> relay_session \<times> take_outcome" where
  "forward_stream_take s call_id =
     (case map_of (rs_streams s) call_id of
        None \<Rightarrow> (s, Nothing_Yet)
      | Some e \<Rightarrow>
          (case take_event e of
             (e', Yield ev False) \<Rightarrow> (s\<lparr>rs_streams := AList.update call_id e' (rs_streams s)\<rparr>, Yield ev False)
           | (e', Nothing_Yet) \<Rightarrow> (s, Nothing_Yet)
           | (e', ended) \<Rightarrow> (s\<lparr>rs_streams := AList.delete call_id (rs_streams s)\<rparr>, ended)))"

subsection \<open>HTTP handlers (\<open>node.py\<close>)\<close>

text \<open>The body is \<open>None\<close> when it is no JSON text.\<close>

datatype relay_reply = Json int pyval | NoContent | RelayPage int | RelayCrash py_error

definition relay_error :: "int \<Rightarrow> string \<Rightarrow> relay_reply" where
  "relay_error status code = Json status (PDict [(PStr ''error'', PDict [(PStr ''code'', PStr code)])])"

definition refusal_reply :: "bind_refusal \<Rightarrow> relay_reply" where
  "refusal_reply e =
     (case e of
        TicketInvalid \<Rightarrow> relay_error 401 ''IICP-E040''
      | TicketRequired \<Rightarrow> relay_error 401 ''IICP-E040''
      | AlreadyBound \<Rightarrow> relay_error 409 ''IICP-E038''
      | RateLimited \<Rightarrow> relay_error 429 ''IICP-E039''
      | AtCapacity \<Rightarrow> relay_error 503 ''IICP-E039''
      | TicketReplayed \<Rightarrow> relay_error 409 ''IICP-E040''
      | BindRaised err \<Rightarrow> RelayCrash err)"

definition new_poll_session :: "relay_config \<Rightarrow> string \<Rightarrow> string \<Rightarrow> time \<Rightarrow> pydict \<Rightarrow> relay_session" where
  "new_poll_session cfg worker_id token now p =
     \<lparr>rs_worker_id = worker_id,
      rs_transport = Poll \<lparr>po_intent = py_str (rc_text cfg) (get_or p ''intent'' (PStr [])),
         po_models = (case sget p ''models'' of PList ms \<Rightarrow> map (py_str (rc_text cfg)) ms | _ \<Rightarrow> []),
         po_token = token, po_queue = [], po_last_pull = now, po_closed = False\<rparr>,
      rs_pending = [], rs_streams = []\<rparr>"

definition http_bind ::
  "relay_config \<Rightarrow> relay_registry \<Rightarrow> time \<Rightarrow> int \<Rightarrow> string \<Rightarrow> string \<Rightarrow> pyval option \<Rightarrow> relay_registry \<times> relay_reply" where
  "http_bind cfg r now wall source token payload =
     (case payload of
        None \<Rightarrow> (r, RelayPage 400)
      | Some (PDict p) \<Rightarrow>
          (case get_or p ''worker_id'' (PStr []) of
             PStr worker_id \<Rightarrow>
               if worker_id = [] then (r, relay_error 422 ''IICP-E001'')
               else (case admit_bind cfg r now wall source worker_id (case sget p ''bind_ticket'' of PStr t \<Rightarrow> t | _ \<Rightarrow> []) of
                       (r1, Inl e) \<Rightarrow> (r1, refusal_reply e)
                     | (r1, Inr _) \<Rightarrow>
                         (fst (bind_session r1 worker_id (new_poll_session cfg worker_id token now p)),
                          Json 200 (PDict [(PStr ''session_token'', PStr token), (PStr ''poll_timeout_s'', PInt 25),
                            (PStr ''worker_endpoint_path'', PStr (''/v1/relay-for/'' @ worker_id))])))
           | _ \<Rightarrow> (r, relay_error 422 ''IICP-E001''))
      | Some _ \<Rightarrow> (r, RelayCrash AttributeError))"

definition authed_session :: "relay_registry \<Rightarrow> string option \<Rightarrow> (nat \<times> relay_session) option" where
  "authed_session r authorization =
     (let auth = (case authorization of None \<Rightarrow> [] | Some a \<Rightarrow> a)
      in get_by_token r (if starts_with auth ''Bearer '' then drop 7 auth else []))"

definition touch :: "relay_session \<Rightarrow> time \<Rightarrow> relay_session" where
  "touch s now = (case rs_transport s of Poll p \<Rightarrow> s\<lparr>rs_transport := Poll (p\<lparr>po_last_pull := now\<rparr>)\<rparr> | Writer _ \<Rightarrow> s)"

text \<open>A poll begins and, up to 25 seconds later, ends with the oldest call of the queue or with none.\<close>

definition next_call :: "relay_session \<Rightarrow> time \<Rightarrow> relay_session \<times> pyval option" where
  "next_call s now =
     (case rs_transport s of
        Poll p \<Rightarrow>
          (case po_queue p of
             [] \<Rightarrow> (touch s now, None)
           | call # q \<Rightarrow> (touch (s\<lparr>rs_transport := Poll (p\<lparr>po_queue := q\<rparr>)\<rparr>) now, Some call))
      | Writer _ \<Rightarrow> (s, None))"

definition relay_pull_begin :: "relay_registry \<Rightarrow> time \<Rightarrow> string option \<Rightarrow> relay_registry \<times> nat option" where
  "relay_pull_begin r now authorization =
     (case authed_session r authorization of
        None \<Rightarrow> (r, None)
      | Some (k, s) \<Rightarrow> (update_session r k (touch s now), Some k))"

definition relay_pull_end :: "relay_registry \<Rightarrow> time \<Rightarrow> nat option \<Rightarrow> relay_registry \<times> relay_reply" where
  "relay_pull_end r now key =
     (case key of
        None \<Rightarrow> (r, relay_error 401 ''IICP-E021'')
      | Some k \<Rightarrow>
          (case rr_objects r k of
             None \<Rightarrow> (r, relay_error 502 ''IICP-E031'')
           | Some s \<Rightarrow>
               (case next_call s now of
                  (s', None) \<Rightarrow> (update_session r k s', NoContent)
                | (s', Some call) \<Rightarrow> (update_session r k s', Json 200 call))))"

definition relay_result :: "relay_registry \<Rightarrow> string option \<Rightarrow> pyval option \<Rightarrow> relay_registry \<times> relay_reply" where
  "relay_result r authorization payload =
     (case authed_session r authorization of
        None \<Rightarrow> (r, relay_error 401 ''IICP-E021'')
      | Some (k, s) \<Rightarrow>
          (case payload of
             None \<Rightarrow> (r, RelayPage 400)
           | Some (PDict p) \<Rightarrow>
               let call_id = get_or p ''call_id'' (PStr [])
               in if \<not> truthy call_id \<or> (\<not> is_dict (sget p ''result'') \<and> \<not> is_dict (sget p ''event''))
                  then (r, relay_error 422 ''IICP-E001'')
                  else (case call_id of
                      PStr c \<Rightarrow>
                        (case sget p ''event'' of
                           PDict event \<Rightarrow> (update_session r k (fst (on_stream_response s c event)), NoContent)
                         | _ \<Rightarrow> (update_session r k (on_response s c (sget p ''result'')), NoContent))
                    | _ \<Rightarrow> (r, NoContent))
           | Some _ \<Rightarrow> (r, RelayCrash AttributeError)))"

definition relay_unbind :: "relay_registry \<Rightarrow> string option \<Rightarrow> relay_registry \<times> relay_reply" where
  "relay_unbind r authorization =
     (case authed_session r authorization of
        None \<Rightarrow> (r, relay_error 401 ''IICP-E021'')
      | Some (k, s) \<Rightarrow>
          (unbind_session (update_session r k (case rs_transport s of
               Poll p \<Rightarrow> s\<lparr>rs_transport := Poll (p\<lparr>po_closed := True\<rparr>)\<rparr> | Writer _ \<Rightarrow> s)) (rs_worker_id s), NoContent))"

definition relay_for_worker_id :: "string \<Rightarrow> string" where
  "relay_for_worker_id path = (let parts = split_on (CHR ''/'') path in if length parts > 3 then parts ! 3 else [])"

definition alive_session :: "relay_registry \<Rightarrow> string \<Rightarrow> time \<Rightarrow> (nat \<times> relay_session) option" where
  "alive_session r worker_id now =
     (case lookup_session r worker_id of Some (k, s) \<Rightarrow> if is_alive s now then Some (k, s) else None | None \<Rightarrow> None)"

text \<open>A task for a worker: refused, or forwarded; then the answer.\<close>

definition relay_for_task_begin ::
  "relay_config \<Rightarrow> relay_registry \<Rightarrow> time \<Rightarrow> string \<Rightarrow> string \<Rightarrow> pyval option \<Rightarrow> relay_registry \<times> (relay_reply + nat \<times> bytes list)" where
  "relay_for_task_begin cfg r now path call_id payload =
     (case alive_session r (relay_for_worker_id path) now of
        None \<Rightarrow> (r, Inl (relay_error 404 ''IICP-E030''))
      | Some (k, s) \<Rightarrow>
          (case payload of
             None \<Rightarrow> (r, Inl (RelayPage 400))
           | Some task \<Rightarrow>
               (case forward_task_begin cfg s call_id task of
                  (s', Inl _) \<Rightarrow> (update_session r k s', Inl (relay_error 502 ''IICP-E031''))
                | (s', Inr fs) \<Rightarrow> (update_session r k s', Inr (k, fs)))))"

definition relay_for_task_end :: "relay_registry \<Rightarrow> nat \<Rightarrow> string \<Rightarrow> pyval \<Rightarrow> relay_registry \<times> relay_reply" where
  "relay_for_task_end r k call_id task =
     (case rr_objects r k of
        None \<Rightarrow> (r, relay_error 502 ''IICP-E031'')
      | Some s \<Rightarrow>
          (case forward_task_end s call_id of
             (s', result) \<Rightarrow>
               (update_session r k s',
                case (result, task) of
                  (Some (PDict res), PDict t) \<Rightarrow>
                    Json 200 (PDict (with_key (merged [(PStr ''task_id'', get_or t ''task_id'' (PStr [])), (PStr ''status'', PStr ''completed'')] res)
                      (PStr ''generated_by_ai'') (PBool True)))
                | _ \<Rightarrow> relay_error 502 ''IICP-E031'')))"

definition relay_for_health :: "relay_registry \<Rightarrow> time \<Rightarrow> string \<Rightarrow> relay_reply" where
  "relay_for_health r now path =
     (let worker_id = relay_for_worker_id path
      in case alive_session r worker_id now of
           None \<Rightarrow> relay_error 404 ''IICP-E030''
         | Some (_, s) \<Rightarrow>
             Json 200 (PDict [(PStr ''status'', PStr ''ok''), (PStr ''node_id'', PStr worker_id), (PStr ''via_relay'', PBool True),
               (PStr ''models'', PList (case rs_transport s of Poll p \<Rightarrow> map PStr (po_models p) | Writer _ \<Rightarrow> []))]))"

subsection \<open>Histories\<close>

text \<open>Every operation on the registry, at a moment of the monotonic clock and of the wall clock.\<close>

inductive relay_step :: "relay_config \<Rightarrow> time \<Rightarrow> int \<Rightarrow> relay_registry \<Rightarrow> relay_registry \<Rightarrow> bool" for cfg now wall r where
  step_connection: "relay_step cfg now wall r (fst (tcp_connection cfg r now wall source drained stream))"
| step_frame: "relay_step cfg now wall r (fst (worker_frame cfg r k mt payload))"
| step_session_end: "relay_step cfg now wall r (tcp_session_end r worker_id k)"
| step_http_bind: "relay_step cfg now wall r (fst (http_bind cfg r now wall source token body))"
| step_pull_begin: "relay_step cfg now wall r (fst (relay_pull_begin r now auth))"
| step_pull_end: "relay_step cfg now wall r (fst (relay_pull_end r now key))"
| step_result: "relay_step cfg now wall r (fst (relay_result r auth body))"
| step_unbind: "relay_step cfg now wall r (fst (relay_unbind r auth))"
| step_task_begin: "relay_step cfg now wall r (fst (relay_for_task_begin cfg r now path call_id body))"
| step_task_end: "relay_step cfg now wall r (fst (relay_for_task_end r k call_id task))"
| step_stream_begin: "rr_objects r k = Some s \<Longrightarrow> relay_step cfg now wall r (update_session r k (fst (forward_stream_begin cfg s call_id job)))"
| step_stream_take: "rr_objects r k = Some s \<Longrightarrow> relay_step cfg now wall r (update_session r k (fst (forward_stream_take s call_id)))"

inductive relay_reachable :: "relay_config \<Rightarrow> nat \<Rightarrow> relay_registry \<Rightarrow> bool" for cfg n where
  relay_start: "relay_reachable cfg n (new_relay_registry n limit_env)"
| relay_more: "relay_reachable cfg n r \<Longrightarrow> relay_step cfg now wall r r' \<Longrightarrow> relay_reachable cfg n r'"

definition registry_ok :: "nat \<Rightarrow> relay_registry \<Rightarrow> bool" where
  "registry_ok n r \<longleftrightarrow> rr_max r = n \<and> distinct (map fst (rr_sessions r)) \<and> length (rr_sessions r) \<le> n \<and>
     (\<forall>k. rr_objects r k \<noteq> None \<longrightarrow> k < rr_next r) \<and>
     (\<forall>w k. map_of (rr_sessions r) w = Some k \<longrightarrow> map_option rs_worker_id (rr_objects r k) = Some w)"

text \<open>An operation that binds nothing.\<close>

definition unbinding :: "relay_registry \<Rightarrow> relay_registry \<Rightarrow> bool" where
  "unbinding r r' \<longleftrightarrow> rr_max r' = rr_max r \<and> rr_next r' = rr_next r \<and> rr_seen_tickets r' = rr_seen_tickets r \<and>
     (rr_sessions r' = rr_sessions r \<or> (\<exists>w. rr_sessions r' = AList.delete w (rr_sessions r))) \<and>
     (\<forall>k. map_option rs_worker_id (rr_objects r' k) = map_option rs_worker_id (rr_objects r k))"

lemma unbinding_refl [simp]: "unbinding r r"
  by (simp add: unbinding_def)

lemma unbinding_update [intro]:
  "rr_objects r k = Some s \<Longrightarrow> rs_worker_id s' = rs_worker_id s \<Longrightarrow> unbinding r (update_session r k s')"
  by (auto simp: unbinding_def update_session_def)

lemma unbinding_unbind: "unbinding r r' \<Longrightarrow> rr_sessions r' = rr_sessions r \<Longrightarrow> unbinding r (unbind_session r' w)"
  by (auto simp: unbinding_def unbind_session_def)

lemma unbinding_ok:
  assumes "unbinding r r'" "registry_ok n r"
  shows "registry_ok n r'"
proof -
  have obj: "map_option rs_worker_id (rr_objects r' k) = map_option rs_worker_id (rr_objects r k)" for k
    using assms(1) by (simp add: unbinding_def)
  then have dom_eq: "rr_objects r' k = None \<longleftrightarrow> rr_objects r k = None" for k by (metis option.map_disc_iff)
  have "map_of (rr_sessions r') w = Some k \<Longrightarrow> map_of (rr_sessions r) w = Some k" for w k
    using assms(1) by (auto simp: unbinding_def delete_conv' split: if_splits)
  moreover have "distinct (map fst (rr_sessions r'))" "length (rr_sessions r') \<le> length (rr_sessions r)"
    using assms by (auto simp: unbinding_def registry_ok_def distinct_delete length_delete_le)
  moreover have "rr_max r' = rr_max r" "rr_next r' = rr_next r" using assms(1) by (simp_all add: unbinding_def)
  ultimately show ?thesis
    using assms(2) unfolding registry_ok_def obj dom_eq by auto
qed

text \<open>The operations leave a session's worker alone.\<close>

lemma session_worker [simp]:
  "rs_worker_id (on_response s c v) = rs_worker_id s" "rs_worker_id (fst (on_stream_response s c e)) = rs_worker_id s"
  "rs_worker_id (touch s now) = rs_worker_id s" "rs_worker_id (fst (next_call s now)) = rs_worker_id s"
  "rs_worker_id (fst (forward_task_begin cfg s c v)) = rs_worker_id s" "rs_worker_id (fst (forward_task_end s c)) = rs_worker_id s"
  "rs_worker_id (fst (forward_stream_begin cfg s c d)) = rs_worker_id s" "rs_worker_id (fst (forward_stream_take s c)) = rs_worker_id s"
  by (simp_all add: on_response_def on_stream_response_def touch_def next_call_def forward_task_begin_def forward_task_end_def
      forward_stream_begin_def forward_stream_take_def enqueue_call_def Let_def
      split: option.split prod.split transport.split list.split sum.split take_outcome.split bool.split)

lemma session_worker_pair:
  "next_call s now = (s', call) \<Longrightarrow> rs_worker_id s' = rs_worker_id s"
  "forward_task_begin cfg s c v = (s', out) \<Longrightarrow> rs_worker_id s' = rs_worker_id s"
  "forward_task_end s c = (s', res) \<Longrightarrow> rs_worker_id s' = rs_worker_id s"
  using session_worker(4) [of s now] session_worker(5) [of cfg s c v] session_worker(6) [of s c] by auto

lemma unbinding_close: "unbinding r (close_writer r k)"
  by (auto simp: close_writer_def split: option.split)

lemma unbinding_session_end: "unbinding r (tcp_session_end r w k)"
  by (auto simp: tcp_session_end_def close_writer_def unbind_session_def update_session_def unbinding_def split: option.split)

lemma unbinding_frame: "unbinding r (fst (worker_frame cfg r k mt payload))"
  by (auto simp: worker_frame_def Let_def split: option.split pyval.split sum.split)

lemma find_member: "List.find P xs = Some x \<Longrightarrow> x \<in> set xs \<and> P x"
  by (induction xs) (auto split: if_splits)

lemma map_filter_member: "y \<in> set (List.map_filter f xs) \<Longrightarrow> \<exists>x \<in> set xs. f x = Some y"
  by (auto simp: List.map_filter_def)

lemma authed_object:
  assumes "authed_session r a = Some (k, s)"
  shows "rr_objects r k = Some s" "session_token s = Some (drop 7 (the a))" "k \<in> snd ` set (rr_sessions r)"
proof -
  have "authed_session r None = None" by (simp add: authed_session_def get_by_token_def starts_with_def)
  then obtain t where a: "a = Some t" using assms by (cases a) auto
  have "(k, s) \<in> set (List.map_filter (\<lambda>(_, k). map_option (\<lambda>s. (k, s)) (rr_objects r k)) (rr_sessions r)) \<and> session_token s = Some (drop 7 t)"
    using assms a by (auto simp: authed_session_def get_by_token_def Let_def dest!: find_member split: if_splits)
  then show "rr_objects r k = Some s" "session_token s = Some (drop 7 (the a))" "k \<in> snd ` set (rr_sessions r)"
    using a by (auto dest!: map_filter_member simp: image_iff) force
qed

lemma lookup_object: "lookup_session r w = Some (k, s) \<longleftrightarrow> map_of (rr_sessions r) w = Some k \<and> rr_objects r k = Some s"
  by (auto simp: lookup_session_def split: option.splits)

lemma unbinding_http:
  "unbinding r (fst (relay_pull_begin r now auth))" "unbinding r (fst (relay_pull_end r now key))"
  "unbinding r (fst (relay_result r auth body))" "unbinding r (fst (relay_unbind r auth))"
  "unbinding r (fst (relay_for_task_begin cfg r now path call_id body))" "unbinding r (fst (relay_for_task_end r k call_id task))"
proof -
  show "unbinding r (fst (relay_pull_begin r now auth))"
    by (auto simp: relay_pull_begin_def dest: authed_object(1) split: option.split)
  show "unbinding r (fst (relay_pull_end r now key))"
    by (auto simp: relay_pull_end_def dest: session_worker_pair split: option.split prod.split)
  show "unbinding r (fst (relay_result r auth body))"
    by (auto simp: relay_result_def Let_def dest: authed_object(1) split: option.split pyval.split)
  show "unbinding r (fst (relay_unbind r auth))"
  proof (cases "authed_session r auth")
    case (Some p)
    obtain k s where p: "p = (k, s)" by (cases p)
    show ?thesis using authed_object(1) [of r auth k s] Some p
      by (auto simp: relay_unbind_def update_session_def unbind_session_def unbinding_def split: transport.split)
  qed (simp add: relay_unbind_def)
  show "unbinding r (fst (relay_for_task_end r k call_id task))"
    by (auto simp: relay_for_task_end_def dest: session_worker_pair split: option.split prod.split)
  show "unbinding r (fst (relay_for_task_begin cfg r now path call_id body))"
    by (auto simp: relay_for_task_begin_def alive_session_def lookup_object dest: session_worker_pair
        split: option.split option.split_asm prod.split prod.split_asm sum.split if_split_asm)
qed

lemma allow_bind_frame: "allow_bind r source rebind now = (r', ok) \<Longrightarrow> \<exists>b. r' = r\<lparr>rr_buckets := b\<rparr>"
  by (auto simp: allow_bind_def Let_def split: if_splits prod.splits option.splits intro: exI [of _ "rr_buckets r"])

lemma spend_ticket_frame: "spend_ticket r claims wall = (r', ok) \<Longrightarrow> \<exists>seen. r' = r\<lparr>rr_seen_tickets := seen\<rparr>"
  by (auto simp: spend_ticket_def split: option.splits prod.splits intro: exI [of _ "rr_seen_tickets r"])

lemma admit_bind_frame:
  assumes "admit_bind cfg r now wall source w ticket = (r', out)"
  shows "rr_sessions r' = rr_sessions r" "rr_objects r' = rr_objects r" "rr_next r' = rr_next r" "rr_max r' = rr_max r"
proof -
  have "\<exists>b seen. r' = r\<lparr>rr_buckets := b, rr_seen_tickets := seen\<rparr>"
  proof -
    have self: "\<exists>b seen. r = r\<lparr>rr_buckets := b, rr_seen_tickets := seen\<rparr>"
      by (rule exI [of _ "rr_buckets r"], rule exI [of _ "rr_seen_tickets r"]) simp
    have b: "\<exists>b' seen. r\<lparr>rr_buckets := b\<rparr> = r\<lparr>rr_buckets := b', rr_seen_tickets := seen\<rparr>" for b
      by (rule exI [of _ b], rule exI [of _ "rr_seen_tickets r"]) simp
    show ?thesis
      using assms self b
      by (auto simp: admit_bind_def Let_def dest!: allow_bind_frame spend_ticket_frame
          split: sum.split_asm if_split_asm prod.split_asm bool.split_asm option.split_asm)
  qed
  then show "rr_sessions r' = rr_sessions r" "rr_objects r' = rr_objects r" "rr_next r' = rr_next r" "rr_max r' = rr_max r" by auto
qed

text \<open>What an admitted bind has passed.\<close>

definition ticket_spent :: "relay_config \<Rightarrow> relay_registry \<Rightarrow> relay_registry \<Rightarrow> int \<Rightarrow> string \<Rightarrow> bool" where
  "ticket_spent cfg r r' wall w \<longleftrightarrow>
     (\<exists>ticket c. verify_relay_bind_ticket (rc_checks cfg) (rc_text cfg) ticket (rc_public_key cfg) w (rc_audience cfg) wall = Inr (Some c) \<and>
        (\<forall>e. (bc_jti c, e) \<in> set (rr_seen_tickets r) \<longrightarrow> e \<le> wall) \<and> (bc_jti c, bc_exp c) \<in> set (rr_seen_tickets r'))"

lemma admit_bind_ok:
  assumes "admit_bind cfg r now wall source w ticket = (r', Inr claims)"
  shows "\<forall>k s. lookup_session r w = Some (k, s) \<longrightarrow> \<not> is_alive s now" "\<not> at_capacity r w"
    "rc_require_ticket cfg \<Longrightarrow> ticket_spent cfg r r' wall w"
proof -
  obtain r1 where c: "bind_claims_of cfg w ticket wall = Inr claims" and dead: "\<forall>k s. lookup_session r w = Some (k, s) \<longrightarrow> \<not> is_alive s now"
    and a: "allow_bind r source (lookup_session r w \<noteq> None) now = (r1, True)" and cap: "\<not> at_capacity r1 w" and sp: "spend_ticket r1 claims wall = (r', True)"
    using assms by (auto simp: admit_bind_def Let_def split: sum.split_asm if_split_asm prod.split_asm bool.split_asm option.split_asm)
  obtain b where r1: "r1 = r\<lparr>rr_buckets := b\<rparr>" using allow_bind_frame [OF a] by blast
  show "\<forall>k s. lookup_session r w = Some (k, s) \<longrightarrow> \<not> is_alive s now" by (rule dead)
  show "\<not> at_capacity r w" using cap by (simp add: r1 at_capacity_def)
  assume "rc_require_ticket cfg"
  with c obtain cl where cl: "claims = Some cl"
    "verify_relay_bind_ticket (rc_checks cfg) (rc_text cfg) ticket (rc_public_key cfg) w (rc_audience cfg) wall = Inr (Some cl)"
    by (auto simp: bind_claims_of_def split: if_splits sum.splits option.splits)
  have "(\<forall>e. (bc_jti cl, e) \<in> set (rr_seen_tickets r) \<longrightarrow> e \<le> wall) \<and> (bc_jti cl, bc_exp cl) \<in> set (rr_seen_tickets r')"
    using sp by (force simp: cl(1) r1 spend_ticket_def consume_ticket_def Let_def not_less split: if_splits)
  then show "ticket_spent cfg r r' wall w" using cl(2) by (auto simp: ticket_spent_def)
qed

text \<open>What a step promises: it displaces no live session, and with tickets required it binds only for a ticket it spends.\<close>

definition safe_step :: "relay_config \<Rightarrow> time \<Rightarrow> int \<Rightarrow> relay_registry \<Rightarrow> relay_registry \<Rightarrow> bool" where
  "safe_step cfg now wall r r' \<longleftrightarrow>
     (\<forall>w k s. map_of (rr_sessions r) w = Some k \<longrightarrow> rr_objects r k = Some s \<longrightarrow> is_alive s now \<longrightarrow>
        map_of (rr_sessions r') w \<in> {None, Some k}) \<and>
     (rc_require_ticket cfg \<longrightarrow>
        (\<forall>w k. map_of (rr_sessions r') w = Some k \<longrightarrow> map_of (rr_sessions r) w \<noteq> Some k \<longrightarrow> ticket_spent cfg r r' wall w))"

lemma unbinding_safe: "unbinding r r' \<Longrightarrow> safe_step cfg now wall r r'"
  by (auto simp: unbinding_def safe_step_def delete_conv' split: if_splits)

lemma safe_step_sessions:
  "rr_sessions r' = rr_sessions r'' \<Longrightarrow> rr_seen_tickets r' = rr_seen_tickets r'' \<Longrightarrow> safe_step cfg now wall r r' = safe_step cfg now wall r r''"
  by (simp add: safe_step_def ticket_spent_def)

lemma same_sessions_safe:
  "rr_sessions r' = rr_sessions r \<Longrightarrow> safe_step cfg now wall r r'"
  by (auto simp: safe_step_def)

lemma admitted_step:
  assumes "registry_ok n r" "admit_bind cfg r now wall source w ticket = (r1, Inr claims)" "rs_worker_id s = w" "bind_session r1 w s = (r2, k)"
  shows "registry_ok n r2" "safe_step cfg now wall r r2" "rr_objects r2 k = Some s"
proof -
  note f = admit_bind_frame [OF assms(2)]
  have r2: "rr_sessions r2 = AList.update w (rr_next r) (rr_sessions r)" "rr_objects r2 = (rr_objects r)(rr_next r := Some s)"
    "rr_next r2 = Suc (rr_next r)" "rr_max r2 = rr_max r" "rr_seen_tickets r2 = rr_seen_tickets r1" "k = rr_next r"
    using assms(4) f by (auto simp: bind_session_def)
  have free: "rr_objects r (rr_next r) = None" using assms(1) by (auto simp: registry_ok_def)
  have "length (rr_sessions r2) \<le> n"
    using admit_bind_ok(2) [OF assms(2)] assms(1)
    by (auto simp: r2 dict_length_update at_capacity_def registry_ok_def map_of_eq_None_iff)
  moreover have "map_of (rr_sessions r) v \<noteq> Some (rr_next r)" for v
    using assms(1) free unfolding registry_ok_def by (metis option.simps(3) option.simps(8))
  ultimately show "registry_ok n r2"
    using assms(1,3) unfolding registry_ok_def r2 by (auto simp: update_conv' distinct_update less_Suc_eq simp del: map_of_eq_Some_iff)
  show "safe_step cfg now wall r r2"
    using admit_bind_ok(1,3) [OF assms(2)]
    by (auto simp: safe_step_def r2 update_conv' lookup_object ticket_spent_def split: if_splits)
  show "rr_objects r2 k = Some s" by (simp add: r2)
qed

lemma close_writer_fields [simp]:
  "rr_sessions (close_writer r k) = rr_sessions r" "rr_seen_tickets (close_writer r k) = rr_seen_tickets r"
  by (simp_all add: close_writer_def update_session_def split: option.split)

lemma refused_step:
  assumes "registry_ok n r" "admit_bind cfg r now wall source w ticket = (r1, out)"
  shows "registry_ok n r1" "safe_step cfg now wall r r1"
  using assms(1) admit_bind_frame [OF assms(2)] by (simp_all add: registry_ok_def same_sessions_safe)

lemma tcp_bind_step:
  assumes "registry_ok n r" "tcp_bind cfg r now wall source drained payload = (r', fs, k)"
  shows "registry_ok n r' \<and> safe_step cfg now wall r r'"
proof (cases "r' = r")
  case True
  then show ?thesis using assms(1) by (simp add: same_sessions_safe)
next
  case False
  then obtain w ticket r1 out where a: "admit_bind cfg r now wall source w ticket = (r1, out)"
    and res: "r' = r1 \<or> (\<exists>r2 k claims. out = Inr claims \<and> bind_session r1 w (new_tcp_session w) = (r2, k) \<and> (r' = r2 \<or> r' = close_writer r2 k))"
    using assms(2)
    by (auto simp: tcp_bind_def Let_def split: option.split_asm pyval.split_asm if_split_asm prod.split_asm sum.split_asm bind_refusal.split_asm)
  from res show ?thesis
  proof
    assume "r' = r1"
    then show ?thesis using refused_step [OF assms(1) a] by simp
  next
    assume "\<exists>r2 k claims. out = Inr claims \<and> bind_session r1 w (new_tcp_session w) = (r2, k) \<and> (r' = r2 \<or> r' = close_writer r2 k)"
    then obtain r2 k claims where b: "out = Inr claims" "bind_session r1 w (new_tcp_session w) = (r2, k)" "r' = r2 \<or> r' = close_writer r2 k" by blast
    have "rs_worker_id (new_tcp_session w) = w" by (simp add: new_tcp_session_def)
    note st = admitted_step [OF assms(1) a [unfolded b(1)] this b(2)]
    show ?thesis
      using b(3) st unbinding_ok [OF unbinding_close] safe_step_sessions [of "close_writer r2 k" r2] by auto
  qed
qed

lemma http_bind_step:
  assumes "registry_ok n r" "http_bind cfg r now wall source token body = (r', answer)"
  shows "registry_ok n r' \<and> safe_step cfg now wall r r'"
proof (cases "r' = r")
  case True
  then show ?thesis using assms(1) by (simp add: same_sessions_safe)
next
  case False
  obtain p w where p: "body = Some (PDict p)" "get_or p ''worker_id'' (PStr []) = PStr w" "w \<noteq> []"
    using assms(2) False by (auto simp: http_bind_def split: option.split_asm pyval.split_asm if_split_asm)
  define ticket where "ticket = (case sget p ''bind_ticket'' of PStr t \<Rightarrow> t | _ \<Rightarrow> [])"
  obtain r1 out where a: "admit_bind cfg r now wall source w ticket = (r1, out)" by fastforce
  show ?thesis
  proof (cases out)
    case (Inl e)
    then have "r' = r1" using assms(2) p a by (simp add: http_bind_def ticket_def [symmetric])
    then show ?thesis using refused_step [OF assms(1) a] by simp
  next
    case (Inr claims)
    then have "bind_session r1 w (new_poll_session cfg w token now p) = (r', rr_next r1)"
      using assms(2) p a by (auto simp: http_bind_def ticket_def [symmetric] bind_session_def)
    moreover have "rs_worker_id (new_poll_session cfg w token now p) = w" by (simp add: new_poll_session_def)
    ultimately show ?thesis using admitted_step(1,2) [OF assms(1) a [unfolded Inr]] by blast
  qed
qed

lemma relay_step_safe: "relay_step cfg now wall r r' \<Longrightarrow> registry_ok n r \<Longrightarrow> registry_ok n r' \<and> safe_step cfg now wall r r'"
proof (induction rule: relay_step.induct)
  case (step_connection source drained stream)
  have "fst (tcp_connection cfg r now wall source drained stream) = r \<or>
    (\<exists>payload. fst (tcp_connection cfg r now wall source drained stream) = fst (tcp_bind cfg r now wall source drained payload))"
    by (auto simp: tcp_connection_def split: option.split sum.split prod.split) (metis fst_conv)
  then show ?case using tcp_bind_step [OF step_connection] same_sessions_safe step_connection by (metis prod.collapse)
next
  case (step_http_bind source token body)
  then show ?case using http_bind_step by (metis prod.collapse)
next
  case (step_stream_begin k s call_id job)
  then have "unbinding r (update_session r k (fst (forward_stream_begin cfg s call_id job)))" by auto
  then show ?case using unbinding_ok unbinding_safe step_stream_begin by blast
next
  case (step_stream_take k s call_id)
  then have "unbinding r (update_session r k (fst (forward_stream_take s call_id)))" by auto
  then show ?case using unbinding_ok unbinding_safe step_stream_take by blast
qed (auto intro: unbinding_ok [of r] unbinding_safe unbinding_frame unbinding_session_end unbinding_http)

lemma relay_reachable_ok: "relay_reachable cfg n r \<Longrightarrow> registry_ok n r"
  by (induction rule: relay_reachable.induct) (auto simp: registry_ok_def new_relay_registry_def dest: relay_step_safe)

subsection \<open>Facts: streams\<close>

text \<open>A stream between worker and consumer: the worker's events arrive, the consumer takes items, in any order. The log has the events
  taken so far; the stream ends with the final event or with a failure.\<close>

datatype stream_phase = Streaming | Finished | Broken string

inductive stream_run :: "stream_entry \<Rightarrow> stream_entry \<Rightarrow> pydict list \<Rightarrow> stream_phase \<Rightarrow> bool" for e0 where
  stream_start: "stream_run e0 e0 [] Streaming"
| stream_put: "stream_run e0 e evs Streaming \<Longrightarrow> stream_run e0 (fst (put_event e event)) evs Streaming"
| stream_take: "stream_run e0 e evs Streaming \<Longrightarrow> take_event e = (e', Yield ev fin) \<Longrightarrow>
    stream_run e0 e' (evs @ [ev]) (if fin then Finished else Streaming)"
| stream_raise: "stream_run e0 e evs Streaming \<Longrightarrow> take_event e = (e', Raise code) \<Longrightarrow> stream_run e0 e' evs (Broken code)"

lemma accept_all_append: "accept_all s (xs @ ys) = bind_result (accept_all s xs) (\<lambda>s'. accept_all s' ys)"
  by (induction s xs rule: accept_all.induct) (auto split: prod.split sum.split)

definition queued :: "stream_item list \<Rightarrow> pydict list \<Rightarrow> bool" where
  "queued q evs \<longleftrightarrow> q = map Event evs \<or> (\<exists>code q'. q = Failure code # q')"

definition stream_inv :: "stream_entry \<Rightarrow> stream_entry \<Rightarrow> pydict list \<Rightarrow> bool" where
  "stream_inv e0 e evs \<longleftrightarrow> length (se_queue e) \<le> STREAM_QUEUE \<and>
     (\<exists>waiting. accept_all (se_sequence e0) (evs @ waiting) = Inr (se_sequence e) \<and> queued (se_queue e) waiting)"

lemma put_event_inv: "stream_inv e0 e evs \<Longrightarrow> stream_inv e0 (fst (put_event e event)) evs"
proof -
  assume "stream_inv e0 e evs"
  then obtain waiting where inv: "length (se_queue e) \<le> STREAM_QUEUE" "accept_all (se_sequence e0) (evs @ waiting) = Inr (se_sequence e)"
    "queued (se_queue e) waiting" by (auto simp: stream_inv_def)
  obtain sq out where acc: "seq_accept (se_sequence e) event = (sq, out)" by fastforce
  have more: "accept_all (se_sequence e0) (evs @ waiting @ [event]) = Inr sq" if "out = Inr ()"
    using inv(2) acc that by (simp add: accept_all_append [of _ "evs @ waiting", simplified])
  show ?thesis
  proof (cases out)
    case (Inl err)
    then show ?thesis using inv acc by (cases err) (auto simp: put_event_def stream_inv_def queued_def STREAM_QUEUE_def)
  next
    case (Inr u)
    have "queued (se_queue e @ [Event event]) (waiting @ [event])" using inv(3) by (auto simp: queued_def)
    then show ?thesis
      using inv acc Inr more by (auto simp: put_event_def stream_inv_def queued_def STREAM_QUEUE_def)
  qed
qed

lemma take_event_inv:
  assumes "stream_inv e0 e evs" "take_event e = (e', Yield ev fin)"
  shows "stream_inv e0 e' (evs @ [ev])" "fin = truthy (sget ev ''is_final'')"
  using assms by (auto simp: take_event_def stream_inv_def queued_def split: list.splits stream_item.splits)

lemma stream_run_inv: "stream_run e0 e evs ph \<Longrightarrow> se_queue e0 = [] \<Longrightarrow>
  length (se_queue e) \<le> STREAM_QUEUE \<and> (ph = Streaming \<longrightarrow> stream_inv e0 e evs) \<and>
  (\<exists>s. accept_all (se_sequence e0) evs = Inr s) \<and>
  (ph = Finished \<longrightarrow> (\<exists>pre ev. evs = pre @ [ev] \<and> truthy (sget ev ''is_final'')))"
proof (induction rule: stream_run.induct)
  case (stream_put e evs event)
  then show ?case using put_event_inv [of e0 e evs event] by (auto simp: stream_inv_def)
next
  case (stream_take e evs e' ev fin)
  then have inv: "stream_inv e0 e' (evs @ [ev])" "fin = truthy (sget ev ''is_final'')" using take_event_inv by blast+
  then obtain w where w: "accept_all (se_sequence e0) ((evs @ [ev]) @ w) = Inr (se_sequence e')" unfolding stream_inv_def by blast
  have "\<exists>s. accept_all (se_sequence e0) (evs @ [ev]) = Inr s"
    using w unfolding accept_all_append [of _ "evs @ [ev]"] by (cases "accept_all (se_sequence e0) (evs @ [ev])") auto
  then show ?case using inv by (auto simp: stream_inv_def)
next
  case (stream_raise e evs e' code)
  then show ?case by (auto simp: take_event_def split: list.splits stream_item.splits)
qed (simp_all add: stream_inv_def queued_def STREAM_QUEUE_def)

lemma accepted_final:
  assumes "accept_all s (pre @ [ev]) = Inr s'" "truthy (sget ev ''is_final'')"
  shows "seq_finish s' = Inr ()"
proof -
  obtain s1 where s1: "accept_all s1 [ev] = Inr s'"
    using assms(1) unfolding accept_all_append by (cases "accept_all s pre") auto
  then show ?thesis using assms(2) by (cases "check_frame s1 ev") (auto simp: seq_accept_def seq_finish_def)
qed

subsection \<open>Properties\<close>


definition open_relay :: relay_config where
  "open_relay = \<lparr>rc_checks = \<lparr>tk_verify = (\<lambda>_ _ _. False), tk_payload = (\<lambda>_. None), tk_int = (\<lambda>_. None)\<rparr>, rc_text = (\<lambda>_. []), rc_public_key = [],
     rc_require_ticket = False, rc_audience = ''*'', rc_http_port = 9484, rc_dumps = (\<lambda>_. []), rc_loads = (\<lambda>_. None), rc_json_bytes = (\<lambda>_. []),
     rc_json_loads = (\<lambda>_. None)\<rparr>"


text \<open>C14: A relayed stream keeps the native response contract. Whatever events the worker sends, in whatever order they meet the
  consumer's reads: what the consumer has been given is a sequence the response validator accepts from its start, it is
  complete when the stream finishes, and the queue between them never holds more than 32 items.\<close>

theorem relay_stream_sound:
  assumes "stream_run (new_stream sid cid tid) e evs phase"
  shows "length (se_queue e) \<le> 32 \<and>
    (\<exists>s. accept_all (new_sequence sid cid tid) evs = Inr s \<and> (phase = Finished \<longrightarrow> seq_finish s = Inr ()))"
proof -
  have "se_queue (new_stream sid cid tid) = []" "se_sequence (new_stream sid cid tid) = new_sequence sid cid tid"
    by (simp_all add: new_stream_def)
  with stream_run_inv [OF assms] obtain s where "length (se_queue e) \<le> 32" "accept_all (new_sequence sid cid tid) evs = Inr s"
    "phase = Finished \<longrightarrow> (\<exists>pre ev. evs = pre @ [ev] \<and> truthy (sget ev ''is_final''))"
    by (auto simp: STREAM_QUEUE_def)
  then show ?thesis using accepted_final by blast
qed

theorem relay_stream_sound_witness:
  "\<exists>e. stream_run (new_stream ''s'' ''c'' ''t'') e [sample_response ''success'' 0 ''completed'' True] Finished \<and> length (se_queue e) \<le> 32"
proof -
  let ?ev = "sample_response ''success'' 0 ''completed'' True"
  let ?e = "fst (put_event (new_stream ''s'' ''c'' ''t'') ?ev)"
  have "check_frame (new_sequence ''s'' ''c'' ''t'') ?ev = Inr True" by code_simp
  then have q: "se_queue ?e = [Event ?ev]" by (simp add: put_event_def new_stream_def seq_accept_def STREAM_QUEUE_def)
  have fin: "sget ?ev ''is_final'' = PBool True" by (simp add: sample_response_def)
  have "stream_run (new_stream ''s'' ''c'' ''t'') ?e [] Streaming" by (rule stream_put [OF stream_start])
  from stream_take [OF this, of "?e\<lparr>se_queue := []\<rparr>" ?ev True]
  have run: "stream_run (new_stream ''s'' ''c'' ''t'') (?e\<lparr>se_queue := []\<rparr>) [?ev] Finished"
    by (simp add: take_event_def q fin)
  then show ?thesis using relay_stream_sound [OF run] by blast
qed

end
