(* ===== verification/Effective_Capability.thy ===== *)
theory Effective_Capability
  imports Py_Value
begin

text \<open>
  Capability advertisements and their matching (\<open>effective_capability.py\<close>): the typed variant, parsing of one variant and of an
  advertisement, the projection back to a document, precedence of evidence, and the classification of a request
  against complete variants. The parameter is \<open>datetime.fromisoformat\<close>: the moment of a text, and whether it has
  a zone.
\<close>

subsection \<open>Data\<close>

record capability_limit =
  cl_value :: real
  cl_unit :: string

record claim_provenance =
  cp_source :: string
  cp_observed_at :: "string option"
  cp_valid_until :: "string option"
  cp_evidence_ref :: pyval

record capability_extension =
  ce_required :: bool
  ce_value :: pyval

record effective_capability =
  ec_intent :: string
  ec_version :: pyval
  ec_phase :: "int option"
  ec_variant_id :: pyval
  ec_models :: "string list"
  ec_max_tokens :: "int option"
  ec_input_modalities :: "string list"
  ec_output_modalities :: "string list"
  ec_features :: "string list"
  ec_execution_capabilities :: "string list"
  ec_limits :: "(string \<times> capability_limit) list"
  ec_supported_profiles :: "string list"
  ec_claim_provenance :: "claim_provenance option"
  ec_extensions :: "(pyval \<times> capability_extension) list"

record capability_requirement =
  cq_class :: string
  cq_identifier :: string

record limit_requirement =
  lq_identifier :: string
  lq_operator :: string
  lq_value :: real
  lq_unit :: string

record capability_requirements =
  qr_intent :: string
  qr_requires :: "capability_requirement list"
  qr_prefers :: "capability_requirement list"
  qr_limits :: "limit_requirement list"

record capability_match =
  cm_eligible :: bool
  cm_variant_ids :: "pyval list"
  cm_preference_unavailable :: bool
  cm_refusal :: "string option"
  cm_preserved_extensions :: "string list"

subsection \<open>Parsing\<close>

type_synonym iso_time = "string \<Rightarrow> (time \<times> bool) option"

definition parse_time :: "iso_time \<Rightarrow> string \<Rightarrow> py_error + time" where
  "parse_time isof value =
     (case isof (if ends_with value ''Z'' then butlast value @ ''+00:00'' else value) of
        None \<Rightarrow> Inl (ValueError ''isoformat'')
      | Some (t, zoned) \<Rightarrow> if zoned then Inr t else Inl (ValueError ''capability timestamps must include a timezone''))"

fun texts_of :: "pyval list \<Rightarrow> string list option" where
  "texts_of [] = Some []"
| "texts_of (PStr s # vs) = (if s = [] then None else map_option (Cons s) (texts_of vs))"
| "texts_of (_ # vs) = None"

definition string_tuple :: "pyval \<Rightarrow> py_error + string list" where
  "string_tuple value =
     (case value of
        PNone \<Rightarrow> Inr []
      | PList vs \<Rightarrow>
          (case texts_of vs of
             None \<Rightarrow> Inl (ValueError ''must be an array of non-empty strings'')
           | Some ss \<Rightarrow> if distinct ss then Inr ss else Inl (ValueError ''must not contain duplicates''))
      | _ \<Rightarrow> Inl (ValueError ''must be an array of non-empty strings''))"

definition exact_keys :: "pydict \<Rightarrow> string list \<Rightarrow> bool" where
  "exact_keys d ss \<longleftrightarrow> keys_within d ss \<and> list_all (\<lambda>k. py_find d (PStr k) \<noteq> None) ss"

definition CAPABILITY_FIELDS :: "string list" where
  "CAPABILITY_FIELDS = [''intent'', ''version'', ''phase'', ''variant_id'', ''models'', ''max_tokens'', ''input_modalities'', ''output_modalities'',
     ''features'', ''execution_capabilities'', ''limits'', ''supported_profiles'', ''claim_provenance'', ''extensions'']"

definition LIMIT_UNITS :: "string list" where
  "LIMIT_UNITS = [''tokens'', ''items'', ''bytes'', ''milliseconds'', ''dimensions'']"

definition CLAIM_SOURCES :: "string list" where
  "CLAIM_SOURCES = [''heuristic_fallback'', ''operator_assertion'', ''provider_metadata'', ''runtime_introspection'', ''conformance_probe'']"

fun number_value :: "pyval \<Rightarrow> real option" where
  "number_value (PInt i) = Some (of_int i)"
| "number_value (PFloat x) = Some x"
| "number_value _ = None"

definition parse_limit :: "pyval \<Rightarrow> pyval \<Rightarrow> py_error + string \<times> capability_limit" where
  "parse_limit identifier raw =
     (case (identifier, raw) of
        (PStr i, PDict d) \<Rightarrow>
          if \<not> exact_keys d [''value'', ''unit''] then Inl (ValueError ''each limit requires only value and unit'')
          else (case number_value (sget d ''value'') of
              None \<Rightarrow> Inl (ValueError ''limit value must be a non-negative number'')
            | Some x \<Rightarrow>
                if x < 0 then Inl (ValueError ''limit value must be a non-negative number'')
                else bind_result (in_set (sget d ''unit'') LIMIT_UNITS) (\<lambda>known.
                  if \<not> known then Inl (ValueError ''limit unit is unsupported'')
                  else Inr (i, \<lparr>cl_value = x, cl_unit = (case sget d ''unit'' of PStr u \<Rightarrow> u | _ \<Rightarrow> [])\<rparr>)))
      | _ \<Rightarrow> Inl (ValueError ''each limit must be a named object''))"

definition parse_extension :: "pyval \<Rightarrow> pyval \<Rightarrow> py_error + pyval \<times> capability_extension" where
  "parse_extension identifier raw =
     (case raw of
        PDict d \<Rightarrow>
          if \<not> exact_keys d [''required'', ''value''] then Inl (ValueError ''each extension requires only required and value'')
          else (case sget d ''required'' of
              PBool b \<Rightarrow> Inr (identifier, \<lparr>ce_required = b, ce_value = sget d ''value''\<rparr>)
            | _ \<Rightarrow> Inl (ValueError ''extension required must be boolean''))
      | _ \<Rightarrow> Inl (ValueError ''each extension requires only required and value''))"

definition parse_table :: "(pyval \<Rightarrow> pyval \<Rightarrow> py_error + 'a) \<Rightarrow> string \<Rightarrow> pyval \<Rightarrow> py_error + 'a list" where
  "parse_table f what v =
     (case v of PDict d \<Rightarrow> map_result (\<lambda>(k, x). f k x) d | _ \<Rightarrow> Inl (ValueError (what @ '' must be an object'')))"

definition optional_time :: "iso_time \<Rightarrow> pyval \<Rightarrow> py_error + string option" where
  "optional_time isof v =
     (case v of
        PNone \<Rightarrow> Inr None
      | PStr s \<Rightarrow> bind_result (parse_time isof s) (\<lambda>_. Inr (Some s))
      | _ \<Rightarrow> Inl (ValueError ''claim_provenance time must be a string''))"

definition parse_provenance :: "iso_time \<Rightarrow> pyval \<Rightarrow> py_error + claim_provenance option" where
  "parse_provenance isof v =
     (case v of
        PNone \<Rightarrow> Inr None
      | PDict d \<Rightarrow>
          bind_result (in_set (sget d ''source'') CLAIM_SOURCES) (\<lambda>known.
            if \<not> known then Inl (ValueError ''claim_provenance source is unsupported'')
            else bind_result (optional_time isof (sget d ''observed_at'')) (\<lambda>observed.
                 bind_result (optional_time isof (sget d ''valid_until'')) (\<lambda>valid.
                   Inr (Some \<lparr>cp_source = (case sget d ''source'' of PStr s \<Rightarrow> s | _ \<Rightarrow> []), cp_observed_at = observed,
                     cp_valid_until = valid, cp_evidence_ref = sget d ''evidence_ref''\<rparr>))))
      | _ \<Rightarrow> Inl (ValueError ''claim_provenance must be an object''))"

definition positive_int :: "pyval \<Rightarrow> py_error + int option" where
  "positive_int v =
     (case v of
        PNone \<Rightarrow> Inr None
      | PInt i \<Rightarrow> if i < 1 then Inl (ValueError ''must be a positive integer'') else Inr (Some i)
      | _ \<Rightarrow> Inl (ValueError ''must be a positive integer''))"

definition effective_capability_from_dict :: "iso_time \<Rightarrow> pydict \<Rightarrow> py_error + effective_capability" where
  "effective_capability_from_dict isof raw =
     (if \<not> keys_within raw CAPABILITY_FIELDS then Inl (ValueError ''unknown effective capability field'')
      else case sget raw ''intent'' of
          PStr intent \<Rightarrow>
            if intent = [] then Inl (ValueError ''intent is required'')
            else bind_result (parse_table parse_limit ''limits'' (get_or raw ''limits'' (PDict []))) (\<lambda>limits.
                 bind_result (parse_provenance isof (sget raw ''claim_provenance'')) (\<lambda>prov.
                 bind_result (parse_table parse_extension ''extensions'' (get_or raw ''extensions'' (PDict []))) (\<lambda>exts.
                 bind_result (positive_int (sget raw ''phase'')) (\<lambda>phase.
                 bind_result (positive_int (sget raw ''max_tokens'')) (\<lambda>max_tokens.
                 bind_result (string_tuple (sget raw ''models'')) (\<lambda>models.
                 bind_result (string_tuple (sget raw ''input_modalities'')) (\<lambda>inputs.
                 bind_result (string_tuple (sget raw ''output_modalities'')) (\<lambda>outputs.
                 bind_result (string_tuple (sget raw ''features'')) (\<lambda>features.
                 bind_result (string_tuple (sget raw ''execution_capabilities'')) (\<lambda>execs.
                 bind_result (string_tuple (sget raw ''supported_profiles'')) (\<lambda>profiles.
                   Inr \<lparr>ec_intent = intent, ec_version = sget raw ''version'', ec_phase = phase, ec_variant_id = sget raw ''variant_id'',
                     ec_models = models, ec_max_tokens = max_tokens, ec_input_modalities = inputs, ec_output_modalities = outputs,
                     ec_features = features, ec_execution_capabilities = execs, ec_limits = limits, ec_supported_profiles = profiles,
                     ec_claim_provenance = prov, ec_extensions = exts\<rparr>)))))))))))
        | _ \<Rightarrow> Inl (ValueError ''intent is required''))"

definition EFFECTIVE_CAPABILITY_SCHEMA_VERSION :: string where
  "EFFECTIVE_CAPABILITY_SCHEMA_VERSION = ''1.0.0''"

text \<open>A set of identities: two are the same when intent and variant are equal; a variant that cannot be hashed raises.\<close>

fun distinct_ids :: "(string \<times> pyval) list \<Rightarrow> bool" where
  "distinct_ids [] = True"
| "distinct_ids ((i, v) # xs) = (list_all (\<lambda>(i', v'). i' \<noteq> i \<or> \<not> py_eq v' v) xs \<and> distinct_ids xs)"

text \<open>An entry of the array that is no object fails with an exception of its own.\<close>

definition parse_variant :: "iso_time \<Rightarrow> pyval \<Rightarrow> py_error + effective_capability" where
  "parse_variant isof v = (case v of PDict d \<Rightarrow> effective_capability_from_dict isof d | _ \<Rightarrow> Inl TypeError)"

definition effective_capabilities_from_advertisement :: "iso_time \<Rightarrow> pydict \<Rightarrow> py_error + effective_capability list" where
  "effective_capabilities_from_advertisement isof raw =
     (if \<not> exact_keys raw [''schema_version'', ''capabilities''] then Inl (ValueError ''advertisement requires only schema_version and capabilities'')
      else if sget raw ''schema_version'' \<noteq> PStr EFFECTIVE_CAPABILITY_SCHEMA_VERSION
      then Inl (ValueError ''unsupported effective capability schema_version'')
      else case sget raw ''capabilities'' of
          PList vs \<Rightarrow>
            if vs = [] then Inl (ValueError ''capabilities must be a non-empty array'')
            else bind_result (map_result (parse_variant isof) vs) (\<lambda>parsed.
              if \<not> list_all (\<lambda>c. hashable (ec_variant_id c)) parsed then Inl TypeError
              else if distinct_ids (map (\<lambda>c. (ec_intent c, ec_variant_id c)) parsed) then Inr parsed
              else Inl (ValueError ''effective capability variants must be unique within an advertisement''))
        | _ \<Rightarrow> Inl (ValueError ''capabilities must be a non-empty array''))"

subsection \<open>Projection\<close>

definition list_field :: "string \<Rightarrow> string list \<Rightarrow> pydict" where
  "list_field k ss = (if ss = [] then [] else [(PStr k, PList (map PStr ss))])"

definition opt_int :: "int option \<Rightarrow> pyval" where
  "opt_int i = (case i of None \<Rightarrow> PNone | Some n \<Rightarrow> PInt n)"

definition opt_text :: "string option \<Rightarrow> pyval" where
  "opt_text s = (case s of None \<Rightarrow> PNone | Some t \<Rightarrow> PStr t)"

definition limit_dict :: "capability_limit \<Rightarrow> pyval" where
  "limit_dict l = PDict [(PStr ''value'', PFloat (cl_value l)), (PStr ''unit'', PStr (cl_unit l))]"

definition provenance_dict :: "claim_provenance \<Rightarrow> pyval" where
  "provenance_dict p = PDict ([(PStr ''source'', PStr (cp_source p))] @ given ''observed_at'' (opt_text (cp_observed_at p)) @
     given ''valid_until'' (opt_text (cp_valid_until p)) @ given ''evidence_ref'' (cp_evidence_ref p))"

definition extension_dict :: "capability_extension \<Rightarrow> pyval" where
  "extension_dict e = PDict [(PStr ''required'', PBool (ce_required e)), (PStr ''value'', ce_value e)]"

definition effective_capability_to_dict :: "effective_capability \<Rightarrow> pydict" where
  "effective_capability_to_dict c =
     [(PStr ''intent'', PStr (ec_intent c))] @ given ''version'' (ec_version c) @ given ''phase'' (opt_int (ec_phase c)) @
     given ''variant_id'' (ec_variant_id c) @ given ''max_tokens'' (opt_int (ec_max_tokens c)) @
     list_field ''models'' (ec_models c) @ list_field ''input_modalities'' (ec_input_modalities c) @
     list_field ''output_modalities'' (ec_output_modalities c) @ list_field ''features'' (ec_features c) @
     list_field ''execution_capabilities'' (ec_execution_capabilities c) @ list_field ''supported_profiles'' (ec_supported_profiles c) @
     (if ec_limits c = [] then [] else [(PStr ''limits'', PDict (map (\<lambda>(k, l). (PStr k, limit_dict l)) (ec_limits c)))]) @
     (case ec_claim_provenance c of None \<Rightarrow> [] | Some p \<Rightarrow> [(PStr ''claim_provenance'', provenance_dict p)]) @
     (if ec_extensions c = [] then [] else [(PStr ''extensions'', PDict (map (\<lambda>(k, e). (k, extension_dict e)) (ec_extensions c)))])"

definition resolve_effective_capabilities ::
  "effective_capability list \<Rightarrow> effective_capability list \<Rightarrow> effective_capability list \<Rightarrow> py_error + effective_capability list" where
  "resolve_effective_capabilities explicit introspected heuristic =
     (if explicit \<noteq> [] then Inr explicit
      else if introspected \<noteq> [] then Inr introspected
      else if list_ex (\<lambda>c. case ec_claim_provenance c of None \<Rightarrow> True | Some p \<Rightarrow> cp_source p \<noteq> ''heuristic_fallback'') heuristic
      then Inl (ValueError ''heuristic capability evidence must be labelled heuristic_fallback'')
      else Inr heuristic)"

subsection \<open>Matching\<close>

definition class_values :: "effective_capability \<Rightarrow> string \<Rightarrow> string list option" where
  "class_values c cls =
     map_of [(''input_modality'', ec_input_modalities c), (''output_modality'', ec_output_modalities c), (''feature'', ec_features c),
       (''execution_capability'', ec_execution_capabilities c), (''profile'', ec_supported_profiles c)] cls"

definition offers :: "effective_capability \<Rightarrow> capability_requirement \<Rightarrow> bool" where
  "offers c q = (case class_values c (cq_class q) of None \<Rightarrow> False | Some vs \<Rightarrow> cq_identifier q \<in> set vs)"

definition in_vocabulary :: "(string \<times> string list) list \<Rightarrow> capability_requirement \<Rightarrow> bool" where
  "in_vocabulary vocabulary q = (case map_of vocabulary (cq_class q) of None \<Rightarrow> False | Some vs \<Rightarrow> cq_identifier q \<in> set vs)"

definition refusal :: "string \<Rightarrow> capability_match" where
  "refusal code = \<lparr>cm_eligible = False, cm_variant_ids = [], cm_preference_unavailable = False, cm_refusal = Some code, cm_preserved_extensions = []\<rparr>"

fun required_refusal :: "(string \<times> string list) list \<Rightarrow> capability_requirement list \<Rightarrow> capability_requirement list \<Rightarrow> string option" where
  "required_refusal vocabulary denied [] = None"
| "required_refusal vocabulary denied (q # qs) =
     (if \<not> in_vocabulary vocabulary q then Some ''required_capability_unknown''
      else if q \<in> set denied then Some ''capability_policy_denied''
      else required_refusal vocabulary denied qs)"

definition still_valid :: "iso_time \<Rightarrow> time \<Rightarrow> effective_capability \<Rightarrow> py_error + bool" where
  "still_valid isof now c =
     (case ec_claim_provenance c of
        None \<Rightarrow> Inr True
      | Some p \<Rightarrow>
          (case cp_valid_until p of None \<Rightarrow> Inr True | Some t \<Rightarrow> bind_result (parse_time isof t) (\<lambda>u. Inr (u \<ge> now))))"

fun keep_valid :: "iso_time \<Rightarrow> time \<Rightarrow> effective_capability list \<Rightarrow> py_error + effective_capability list" where
  "keep_valid isof now [] = Inr []"
| "keep_valid isof now (c # cs) =
     bind_result (still_valid isof now c) (\<lambda>ok. bind_result (keep_valid isof now cs) (\<lambda>rest. Inr (if ok then c # rest else rest)))"

definition meets_limit :: "effective_capability \<Rightarrow> limit_requirement \<Rightarrow> bool" where
  "meets_limit c q =
     (case map_of (ec_limits c) (lq_identifier q) of
        None \<Rightarrow> False
      | Some l \<Rightarrow> cl_unit l = lq_unit q \<and>
          (lq_operator q = ''gte'' \<and> cl_value l \<ge> lq_value q \<or> lq_operator q = ''lte'' \<and> cl_value l \<le> lq_value q \<or>
           lq_operator q = ''eq'' \<and> cl_value l = lq_value q))"

text \<open>\<open>sorted({...})\<close> over the extension names; names that are not all text cannot be ordered.\<close>

definition extension_names :: "effective_capability list \<Rightarrow> py_error + string list" where
  "extension_names cs =
     (let names = concat (map (\<lambda>c. map fst (ec_extensions c)) cs)
      in if list_all is_str names then Inr (sort (remdups (map (\<lambda>v. case v of PStr s \<Rightarrow> s | _ \<Rightarrow> []) names))) else Inl TypeError)"

definition match_effective_capabilities ::
  "iso_time \<Rightarrow> effective_capability list \<Rightarrow> capability_requirements \<Rightarrow> (string \<times> string list) list \<Rightarrow> time \<Rightarrow> capability_requirement list \<Rightarrow>
   py_error + capability_match" where
  "match_effective_capabilities isof capabilities request vocabulary now denied =
     (case required_refusal vocabulary denied (qr_requires request) of
        Some code \<Rightarrow> Inr (refusal code)
      | None \<Rightarrow>
          let candidates = filter (\<lambda>c. ec_intent c = qr_intent request \<and> list_all (offers c) (qr_requires request)) capabilities
          in if candidates = [] then Inr (refusal ''required_capability_unsupported'')
             else bind_result (keep_valid isof now candidates) (\<lambda>fresh.
               if fresh = [] then Inr (refusal ''required_capability_stale'')
               else let matching = filter (\<lambda>c. list_all (meets_limit c) (qr_limits request)) fresh
                 in if matching = [] then Inr (refusal ''capability_limit_unsatisfied'')
                    else bind_result (extension_names matching) (\<lambda>names.
                      Inr \<lparr>cm_eligible = True, cm_variant_ids = map ec_variant_id matching,
                        cm_preference_unavailable = list_ex (\<lambda>q. \<not> in_vocabulary vocabulary q \<or> \<not> list_ex (\<lambda>c. offers c q) matching) (qr_prefers request),
                        cm_refusal = None, cm_preserved_extensions = names\<rparr>)))"

subsection \<open>Facts: parsing\<close>

definition names_ok :: "string list \<Rightarrow> bool" where
  "names_ok ss \<longleftrightarrow> distinct ss \<and> [] \<notin> set ss"

definition time_ok :: "iso_time \<Rightarrow> string option \<Rightarrow> bool" where
  "time_ok isof t \<longleftrightarrow> (case t of None \<Rightarrow> True | Some s \<Rightarrow> is_ok (parse_time isof s))"

definition positive :: "int option \<Rightarrow> bool" where
  "positive i \<longleftrightarrow> (case i of None \<Rightarrow> True | Some n \<Rightarrow> 1 \<le> n)"

definition provenance_ok :: "iso_time \<Rightarrow> claim_provenance \<Rightarrow> bool" where
  "provenance_ok isof p \<longleftrightarrow> cp_source p \<in> set CLAIM_SOURCES \<and> time_ok isof (cp_observed_at p) \<and> time_ok isof (cp_valid_until p)"

definition capability_ok :: "iso_time \<Rightarrow> effective_capability \<Rightarrow> bool" where
  "capability_ok isof c \<longleftrightarrow> ec_intent c \<noteq> [] \<and> positive (ec_phase c) \<and> positive (ec_max_tokens c) \<and>
     names_ok (ec_models c) \<and> names_ok (ec_input_modalities c) \<and> names_ok (ec_output_modalities c) \<and> names_ok (ec_features c) \<and>
     names_ok (ec_execution_capabilities c) \<and> names_ok (ec_supported_profiles c) \<and>
     (\<forall>(_, l) \<in> set (ec_limits c). 0 \<le> cl_value l \<and> cl_unit l \<in> set LIMIT_UNITS) \<and>
     (case ec_claim_provenance c of None \<Rightarrow> True | Some p \<Rightarrow> provenance_ok isof p)"

lemma texts_of_map: "[] \<notin> set ss \<Longrightarrow> texts_of (map PStr ss) = Some ss"
  by (induction ss) auto

lemma texts_of_Some: "texts_of vs = Some ss \<Longrightarrow> vs = map PStr ss \<and> [] \<notin> set ss"
proof (induction vs arbitrary: ss)
  case (Cons v vs)
  then show ?case by (cases v) (auto split: if_splits)
qed simp

lemma string_tuple_ok: "string_tuple v = Inr ss \<longleftrightarrow> names_ok ss \<and> (v = PNone \<and> ss = [] \<or> v = PList (map PStr ss))"
proof
  assume "string_tuple v = Inr ss"
  then show "names_ok ss \<and> (v = PNone \<and> ss = [] \<or> v = PList (map PStr ss))"
    by (cases v) (auto simp: string_tuple_def names_ok_def dest: texts_of_Some split: option.splits if_splits)
next
  assume "names_ok ss \<and> (v = PNone \<and> ss = [] \<or> v = PList (map PStr ss))"
  then show "string_tuple v = Inr ss" by (auto simp: string_tuple_def names_ok_def texts_of_map)
qed

lemma positive_int_ok: "positive_int v = Inr i \<longleftrightarrow> positive i \<and> v = opt_int i"
  by (auto simp: positive_int_def positive_def opt_int_def split: pyval.splits if_splits option.splits)

lemma parse_limit_ok: "parse_limit k v = Inr (i, l) \<Longrightarrow> 0 \<le> cl_value l \<and> cl_unit l \<in> set LIMIT_UNITS"
  by (auto simp: parse_limit_def bind_result_Inr_iff in_set_Inr in_strs_iff split: pyval.splits option.splits if_splits)

lemma optional_time_ok: "optional_time isof v = Inr t \<longleftrightarrow> time_ok isof t \<and> v = opt_text t"
  by (auto simp: optional_time_def time_ok_def opt_text_def bind_result_Inr_iff is_ok_def split: pyval.splits option.splits sum.splits)

lemma parse_provenance_ok: "parse_provenance isof v = Inr (Some p) \<Longrightarrow> provenance_ok isof p"
  by (auto simp: parse_provenance_def provenance_ok_def bind_result_Inr_iff in_set_Inr in_strs_iff optional_time_ok split: pyval.splits if_splits)

lemma map_result_in: "map_result f xs = Inr ys \<Longrightarrow> y \<in> set ys \<Longrightarrow> \<exists>x \<in> set xs. f x = Inr y"
  by (induction xs arbitrary: ys) (auto split: sum.splits)

lemma parse_limits_ok:
  "parse_table parse_limit w v = Inr ls \<Longrightarrow> \<forall>(_, l) \<in> set ls. 0 \<le> cl_value l \<and> cl_unit l \<in> set LIMIT_UNITS"
  by (cases v) (auto simp: parse_table_def dest!: map_result_in parse_limit_ok)

lemma parsed_fields: "string_tuple v = Inr ss \<Longrightarrow> names_ok ss" "positive_int v = Inr n \<Longrightarrow> positive n"
  by (simp_all add: string_tuple_ok positive_int_ok)

lemma from_dict_ok:
  assumes "effective_capability_from_dict isof raw = Inr c"
  shows "capability_ok isof c"
proof (cases "sget raw ''intent''")
  case (PStr intent)
  from assms obtain limits prov exts phase max_tokens models inputs outputs features execs profiles where parts:
    "intent \<noteq> []" "parse_table parse_limit ''limits'' (get_or raw ''limits'' (PDict [])) = Inr limits"
    "parse_provenance isof (sget raw ''claim_provenance'') = Inr prov"
    "positive_int (sget raw ''phase'') = Inr phase" "positive_int (sget raw ''max_tokens'') = Inr max_tokens"
    "string_tuple (sget raw ''models'') = Inr models" "string_tuple (sget raw ''input_modalities'') = Inr inputs"
    "string_tuple (sget raw ''output_modalities'') = Inr outputs" "string_tuple (sget raw ''features'') = Inr features"
    "string_tuple (sget raw ''execution_capabilities'') = Inr execs" "string_tuple (sget raw ''supported_profiles'') = Inr profiles"
    and c: "c = \<lparr>ec_intent = intent, ec_version = sget raw ''version'', ec_phase = phase, ec_variant_id = sget raw ''variant_id'',
       ec_models = models, ec_max_tokens = max_tokens, ec_input_modalities = inputs, ec_output_modalities = outputs,
       ec_features = features, ec_execution_capabilities = execs, ec_limits = limits, ec_supported_profiles = profiles,
       ec_claim_provenance = prov, ec_extensions = exts\<rparr>"
    unfolding effective_capability_from_dict_def PStr pyval.case bind_result_Inr_iff by (clarsimp split: if_split_asm simp: bind_result_Inr_iff)
  have "case prov of None \<Rightarrow> True | Some p \<Rightarrow> provenance_ok isof p"
    using parts(3) parse_provenance_ok by (cases prov) auto
  then show ?thesis
    using parts(1) parse_limits_ok [OF parts(2)] parts(4,5) [THEN parsed_fields(2)] parts(6-11) [THEN parsed_fields(1)]
    unfolding capability_ok_def c by simp
qed (use assms in \<open>simp_all add: effective_capability_from_dict_def split: if_splits\<close>)

subsection \<open>Facts: projection\<close>

lemma field_find [simp]:
  "py_find (list_field k ss) (PStr k') = (if k = k' \<and> ss \<noteq> [] then Some (PList (map PStr ss)) else None)"
  by (simp add: list_field_def)

lemma keys_within_append [simp]: "keys_within (d @ e) ss \<longleftrightarrow> keys_within d ss \<and> keys_within e ss"
  by (simp add: keys_within_def)

lemma keys_within_Cons [simp]: "keys_within [] ss" "keys_within ((PStr k, v) # d) ss \<longleftrightarrow> k \<in> set ss \<and> keys_within d ss"
  by (simp_all add: keys_within_def in_strs_def)

lemma keys_within_fields [simp]:
  "k \<in> set ss \<Longrightarrow> keys_within (given k v) ss" "k \<in> set ss \<Longrightarrow> keys_within (list_field k xs) ss"
  by (simp_all add: given_def list_field_def)

lemma to_dict_keys: "keys_within (effective_capability_to_dict c) CAPABILITY_FIELDS"
  unfolding effective_capability_to_dict_def
  by (simp add: CAPABILITY_FIELDS_def split: option.split)

lemma to_dict_fields:
  "sget (effective_capability_to_dict c) ''intent'' = PStr (ec_intent c)" "sget (effective_capability_to_dict c) ''version'' = ec_version c"
  "sget (effective_capability_to_dict c) ''phase'' = opt_int (ec_phase c)" "sget (effective_capability_to_dict c) ''variant_id'' = ec_variant_id c"
  "sget (effective_capability_to_dict c) ''max_tokens'' = opt_int (ec_max_tokens c)"
  by (simp_all add: effective_capability_to_dict_def sget_def get_or_def py_find_append split: option.split)

lemma to_dict_lists:
  "names_ok (ec_models c) \<Longrightarrow> string_tuple (sget (effective_capability_to_dict c) ''models'') = Inr (ec_models c)"
  "names_ok (ec_input_modalities c) \<Longrightarrow> string_tuple (sget (effective_capability_to_dict c) ''input_modalities'') = Inr (ec_input_modalities c)"
  "names_ok (ec_output_modalities c) \<Longrightarrow> string_tuple (sget (effective_capability_to_dict c) ''output_modalities'') = Inr (ec_output_modalities c)"
  "names_ok (ec_features c) \<Longrightarrow> string_tuple (sget (effective_capability_to_dict c) ''features'') = Inr (ec_features c)"
  "names_ok (ec_execution_capabilities c) \<Longrightarrow>
     string_tuple (sget (effective_capability_to_dict c) ''execution_capabilities'') = Inr (ec_execution_capabilities c)"
  "names_ok (ec_supported_profiles c) \<Longrightarrow> string_tuple (sget (effective_capability_to_dict c) ''supported_profiles'') = Inr (ec_supported_profiles c)"
  by (simp_all add: string_tuple_ok effective_capability_to_dict_def sget_def get_or_def py_find_append split: option.split)

lemma to_dict_tables:
  "get_or (effective_capability_to_dict c) ''limits'' (PDict []) = PDict (map (\<lambda>(k, l). (PStr k, limit_dict l)) (ec_limits c))"
  "sget (effective_capability_to_dict c) ''claim_provenance'' = (case ec_claim_provenance c of None \<Rightarrow> PNone | Some p \<Rightarrow> provenance_dict p)"
  "get_or (effective_capability_to_dict c) ''extensions'' (PDict []) = PDict (map (\<lambda>(k, e). (k, extension_dict e)) (ec_extensions c))"
  by (simp_all add: effective_capability_to_dict_def sget_def get_or_def py_find_append split: option.split)

lemma limit_roundtrip:
  "0 \<le> cl_value l \<Longrightarrow> cl_unit l \<in> set LIMIT_UNITS \<Longrightarrow> parse_limit (PStr k) (limit_dict l) = Inr (k, l)"
  by (simp add: parse_limit_def limit_dict_def exact_keys_def keys_within_def in_strs_def in_set_def)

lemma extension_roundtrip: "parse_extension k (extension_dict e) = Inr (k, e)"
  by (simp add: parse_extension_def extension_dict_def exact_keys_def keys_within_def in_strs_def)

lemma provenance_roundtrip: "provenance_ok isof p \<Longrightarrow> parse_provenance isof (provenance_dict p) = Inr (Some p)"
proof -
  assume ok: "provenance_ok isof p"
  define d where "d = [(PStr ''source'', PStr (cp_source p))] @ given ''observed_at'' (opt_text (cp_observed_at p)) @
     given ''valid_until'' (opt_text (cp_valid_until p)) @ given ''evidence_ref'' (cp_evidence_ref p)"
  have f: "sget d ''source'' = PStr (cp_source p)" "sget d ''observed_at'' = opt_text (cp_observed_at p)"
    "sget d ''valid_until'' = opt_text (cp_valid_until p)" "sget d ''evidence_ref'' = cp_evidence_ref p"
    by (simp_all add: d_def sget_def get_or_def py_find_append)
  have "optional_time isof (opt_text (cp_observed_at p)) = Inr (cp_observed_at p)" "optional_time isof (opt_text (cp_valid_until p)) = Inr (cp_valid_until p)"
    using ok by (simp_all add: optional_time_ok provenance_ok_def)
  then show ?thesis
    unfolding provenance_dict_def d_def [symmetric] parse_provenance_def pyval.case f
    using ok by (simp add: in_set_def in_strs_def provenance_ok_def)
qed

lemma map_result_map_Inr: "(\<And>x. x \<in> set xs \<Longrightarrow> f (g x) = Inr x) \<Longrightarrow> map_result f (map g xs) = Inr xs"
  by (induction xs) auto

lemma tables_roundtrip:
  "capability_ok isof c \<Longrightarrow> parse_table parse_limit w (PDict (map (\<lambda>(k, l). (PStr k, limit_dict l)) (ec_limits c))) = Inr (ec_limits c)"
  "parse_table parse_extension w (PDict (map (\<lambda>(k, e). (k, extension_dict e)) (ec_extensions c))) = Inr (ec_extensions c)"
  unfolding parse_table_def pyval.case
  by (rule map_result_map_Inr; auto simp: capability_ok_def limit_roundtrip extension_roundtrip)+

lemma to_dict_parses:
  assumes "capability_ok isof c"
  shows "effective_capability_from_dict isof (effective_capability_to_dict c) = Inr c"
proof -
  have prov: "parse_provenance isof (case ec_claim_provenance c of None \<Rightarrow> PNone | Some p \<Rightarrow> provenance_dict p) = Inr (ec_claim_provenance c)"
    using assms provenance_roundtrip by (cases "ec_claim_provenance c") (auto simp: capability_ok_def parse_provenance_def)
  have ints: "positive_int (opt_int (ec_phase c)) = Inr (ec_phase c)" "positive_int (opt_int (ec_max_tokens c)) = Inr (ec_max_tokens c)"
    using assms by (simp_all add: positive_int_ok capability_ok_def)
  show ?thesis
    using assms to_dict_lists [of c]
    by (simp add: effective_capability_from_dict_def to_dict_keys to_dict_fields to_dict_tables tables_roundtrip(1) [OF assms] tables_roundtrip(2)
        prov ints capability_ok_def)
qed

subsection \<open>Facts: matching\<close>

lemma required_refusal_None:
  "required_refusal vocabulary denied qs = None \<longleftrightarrow> (\<forall>q \<in> set qs. in_vocabulary vocabulary q \<and> q \<notin> set denied)"
  by (induction qs) auto

definition valid_at :: "iso_time \<Rightarrow> time \<Rightarrow> effective_capability \<Rightarrow> bool" where
  "valid_at isof now c \<longleftrightarrow> still_valid isof now c = Inr True"

lemma keep_valid_ok:
  "\<forall>c \<in> set cs. capability_ok isof c \<Longrightarrow> keep_valid isof now cs = Inr (filter (valid_at isof now) cs)"
proof (induction cs)
  case (Cons c cs)
  have "is_ok (still_valid isof now c)"
    using Cons.prems
    by (auto simp: still_valid_def capability_ok_def provenance_ok_def time_ok_def is_ok_def split: option.splits sum.splits)
  then show ?case using Cons by (cases "still_valid isof now c") (auto simp: valid_at_def)
qed simp

text \<open>What a request asks of one variant.\<close>

definition satisfies :: "iso_time \<Rightarrow> time \<Rightarrow> capability_requirements \<Rightarrow> effective_capability \<Rightarrow> bool" where
  "satisfies isof now request c \<longleftrightarrow> ec_intent c = qr_intent request \<and> (\<forall>q \<in> set (qr_requires request). offers c q) \<and>
     valid_at isof now c \<and> (\<forall>q \<in> set (qr_limits request). meets_limit c q)"

lemma matching_filter:
  "filter (\<lambda>c. list_all (meets_limit c) (qr_limits request)) (filter (valid_at isof now)
     (filter (\<lambda>c. ec_intent c = qr_intent request \<and> list_all (offers c) (qr_requires request)) cs)) =
   filter (satisfies isof now request) cs"
  by (induction cs) (auto simp: satisfies_def list_all_iff)

subsection \<open>Properties\<close>

text \<open>C40: Advertised capabilities have one meaning: every document the parser accepts gives a well-formed variant (text fields
  without blanks and duplicates, positive counts, limits that are not negative with a known unit, a known source, readable
  times), and the document written for a well-formed variant is accepted and gives that variant back.\<close>

theorem capability_roundtrip:
  "(effective_capability_from_dict isof raw = Inr c \<longrightarrow> capability_ok isof c) \<and>
   (capability_ok isof c' \<longrightarrow> effective_capability_from_dict isof (effective_capability_to_dict c') = Inr c')"
  using from_dict_ok to_dict_parses by blast

definition sample_capability :: effective_capability where
  "sample_capability = \<lparr>ec_intent = ''urn:x'', ec_version = PNone, ec_phase = Some 1, ec_variant_id = PStr ''v'', ec_models = [''m''], ec_max_tokens = None,
     ec_input_modalities = [''text'', ''image''], ec_output_modalities = [''text''], ec_features = [], ec_execution_capabilities = [],
     ec_limits = [(''context'', \<lparr>cl_value = 8192, cl_unit = ''tokens''\<rparr>)], ec_supported_profiles = [], ec_claim_provenance = None,
     ec_extensions = [(PStr ''x-y'', \<lparr>ce_required = False, ce_value = PInt 3\<rparr>)]\<rparr>"

theorem capability_roundtrip_witness:
  "\<exists>raw. effective_capability_from_dict (\<lambda>_. None) raw = Inr sample_capability \<and> capability_ok (\<lambda>_. None) sample_capability"
proof -
  have "capability_ok (\<lambda>_. None) sample_capability"
    by (simp add: capability_ok_def sample_capability_def positive_def names_ok_def LIMIT_UNITS_def)
  then show ?thesis using capability_roundtrip by blast
qed


definition sample_requirements :: capability_requirements where
  "sample_requirements = \<lparr>qr_intent = ''urn:x'', qr_requires = [\<lparr>cq_class = ''input_modality'', cq_identifier = ''image''\<rparr>], qr_prefers = [],
     qr_limits = [\<lparr>lq_identifier = ''context'', lq_operator = ''gte'', lq_value = 4096, lq_unit = ''tokens''\<rparr>]\<rparr>"


end
