(* ===== verification/Ticket_Trust.thy ===== *)
theory Ticket_Trust
  imports Confidentiality Client_Checks
begin

text \<open>
  The opt-in dispatch-ticket trust profile (\<open>dispatch_ticket_trust.py\<close>): trust bundles and their canonical bytes, the local
  bundle store with its high-water mark, lock and atomic replacement, the replay cache and the verification of a ticket.
  Parameters: JSON text, SHA-256, the Ed25519 check and \<open>str\<close> and \<open>int\<close> on unusual values. The store is modelled on a POSIX
  system; a file is seen through what \<open>lstat\<close> and \<open>read_bytes\<close> give.
\<close>

record trust_env =
  tv_dumps :: "pyval \<Rightarrow> py_error + octets"
  tv_loads :: "octets \<Rightarrow> py_error + pyval"
  tv_sha256 :: "octets \<Rightarrow> string"
  tv_ed25519 :: "octets \<Rightarrow> octets \<Rightarrow> octets \<Rightarrow> bool"
  tv_str :: "pyval \<Rightarrow> string"
  tv_int :: "string \<Rightarrow> int option"

subsection \<open>Python containers\<close>

text \<open>\<open>frozenset(v)\<close>, its elements in the order of their first occurrence.\<close>

fun py_remdups :: "pyval list \<Rightarrow> pyval list" where
  "py_remdups [] = []"
| "py_remdups (v # vs) = v # filter (\<lambda>w. \<not> py_eq w v) (py_remdups vs)"

definition frozenset_of :: "pyval \<Rightarrow> py_error + pyval list" where
  "frozenset_of v =
     (case py_elements v of
        None \<Rightarrow> Inl TypeError
      | Some vs \<Rightarrow> if list_all hashable vs then Inr (py_remdups vs) else Inl TypeError)"

definition in_frozenset :: "pyval \<Rightarrow> pyval list \<Rightarrow> py_error + bool" where
  "in_frozenset v vs = (if hashable v then Inr (list_ex (\<lambda>w. py_eq w v) vs) else Inl TypeError)"

text \<open>\<open>sorted(...)\<close>; elements of different types cannot be compared.\<close>

fun py_insort :: "pyval \<Rightarrow> pyval list \<Rightarrow> py_error + pyval list" where
  "py_insort x [] = Inr [x]"
| "py_insort x (y # ys) =
     bind_result (py_less y x) (\<lambda>lt. if lt then bind_result (py_insort x ys) (\<lambda>r. Inr (y # r)) else Inr (x # y # ys))"

fun py_sorted :: "pyval list \<Rightarrow> py_error + pyval list" where
  "py_sorted [] = Inr []"
| "py_sorted (x # xs) = bind_result (py_sorted xs) (py_insort x)"

subsection \<open>Bundles\<close>

definition TRUST_PROFILE :: string where "TRUST_PROFILE = ''dispatch_ticket_v2''"

definition DOMAIN :: octets where "DOMAIN = ''IICP-DISPATCH-TICKET-V2'' @ [CHR 0x00]"

record trust_key =
  ky_key_id :: string
  ky_public_key_b64url :: string
  ky_state :: string
  ky_valid_from :: int
  ky_valid_until :: int
  ky_allowed_profiles :: "pyval list"
  ky_issuers :: "pyval list"
  ky_audiences :: "pyval list"

record trust_bundle =
  tb_bundle_version :: int
  tb_keys :: "(string \<times> trust_key) list"
  tb_issuer :: pyval
  tb_valid_from :: pyval
  tb_valid_until :: pyval

definition KEY_STATES :: "string list" where
  "KEY_STATES = [''active'', ''retiring'', ''revoked'']"

text \<open>\<open>item[k]\<close> on a value: only a dictionary can be indexed by a text.\<close>

definition subscript :: "pyval \<Rightarrow> string \<Rightarrow> py_error + pyval" where
  "subscript v k = (case v of PDict d \<Rightarrow> index d k | _ \<Rightarrow> Inl TypeError)"

definition trust_key_from :: "trust_env \<Rightarrow> string \<Rightarrow> string \<Rightarrow> pydict \<Rightarrow> py_error + trust_key" where
  "trust_key_from te key_id state item =
     bind_result (index item ''public_key_b64url'') (\<lambda>public.
     bind_result (index item ''valid_from'') (\<lambda>vf. bind_result (int_value (tv_int te) vf) (\<lambda>valid_from.
     bind_result (index item ''valid_until'') (\<lambda>vu. bind_result (int_value (tv_int te) vu) (\<lambda>valid_until.
     bind_result (frozenset_of (get_or item ''allowed_profiles'' (PList [PStr TRUST_PROFILE]))) (\<lambda>profiles.
     bind_result (frozenset_of (get_or item ''issuers'' (PList []))) (\<lambda>issuers.
     bind_result (frozenset_of (get_or item ''audiences'' (PList []))) (\<lambda>audiences.
       Inr \<lparr>ky_key_id = key_id, ky_public_key_b64url = py_str (tv_str te) public, ky_state = state, ky_valid_from = valid_from,
         ky_valid_until = valid_until, ky_allowed_profiles = profiles, ky_issuers = issuers, ky_audiences = audiences\<rparr>))))))))"

fun trust_keys_from :: "trust_env \<Rightarrow> pyval list \<Rightarrow> (string \<times> trust_key) list \<Rightarrow> py_error + (string \<times> trust_key) list" where
  "trust_keys_from te [] keys = Inr keys"
| "trust_keys_from te (item # items) keys =
     bind_result (subscript item ''key_id'') (\<lambda>kid.
       let key_id = py_str (tv_str te) kid
       in if key_id \<in> fst ` set keys then Inl (ValueError ''duplicate trust key'')
          else bind_result (subscript item ''state'') (\<lambda>st.
            let state = py_str (tv_str te) st
            in if state \<notin> set KEY_STATES then Inl (ValueError ''invalid trust key state'')
               else bind_result (trust_key_from te key_id state (case item of PDict d \<Rightarrow> d | _ \<Rightarrow> [])) (\<lambda>k.
                 trust_keys_from te items (keys @ [(key_id, k)]))))"

definition trust_bundle_from_dict :: "trust_env \<Rightarrow> pyval \<Rightarrow> py_error + trust_bundle" where
  "trust_bundle_from_dict te data =
     (case data of
        PDict d \<Rightarrow>
          (case py_elements (get_or d ''keys'' (PList [])) of
             None \<Rightarrow> Inl TypeError
           | Some items \<Rightarrow>
               bind_result (trust_keys_from te items []) (\<lambda>keys.
               bind_result (index d ''bundle_version'') (\<lambda>v. bind_result (int_value (tv_int te) v) (\<lambda>version.
                 Inr \<lparr>tb_bundle_version = version, tb_keys = keys, tb_issuer = sget d ''issuer'', tb_valid_from = sget d ''valid_from'',
                   tb_valid_until = sget d ''valid_until''\<rparr>))))
      | _ \<Rightarrow> Inl AttributeError)"

definition key_entry :: "trust_key \<Rightarrow> py_error + pyval" where
  "key_entry k =
     bind_result (py_sorted (ky_allowed_profiles k)) (\<lambda>profiles.
     bind_result (py_sorted (ky_issuers k)) (\<lambda>issuers.
     bind_result (py_sorted (ky_audiences k)) (\<lambda>audiences.
       Inr (PDict [(PStr ''key_id'', PStr (ky_key_id k)), (PStr ''public_key_b64url'', PStr (ky_public_key_b64url k)), (PStr ''state'', PStr (ky_state k)),
         (PStr ''valid_from'', PInt (ky_valid_from k)), (PStr ''valid_until'', PInt (ky_valid_until k)),
         (PStr ''allowed_profiles'', PList profiles), (PStr ''issuers'', PList issuers), (PStr ''audiences'', PList audiences)]))))"

definition bundle_data :: "trust_bundle \<Rightarrow> py_error + pyval" where
  "bundle_data b =
     bind_result (map_result key_entry (sort_key ky_key_id (map snd (tb_keys b)))) (\<lambda>entries.
       Inr (PDict ([(PStr ''bundle_version'', PInt (tb_bundle_version b)), (PStr ''keys'', PList entries)] @ given ''issuer'' (tb_issuer b) @
         given ''valid_from'' (tb_valid_from b) @ given ''valid_until'' (tb_valid_until b))))"

definition canonical_trust_bundle :: "trust_env \<Rightarrow> trust_bundle \<Rightarrow> py_error + octets" where
  "canonical_trust_bundle te b = bind_result (bundle_data b) (tv_dumps te)"

subsection \<open>The local store\<close>

text \<open>\<open>base64.b64encode\<close> and \<open>base64.b64decode(..., validate=True)\<close>: the standard alphabet with padding.\<close>

definition std_char :: "char \<Rightarrow> char" where
  "std_char c = (if c = CHR ''-'' then CHR ''+'' else if c = CHR ''_'' then CHR ''/'' else c)"

definition b64encode :: "octets \<Rightarrow> string" where
  "b64encode bs =
     (let s = map std_char (b64url_encode bs)
      in s @ replicate ((4 - length s mod 4) mod 4) (CHR ''=''))"

definition b64decode :: "pyval \<Rightarrow> py_error + octets" where
  "b64decode v =
     (case v of
        PStr s \<Rightarrow>
          let body = takeWhile (\<lambda>c. c \<noteq> CHR ''='') s; pad = dropWhile (\<lambda>c. c \<noteq> CHR ''='') s
          in if length s mod 4 = 0 \<and> length pad \<le> 2 \<and> list_all (\<lambda>c. c = CHR ''='') pad \<and>
                list_all (\<lambda>c. b64_value c \<noteq> None \<and> c \<noteq> CHR ''-'' \<and> c \<noteq> CHR ''_'') body
             then (case a2b s 0 0 0 of None \<Rightarrow> Inl (ValueError ''padding'') | Some b \<Rightarrow> Inr b)
             else Inl (ValueError ''base64'')
      | PBytes _ \<Rightarrow> Inl (ValueError ''base64'')
      | _ \<Rightarrow> Inl TypeError)"

record trust_file =
  tf_regular :: bool
  tf_owner_only :: bool
  tf_bytes :: octets

record stored_bundle =
  sb_bundle :: trust_bundle
  sb_canonical :: octets
  sb_digest :: string
  sb_high_water :: int

datatype store_error = StoreError string | Corrupt string | Locked | Os_Error | Raised py_error

definition digest_of :: "trust_env \<Rightarrow> octets \<Rightarrow> string" where
  "digest_of te bs = ''sha256:'' @ tv_sha256 te bs"

definition STATE_LIMIT :: nat where "STATE_LIMIT = 4 * 1024 * 1024"

definition plain_int :: "pyval \<Rightarrow> int option" where
  "plain_int v = (case v of PInt i \<Rightarrow> Some i | _ \<Rightarrow> None)"

text \<open>The body of the \<open>try\<close>; what it raises.\<close>

definition check_state :: "trust_env \<Rightarrow> octets \<Rightarrow> trust_bundle \<Rightarrow> int option \<Rightarrow> int option \<Rightarrow> py_error + stored_bundle" where
  "check_state te canonical bundle hw sv =
     (case (hw, sv) of
        (Some high_water, Some stored_version) \<Rightarrow>
          if high_water < 0 \<or> tb_bundle_version bundle < 0 \<or> stored_version \<noteq> tb_bundle_version bundle \<or> high_water < tb_bundle_version bundle
          then Inl (ValueError ''bundle version/high-water mismatch'')
          else bind_result (canonical_trust_bundle te bundle) (\<lambda>again.
            if again \<noteq> canonical then Inl (ValueError ''bundle is not canonical'')
            else Inr \<lparr>sb_bundle = bundle, sb_canonical = canonical, sb_digest = digest_of te canonical, sb_high_water = high_water\<rparr>)
      | _ \<Rightarrow> Inl (ValueError ''bundle version/high-water mismatch''))"

definition parse_state :: "trust_env \<Rightarrow> octets \<Rightarrow> py_error + stored_bundle" where
  "parse_state te raw =
     (if length raw > STATE_LIMIT then Inl (ValueError ''state exceeds size limit'')
      else bind_result (tv_loads te raw) (\<lambda>state.
        bind_result (bind_result (subscript state ''bundle_b64'') b64decode) (\<lambda>canonical.
        bind_result (subscript state ''bundle_digest'') (\<lambda>d.
          if d \<noteq> PStr (digest_of te canonical) then Inl (ValueError ''bundle digest mismatch'')
          else bind_result (bind_result (tv_loads te canonical) (trust_bundle_from_dict te)) (\<lambda>bundle.
            bind_result (subscript state ''high_water'') (\<lambda>hw.
            bind_result (subscript state ''bundle_version'') (\<lambda>sv.
              check_state te canonical bundle (plain_int hw) (plain_int sv))))))))"

fun store_caught :: "py_error \<Rightarrow> bool" where
  "store_caught KeyError = True"
| "store_caught TypeError = True"
| "store_caught (ValueError _) = True"
| "store_caught _ = False"

definition store_load :: "trust_env \<Rightarrow> trust_file option \<Rightarrow> store_error + stored_bundle option" where
  "store_load te file =
     (case file of
        None \<Rightarrow> Inr None
      | Some f \<Rightarrow>
          if \<not> tf_regular f then Inl (Corrupt ''trust store must be a regular file, not a link'')
          else if \<not> tf_owner_only f then Inl (Corrupt ''trust store file must be owner-only'')
          else case parse_state te (tf_bytes f) of
              Inl e \<Rightarrow> Inl (if store_caught e then Corrupt ''invalid trust store'' else Raised e)
            | Inr s \<Rightarrow> Inr (Some s))"

text \<open>What can go wrong while the new state is written: before the replacement, or after it while the directory is synced.\<close>

datatype commit_fault = No_Fault | Write_Fails | Sync_Fails

definition state_data :: "trust_env \<Rightarrow> octets \<Rightarrow> int \<Rightarrow> int \<Rightarrow> pyval" where
  "state_data te canonical version high_water =
     PDict [(PStr ''bundle_b64'', PStr (b64encode canonical)), (PStr ''bundle_digest'', PStr (digest_of te canonical)),
            (PStr ''bundle_version'', PInt version), (PStr ''high_water'', PInt high_water)]"

definition store_commit ::
  "trust_env \<Rightarrow> commit_fault \<Rightarrow> trust_file option \<Rightarrow> trust_bundle \<Rightarrow> int \<Rightarrow> trust_file option \<times> (store_error + stored_bundle)" where
  "store_commit te fault file b high_water =
     (if tb_bundle_version b < 0 \<or> high_water < tb_bundle_version b
      then (file, Inl (StoreError ''bundle version and high-water mark must be non-negative integers''))
      else case canonical_trust_bundle te b of
          Inl e \<Rightarrow> (file, Inl (Raised e))
        | Inr canonical \<Rightarrow>
            (case tv_dumps te (state_data te canonical (tb_bundle_version b) high_water) of
               Inl e \<Rightarrow> (file, Inl (Raised e))
             | Inr payload \<Rightarrow>
                 let file' = Some \<lparr>tf_regular = True, tf_owner_only = True, tf_bytes = payload\<rparr>
                 in case fault of
                      Write_Fails \<Rightarrow> (file, Inl Os_Error)
                    | Sync_Fails \<Rightarrow> (file', Inl Os_Error)
                    | No_Fault \<Rightarrow> (file', Inr \<lparr>sb_bundle = b, sb_canonical = canonical, sb_digest = digest_of te canonical, sb_high_water = high_water\<rparr>)))"

text \<open>\<open>_acquire_lock\<close>: the directory must be private; then one attempt after the other until the lock file does not exist or the
  deadline has passed. The list says, for each attempt, whether the lock file was there.\<close>

fun acquire_lock :: "bool list \<Rightarrow> store_error option" where
  "acquire_lock [] = Some Locked"
| "acquire_lock (held # later) = (if held then acquire_lock later else None)"

record store_world =
  sw_directory :: "store_error option"
  sw_attempts :: "bool list"
  sw_fault :: commit_fault

definition enter_store :: "store_world \<Rightarrow> store_error option" where
  "enter_store w = (case sw_directory w of Some e \<Rightarrow> Some e | None \<Rightarrow> acquire_lock (sw_attempts w))"

record install_result =
  ir_status :: string
  ir_state :: "stored_bundle option"

definition installed :: "string \<Rightarrow> trust_file option \<times> (store_error + stored_bundle) \<Rightarrow> trust_file option \<times> (store_error + install_result)" where
  "installed status r = (case r of (f, Inl e) \<Rightarrow> (f, Inl e) | (f, Inr s) \<Rightarrow> (f, Inr \<lparr>ir_status = status, ir_state = Some s\<rparr>))"

definition store_install ::
  "trust_env \<Rightarrow> store_world \<Rightarrow> trust_file option \<Rightarrow> trust_bundle \<Rightarrow> int option \<Rightarrow> trust_file option \<times> (store_error + install_result)" where
  "store_install te w file b expected =
     (if tb_bundle_version b < 0 then (file, Inl (StoreError ''bundle version must be a non-negative integer''))
      else case enter_store w of
          Some e \<Rightarrow> (file, Inl e)
        | None \<Rightarrow>
            (case store_load te file of
               Inl e \<Rightarrow> (file, Inl e)
             | Inr current \<Rightarrow>
                 let current_version = map_option (\<lambda>s. tb_bundle_version (sb_bundle s)) current
                 in if expected \<noteq> None \<and> expected \<noteq> current_version then (file, Inr \<lparr>ir_status = ''conflict'', ir_state = current\<rparr>)
                    else case canonical_trust_bundle te b of
                        Inl e \<Rightarrow> (file, Inl (Raised e))
                      | Inr candidate \<Rightarrow>
                          let high_water = (case current of None \<Rightarrow> 0 | Some s \<Rightarrow> sb_high_water s)
                          in if tb_bundle_version b < high_water then (file, Inr \<lparr>ir_status = ''stale'', ir_state = current\<rparr>)
                             else case current of
                                 Some s \<Rightarrow>
                                   if tb_bundle_version b = tb_bundle_version (sb_bundle s)
                                   then (file, Inr \<lparr>ir_status = (if digest_of te candidate = sb_digest s then ''unchanged'' else ''conflict''), ir_state = current\<rparr>)
                                   else installed ''installed'' (store_commit te (sw_fault w) file b (max high_water (tb_bundle_version b)))
                               | None \<Rightarrow> installed ''installed'' (store_commit te (sw_fault w) file b (max high_water (tb_bundle_version b)))))"

record recovery_authorization =
  ra_reason :: string
  ra_minimum_high_water :: int

definition store_recover ::
  "trust_env \<Rightarrow> store_world \<Rightarrow> trust_file option \<Rightarrow> trust_bundle \<Rightarrow> recovery_authorization option \<Rightarrow> trust_file option \<times> (store_error + install_result)" where
  "store_recover te w file b authorization =
     (if tb_bundle_version b < 0 then (file, Inl (StoreError ''bundle version must be a non-negative integer''))
      else case authorization of
          None \<Rightarrow> (file, Inr \<lparr>ir_status = ''recovery_required'', ir_state = None\<rparr>)
        | Some a \<Rightarrow>
            if strip (ra_reason a) = [] then (file, Inr \<lparr>ir_status = ''recovery_required'', ir_state = None\<rparr>)
            else case enter_store w of
                Some e \<Rightarrow> (file, Inl e)
              | None \<Rightarrow>
                  let recovered = (\<lambda>current. installed ''recovered'' (store_commit te (sw_fault w) file b
                        (max (tb_bundle_version b) (max (ra_minimum_high_water a) (case current of None \<Rightarrow> 0 | Some s \<Rightarrow> sb_high_water s)))))
                  in case store_load te file of
                       Inl (Corrupt _) \<Rightarrow> recovered None
                     | Inl e \<Rightarrow> (file, Inl e)
                     | Inr current \<Rightarrow> recovered current)"

subsection \<open>Verification\<close>

record ticket_bindings =
  bd_issuer :: string
  bd_provider_id :: string
  bd_intent :: string
  bd_constraints_digest :: string
  bd_audience :: "string option"

record trust_decision =
  td_accepted :: bool
  td_code :: string
  td_anchored :: bool
  td_key_id :: "string option"

type_synonym replay_cache = "(string \<times> int) list"

definition cache_contains :: "replay_cache \<Rightarrow> string \<Rightarrow> int \<Rightarrow> replay_cache \<times> bool" where
  "cache_contains seen jti now = (let live = filter (\<lambda>(_, expiry). expiry > now) seen in (live, map_of live jti \<noteq> None))"

definition cache_remember :: "replay_cache \<Rightarrow> string \<Rightarrow> int \<Rightarrow> replay_cache" where
  "cache_remember seen jti expires_at = AList.update jti expires_at seen"

definition reject :: "string \<Rightarrow> string option \<Rightarrow> trust_decision" where
  "reject code key_id = \<lparr>td_accepted = False, td_code = code, td_anchored = False, td_key_id = key_id\<rparr>"

definition REQUIRED_CLAIMS :: "string list" where
  "REQUIRED_CLAIMS = [''profile'', ''issuer'', ''provider_id'', ''intent'', ''expires_at'', ''jti'', ''constraints_digest'', ''key_id'']"

definition outside_bundle_time :: "trust_bundle \<Rightarrow> int \<Rightarrow> py_error + string option" where
  "outside_bundle_time b now =
     bind_result (if tb_valid_from b = PNone then Inr False else py_less (PInt now) (tb_valid_from b)) (\<lambda>early.
       if early then Inr (Some ''reject_bundle_not_yet_valid'')
       else bind_result (if tb_valid_until b = PNone then Inr False else py_less (tb_valid_until b) (PInt now)) (\<lambda>late.
         Inr (if late then Some ''reject_bundle_expired'' else None)))"

definition bound_claims :: "pydict \<Rightarrow> ticket_bindings \<Rightarrow> bool" where
  "bound_claims claims bd \<longleftrightarrow>
     sget claims ''issuer'' = PStr (bd_issuer bd) \<and> sget claims ''provider_id'' = PStr (bd_provider_id bd) \<and>
     sget claims ''intent'' = PStr (bd_intent bd) \<and> sget claims ''constraints_digest'' = PStr (bd_constraints_digest bd) \<and>
     (case bd_audience bd of None \<Rightarrow> True | Some a \<Rightarrow> sget claims ''audience'' = PStr a)"

definition signature_ok :: "trust_env \<Rightarrow> trust_key \<Rightarrow> pydict \<Rightarrow> string \<Rightarrow> bool" where
  "signature_ok te k claims signature =
     (case (b64url_decode (PStr (ky_public_key_b64url k)), b64url_decode (PStr signature), tv_dumps te (PDict claims)) of
        (Inr public, Inr sig, Inr bytes) \<Rightarrow> tv_ed25519 te public sig (DOMAIN @ bytes)
      | _ \<Rightarrow> False)"

text \<open>The checks on the key that signed; the refusal, or none.\<close>

definition key_refusal :: "trust_key \<Rightarrow> pydict \<Rightarrow> int \<Rightarrow> py_error + string option" where
  "key_refusal k claims now =
     (if ky_state k = ''revoked'' then Inr (Some ''reject_key_revoked'')
      else if \<not> (ky_valid_from k \<le> now \<and> now \<le> ky_valid_until k) then Inr (Some ''reject_key_expired'')
      else if \<not> list_ex (\<lambda>w. py_eq w (PStr TRUST_PROFILE)) (ky_allowed_profiles k) then Inr (Some ''reject_profile_not_allowed'')
      else bind_result (if ky_issuers k = [] then Inr True else in_frozenset (sget claims ''issuer'') (ky_issuers k)) (\<lambda>issuer_ok.
        if \<not> issuer_ok then Inr (Some ''reject_issuer'')
        else bind_result (if ky_audiences k = [] then Inr True else in_frozenset (sget claims ''audience'') (ky_audiences k)) (\<lambda>audience_ok.
          Inr (if audience_ok then None else Some ''reject_audience''))))"

definition verify_dispatch_ticket_v2 ::
  "trust_env \<Rightarrow> pydict \<Rightarrow> string \<Rightarrow> trust_bundle \<Rightarrow> ticket_bindings \<Rightarrow> int \<Rightarrow> int \<Rightarrow> replay_cache option \<Rightarrow> replay_cache option \<times> (py_error + trust_decision)" where
  "verify_dispatch_ticket_v2 te claims signature bundle bd now minimum cache =
     (if tb_bundle_version bundle < minimum then (cache, Inr (reject ''reject_bundle_rollback'' None))
      else case outside_bundle_time bundle now of
          Inl e \<Rightarrow> (cache, Inl e)
        | Inr (Some code) \<Rightarrow> (cache, Inr (reject code None))
        | Inr None \<Rightarrow>
            if \<not> list_all (\<lambda>k. py_find claims (PStr k) \<noteq> None) REQUIRED_CLAIMS \<or> sget claims ''profile'' \<noteq> PStr TRUST_PROFILE
            then (cache, Inr (reject ''reject_required_profile_downgrade'' None))
            else case sget claims ''key_id'' of
                PStr key_id \<Rightarrow>
                  (case map_of (tb_keys bundle) key_id of
                     None \<Rightarrow> (cache, Inr (reject ''reject_unknown_key'' (Some key_id)))
                   | Some k \<Rightarrow>
                       (case key_refusal k claims now of
                          Inl e \<Rightarrow> (cache, Inl e)
                        | Inr (Some code) \<Rightarrow> (cache, Inr (reject code (Some key_id)))
                        | Inr None \<Rightarrow>
                            if \<not> bound_claims claims bd then (cache, Inr (reject ''reject_claim_mismatch'' (Some key_id)))
                            else case int_value (tv_int te) (sget claims ''expires_at'') of
                                Inl _ \<Rightarrow> (cache, Inr (reject ''reject_signature'' (Some key_id)))
                              | Inr expires_at \<Rightarrow>
                                  (case sget claims ''jti'' of
                                     PStr jti \<Rightarrow>
                                       if expires_at \<le> now \<or> jti = [] then (cache, Inr (reject ''reject_claim_mismatch'' (Some key_id)))
                                       else if \<not> signature_ok te k claims signature then (cache, Inr (reject ''reject_signature'' (Some key_id)))
                                       else let accepted = \<lparr>td_accepted = True, td_code = ''accept_anchored'', td_anchored = True, td_key_id = Some key_id\<rparr>
                                         in case cache of
                                              None \<Rightarrow> (None, Inr accepted)
                                            | Some seen \<Rightarrow>
                                                (case cache_contains seen jti now of
                                                   (live, True) \<Rightarrow> (Some live, Inr (reject ''reject_local_replay'' (Some key_id)))
                                                 | (live, False) \<Rightarrow> (Some (cache_remember live jti expires_at), Inr accepted))
                                   | _ \<Rightarrow> (cache, Inr (reject ''reject_claim_mismatch'' (Some key_id))))))
              | _ \<Rightarrow> (cache, Inr (reject ''reject_unknown_key'' None)))"

subsection \<open>Facts: base64\<close>

lemma b64_value_equal_sign: "b64_value (CHR ''='') = None"
  by (simp add: b64_value_def)

lemma a2b_map:
  assumes "\<And>c. b64_value (g c) = b64_value c" "\<And>c. g c = CHR ''='' \<longleftrightarrow> c = CHR ''=''"
  shows "a2b (map g s @ t) q l p = a2b (s @ t) q l p"
  using assms by (induction s arbitrary: q l p) (auto split: option.split)

lemma encode_value: "c \<in> set (b64url_encode x) \<Longrightarrow> b64_value c \<noteq> None"
proof (induction x rule: b64url_encode.induct)
  case (1 x y z r)
  with group_bounds [of "of_char x" "of_char y" "of_char z", OF byte_bound byte_bound byte_bound] show ?case by (auto simp: Let_def b64_value_char)
next
  case (2 x y)
  with group_bounds [of "of_char x" "of_char y" 0, OF byte_bound byte_bound] show ?case by (auto simp: Let_def b64_value_char)
next
  case (3 x)
  with group_bounds [of "of_char x" 0 0, OF byte_bound] show ?case by (auto simp: Let_def b64_value_char)
qed simp

lemma encode_length: "length (b64url_encode x) mod 4 \<noteq> 1"
  by (induction x rule: b64url_encode.induct) (auto simp: Let_def)

lemma pad_length: "(n :: nat) mod 4 \<noteq> 1 \<Longrightarrow> (n + (4 - n mod 4) mod 4) mod 4 = 0 \<and> (4 - n mod 4) mod 4 \<le> 2"
proof -
  assume "n mod 4 \<noteq> 1"
  moreover have "n mod 4 < 4" by simp
  ultimately have "n mod 4 = 0 \<or> n mod 4 = 2 \<or> n mod 4 = 3" by linarith
  then show ?thesis by (elim disjE) (simp_all, presburger+)
qed

lemma std_char_simps:
  "b64_value (std_char c) = b64_value c" "std_char c = CHR ''='' \<longleftrightarrow> c = CHR ''=''" "std_char c \<noteq> CHR ''-''" "std_char c \<noteq> CHR ''_''"
  by (cases "c = CHR ''-''"; cases "c = CHR ''_''"; simp add: std_char_def b64_value_def)+

lemma std_chars:
  "c \<in> set (map std_char (b64url_encode x)) \<Longrightarrow> b64_value c \<noteq> None \<and> c \<noteq> CHR ''-'' \<and> c \<noteq> CHR ''_'' \<and> c \<noteq> CHR ''=''"
  using encode_value [of _ x] std_char_simps b64_value_equal_sign by (metis (no_types, lifting) image_iff list.set_map)

lemma split_pad:
  assumes "\<forall>c \<in> set s. c \<noteq> CHR ''=''"
  shows "takeWhile (\<lambda>c. c \<noteq> CHR ''='') (s @ replicate n (CHR ''='')) = s"
    "dropWhile (\<lambda>c. c \<noteq> CHR ''='') (s @ replicate n (CHR ''='')) = replicate n (CHR ''='')"
  using assms by (simp_all add: takeWhile_append2 dropWhile_append2 takeWhile_replicate dropWhile_replicate)

lemma b64_roundtrip: "b64decode (PStr (b64encode x)) = Inr x"
proof -
  define s where "s = map std_char (b64url_encode x)"
  define n where "n = (4 - length s mod 4) mod 4"
  have enc: "b64encode x = s @ replicate n (CHR ''='')" by (simp add: b64encode_def s_def n_def Let_def)
  have a2b: "a2b (s @ replicate n (CHR ''='')) 0 0 0 = Some x"
    using a2b_encode [of x] unfolding s_def n_def a2b_map [OF std_char_simps(1,2)] by (simp add: b64_pad_def)
  have chars: "\<forall>c \<in> set s. b64_value c \<noteq> None \<and> c \<noteq> CHR ''-'' \<and> c \<noteq> CHR ''_'' \<and> c \<noteq> CHR ''=''"
    using std_chars [of _ x] unfolding s_def by blast
  have size: "(length s + n) mod 4 = 0" "n \<le> 2"
    using pad_length [OF encode_length [of x]] by (simp_all add: n_def s_def)
  have "list_all (\<lambda>c. b64_value c \<noteq> None \<and> c \<noteq> CHR ''-'' \<and> c \<noteq> CHR ''_'') s" using chars by (simp add: list_all_iff)
  moreover have "list_all (\<lambda>c. c = CHR ''='') (replicate n (CHR ''=''))" by (simp add: list_all_iff)
  moreover have "\<forall>c \<in> set s. c \<noteq> CHR ''=''" using chars by blast
  note split_pad [OF this, of n]
  ultimately show ?thesis using size a2b unfolding b64decode_def pyval.case enc Let_def by simp
qed

subsection \<open>Facts: canonical bundles\<close>

text \<open>\<open>json.loads\<close> of what \<open>json.dumps(..., sort_keys=True)\<close> wrote: the same value with its keys in order.\<close>

definition key_text :: "pyval \<times> pyval \<Rightarrow> string" where
  "key_text e = (case fst e of PStr s \<Rightarrow> s | _ \<Rightarrow> [])"

fun sorted_value :: "pyval \<Rightarrow> pyval" where
  "sorted_value (PList vs) = PList (map sorted_value vs)"
| "sorted_value (PDict d) = PDict (sort_key key_text (map (\<lambda>(k, v). (k, sorted_value v)) d))"
| "sorted_value v = v"

definition json_ok :: "trust_env \<Rightarrow> pyval \<Rightarrow> bool" where
  "json_ok te v \<longleftrightarrow> (\<exists>b. tv_dumps te v = Inr b \<and> tv_loads te b = Inr (sorted_value v))"

fun is_scalar :: "pyval \<Rightarrow> bool" where
  "is_scalar (PList _) = False"
| "is_scalar (PDict _) = False"
| "is_scalar _ = True"

definition text_set :: "pyval list \<Rightarrow> bool" where
  "text_set vs \<longleftrightarrow> distinct vs \<and> list_all is_str vs"

definition bundle_ok :: "trust_bundle \<Rightarrow> bool" where
  "bundle_ok b \<longleftrightarrow> distinct (map fst (tb_keys b)) \<and> is_scalar (tb_issuer b) \<and> is_scalar (tb_valid_from b) \<and> is_scalar (tb_valid_until b) \<and>
     (\<forall>(i, k) \<in> set (tb_keys b). ky_key_id k = i \<and> ky_state k \<in> set KEY_STATES \<and> text_set (ky_allowed_profiles k) \<and>
        text_set (ky_issuers k) \<and> text_set (ky_audiences k))"

lemma py_find_map_of: "py_find d (PStr k) = map_of d (PStr k)"
  by (induction d) auto

lemma py_find_sort_key:
  "distinct (map fst d) \<Longrightarrow> py_find (sort_key h d) (PStr k) = py_find d (PStr k)"
proof -
  assume d: "distinct (map fst d)"
  have "mset (map fst (sort_key h d)) = mset (map fst d)" by simp
  then have "distinct (map fst (sort_key h d))" using d by (metis mset_eq_imp_distinct_iff)
  then have "map_of (sort_key h d) = map_of d" using d by (simp add: map_of_inject_set)
  then show ?thesis by (simp add: py_find_map_of)
qed

lemma py_find_mapped: "py_find (map (\<lambda>(k, v). (k, g v)) d) (PStr k') = map_option g (py_find d (PStr k'))"
  by (induction d) auto

lemma sorted_dict_find:
  assumes "distinct (map fst d)"
  shows "py_find (sort_key h (map (\<lambda>(k, v). (k, g v)) d)) (PStr k') = map_option g (py_find d (PStr k'))"
proof -
  have "map fst (map (\<lambda>(k, v). (k, g v)) d) = map fst d" by (induction d) auto
  with assms show ?thesis using py_find_sort_key [of "map (\<lambda>(k, v). (k, g v)) d" h k'] by (simp only: py_find_mapped)
qed

lemma sorted_scalar: "is_scalar v \<Longrightarrow> sorted_value v = v"
  by (cases v) auto

lemma sorted_texts: "list_all is_str vs \<Longrightarrow> map sorted_value vs = vs"
proof (induction vs)
  case (Cons v vs)
  then show ?case by (cases v) auto
qed simp

lemma text_list: "list_all is_str vs \<Longrightarrow> \<exists>ss. vs = map PStr ss"
proof (induction vs)
  case (Cons v vs)
  then obtain ss where "vs = map PStr ss" by auto
  with Cons.prems show ?case by (cases v) (auto intro: exI [of _ "_ # ss"])
qed simp

lemma text_setE:
  assumes "text_set vs"
  obtains ss where "vs = map PStr ss" "distinct ss"
  using assms text_list [of vs] by (auto simp: text_set_def distinct_map)

lemma py_insort_texts: "py_insort (PStr x) (map PStr ys) = Inr (map PStr (insort x ys))"
  by (induction ys) (auto simp: not_less not_le)

lemma py_sorted_texts: "py_sorted (map PStr ss) = Inr (map PStr (sort ss))"
  by (induction ss) (simp_all add: py_insort_texts)

lemma py_remdups_distinct: "distinct ss \<Longrightarrow> py_remdups (map PStr ss) = map PStr ss"
  by (induction ss) (auto simp: filter_id_conv)

definition normal_set :: "pyval list \<Rightarrow> pyval list" where
  "normal_set vs = (case py_sorted vs of Inr r \<Rightarrow> r | Inl _ \<Rightarrow> vs)"

lemma normal_set:
  assumes "text_set vs"
  shows "py_sorted vs = Inr (normal_set vs)" "py_sorted (normal_set vs) = Inr (normal_set vs)" "text_set (normal_set vs)"
    "frozenset_of (PList (normal_set vs)) = Inr (normal_set vs)" "map sorted_value (normal_set vs) = normal_set vs"
proof -
  obtain ss where ss: "vs = map PStr ss" "distinct ss" using assms by (rule text_setE)
  then have n: "normal_set vs = map PStr (sort ss)" by (simp add: normal_set_def py_sorted_texts)
  show "py_sorted vs = Inr (normal_set vs)" unfolding n by (simp add: ss py_sorted_texts)
  show "py_sorted (normal_set vs) = Inr (normal_set vs)" by (simp add: n py_sorted_texts sorted_sort_id)
  show "text_set (normal_set vs)" unfolding n using ss(2) by (simp add: text_set_def distinct_map inj_on_def list_all_iff)
  show "frozenset_of (PList (normal_set vs)) = Inr (normal_set vs)"
    unfolding n using ss(2) by (simp add: frozenset_of_def py_remdups_distinct list_all_iff)
  show "map sorted_value (normal_set vs) = normal_set vs" by (simp add: n)
qed

text \<open>The bundle as a file holds it: keys in the order of their identifiers, sets in order.\<close>

definition normal_key :: "trust_key \<Rightarrow> trust_key" where
  "normal_key k = k\<lparr>ky_allowed_profiles := normal_set (ky_allowed_profiles k), ky_issuers := normal_set (ky_issuers k),
     ky_audiences := normal_set (ky_audiences k)\<rparr>"

definition normal_bundle :: "trust_bundle \<Rightarrow> trust_bundle" where
  "normal_bundle b = b\<lparr>tb_keys := map (\<lambda>k. (ky_key_id k, normal_key k)) (sort_key ky_key_id (map snd (tb_keys b)))\<rparr>"

definition key_ok :: "trust_key \<Rightarrow> bool" where
  "key_ok k \<longleftrightarrow> ky_state k \<in> set KEY_STATES \<and> text_set (ky_allowed_profiles k) \<and> text_set (ky_issuers k) \<and> text_set (ky_audiences k)"

definition entry_dict :: "trust_key \<Rightarrow> pydict" where
  "entry_dict k = [(PStr ''key_id'', PStr (ky_key_id k)), (PStr ''public_key_b64url'', PStr (ky_public_key_b64url k)), (PStr ''state'', PStr (ky_state k)),
     (PStr ''valid_from'', PInt (ky_valid_from k)), (PStr ''valid_until'', PInt (ky_valid_until k)),
     (PStr ''allowed_profiles'', PList (normal_set (ky_allowed_profiles k))), (PStr ''issuers'', PList (normal_set (ky_issuers k))),
     (PStr ''audiences'', PList (normal_set (ky_audiences k)))]"

lemma key_entry_ok: "key_ok k \<Longrightarrow> key_entry k = Inr (PDict (entry_dict k))"
  by (simp add: key_entry_def key_ok_def normal_set entry_dict_def)

lemma normal_key_entry: "key_ok k \<Longrightarrow> key_entry (normal_key k) = key_entry k"
  by (simp add: key_entry_def key_ok_def normal_set(1,2) normal_key_def)

lemma entry_fields:
  assumes "key_ok k" "sorted_value (PDict (entry_dict k)) = PDict d"
  shows "index d ''key_id'' = Inr (PStr (ky_key_id k))" "index d ''state'' = Inr (PStr (ky_state k))"
    "trust_key_from te (ky_key_id k) (ky_state k) d = Inr (normal_key k)"
proof -
  have distinct: "distinct (map fst (entry_dict k))" by (simp add: entry_dict_def)
  have d: "d = sort_key key_text (map (\<lambda>(k, v). (k, sorted_value v)) (entry_dict k))" using assms(2) by simp
  have find: "py_find d (PStr x) = map_option sorted_value (py_find (entry_dict k) (PStr x))" for x
    unfolding d by (rule sorted_dict_find [OF distinct])
  show "index d ''key_id'' = Inr (PStr (ky_key_id k))" "index d ''state'' = Inr (PStr (ky_state k))"
    by (simp_all add: index_def find entry_dict_def)
  show "trust_key_from te (ky_key_id k) (ky_state k) d = Inr (normal_key k)"
    using assms(1) by (simp add: trust_key_from_def index_def get_or_def find entry_dict_def normal_set key_ok_def normal_key_def)
qed

lemma trust_keys_back:
  assumes "\<forall>k \<in> set ks. key_ok k" "distinct (map ky_key_id ks)" "ky_key_id ` set ks \<inter> fst ` set acc = {}"
  shows "trust_keys_from te (map (\<lambda>k. sorted_value (PDict (entry_dict k))) ks) acc = Inr (acc @ map (\<lambda>k. (ky_key_id k, normal_key k)) ks)"
  using assms
proof (induction ks arbitrary: acc)
  case (Cons k ks)
  obtain d where d: "sorted_value (PDict (entry_dict k)) = PDict d" by simp
  have ok: "key_ok k" "ky_state k \<in> set KEY_STATES" using Cons.prems(1) by (simp_all add: key_ok_def)
  note fields = entry_fields [OF ok(1) d]
  have "trust_keys_from te (map (\<lambda>k. sorted_value (PDict (entry_dict k))) ks) (acc @ [(ky_key_id k, normal_key k)]) =
      Inr ((acc @ [(ky_key_id k, normal_key k)]) @ map (\<lambda>k. (ky_key_id k, normal_key k)) ks)"
    by (rule Cons.IH) (use Cons.prems in auto)
  then show ?case using Cons.prems(3) ok fields
    by (simp add: d subscript_def del: sorted_value.simps)
qed simp

lemma bundle_keys:
  assumes "bundle_ok b"
  shows "\<forall>k \<in> set (sort_key ky_key_id (map snd (tb_keys b))). key_ok k"
    "distinct (map ky_key_id (sort_key ky_key_id (map snd (tb_keys b))))"
proof -
  show "\<forall>k \<in> set (sort_key ky_key_id (map snd (tb_keys b))). key_ok k"
    using assms by (auto simp: bundle_ok_def key_ok_def)
  have "map (ky_key_id \<circ> snd) (tb_keys b) = map fst (tb_keys b)" using assms by (auto simp: bundle_ok_def)
  then have "distinct (map ky_key_id (map snd (tb_keys b)))" using assms unfolding bundle_ok_def map_map by (simp only:)
  moreover have "mset (map ky_key_id (sort_key ky_key_id (map snd (tb_keys b)))) = mset (map ky_key_id (map snd (tb_keys b)))"
    by (simp only: mset_map mset_sort)
  ultimately show "distinct (map ky_key_id (sort_key ky_key_id (map snd (tb_keys b))))" by (metis mset_eq_imp_distinct_iff)
qed

lemma map_result_comp: "map_result f (map g xs) = map_result (\<lambda>x. f (g x)) xs"
  by (induction xs) (simp_all split: sum.splits)

definition data_dict :: "trust_bundle \<Rightarrow> pydict" where
  "data_dict b = [(PStr ''bundle_version'', PInt (tb_bundle_version b)),
     (PStr ''keys'', PList (map (\<lambda>k. PDict (entry_dict k)) (sort_key ky_key_id (map snd (tb_keys b)))))] @ given ''issuer'' (tb_issuer b) @
     given ''valid_from'' (tb_valid_from b) @ given ''valid_until'' (tb_valid_until b)"

lemma bundle_data_ok: "bundle_ok b \<Longrightarrow> bundle_data b = Inr (PDict (data_dict b))"
  using bundle_keys(1) [of b] key_entry_ok map_result_map [of "sort_key ky_key_id (map snd (tb_keys b))" key_entry "\<lambda>k. PDict (entry_dict k)"]
  by (simp add: bundle_data_def data_dict_def del: set_sort)

lemma normal_bundle_data:
  assumes "bundle_ok b"
  shows "bundle_data (normal_bundle b) = bundle_data b"
proof -
  let ?ks = "sort_key ky_key_id (map snd (tb_keys b))"
  have id: "ky_key_id (normal_key k) = ky_key_id k" for k by (simp add: normal_key_def)
  have "map ky_key_id (map normal_key ?ks) = map ky_key_id ?ks" by (simp add: id)
  then have "sort_key ky_key_id (map normal_key ?ks) = map normal_key ?ks"
    by (metis sort_key_id_if_sorted sorted_sort_key)
  moreover have "map snd (tb_keys (normal_bundle b)) = map normal_key ?ks" by (simp add: normal_bundle_def comp_def)
  moreover have "map_result key_entry (map normal_key ?ks) = map_result key_entry ?ks"
    using map_result_map [of ?ks key_entry "\<lambda>k. PDict (entry_dict k)"] bundle_keys(1) [OF assms] key_entry_ok normal_key_entry
      map_result_map [of ?ks "\<lambda>k. key_entry (normal_key k)" "\<lambda>k. PDict (entry_dict k)"]
    by (simp add: map_result_comp del: set_sort)
  ultimately show ?thesis by (simp add: bundle_data_def) (simp add: normal_bundle_def)
qed

lemma bundle_back:
  assumes "bundle_ok b"
  shows "trust_bundle_from_dict te (sorted_value (PDict (data_dict b))) = Inr (normal_bundle b)"
proof -
  define d where "d = sort_key key_text (map (\<lambda>(k, v). (k, sorted_value v)) (data_dict b))"
  let ?ks = "sort_key ky_key_id (map snd (tb_keys b))"
  have distinct: "distinct (map fst (data_dict b))" by (simp add: data_dict_def given_def)
  have find: "py_find d (PStr x) = map_option sorted_value (py_find (data_dict b) (PStr x))" for x
    unfolding d_def by (rule sorted_dict_find [OF distinct])
  have scalars: "sorted_value (tb_issuer b) = tb_issuer b" "sorted_value (tb_valid_from b) = tb_valid_from b"
    "sorted_value (tb_valid_until b) = tb_valid_until b"
    using assms by (simp_all add: bundle_ok_def sorted_scalar)
  have keys: "get_or d ''keys'' (PList []) = PList (map (\<lambda>k. sorted_value (PDict (entry_dict k))) ?ks)"
    by (simp add: get_or_def find data_dict_def comp_def)
  have fields: "index d ''bundle_version'' = Inr (PInt (tb_bundle_version b))" "sget d ''issuer'' = tb_issuer b"
    "sget d ''valid_from'' = tb_valid_from b" "sget d ''valid_until'' = tb_valid_until b"
    using scalars by (simp_all add: index_def sget_def get_or_def find data_dict_def py_find_append)
  have "trust_keys_from te (map (\<lambda>k. sorted_value (PDict (entry_dict k))) ?ks) [] = Inr (map (\<lambda>k. (ky_key_id k, normal_key k)) ?ks)"
    using trust_keys_back [of ?ks "[]" te] bundle_keys [OF assms] by simp
  moreover have "sorted_value (PDict (data_dict b)) = PDict d" by (simp add: d_def)
  ultimately show ?thesis unfolding trust_bundle_from_dict_def keys py_elements.simps
    by (simp add: keys fields normal_bundle_def del: sorted_value.simps)
qed

subsection \<open>Facts: the store\<close>

text \<open>The JSON text of a bundle and of the state that holds it is read back, and the state is within the size that is read.\<close>

definition writable :: "trust_env \<Rightarrow> trust_bundle \<Rightarrow> int \<Rightarrow> bool" where
  "writable te b hw \<longleftrightarrow> bundle_ok b \<and>
     (\<exists>v c p. bundle_data b = Inr v \<and> tv_dumps te v = Inr c \<and> tv_loads te c = Inr (sorted_value v) \<and>
        tv_dumps te (state_data te c (tb_bundle_version b) hw) = Inr p \<and>
        tv_loads te p = Inr (sorted_value (state_data te c (tb_bundle_version b) hw)) \<and> length p \<le> STATE_LIMIT)"

lemma state_fields:
  "subscript (sorted_value (state_data te c v hw)) ''bundle_b64'' = Inr (PStr (b64encode c))"
  "subscript (sorted_value (state_data te c v hw)) ''bundle_digest'' = Inr (PStr (digest_of te c))"
  "subscript (sorted_value (state_data te c v hw)) ''bundle_version'' = Inr (PInt v)"
  "subscript (sorted_value (state_data te c v hw)) ''high_water'' = Inr (PInt hw)"
  unfolding state_data_def sorted_value.simps subscript_def index_def pyval.case
  by (subst sorted_dict_find; simp)+

lemma written_load:
  assumes "writable te b hw" "0 \<le> tb_bundle_version b" "tb_bundle_version b \<le> hw" "canonical_trust_bundle te b = Inr c"
    "tv_dumps te (state_data te c (tb_bundle_version b) hw) = Inr p"
  shows "store_load te (Some \<lparr>tf_regular = True, tf_owner_only = True, tf_bytes = p\<rparr>) =
    Inr (Some \<lparr>sb_bundle = normal_bundle b, sb_canonical = c, sb_digest = digest_of te c, sb_high_water = hw\<rparr>)"
proof -
  obtain v where ok: "bundle_ok b" and v: "bundle_data b = Inr v" "tv_loads te c = Inr (sorted_value v)"
    "tv_loads te p = Inr (sorted_value (state_data te c (tb_bundle_version b) hw))" "length p \<le> STATE_LIMIT"
    using assms(1,4,5) by (auto simp: writable_def canonical_trust_bundle_def)
  have "trust_bundle_from_dict te (sorted_value v) = Inr (normal_bundle b)"
    using v(1) bundle_back [OF ok] by (simp add: bundle_data_ok [OF ok] del: sorted_value.simps)
  moreover have "canonical_trust_bundle te (normal_bundle b) = Inr c"
    using assms(4) by (simp add: canonical_trust_bundle_def normal_bundle_data [OF ok])
  moreover have "tb_bundle_version (normal_bundle b) = tb_bundle_version b" by (simp add: normal_bundle_def)
  ultimately have "parse_state te p = Inr \<lparr>sb_bundle = normal_bundle b, sb_canonical = c, sb_digest = digest_of te c, sb_high_water = hw\<rparr>"
    using assms(2,3) v by (simp add: parse_state_def check_state_def state_fields b64_roundtrip plain_int_def not_less)
  then show ?thesis by (simp add: store_load_def)
qed

lemma commit_load:
  assumes "writable te b hw" "store_commit te fault file b hw = (file', r)"
  shows "file' = file \<and> \<not> is_ok r \<or>
    (\<exists>s. store_load te file' = Inr (Some s) \<and> sb_bundle s = normal_bundle b \<and> sb_high_water s = hw \<and>
       0 \<le> tb_bundle_version b \<and> tb_bundle_version b \<le> hw \<and> (r = Inr (s\<lparr>sb_bundle := b\<rparr>) \<or> r = Inl Os_Error))"
  using assms(2) written_load [OF assms(1)]
  by (force simp: store_commit_def Let_def not_less not_le split: if_splits sum.splits commit_fault.splits)

text \<open>The calls of the store, with what the file system does, and a history of them.\<close>

datatype store_request = Install trust_bundle "int option" | Recover trust_bundle "recovery_authorization option"

definition store_call :: "trust_env \<Rightarrow> store_world \<Rightarrow> trust_file option \<Rightarrow> store_request \<Rightarrow> trust_file option \<times> (store_error + install_result)" where
  "store_call te w file q = (case q of Install b e \<Rightarrow> store_install te w file b e | Recover b a \<Rightarrow> store_recover te w file b a)"

definition high_water :: "trust_env \<Rightarrow> trust_file option \<Rightarrow> int" where
  "high_water te file = (case store_load te file of Inr (Some s) \<Rightarrow> sb_high_water s | _ \<Rightarrow> 0)"

definition new_mark :: "trust_env \<Rightarrow> trust_file option \<Rightarrow> store_request \<Rightarrow> int" where
  "new_mark te file q =
     (case q of
        Install b _ \<Rightarrow> max (high_water te file) (tb_bundle_version b)
      | Recover b a \<Rightarrow> max (tb_bundle_version b) (max (case a of None \<Rightarrow> 0 | Some x \<Rightarrow> ra_minimum_high_water x) (high_water te file)))"

definition request_bundle :: "store_request \<Rightarrow> trust_bundle" where
  "request_bundle q = (case q of Install b _ \<Rightarrow> b | Recover b _ \<Rightarrow> b)"

inductive store_run :: "trust_env \<Rightarrow> trust_file option \<Rightarrow> store_request list \<Rightarrow> trust_file option \<Rightarrow> bool" for te where
  run_start: "store_run te file [] file"
| run_call: "store_run te file qs file' \<Longrightarrow> writable te (request_bundle q) (new_mark te file' q) \<Longrightarrow>
    store_run te file (qs @ [q]) (fst (store_call te w file' q))"

lemma installed_file: "fst (installed status r) = fst r"
  by (simp add: installed_def split: prod.splits sum.splits)

definition version_of :: "stored_bundle \<Rightarrow> int" where
  "version_of s = tb_bundle_version (sb_bundle s)"

lemma load_version:
  assumes "store_load te file = Inr (Some s)"
  shows "0 \<le> version_of s" "version_of s \<le> sb_high_water s"
proof -
  obtain raw where "parse_state te raw = Inr s"
    using assms by (auto simp: store_load_def split: option.split_asm if_split_asm sum.split_asm)
  then obtain c b hw sv where "check_state te c b hw sv = Inr s"
    by (auto simp: parse_state_def bind_result_Inr_iff split: if_split_asm)
  then have "0 \<le> version_of s \<and> version_of s \<le> sb_high_water s"
    by (auto simp: check_state_def version_of_def bind_result_Inr_iff split: option.split_asm if_split_asm)
  then show "0 \<le> version_of s" "version_of s \<le> sb_high_water s" by auto
qed

lemma install_step:
  assumes load: "store_load te file = Inr cur" and writable: "writable te b (max (high_water te file) (tb_bundle_version b))"
    and call: "store_install te w file b e = (file', r)"
  shows "file' = file \<or>
    (\<exists>s'. store_load te file' = Inr (Some s') \<and> high_water te file \<le> sb_high_water s' \<and> (\<forall>s. cur = Some s \<longrightarrow> version_of s < version_of s'))"
proof (cases "file' = file")
  case False
  let ?hw = "max (high_water te file) (tb_bundle_version b)"
  have mark: "high_water te file = (case cur of None \<Rightarrow> 0 | Some s \<Rightarrow> sb_high_water s)"
    by (simp add: high_water_def load split: option.split)
  have new: "\<not> tb_bundle_version b < high_water te file" "\<forall>s. cur = Some s \<longrightarrow> tb_bundle_version b \<noteq> version_of s"
    and c: "file' = fst (store_commit te (sw_fault w) file b ?hw)"
    using call False
    by (auto simp: store_install_def load mark Let_def version_of_def installed_def split: if_splits option.splits sum.splits prod.splits)
  obtain r' where "store_commit te (sw_fault w) file b ?hw = (file', r')" using c by (metis prod.collapse)
  from commit_load [OF writable this] False obtain s' where
    s': "store_load te file' = Inr (Some s')" "sb_bundle s' = normal_bundle b" "sb_high_water s' = ?hw" by blast
  have "version_of s < version_of s'" if s: "cur = Some s" for s
  proof -
    have "version_of s \<le> high_water te file" using load_version(2) [OF load [unfolded s]] load s by (simp add: high_water_def)
    with new s have "version_of s < tb_bundle_version b" by fastforce
    then show ?thesis using s'(2) by (simp add: version_of_def normal_bundle_def)
  qed
  with s' show ?thesis by auto
qed simp

lemma recover_step:
  assumes load: "store_load te file = Inr cur"
    and writable: "writable te b (new_mark te file (Recover b a))"
    and call: "store_recover te w file b a = (file', r)"
  shows "file' = file \<or> (\<exists>s'. store_load te file' = Inr (Some s') \<and> high_water te file \<le> sb_high_water s')"
proof (cases "file' = file")
  case False
  have mark: "high_water te file = (case cur of None \<Rightarrow> 0 | Some s \<Rightarrow> sb_high_water s)"
    by (simp add: high_water_def load split: option.split)
  have c: "file' = fst (store_commit te (sw_fault w) file b (new_mark te file (Recover b a)))"
    using call False
    by (auto simp: store_recover_def load mark Let_def installed_def new_mark_def split: if_splits option.splits sum.splits prod.splits)
  obtain r' where "store_commit te (sw_fault w) file b (new_mark te file (Recover b a)) = (file', r')" using c by (metis prod.collapse)
  from commit_load [OF writable this] False show ?thesis by (auto simp: new_mark_def)
qed simp

definition installs_only :: "store_request list \<Rightarrow> bool" where
  "installs_only qs \<longleftrightarrow> list_all (\<lambda>q. case q of Install _ _ \<Rightarrow> True | Recover _ _ \<Rightarrow> False) qs"

text \<open>What a history keeps of a readable store.\<close>

definition store_kept :: "trust_env \<Rightarrow> trust_file option \<Rightarrow> store_request list \<Rightarrow> trust_file option \<Rightarrow> bool" where
  "store_kept te file qs file' \<longleftrightarrow>
     (\<exists>cur'. store_load te file' = Inr cur' \<and> high_water te file \<le> high_water te file' \<and>
        (installs_only qs \<longrightarrow> (\<forall>s. store_load te file = Inr (Some s) \<longrightarrow>
           (\<exists>s'. cur' = Some s' \<and> (s' = s \<or> version_of s < version_of s')))))"

lemma call_step:
  assumes "store_load te file = Inr cur" "writable te (request_bundle q) (new_mark te file q)"
  shows "store_kept te file [q] (fst (store_call te w file q))"
proof (cases q)
  case (Install b e)
  obtain file' r where c: "store_install te w file b e = (file', r)" by fastforce
  from install_step [OF assms(1) _ c] assms(2) show ?thesis
    using assms(1) by (auto simp: store_kept_def Install store_call_def c request_bundle_def new_mark_def high_water_def)
next
  case (Recover b a)
  obtain file' r where c: "store_recover te w file b a = (file', r)" by fastforce
  from recover_step [OF assms(1) _ c] assms(2) show ?thesis
    using assms(1) by (auto simp: store_kept_def Recover store_call_def c request_bundle_def installs_only_def high_water_def)
qed

lemma store_kept_trans:
  assumes "store_kept te f qs f'" "store_kept te f' rs f''"
  shows "store_kept te f (qs @ rs) f''"
proof -
  obtain c where c: "store_load te f' = Inr c" "high_water te f \<le> high_water te f'"
    "installs_only qs \<Longrightarrow> \<forall>s. store_load te f = Inr (Some s) \<longrightarrow> (\<exists>s'. c = Some s' \<and> (s' = s \<or> version_of s < version_of s'))"
    using assms(1) by (auto simp: store_kept_def)
  obtain c' where c': "store_load te f'' = Inr c'" "high_water te f' \<le> high_water te f''"
    "installs_only rs \<Longrightarrow> \<forall>s. store_load te f' = Inr (Some s) \<longrightarrow> (\<exists>s'. c' = Some s' \<and> (s' = s \<or> version_of s < version_of s'))"
    using assms(2) by (auto simp: store_kept_def)
  have "\<exists>s'. c' = Some s' \<and> (s' = s \<or> version_of s < version_of s')"
    if only: "installs_only (qs @ rs)" and s: "store_load te f = Inr (Some s)" for s
  proof -
    have only: "installs_only qs" "installs_only rs" using only by (simp_all add: installs_only_def)
    obtain t where t: "c = Some t" "t = s \<or> version_of s < version_of t" using c(3) [OF only(1)] s by blast
    obtain u where "c' = Some u" "u = t \<or> version_of t < version_of u" using c'(3) [OF only(2)] c(1) t(1) by blast
    with t(2) show ?thesis by auto
  qed
  with c(2) c'(1,2) show ?thesis by (auto simp: store_kept_def)
qed

lemma run_kept: "store_run te file qs file' \<Longrightarrow> is_ok (store_load te file) \<Longrightarrow> store_kept te file qs file'"
proof (induction rule: store_run.induct)
  case run_start
  then show ?case by (auto simp: store_kept_def is_ok_def split: sum.splits)
next
  case (run_call f qs f' q w)
  then obtain cur where "store_load te f' = Inr cur" by (auto simp: store_kept_def)
  from call_step [OF this run_call.hyps(2)] run_call show ?case by (auto intro: store_kept_trans)
qed

subsection \<open>Facts: verification\<close>

definition ticket_accepted :: "py_error + trust_decision \<Rightarrow> bool" where
  "ticket_accepted r = (case r of Inl _ \<Rightarrow> False | Inr d \<Rightarrow> td_accepted d)"

lemma ticket_accepted_simps [simp]:
  "\<not> ticket_accepted (Inl e)" "\<not> ticket_accepted (Inr (reject c k))"
  "ticket_accepted (Inr \<lparr>td_accepted = True, td_code = c, td_anchored = a, td_key_id = k\<rparr>)"
  by (simp_all add: ticket_accepted_def reject_def)

text \<open>The time window of a bundle, and a key that may sign the claims.\<close>

definition bundle_current :: "trust_bundle \<Rightarrow> int \<Rightarrow> bool" where
  "bundle_current b now \<longleftrightarrow> (tb_valid_from b = PNone \<or> py_less (PInt now) (tb_valid_from b) = Inr False) \<and>
     (tb_valid_until b = PNone \<or> py_less (tb_valid_until b) (PInt now) = Inr False)"

definition listed :: "pyval list \<Rightarrow> pyval \<Rightarrow> bool" where
  "listed vs v \<longleftrightarrow> vs = [] \<or> hashable v \<and> (\<exists>w \<in> set vs. py_eq w v)"

definition key_trusted :: "trust_key \<Rightarrow> pydict \<Rightarrow> int \<Rightarrow> bool" where
  "key_trusted k claims now \<longleftrightarrow> ky_state k \<noteq> ''revoked'' \<and> ky_valid_from k \<le> now \<and> now \<le> ky_valid_until k \<and>
     PStr TRUST_PROFILE \<in> set (ky_allowed_profiles k) \<and> listed (ky_issuers k) (sget claims ''issuer'') \<and> listed (ky_audiences k) (sget claims ''audience'')"

definition anchored :: "trust_env \<Rightarrow> pydict \<Rightarrow> string \<Rightarrow> trust_bundle \<Rightarrow> ticket_bindings \<Rightarrow> int \<Rightarrow> int \<Rightarrow> string \<Rightarrow> int \<Rightarrow> bool" where
  "anchored te claims signature b bd now minimum jti expires_at \<longleftrightarrow>
     minimum \<le> tb_bundle_version b \<and> bundle_current b now \<and> (\<forall>c \<in> set REQUIRED_CLAIMS. py_find claims (PStr c) \<noteq> None) \<and>
     sget claims ''profile'' = PStr TRUST_PROFILE \<and> bound_claims claims bd \<and> sget claims ''jti'' = PStr jti \<and> jti \<noteq> [] \<and>
     int_value (tv_int te) (sget claims ''expires_at'') = Inr expires_at \<and> now < expires_at \<and>
     (\<exists>key_id k. sget claims ''key_id'' = PStr key_id \<and> map_of (tb_keys b) key_id = Some k \<and> key_trusted k claims now \<and>
        signature_ok te k claims signature)"

lemma bundle_current_iff: "outside_bundle_time b now = Inr None \<longleftrightarrow> bundle_current b now"
  by (auto simp: outside_bundle_time_def bundle_current_def bind_result_Inr_iff split: if_splits)

lemma in_frozenset_iff: "(if vs = [] then Inr True else in_frozenset v vs) = Inr True \<longleftrightarrow> listed vs v"
  by (auto simp: in_frozenset_def listed_def list_ex_iff)

lemma key_trusted_iff: "key_refusal k claims now = Inr None \<longleftrightarrow> key_trusted k claims now"
proof -
  have "(\<exists>w \<in> set (ky_allowed_profiles k). py_eq w (PStr TRUST_PROFILE)) \<longleftrightarrow> PStr TRUST_PROFILE \<in> set (ky_allowed_profiles k)" by auto
  then show ?thesis
    unfolding key_refusal_def key_trusted_def in_frozenset_iff [symmetric] list_ex_iff
    by (auto simp: bind_result_Inr_iff split: if_split_asm)
qed

text \<open>Acceptance and what the cache holds afterwards.\<close>

lemma verify_v2_cases:
  assumes "verify_dispatch_ticket_v2 te claims signature b bd now minimum cache = (cache', r)"
  shows "(\<exists>jti e. anchored te claims signature b bd now minimum jti e \<and>
      (case cache of
         None \<Rightarrow> ticket_accepted r \<and> cache' = None
       | Some seen \<Rightarrow> let live = filter (\<lambda>(_, x). now < x) seen
           in if map_of live jti = None then ticket_accepted r \<and> cache' = Some (AList.update jti e live)
              else \<not> ticket_accepted r \<and> cache' = Some live)) \<or>
    (\<forall>jti e. \<not> anchored te claims signature b bd now minimum jti e) \<and> \<not> ticket_accepted r \<and> cache' = cache"
proof (cases "\<exists>jti e. anchored te claims signature b bd now minimum jti e")
  case True
  then obtain jti e where a: "anchored te claims signature b bd now minimum jti e" by blast
  then show ?thesis
    using assms
    by (auto simp: verify_dispatch_ticket_v2_def anchored_def bundle_current_iff [symmetric] key_trusted_iff [symmetric] list_all_iff
        cache_contains_def cache_remember_def Let_def split: option.splits if_splits)
next
  case False
  then have "\<not> ticket_accepted r \<and> cache' = cache"
    using assms unfolding verify_dispatch_ticket_v2_def
    by (auto simp: anchored_def bundle_current_iff [symmetric] key_trusted_iff [symmetric] list_all_iff Let_def not_le not_less
        split: if_split_asm sum.split_asm option.split_asm pyval.split_asm prod.split_asm)
  with False show ?thesis by blast
qed

text \<open>Calls that share one replay cache.\<close>

record v2_call =
  vc_claims :: pydict
  vc_signature :: string
  vc_bundle :: trust_bundle
  vc_bindings :: ticket_bindings
  vc_now :: int
  vc_minimum :: int

definition v2_verify :: "trust_env \<Rightarrow> replay_cache \<Rightarrow> v2_call \<Rightarrow> replay_cache option \<times> (py_error + trust_decision)" where
  "v2_verify te seen c =
     verify_dispatch_ticket_v2 te (vc_claims c) (vc_signature c) (vc_bundle c) (vc_bindings c) (vc_now c) (vc_minimum c) (Some seen)"

fun v2_run :: "trust_env \<Rightarrow> replay_cache \<Rightarrow> v2_call list \<Rightarrow> bool list" where
  "v2_run te seen [] = []"
| "v2_run te seen (c # cs) =
     (case v2_verify te seen c of (seen', r) \<Rightarrow> ticket_accepted r # v2_run te (case seen' of None \<Rightarrow> seen | Some s \<Rightarrow> s) cs)"

lemma length_v2_run [simp]: "length (v2_run te seen cs) = length cs"
  by (induction te seen cs rule: v2_run.induct) (simp_all split: prod.split)

lemma map_of_live: "map_of seen j = Some e \<Longrightarrow> now < e \<Longrightarrow> map_of (filter (\<lambda>(_, x). now < x) seen) j = Some e"
  by (induction seen) (auto split: if_splits)

lemma v2_verify_keeps:
  assumes "v2_verify te seen c = (seen', r)" "map_of seen j = Some e" "vc_now c < (e :: int)"
  shows "\<exists>s. seen' = Some s \<and> map_of s j = Some e" "ticket_accepted r \<Longrightarrow> sget (vc_claims c) ''jti'' \<noteq> PStr j"
  using verify_v2_cases [OF assms(1) [unfolded v2_verify_def]] map_of_live [OF assms(2,3)] assms(2)
  by (auto simp: Let_def anchored_def update_conv split: if_splits)

lemma v2_verify_remembers:
  assumes "v2_verify te seen c = (seen', r)" "ticket_accepted r"
  shows "\<exists>jti e s. anchored te (vc_claims c) (vc_signature c) (vc_bundle c) (vc_bindings c) (vc_now c) (vc_minimum c) jti e \<and>
    seen' = Some s \<and> map_of s jti = Some e"
  using verify_v2_cases [OF assms(1) [unfolded v2_verify_def]] assms(2)
  by (auto simp: Let_def update_conv split: if_splits)

lemma v2_remembered:
  assumes "map_of seen j = Some e" "i < length cs" "\<forall>k \<le> i. vc_now (cs ! k) < e" "v2_run te seen cs ! i"
  shows "sget (vc_claims (cs ! i)) ''jti'' \<noteq> PStr j"
  using assms
proof (induction cs arbitrary: seen i)
  case (Cons c cs)
  obtain seen' r where v: "v2_verify te seen c = (seen', r)" by fastforce
  have "vc_now c < e" using Cons.prems(3) by (auto dest: spec [of _ 0])
  note keeps = v2_verify_keeps [OF v Cons.prems(1) this]
  then obtain s where s: "seen' = Some s" "map_of s j = Some e" by blast
  show ?case
  proof (cases i)
    case 0
    with Cons.prems(4) v keeps(2) show ?thesis by simp
  next
    case (Suc n)
    have "\<forall>k \<le> n. vc_now (cs ! k) < e" using Cons.prems(3) Suc by (metis Suc_le_mono nth_Cons_Suc)
    with Cons.IH [OF s(2), of n] Cons.prems(2,4) v s(1) Suc show ?thesis by simp
  qed
qed simp

subsection \<open>Properties\<close>


definition sample_bundle :: trust_bundle where
  "sample_bundle = \<lparr>tb_bundle_version = 3, tb_keys = [], tb_issuer = PNone, tb_valid_from = PNone, tb_valid_until = PNone\<rparr>"

definition sample_data :: pyval where
  "sample_data = PDict [(PStr ''bundle_version'', PInt 3), (PStr ''keys'', PList [])]"

definition sample_trust :: trust_env where
  "sample_trust =
     \<lparr>tv_dumps = (\<lambda>v. Inr (if v = sample_data then ''b'' else ''s'')),
      tv_loads = (\<lambda>b. Inr (if b = ''b'' then sorted_value sample_data else sorted_value
        (PDict [(PStr ''bundle_b64'', PStr (b64encode ''b'')), (PStr ''bundle_digest'', PStr ''sha256:d''), (PStr ''bundle_version'', PInt 3), (PStr ''high_water'', PInt 3)]))),
      tv_sha256 = (\<lambda>_. ''d''), tv_ed25519 = (\<lambda>_ _ _. True), tv_str = (\<lambda>_. []), tv_int = (\<lambda>_. None)\<rparr>"

definition sample_file :: trust_file where
  "sample_file = \<lparr>tf_regular = True, tf_owner_only = True, tf_bytes = ''s''\<rparr>"

lemma sample_writable: "writable sample_trust sample_bundle 3" "canonical_trust_bundle sample_trust sample_bundle = Inr ''b''"
proof -
  have ok: "bundle_ok sample_bundle" by (simp add: bundle_ok_def sample_bundle_def)
  have data: "bundle_data sample_bundle = Inr sample_data" by (simp add: bundle_data_def sample_bundle_def sample_data_def given_def)
  have state: "state_data sample_trust ''b'' 3 3 \<noteq> sample_data" by (simp add: state_data_def sample_data_def)
  show "writable sample_trust sample_bundle 3"
    unfolding writable_def
    by (intro conjI ok exI [of _ sample_data] exI [of _ "''b''"] exI [of _ "''s''"] data)
      (use state in \<open>simp_all add: sample_trust_def sample_bundle_def STATE_LIMIT_def state_data_def digest_of_def del: sorted_value.simps\<close>)
  show "canonical_trust_bundle sample_trust sample_bundle = Inr ''b''" by (simp add: canonical_trust_bundle_def data) (simp add: sample_trust_def)
qed

lemma sample_load:
  "\<exists>s. store_load sample_trust (Some sample_file) = Inr (Some s) \<and> version_of s = 3 \<and> sb_high_water s = 3"
proof -
  have "tb_bundle_version sample_bundle = 3" by (simp add: sample_bundle_def)
  moreover have "tv_dumps sample_trust (state_data sample_trust ''b'' 3 3) = Inr ''s''"
    by (simp add: sample_trust_def state_data_def sample_data_def)
  ultimately show ?thesis
    using written_load [OF sample_writable(1) _ _ sample_writable(2), of "''s''"]
    by (simp add: sample_file_def version_of_def normal_bundle_def)
qed



text \<open>C18: A ticket is good for one use: of two accepted tickets with one identifier, checked one after the other against one replay
  cache, the first has expired by the time the second is accepted.\<close>

theorem anchored_ticket_once:
  assumes "sorted (map vc_now cs)" "i < j" "j < length cs" "v2_run te seen cs ! i" "v2_run te seen cs ! j"
    "sget (vc_claims (cs ! i)) ''jti'' = sget (vc_claims (cs ! j)) ''jti''"
  shows "\<exists>e. int_value (tv_int te) (sget (vc_claims (cs ! i)) ''expires_at'') = Inr e \<and> e \<le> vc_now (cs ! j)"
  using assms
proof (induction cs arbitrary: seen i j)
  case (Cons c cs)
  obtain seen' r where v: "v2_verify te seen c = (seen', r)" by fastforce
  obtain n where j: "j = Suc n" using Cons.prems(2) by (cases j) auto
  show ?case
  proof (cases i)
    case 0
    then have acc: "ticket_accepted r" using Cons.prems(4) v by simp
    obtain x e s where x: "anchored te (vc_claims c) (vc_signature c) (vc_bundle c) (vc_bindings c) (vc_now c) (vc_minimum c) x e"
      "seen' = Some s" "map_of s x = Some e" using v2_verify_remembers [OF v acc] by blast
    have later: "v2_run te s cs ! n" using Cons.prems(5) v x(2) by (simp add: j)
    have "\<not> vc_now (cs ! n) < e"
    proof
      assume "vc_now (cs ! n) < e"
      then have "\<forall>k \<le> n. vc_now (cs ! k) < e"
        using Cons.prems(1,3) sorted_nth_mono [of "map vc_now cs"] by (fastforce simp: j)
      from v2_remembered [OF x(3) _ this later] Cons.prems(3,6) x(1) show False by (simp add: j 0 anchored_def)
    qed
    then show ?thesis using x(1) by (auto simp: 0 j anchored_def)
  next
    case (Suc m)
    with Cons.IH [of m n "case seen' of None \<Rightarrow> seen | Some s \<Rightarrow> s"] Cons.prems v show ?thesis by (simp add: j)
  qed
qed simp

definition sample_key :: trust_key where
  "sample_key = \<lparr>ky_key_id = ''k'', ky_public_key_b64url = ''AA'', ky_state = ''active'', ky_valid_from = 0, ky_valid_until = 100,
     ky_allowed_profiles = [PStr TRUST_PROFILE], ky_issuers = [], ky_audiences = []\<rparr>"

definition sample_call :: "int \<Rightarrow> int \<Rightarrow> v2_call" where
  "sample_call now expires_at =
     \<lparr>vc_claims = [(PStr ''profile'', PStr TRUST_PROFILE), (PStr ''issuer'', PStr ''d''), (PStr ''provider_id'', PStr ''p''), (PStr ''intent'', PStr ''i''),
        (PStr ''expires_at'', PInt expires_at), (PStr ''jti'', PStr ''j''), (PStr ''constraints_digest'', PStr ''x''), (PStr ''key_id'', PStr ''k'')],
      vc_signature = ''AA'', vc_bundle = sample_bundle\<lparr>tb_keys := [(''k'', sample_key)]\<rparr>,
      vc_bindings = \<lparr>bd_issuer = ''d'', bd_provider_id = ''p'', bd_intent = ''i'', bd_constraints_digest = ''x'', bd_audience = None\<rparr>,
      vc_now = now, vc_minimum = 1\<rparr>"

lemma sample_calls: "v2_run sample_trust [] [sample_call 10 20, sample_call 15 90, sample_call 20 40] = [True, False, True]"
  by code_simp

theorem anchored_ticket_once_witness:
  "\<exists>e. int_value (tv_int sample_trust) (sget (vc_claims (sample_call 10 20)) ''expires_at'') = Inr e \<and> e \<le> 20"
  using anchored_ticket_once [of "[sample_call 10 20, sample_call 15 90, sample_call 20 40]" 0 2 sample_trust "[]"]
  unfolding sample_calls by (simp add: sample_call_def)

end
