(* ===== verification/Mesh.thy ===== *)
theory Mesh
  imports Client_Checks Runtime_Identity "HOL-Library.Product_Lexorder"
begin

text \<open>
  The mesh layer: the peer table with gossip, persistence and relay election (\<open>peer_manager.py\<close>), the peer-exchange
  endpoint of the node (\<open>node.py\<close>) and the resolution of conflicting directory answers
  (\<open>proxy/clients/trust_resolver.py\<close>). A request to the directory or to a peer is an argument: what its answer was. SHA-256,
  the HMAC of \<open>pricing.sign_body\<close> and the parsing of numbers from text are parameters.
\<close>

record mesh_env =
  me_str :: "pyval \<Rightarrow> string"
  me_int :: "string \<Rightarrow> int option"
  me_float :: "string \<Rightarrow> real option"
  me_sha256 :: "string \<Rightarrow> string"
  me_sign :: "string \<Rightarrow> string \<Rightarrow> string"
  me_loads :: "string \<Rightarrow> pyval option"
  me_writable :: bool

subsection \<open>Dictionaries with dynamic keys\<close>

fun dget :: "(pyval \<times> 'a) list \<Rightarrow> pyval \<Rightarrow> 'a option" where
  "dget [] x = None"
| "dget ((k, v) # d) x = (if py_eq k x then Some v else dget d x)"

fun dput :: "(pyval \<times> 'a) list \<Rightarrow> pyval \<Rightarrow> 'a \<Rightarrow> (pyval \<times> 'a) list" where
  "dput [] k v = [(k, v)]"
| "dput ((k', v') # d) k v = (if py_eq k' k then (k', v) # d else (k', v') # dput d k v)"

definition setdefault :: "(pyval \<times> 'a) list \<Rightarrow> pyval \<Rightarrow> 'a \<Rightarrow> (pyval \<times> 'a) list" where
  "setdefault d k v = (if dget d k = None then dput d k v else d)"

fun float_value :: "(string \<Rightarrow> real option) \<Rightarrow> pyval \<Rightarrow> py_error + real" where
  "float_value parse (PInt i) = Inr (of_int i)"
| "float_value parse (PBool b) = Inr (if b then 1 else 0)"
| "float_value parse (PFloat r) = Inr r"
| "float_value parse (PStr s) = (case parse s of None \<Rightarrow> Inl (ValueError ''float'') | Some r \<Rightarrow> Inr r)"
| "float_value parse v = Inl TypeError"

subsection \<open>The peer table\<close>

text \<open>A peer's dictionary; \<open>last_contact\<close> is set by the manager only and kept apart.\<close>

record peer =
  pe_data :: pydict
  pe_last_contact :: time

record peer_manager =
  pm_node_token :: string
  pm_persist :: bool
  pm_peers :: "(pyval \<times> peer) list"
  pm_own_id :: string
  pm_relay_capable :: bool
  pm_relay_accept_port :: int
  pm_own_endpoint :: string
  pm_file :: "pyval option"

definition PEER_EXPIRY_S :: time where "PEER_EXPIRY_S = 90"

definition peer_dict :: "peer \<Rightarrow> pydict" where
  "peer_dict p = with_entry (pe_data p) ''last_contact'' (PFloat (pe_last_contact p))"

definition get_peers :: "peer_manager \<Rightarrow> pydict list" where
  "get_peers st = map (\<lambda>(_, p). peer_dict p) (pm_peers st)"

definition relay_target :: "peer_manager \<Rightarrow> pyval \<Rightarrow> py_error + pydict option" where
  "relay_target st node_id = (if hashable node_id then Inr (map_option peer_dict (dget (pm_peers st) node_id)) else Inl TypeError)"

definition merge_entry :: "mesh_env \<Rightarrow> string \<Rightarrow> time \<Rightarrow> (pyval \<times> peer) list \<Rightarrow> pyval \<Rightarrow> py_error + (pyval \<times> peer) list \<times> bool" where
  "merge_entry me own now peers p =
     (case p of
        PDict d \<Rightarrow>
          let nid = sget d ''node_id''
          in if \<not> truthy nid \<or> py_eq nid (PStr own) then Inr (peers, False)
             else if \<not> hashable nid then Inl TypeError
             else bind_result (int_value (me_int me) (get_or d ''relay_accept_port'' (PInt 9485))) (\<lambda>port.
                  bind_result (float_value (me_float me) (get_or d ''relay_load'' (PFloat 0))) (\<lambda>load.
                    Inr (dput peers nid
                      \<lparr>pe_data = [(PStr ''node_id'', nid), (PStr ''endpoint'', get_or d ''endpoint'' (PStr [])), (PStr ''region'', get_or d ''region'' (PStr [])),
                         (PStr ''last_seen'', get_or d ''last_seen'' (PStr [])), (PStr ''relay_capable'', PBool (truthy (get_or d ''relay_capable'' (PBool False)))),
                         (PStr ''relay_accept_port'', PInt port), (PStr ''relay_load'', PFloat load)],
                       pe_last_contact = now\<rparr>, dget peers nid = None)))
      | _ \<Rightarrow> Inl AttributeError)"

text \<open>The loop of \<open>merge_peers\<close>: the table when it ends or raises, the number of new peers, and the exception.\<close>

fun merge_list :: "mesh_env \<Rightarrow> string \<Rightarrow> time \<Rightarrow> (pyval \<times> peer) list \<Rightarrow> nat \<Rightarrow> pyval list \<Rightarrow> (pyval \<times> peer) list \<times> nat \<times> py_error option" where
  "merge_list me own now peers added [] = (peers, added, None)"
| "merge_list me own now peers added (p # ps) =
     (case merge_entry me own now peers p of
        Inl e \<Rightarrow> (peers, added, Some e)
      | Inr (peers', fresh) \<Rightarrow> merge_list me own now peers' (if fresh then added + 1 else added) ps)"

definition persist :: "mesh_env \<Rightarrow> peer_manager \<Rightarrow> peer_manager" where
  "persist me st = (if pm_persist st \<and> me_writable me then st\<lparr>pm_file := Some (PList (map PDict (get_peers st)))\<rparr> else st)"

definition merge_peers :: "mesh_env \<Rightarrow> time \<Rightarrow> peer_manager \<Rightarrow> pyval \<Rightarrow> peer_manager \<times> (py_error + nat)" where
  "merge_peers me now st incoming =
     (case py_elements incoming of
        None \<Rightarrow> (st, Inl TypeError)
      | Some ps \<Rightarrow>
          (case merge_list me (pm_own_id st) now (pm_peers st) 0 ps of
             (peers, added, Some e) \<Rightarrow> (st\<lparr>pm_peers := peers\<rparr>, Inl e)
           | (peers, added, None) \<Rightarrow>
               (let st' = st\<lparr>pm_peers := peers\<rparr> in (if added \<noteq> 0 then persist me st' else st'), Inr added)))"

subsection \<open>Relay election\<close>

definition get_relay_candidates :: "peer_manager \<Rightarrow> peer list" where
  "get_relay_candidates st =
     filter (\<lambda>p. truthy (sget (pe_data p) ''relay_capable'') \<and> truthy (sget (pe_data p) ''endpoint'')) (map snd (pm_peers st))"

definition score :: "mesh_env \<Rightarrow> string \<Rightarrow> peer \<Rightarrow> pyval list" where
  "score me worker_id p =
     [get_or (pe_data p) ''relay_load'' (PFloat 0),
      PStr (me_sha256 me (worker_id @ '':'' @ py_str (me_str me) (sget (pe_data p) ''node_id'')))]"

text \<open>\<open>min(candidates, key=...)\<close>: the first one with a least key.\<close>

fun least :: "('a \<Rightarrow> pyval list) \<Rightarrow> 'a \<Rightarrow> 'a list \<Rightarrow> py_error + 'a" where
  "least key best [] = Inr best"
| "least key best (p # ps) = bind_result (py_less_list (key p) (key best)) (\<lambda>lt. least key (if lt then p else best) ps)"

text \<open>\<open>parsed.hostname or parsed.path\<close> of \<open>urlparse(endpoint)\<close>.\<close>

definition PARAM_SCHEMES :: "string list" where
  "PARAM_SCHEMES = ['''', ''ftp'', ''hdl'', ''prospero'', ''http'', ''https'', ''imap'', ''shttp'', ''rtsp'', ''rtsps'', ''rtspu'', ''sip'', ''sips'', ''mms'', ''sftp'', ''tel'']"

definition without_params :: "string \<Rightarrow> string" where
  "without_params path =
     (let tail = rev (takeWhile (\<lambda>c. c \<noteq> CHR ''/'') (rev path)); front = take (length path - length tail) path
      in front @ takeWhile (\<lambda>c. c \<noteq> CHR '';'') tail)"

definition url_path :: "string \<Rightarrow> string" where
  "url_path url =
     (let clean = filter (\<lambda>c. c \<notin> {CHR 0x09, CHR 0x0A, CHR 0x0D}) (dropWhile (\<lambda>c. (of_char c :: nat) \<le> 32) url);
          (scheme, rest) = split_scheme clean;
          after_netloc = (if take 2 rest = ''//'' then dropWhile (\<lambda>c. c \<notin> set ''/?#'') (drop 2 rest) else rest);
          path = takeWhile (\<lambda>c. c \<notin> set ''?#'') after_netloc
      in if scheme \<in> set PARAM_SCHEMES then without_params path else path)"

definition relay_host :: "pyval \<Rightarrow> py_error + string" where
  "relay_host endpoint =
     (case endpoint of
        PStr url \<Rightarrow> bind_result (urlparse url) (\<lambda>u. Inr (case url_hostname u of Some h \<Rightarrow> h | None \<Rightarrow> url_path url))
      | _ \<Rightarrow> Inl TypeError)"

definition elect_relay :: "mesh_env \<Rightarrow> peer_manager \<Rightarrow> string \<Rightarrow> py_error + pydict option" where
  "elect_relay me st worker_id =
     (case get_relay_candidates st of
        [] \<Rightarrow> Inr None
      | c # cs \<Rightarrow>
          bind_result (least (score me worker_id) c cs) (\<lambda>elected.
          bind_result (relay_host (sget (pe_data elected) ''endpoint'')) (\<lambda>host.
            Inr (Some (with_entry (with_entry (peer_dict elected) ''_relay_host'' (PStr host)) ''_relay_port''
              (get_or (pe_data elected) ''relay_accept_port'' (PInt 9485)))))))"

definition prune :: "time \<Rightarrow> peer_manager \<Rightarrow> peer_manager \<times> nat" where
  "prune now st =
     (let cutoff = now - PEER_EXPIRY_S; stale = (\<lambda>(_, p). pe_last_contact p < cutoff)
      in (st\<lparr>pm_peers := filter (\<lambda>e. \<not> stale e) (pm_peers st)\<rparr>, length (filter stale (pm_peers st))))"

definition verify_exchange :: "mesh_env \<Rightarrow> peer_manager \<Rightarrow> string \<Rightarrow> string option \<Rightarrow> bool" where
  "verify_exchange me st body signature =
     (pm_node_token st = [] \<or>
      (case signature of None \<Rightarrow> False | Some s \<Rightarrow> s \<noteq> [] \<and> me_sign me body (pm_node_token st) = s))"

subsection \<open>Bootstrap and gossip\<close>

datatype mesh_answer = No_Answer | Not_Success | Success "pyval option"

definition answer_peers :: "pyval option \<Rightarrow> py_error + pyval" where
  "answer_peers body =
     (case body of
        None \<Rightarrow> Inl (ValueError ''JSON'')
      | Some (PDict d) \<Rightarrow> Inr (get_or d ''peers'' (PList []))
      | Some _ \<Rightarrow> Inl AttributeError)"

definition bootstrap :: "mesh_env \<Rightarrow> time \<Rightarrow> mesh_answer \<Rightarrow> peer_manager \<Rightarrow> peer_manager" where
  "bootstrap me now answer st =
     (case answer of
        Success body \<Rightarrow> (case answer_peers body of Inl _ \<Rightarrow> st | Inr ps \<Rightarrow> fst (merge_peers me now st ps))
      | _ \<Rightarrow> st)"

fun load_list :: "string \<Rightarrow> time \<Rightarrow> (pyval \<times> peer) list \<Rightarrow> pyval list \<Rightarrow> (pyval \<times> peer) list" where
  "load_list own now peers [] = peers"
| "load_list own now peers (p # ps) =
     (case p of
        PDict d \<Rightarrow>
          let nid = sget d ''node_id''
          in if truthy nid \<and> \<not> py_eq nid (PStr own)
             then (if hashable nid then load_list own now (dput peers nid \<lparr>pe_data = d, pe_last_contact = now\<rparr>) ps else peers)
             else load_list own now peers ps
      | _ \<Rightarrow> peers)"

definition load_persisted :: "time \<Rightarrow> peer_manager \<Rightarrow> peer_manager" where
  "load_persisted now st =
     (case (if pm_persist st then pm_file st else None) of
        None \<Rightarrow> st
      | Some raw \<Rightarrow>
          (case py_elements raw of None \<Rightarrow> st | Some ps \<Rightarrow> st\<lparr>pm_peers := load_list (pm_own_id st) now (pm_peers st) ps\<rparr>))"

definition start :: "mesh_env \<Rightarrow> time \<Rightarrow> mesh_answer \<Rightarrow> string \<Rightarrow> string \<Rightarrow> peer_manager \<Rightarrow> peer_manager" where
  "start me now answer node_id own_endpoint st =
     bootstrap me now answer (load_persisted now (st\<lparr>pm_own_id := node_id, pm_own_endpoint := own_endpoint\<rparr>))"

definition exchange_body :: "peer_manager \<Rightarrow> pyval" where
  "exchange_body st =
     PDict [(PStr ''known_peers'', PList (map PDict (get_peers st) @
       (if pm_own_id st = [] then []
        else [PDict [(PStr ''node_id'', PStr (pm_own_id st)), (PStr ''endpoint'', PStr (pm_own_endpoint st)),
                (PStr ''relay_capable'', PBool (pm_relay_capable st)), (PStr ''relay_accept_port'', PInt (pm_relay_accept_port st)),
                (PStr ''relay_load'', PFloat 0)]])))]"

definition set_contact :: "pyval \<Rightarrow> time \<Rightarrow> peer_manager \<Rightarrow> peer_manager" where
  "set_contact nid t st = st\<lparr>pm_peers := map (\<lambda>(k, p). (k, if py_eq k nid then p\<lparr>pe_last_contact := t\<rparr> else p)) (pm_peers st)\<rparr>"

text \<open>What an exchange does when a step of it raises: the message cuts the identifier, which only a text or a byte string allows.\<close>

definition exchange_failed :: "pyval \<Rightarrow> peer_manager \<Rightarrow> peer_manager \<times> py_error option" where
  "exchange_failed nid st =
     (case nid of PStr _ \<Rightarrow> (set_contact nid 0 st, None) | PBytes _ \<Rightarrow> (set_contact nid 0 st, None) | _ \<Rightarrow> (st, Some TypeError))"

definition exchange :: "mesh_env \<Rightarrow> time \<Rightarrow> time \<Rightarrow> mesh_answer \<Rightarrow> peer \<Rightarrow> peer_manager \<Rightarrow> peer_manager \<times> py_error option" where
  "exchange me now now' answer target st =
     (let nid = sget (pe_data target) ''node_id''
      in if \<not> is_str (sget (pe_data target) ''endpoint'') then exchange_failed nid st
         else case answer of
             No_Answer \<Rightarrow> exchange_failed nid st
           | Not_Success \<Rightarrow> (st, None)
           | Success body \<Rightarrow>
               (case answer_peers body of
                  Inl _ \<Rightarrow> exchange_failed nid st
                | Inr ps \<Rightarrow>
                    (case merge_peers me now st ps of
                       (st', Inl _) \<Rightarrow> exchange_failed nid st'
                     | (st', Inr _) \<Rightarrow> (set_contact nid now' st', None))))"

definition gossip_round ::
  "mesh_env \<Rightarrow> time \<Rightarrow> time \<Rightarrow> time \<Rightarrow> nat \<Rightarrow> mesh_answer \<Rightarrow> peer_manager \<Rightarrow> peer_manager \<times> py_error option" where
  "gossip_round me now now' later choice answer st =
     (case pm_peers st of
        [] \<Rightarrow> (bootstrap me now answer st, None)
      | _ \<Rightarrow>
          (case exchange me now now' answer (snd (pm_peers st ! (choice mod length (pm_peers st)))) st of
             (st', Some e) \<Rightarrow> (st', Some e)
           | (st', None) \<Rightarrow> (fst (prune later st'), None)))"

text \<open>The endpoint \<open>POST /v1/peers\<close> of a node: its status, with the peers it answers.\<close>

definition node_peers :: "mesh_env \<Rightarrow> time \<Rightarrow> string \<Rightarrow> string option \<Rightarrow> peer_manager \<Rightarrow> peer_manager \<times> (py_error + nat \<times> pyval option)" where
  "node_peers me now raw signature st =
     (if \<not> verify_exchange me st raw signature then (st, Inr (401, None))
      else case me_loads me raw of
          None \<Rightarrow> (st, Inr (400, None))
        | Some (PDict d) \<Rightarrow>
            let answer = (\<lambda>s. Inr (200, Some (PDict [(PStr ''peers'', PList (map PDict (get_peers s)))])))
            in (case get_or d ''known_peers'' (PList []) of
                  PList ps \<Rightarrow>
                    (case merge_peers me now st (PList (filter is_dict ps)) of
                       (st', Inl e) \<Rightarrow> (st', Inl e)
                     | (st', Inr _) \<Rightarrow> (st', answer st'))
                | _ \<Rightarrow> (st, answer st))
        | Some _ \<Rightarrow> (st, Inl AttributeError))"

subsection \<open>Conflicting directory answers\<close>

type_synonym observation = "pydict \<times> int \<times> string"

definition tier_rank :: "string \<Rightarrow> nat" where
  "tier_rank tier = (case map_of [(''low'', 0), (''medium'', 1), (''high'', 2)] tier of None \<Rightarrow> 0 | Some r \<Rightarrow> r)"

definition observation_key :: "observation \<Rightarrow> int \<times> nat" where
  "observation_key o' = (case o' of (_, seq, tier) \<Rightarrow> (seq, tier_rank tier))"

text \<open>\<open>sorted(..., reverse=True)\<close> keeps the order of equal elements.\<close>

definition winning_replica :: "observation list \<Rightarrow> pydict" where
  "winning_replica obs = (case rev (sort_key observation_key (rev obs)) of [] \<Rightarrow> [] | o' # _ \<Rightarrow> fst o')"

definition resolve_node_conflict :: "pydict \<Rightarrow> observation list \<Rightarrow> pydict list \<Rightarrow> pydict" where
  "resolve_node_conflict seed obs gossip =
     (let gossiped = foldl (\<lambda>m g. foldl (\<lambda>m (k, v). setdefault m k v) m g) [] gossip;
          replicated = foldl (\<lambda>m (k, v). dput m k v) gossiped (winning_replica obs)
      in foldl (\<lambda>m (k, v). dput m k v) replicated seed)"

fun ingest :: "(pyval \<times> unit) list \<Rightarrow> pydict list \<Rightarrow> py_error + (pyval \<times> unit) list" where
  "ingest ids [] = Inr ids"
| "ingest ids (n # ns) =
     (let nid = sget n ''node_id''
      in if \<not> truthy nid then ingest ids ns
         else if \<not> hashable nid then Inl TypeError
         else ingest (setdefault ids nid ()) ns)"

definition has_id :: "pyval \<Rightarrow> pydict \<Rightarrow> bool" where
  "has_id nid n = py_eq (sget n ''node_id'') nid"

definition replica_observations :: "pyval \<Rightarrow> (pydict list \<times> int \<times> string) list \<Rightarrow> observation list" where
  "replica_observations nid snapshots =
     List.map_filter (\<lambda>(snap, seq, tier). map_option (\<lambda>n. (n, seq, tier)) (find (has_id nid) snap)) snapshots"

definition resolve_discovery_set :: "pydict list \<Rightarrow> (pydict list \<times> int \<times> string) list \<Rightarrow> pydict list \<Rightarrow> py_error + pydict list" where
  "resolve_discovery_set seeds snapshots gossip =
     bind_result (ingest [] (seeds @ concat (map fst snapshots) @ gossip)) (\<lambda>ids.
       Inr (filter (\<lambda>m. m \<noteq> []) (map (\<lambda>(nid, _).
         resolve_node_conflict (case find (has_id nid) seeds of None \<Rightarrow> [] | Some n \<Rightarrow> n)
           (replica_observations nid snapshots) (filter (has_id nid) gossip)) ids)))"

subsection \<open>The registry of replicas (\<open>proxy/clients/replica_registry.py\<close>)\<close>

definition REQUIRED_FIELDS :: "string list" where
  "REQUIRED_FIELDS = [''replica_id'', ''did'', ''endpoint'', ''trust_tier'', ''registered_at'']"

definition VALID_TIERS :: "string list" where
  "VALID_TIERS = [''low'', ''medium'', ''high'']"

record replica_registry =
  rg_ttl_s :: time
  rg_cache_at :: time
  rg_entries :: "(string \<times> pydict) list"

fun registry_entries :: "mesh_env \<Rightarrow> (string \<times> pydict) list \<Rightarrow> pyval list \<Rightarrow> py_error + (string \<times> pydict) list" where
  "registry_entries me new [] = Inr new"
| "registry_entries me new (e # es) =
     (case e of
        PDict d \<Rightarrow>
          if \<not> list_all (\<lambda>f. py_find d (PStr f) \<noteq> None) REQUIRED_FIELDS then registry_entries me new es
          else bind_result (in_set (sget d ''trust_tier'') VALID_TIERS) (\<lambda>valid.
            if \<not> valid then registry_entries me new es
            else let endpoint = rstrip_char (CHR ''/'') (py_str (me_str me) (sget d ''endpoint''))
              in if starts_with endpoint ''https://'' then registry_entries me (AList.update endpoint d new) es
                 else registry_entries me new es)
      | _ \<Rightarrow> registry_entries me new es)"

text \<open>The answer to the request for the registry: none, or a status with its JSON body.\<close>

definition registry_refresh ::
  "mesh_env \<Rightarrow> time \<Rightarrow> (nat \<times> pyval option) option \<Rightarrow> replica_registry \<Rightarrow> replica_registry \<times> (py_error + int)" where
  "registry_refresh me now answer rg =
     (case answer of
        None \<Rightarrow> (rg, Inr (- 1))
      | Some (status, body) \<Rightarrow>
          if status \<noteq> 200 then (rg, Inr (- 1))
          else case body of
              None \<Rightarrow> (rg, Inr (- 1))
            | Some (PDict doc) \<Rightarrow>
                if py_str (me_str me) (get_or doc ''schema_version'' (PStr [])) \<noteq> ''2'' then (rg, Inr (- 1))
                else (case py_elements (get_or doc ''replicas'' (PList [])) of
                        None \<Rightarrow> (rg, Inl TypeError)
                      | Some es \<Rightarrow>
                          (case registry_entries me [] es of
                             Inl x \<Rightarrow> (rg, Inl x)
                           | Inr new \<Rightarrow> (rg\<lparr>rg_entries := new, rg_cache_at := now\<rparr>, Inr (int (length new)))))
            | Some _ \<Rightarrow> (rg, Inl AttributeError))"

definition host_key :: "string \<Rightarrow> py_error + string option" where
  "host_key endpoint =
     bind_result (urlparse endpoint) (\<lambda>parsed.
       case url_hostname parsed of
         None \<Rightarrow> Inr None
       | Some host \<Rightarrow>
           bind_result (url_port parsed) (\<lambda>port.
             Inr (Some (u_scheme parsed @ ''://'' @ host @
               (case port of None \<Rightarrow> [] | Some n \<Rightarrow> if n \<noteq> 0 \<and> n \<noteq> 443 then '':'' @ int_text (int n) else [])))))"

definition cached_entry :: "replica_registry \<Rightarrow> string \<Rightarrow> py_error + pydict option" where
  "cached_entry rg endpoint =
     bind_result (host_key endpoint) (\<lambda>key. Inr (case key of None \<Rightarrow> None | Some k \<Rightarrow> map_of (rg_entries rg) k))"

definition registry_lookup ::
  "mesh_env \<Rightarrow> time \<Rightarrow> (nat \<times> pyval option) option \<Rightarrow> replica_registry \<Rightarrow> string \<Rightarrow> replica_registry \<times> (py_error + pydict option)" where
  "registry_lookup me now answer rg endpoint =
     (if now - rg_cache_at rg > rg_ttl_s rg
      then (case registry_refresh me now answer rg of (rg', Inl e) \<Rightarrow> (rg', Inl e) | (rg', Inr _) \<Rightarrow> (rg', cached_entry rg' endpoint))
      else (rg, cached_entry rg endpoint))"

definition trust_tier_of :: "replica_registry \<Rightarrow> string \<Rightarrow> py_error + pyval" where
  "trust_tier_of rg endpoint =
     bind_result (cached_entry rg endpoint) (\<lambda>e. Inr (case e of None \<Rightarrow> PStr ''low'' | Some d \<Rightarrow> get_or d ''trust_tier'' (PStr ''low'')))"

subsection \<open>Facts: dictionaries\<close>

definition distinct_keys :: "(pyval \<times> 'a) list \<Rightarrow> bool" where
  "distinct_keys d \<longleftrightarrow> sorted_wrt (\<lambda>a b. \<not> py_eq a b) (map fst d)"

lemma dget_None: "dget d k = None \<longleftrightarrow> (\<forall>a \<in> set (map fst d). \<not> py_eq a k)"
  by (induction d k rule: dget.induct) auto

lemma dput_keys: "map fst (dput d k v) = (if dget d k = None then map fst d @ [k] else map fst d)"
  by (induction d k v rule: dput.induct) auto

lemma dput_entries: "e \<in> set (dput d k v) \<Longrightarrow> e \<in> set d \<or> snd e = v \<and> (fst e = k \<or> fst e \<in> fst ` set d \<and> py_eq (fst e) k)"
  by (induction d k v rule: dput.induct) (auto split: if_splits)

lemma dput_distinct: "distinct_keys d \<Longrightarrow> distinct_keys (dput d k v)"
  by (auto simp: distinct_keys_def dput_keys sorted_wrt_append dget_None)

lemma dput_length: "length (dput d k v) = (if dget d k = None then Suc (length d) else length d)"
  using dput_keys [of d k v, THEN arg_cong, of length] by simp

lemma dget_dput_text: "dget (dput d k v) (PStr f) = (if k = PStr f then Some v else dget d (PStr f))"
  by (induction d k v rule: dput.induct) auto

lemma dget_py_find: "dget d x = py_find d x"
  by (induction d) auto

subsection \<open>Facts: the peer table\<close>

definition entry_ok :: "string \<Rightarrow> pyval \<times> peer \<Rightarrow> bool" where
  "entry_ok own e \<longleftrightarrow> truthy (fst e) \<and> fst e \<noteq> PStr own \<and> py_eq (fst e) (sget (pe_data (snd e)) ''node_id'')"

definition table_ok :: "string \<Rightarrow> (pyval \<times> peer) list \<Rightarrow> bool" where
  "table_ok own peers \<longleftrightarrow> distinct_keys peers \<and> (\<forall>e \<in> set peers. entry_ok own e)"

lemma entry_replaced:
  assumes "entry_ok own (k, q)" "py_eq k nid" "sget (pe_data p) ''node_id'' = nid"
  shows "entry_ok own (k, p)"
  using assms by (simp add: entry_ok_def)

lemma table_put:
  assumes "table_ok own peers" "truthy nid" "\<not> py_eq nid (PStr own)" "sget (pe_data p) ''node_id'' = nid"
  shows "table_ok own (dput peers nid p)"
proof -
  have "entry_ok own e" if e: "e \<in> set (dput peers nid p)" for e
  proof (cases "e \<in> set peers")
    case False
    then have v: "snd e = p" and k: "fst e = nid \<or> fst e \<in> fst ` set peers \<and> py_eq (fst e) nid" using dput_entries [OF e] by auto
    from k show ?thesis
    proof
      assume "fst e = nid"
      with v assms(2-4) show ?thesis by (simp add: entry_ok_def)
    next
      assume old: "fst e \<in> fst ` set peers \<and> py_eq (fst e) nid"
      then obtain q where "(fst e, q) \<in> set peers" by auto
      with assms(1) have "entry_ok own (fst e, q)" by (auto simp: table_ok_def)
      from entry_replaced [OF this _ assms(4)] old v show ?thesis by (metis prod.collapse)
    qed
  qed (use assms(1) in \<open>simp add: table_ok_def\<close>)
  with assms(1) show ?thesis by (simp add: table_ok_def dput_distinct)
qed

lemma merge_entry_ok:
  assumes "table_ok own peers" "merge_entry me own now peers p = Inr (peers', fresh)"
  shows "table_ok own peers' \<and> length peers' = length peers + (if fresh then 1 else 0)"
proof (cases p)
  case (PDict d)
  with assms show ?thesis
    by (auto simp: merge_entry_def bind_result_Inr_iff Let_def dput_length intro!: table_put split: if_splits)
qed (use assms in \<open>simp_all add: merge_entry_def\<close>)

lemma merge_list_ok:
  "table_ok own peers \<Longrightarrow> merge_list me own now peers n ps = (peers', m, e) \<Longrightarrow> table_ok own peers' \<and> length peers' + n = length peers + m"
proof (induction ps arbitrary: peers n)
  case (Cons p ps)
  show ?case
  proof (cases "merge_entry me own now peers p")
    case (Inr r)
    then obtain q b where r: "merge_entry me own now peers p = Inr (q, b)" by (cases r) auto
    note ok = merge_entry_ok [OF Cons.prems(1) r]
    with Cons.IH [of q "if b then n + 1 else n"] Cons.prems(2) r show ?thesis by (auto split: if_splits)
  qed (use Cons.prems in auto)
qed auto

lemma persist_table [simp]: "pm_peers (persist me st) = pm_peers st" "pm_own_id (persist me st) = pm_own_id st"
  by (simp_all add: persist_def)

lemma merge_peers_ok:
  assumes "table_ok (pm_own_id st) (pm_peers st)" "merge_peers me now st v = (st', r)"
  shows "pm_own_id st' = pm_own_id st \<and> table_ok (pm_own_id st) (pm_peers st') \<and> (\<forall>n. r = Inr n \<longrightarrow> length (pm_peers st') = length (pm_peers st) + n)"
proof (cases "py_elements v")
  case None
  with assms show ?thesis by (auto simp: merge_peers_def)
next
  case (Some ps)
  obtain peers added e where m: "merge_list me (pm_own_id st) now (pm_peers st) 0 ps = (peers, added, e)" by (metis prod_cases3)
  from merge_list_ok [OF assms(1) m] assms(2) show ?thesis
    by (cases e) (auto simp: merge_peers_def Some m Let_def)
qed

lemma merged_ok:
  assumes "table_ok (pm_own_id st) (pm_peers st)"
  shows "pm_own_id (fst (merge_peers me now st v)) = pm_own_id st \<and> table_ok (pm_own_id st) (pm_peers (fst (merge_peers me now st v)))"
  using merge_peers_ok [OF assms, of me now v] by (metis prod.collapse)

lemma load_list_ok: "table_ok own peers \<Longrightarrow> table_ok own (load_list own now peers ps)"
proof (induction ps arbitrary: peers)
  case (Cons p ps)
  show ?case
  proof (cases p)
    case (PDict d)
    have "table_ok own (dput peers (sget d ''node_id'') \<lparr>pe_data = d, pe_last_contact = now\<rparr>)"
      if "truthy (sget d ''node_id'')" "\<not> py_eq (sget d ''node_id'') (PStr own)"
      by (rule table_put [OF Cons.prems that]) simp
    with Cons PDict show ?thesis by (simp add: Let_def)
  qed (use Cons.prems in simp_all)
qed simp

lemma bootstrap_ok:
  assumes "table_ok (pm_own_id st) (pm_peers st)"
  shows "pm_own_id (bootstrap me now a st) = pm_own_id st \<and> table_ok (pm_own_id st) (pm_peers (bootstrap me now a st))"
  using merged_ok [OF assms] assms
  by (simp add: bootstrap_def split: mesh_answer.split sum.split)

lemma set_contact_ok:
  assumes "table_ok own (pm_peers st)"
  shows "table_ok own (pm_peers (set_contact nid t st))" "pm_own_id (set_contact nid t st) = pm_own_id st"
proof -
  have "map fst (pm_peers (set_contact nid t st)) = map fst (pm_peers st)" by (auto simp: set_contact_def)
  moreover have "\<forall>e \<in> set (pm_peers (set_contact nid t st)). entry_ok own e"
    using assms by (auto simp: table_ok_def entry_ok_def set_contact_def)
  ultimately show "table_ok own (pm_peers (set_contact nid t st))" using assms unfolding table_ok_def distinct_keys_def by (simp only:)
  show "pm_own_id (set_contact nid t st) = pm_own_id st" by (simp add: set_contact_def)
qed

lemma exchange_failed_ok:
  "table_ok own (pm_peers st) \<Longrightarrow>
   pm_own_id (fst (exchange_failed nid st)) = pm_own_id st \<and> table_ok own (pm_peers (fst (exchange_failed nid st)))"
  by (cases nid) (simp_all add: exchange_failed_def set_contact_ok)

lemma exchange_ok:
  assumes "table_ok (pm_own_id st) (pm_peers st)"
  shows "pm_own_id (fst (exchange me now now' a target st)) = pm_own_id st \<and>
    table_ok (pm_own_id st) (pm_peers (fst (exchange me now now' a target st)))"
proof -
  have merged: "pm_own_id st' = pm_own_id st" "table_ok (pm_own_id st) (pm_peers st')" if "merge_peers me now st v = (st', r)" for v st' r
    using merge_peers_ok [OF assms that] by auto
  show ?thesis
    using exchange_failed_ok [of "pm_own_id st"] assms merged set_contact_ok [of "pm_own_id st"]
    by (simp add: exchange_def Let_def split: mesh_answer.split sum.split prod.split)
qed

lemma prune_ok: "table_ok own (pm_peers st) \<Longrightarrow> table_ok own (pm_peers (fst (prune now st)))"
  by (auto simp: prune_def table_ok_def distinct_keys_def Let_def sorted_wrt_map sorted_wrt_filter)

lemma prune_own: "pm_own_id (fst (prune now st)) = pm_own_id st"
  by (simp add: prune_def Let_def)

lemma gossip_ok:
  assumes "table_ok (pm_own_id st) (pm_peers st)"
  shows "pm_own_id (fst (gossip_round me t1 t2 t3 c a st)) = pm_own_id st \<and>
    table_ok (pm_own_id st) (pm_peers (fst (gossip_round me t1 t2 t3 c a st)))"
proof (cases "pm_peers st")
  case Nil
  with bootstrap_ok [OF assms] show ?thesis by (simp add: gossip_round_def)
next
  case (Cons q qs)
  let ?target = "snd (pm_peers st ! (c mod length (pm_peers st)))"
  obtain s e where s: "exchange me t1 t2 a ?target st = (s, e)" by fastforce
  have "fst (gossip_round me t1 t2 t3 c a st) = (case e of None \<Rightarrow> fst (prune t3 s) | Some _ \<Rightarrow> s)"
    using s Cons unfolding gossip_round_def by (simp split: option.split)
  with exchange_ok [OF assms, of me t1 t2 a ?target] s prune_ok [of "pm_own_id st" s t3] prune_own [of t3 s]
  show ?thesis by (simp split: option.split)
qed

lemma node_peers_ok:
  assumes "table_ok (pm_own_id st) (pm_peers st)"
  shows "pm_own_id (fst (node_peers me now raw sig st)) = pm_own_id st \<and> table_ok (pm_own_id st) (pm_peers (fst (node_peers me now raw sig st)))"
proof -
  have merged: "pm_own_id st' = pm_own_id st" "table_ok (pm_own_id st) (pm_peers st')" if "merge_peers me now st v = (st', r)" for v st' r
    using merge_peers_ok [OF assms that] by auto
  show ?thesis
    using merged assms by (simp add: node_peers_def Let_def split: option.split pyval.split prod.split sum.split)
qed

text \<open>The states a manager passes through after its start as node \<open>own\<close>: rounds of gossip, exchanges that peers begin, and
  prunings, in any order, with any clock and any answers.\<close>

inductive mesh_reachable :: "mesh_env \<Rightarrow> string \<Rightarrow> peer_manager \<Rightarrow> bool" for me own where
  mesh_start: "pm_peers st = [] \<Longrightarrow> mesh_reachable me own (start me now answer own endpoint st)"
| mesh_gossip: "mesh_reachable me own st \<Longrightarrow> mesh_reachable me own (fst (gossip_round me t1 t2 t3 choice answer st))"
| mesh_peers: "mesh_reachable me own st \<Longrightarrow> mesh_reachable me own (fst (node_peers me now raw sig st))"
| mesh_prune: "mesh_reachable me own st \<Longrightarrow> mesh_reachable me own (fst (prune now st))"

lemma start_ok:
  assumes "pm_peers st = []"
  shows "pm_own_id (start me now a own endpoint st) = own \<and> table_ok own (pm_peers (start me now a own endpoint st))"
proof -
  define s where "s = load_persisted now (st\<lparr>pm_own_id := own, pm_own_endpoint := endpoint\<rparr>)"
  have empty: "table_ok own []" by (simp add: table_ok_def distinct_keys_def)
  have "pm_own_id s = own \<and> table_ok own (pm_peers s)"
    using load_list_ok [OF empty] empty assms by (simp add: s_def load_persisted_def split: option.split)
  then show ?thesis using bootstrap_ok [of s] by (simp add: start_def s_def)
qed

lemma reachable_table: "mesh_reachable me own st \<Longrightarrow> pm_own_id st = own \<and> table_ok own (pm_peers st)"
proof (induction rule: mesh_reachable.induct)
  case mesh_start
  then show ?case by (rule start_ok)
next
  case mesh_gossip
  then show ?case using gossip_ok by metis
next
  case mesh_peers
  then show ?case using node_peers_ok by metis
next
  case mesh_prune
  then show ?case using prune_ok prune_own by metis
qed

lemma gossip_fresh:
  assumes "gossip_round me t1 t2 t3 c a st = (st', None)" "pm_peers st \<noteq> []" "(k, p) \<in> set (pm_peers st')"
  shows "t3 - PEER_EXPIRY_S \<le> pe_last_contact p"
  using assms by (auto simp: gossip_round_def prune_def Let_def split: list.splits prod.splits option.splits)

subsection \<open>Facts: election\<close>

definition load_known :: "peer \<Rightarrow> bool" where
  "load_known p \<longleftrightarrow> (\<exists>r. get_or (pe_data p) ''relay_load'' (PFloat 0) = PFloat r)"

definition peer_load :: "peer \<Rightarrow> real" where
  "peer_load p = (case get_or (pe_data p) ''relay_load'' (PFloat 0) of PFloat r \<Rightarrow> r | _ \<Rightarrow> 0)"

definition rank :: "mesh_env \<Rightarrow> string \<Rightarrow> peer \<Rightarrow> real \<times> string" where
  "rank me w p = (peer_load p, me_sha256 me (w @ '':'' @ py_str (me_str me) (sget (pe_data p) ''node_id'')))"

lemma score_order:
  "load_known p \<Longrightarrow> load_known q \<Longrightarrow> py_less_list (score me w p) (score me w q) = Inr (rank me w p < rank me w q)"
  by (auto simp: load_known_def score_def rank_def peer_load_def py_eq.simps less_prod_simp)

lemma least_rank:
  "\<forall>p \<in> set (c # cs). load_known p \<Longrightarrow> \<exists>e. least (score me w) c cs = Inr e \<and> e \<in> set (c # cs) \<and> (\<forall>p \<in> set (c # cs). rank me w e \<le> rank me w p)"
proof (induction cs arbitrary: c)
  case (Cons p cs)
  define b where "b = (if rank me w p < rank me w c then p else c)"
  have known: "load_known p" "load_known c" "\<forall>q \<in> set (b # cs). load_known q" using Cons.prems by (auto simp: b_def)
  obtain e where e: "least (score me w) b cs = Inr e" "e \<in> set (b # cs)" "\<forall>q \<in> set (b # cs). rank me w e \<le> rank me w q"
    using Cons.IH [OF known(3)] by blast
  have "rank me w b \<le> rank me w p" "rank me w b \<le> rank me w c" by (auto simp: b_def)
  with e(3) have "rank me w e \<le> rank me w p" "rank me w e \<le> rank me w c" by (force intro: order_trans)+
  moreover have "least (score me w) c (p # cs) = Inr e" using e(1) by (simp add: score_order [OF known(1,2)] b_def)
  ultimately show ?case using e(2,3) by (auto simp: b_def split: if_splits)
qed simp

text \<open>The peer with the least rank is the one elected.\<close>

lemma elect_least:
  assumes "\<forall>p \<in> set (get_relay_candidates st). load_known p" "inj_on (rank me w) (set (get_relay_candidates st))"
    "e \<in> set (get_relay_candidates st)" "\<forall>p \<in> set (get_relay_candidates st). rank me w e \<le> rank me w p"
  shows "elect_relay me st w = bind_result (relay_host (sget (pe_data e) ''endpoint'')) (\<lambda>host.
    Inr (Some (with_entry (with_entry (peer_dict e) ''_relay_host'' (PStr host)) ''_relay_port'' (get_or (pe_data e) ''relay_accept_port'' (PInt 9485)))))"
proof (cases "get_relay_candidates st")
  case (Cons c cs)
  obtain x where x: "least (score me w) c cs = Inr x" "x \<in> set (c # cs)" "\<forall>p \<in> set (c # cs). rank me w x \<le> rank me w p"
    using least_rank [of c cs me w] assms(1) Cons by auto
  then have "rank me w x = rank me w e" using assms(3,4) Cons by (metis antisym)
  then have "x = e" using assms(2,3) x(2) Cons by (metis inj_onD)
  then show ?thesis by (simp add: elect_relay_def Cons x(1))
qed (use assms in simp)

subsection \<open>Facts: conflict resolution\<close>

lemma dget_setdefault:
  "dget (setdefault d k v) (PStr f) = (case dget d (PStr f) of None \<Rightarrow> if k = PStr f then Some v else None | Some x \<Rightarrow> Some x)"
  by (auto simp: setdefault_def dget_dput_text split: option.split)

lemma dget_foldl_setdefault:
  "dget (foldl (\<lambda>m (k, v). setdefault m k v) d g) (PStr f) = (case dget d (PStr f) of None \<Rightarrow> dget g (PStr f) | Some x \<Rightarrow> Some x)"
  by (induction g arbitrary: d) (auto simp: dget_setdefault split: option.splits)

lemma dget_foldl_dput:
  "distinct_keys e \<Longrightarrow>
   dget (foldl (\<lambda>m (k, v). dput m k v) d e) (PStr f) = (case dget e (PStr f) of None \<Rightarrow> dget d (PStr f) | Some v \<Rightarrow> Some v)"
proof (induction e arbitrary: d)
  case (Cons x e)
  obtain k v where x: "x = (k, v)" by fastforce
  have "distinct_keys e" "k = PStr f \<Longrightarrow> dget e (PStr f) = None"
    using Cons.prems by (auto simp: distinct_keys_def x dget_None)
  with Cons.IH [of "dput d k v"] show ?case by (auto simp: x dget_dput_text split: option.splits)
qed simp

definition first_known :: "pydict list \<Rightarrow> pyval \<Rightarrow> pyval option" where
  "first_known ds k = (case find (\<lambda>d. dget d k \<noteq> None) ds of None \<Rightarrow> None | Some d \<Rightarrow> dget d k)"

lemma first_known_Cons: "first_known (d # ds) k = (case dget d k of None \<Rightarrow> first_known ds k | Some v \<Rightarrow> Some v)"
  by (auto simp: first_known_def split: option.split)

lemma dget_gossip:
  "dget (foldl (\<lambda>m g. foldl (\<lambda>m (k, v). setdefault m k v) m g) d gossip) (PStr f) =
   (case dget d (PStr f) of None \<Rightarrow> first_known gossip (PStr f) | Some x \<Rightarrow> Some x)"
  by (induction gossip arbitrary: d)
    (auto simp: dget_foldl_setdefault first_known_Cons split: option.splits, simp add: first_known_def)

lemma winner_in:
  assumes "obs \<noteq> []"
  shows "\<exists>x \<in> set obs. winning_replica obs = fst x \<and> (\<forall>y \<in> set obs. observation_key y \<le> observation_key x)"
proof -
  let ?s = "sort_key observation_key (rev obs)"
  have ne: "?s \<noteq> []" using assms by (metis length_0_conv length_rev length_sort)
  have "winning_replica obs = fst (last ?s)" using ne by (cases ?s rule: rev_cases) (simp_all add: winning_replica_def)
  moreover have "last ?s \<in> set obs" using ne last_in_set [of ?s] by simp
  moreover have "\<forall>y \<in> set obs. observation_key y \<le> observation_key (last ?s)"
    using sorted_map_le_last [of observation_key ?s] by simp
  ultimately show ?thesis by blast
qed

lemma winner_distinct: "\<forall>x \<in> set obs. distinct_keys (fst x) \<Longrightarrow> distinct_keys (winning_replica obs)"
  using winner_in [of obs] by (cases "obs = []") (auto simp: winning_replica_def distinct_keys_def)

lemma resolved_field:
  assumes "distinct_keys seed" "\<forall>x \<in> set obs. distinct_keys (fst x)"
  shows "dget (resolve_node_conflict seed obs gossip) (PStr f) =
    first_known (seed # winning_replica obs # gossip) (PStr f)"
  using assms winner_distinct [OF assms(2)]
  by (simp add: resolve_node_conflict_def Let_def dget_foldl_dput dget_gossip first_known_Cons split: option.split)

text \<open>The identifiers that are taken in.\<close>

definition text_ids :: "pydict list \<Rightarrow> string list" where
  "text_ids ns = List.map_filter (\<lambda>n. case sget n ''node_id'' of PStr i \<Rightarrow> if i = [] then None else Some i | _ \<Rightarrow> None) ns"

definition id_ok :: "pydict \<Rightarrow> bool" where
  "id_ok n \<longleftrightarrow> distinct_keys n \<and> (sget n ''node_id'' = PNone \<or> is_str (sget n ''node_id''))"

lemma dget_unit: "dget (map (\<lambda>i. (PStr i, ())) is) (PStr j) = (if j \<in> set is then Some () else None)"
  by (induction "is") auto

lemma dput_unit: "j \<notin> set is \<Longrightarrow> dput (map (\<lambda>i. (PStr i, ())) is) (PStr j) () = map (\<lambda>i. (PStr i, ())) (is @ [j])"
  by (induction "is") auto

lemma ingest_ids:
  "\<forall>n \<in> set ns. id_ok n \<Longrightarrow> distinct is \<Longrightarrow>
   \<exists>js. ingest (map (\<lambda>i. (PStr i, ())) is) ns = Inr (map (\<lambda>i. (PStr i, ())) js) \<and> distinct js \<and> set js = set is \<union> set (text_ids ns)"
proof (induction ns arbitrary: "is")
  case (Cons n ns)
  consider "\<not> truthy (sget n ''node_id'')" | i where "sget n ''node_id'' = PStr i" "i \<noteq> []"
    using Cons.prems(1) by (cases "sget n ''node_id''") (auto simp: id_ok_def)
  then show ?case
  proof cases
    case 1
    then have "text_ids (n # ns) = text_ids ns" by (cases "sget n ''node_id''") (auto simp: text_ids_def List.map_filter_simps)
    with Cons 1 show ?thesis by (simp add: Let_def)
  next
    case 2
    let ?is = "if i \<in> set is then is else is @ [i]"
    have "setdefault (map (\<lambda>i. (PStr i, ())) is) (PStr i) () = map (\<lambda>i. (PStr i, ())) ?is"
      by (simp add: setdefault_def dget_unit dput_unit)
    moreover have "distinct ?is" "set ?is = insert i (set is)" using Cons.prems(2) by auto
    moreover have "text_ids (n # ns) = i # text_ids ns" using 2 by (simp add: text_ids_def List.map_filter_simps)
    ultimately show ?thesis using Cons.IH [of ?is] Cons.prems(1) 2 by (simp add: Let_def insert_commute Un_insert_left)
  qed
qed (auto simp: text_ids_def List.map_filter_simps)

lemma replica_observations_Cons:
  "replica_observations nid ((snap, seq, tier) # ss) =
   (case find (has_id nid) snap of None \<Rightarrow> [] | Some n \<Rightarrow> [(n, seq, tier)]) @ replica_observations nid ss"
  by (simp add: replica_observations_def List.map_filter_simps split: option.split)

lemma replica_observations_Nil: "replica_observations nid [] = []"
  by (simp add: replica_observations_def List.map_filter_simps)

lemma find_has: "find P xs = Some x \<Longrightarrow> P x \<and> x \<in> set xs"
  by (auto simp: find_Some_iff)

lemma observation_has:
  "x \<in> set (replica_observations nid ss) \<Longrightarrow> has_id nid (fst x) \<and> fst x \<in> set (concat (map fst ss))"
proof (induction ss)
  case (Cons s ss)
  then show ?case by (cases s) (auto simp: replica_observations_Cons dest: find_has [OF sym] find_has split: option.splits)
qed (simp add: replica_observations_Nil)

lemma observation_some:
  "n \<in> set (concat (map fst ss)) \<Longrightarrow> has_id nid n \<Longrightarrow> replica_observations nid ss \<noteq> []"
proof (induction ss)
  case (Cons s ss)
  then show ?case by (cases s) (auto simp: replica_observations_Cons find_None_iff split: option.splits)
qed simp

lemma has_id_field: "has_id (PStr i) n \<Longrightarrow> dget n (PStr ''node_id'') = Some (PStr i)"
  by (auto simp: has_id_def sget_def get_or_def dget_py_find split: option.splits)

lemma text_ids_has: "i \<in> set (text_ids ns) \<Longrightarrow> \<exists>n \<in> set ns. has_id (PStr i) n"
  by (induction ns) (auto simp: text_ids_def List.map_filter_simps has_id_def split: pyval.split_asm if_split_asm option.split_asm)

lemma resolved_id:
  assumes "\<forall>n \<in> set (seeds @ concat (map fst snapshots) @ gossip). id_ok n"
    "i \<in> set (text_ids (seeds @ concat (map fst snapshots) @ gossip))"
  shows "dget (resolve_node_conflict (case find (has_id (PStr i)) seeds of None \<Rightarrow> [] | Some n \<Rightarrow> n)
      (replica_observations (PStr i) snapshots) (filter (has_id (PStr i)) gossip)) (PStr ''node_id'') = Some (PStr i)"
proof -
  let ?seed = "case find (has_id (PStr i)) seeds of None \<Rightarrow> [] | Some n \<Rightarrow> n"
  let ?obs = "replica_observations (PStr i) snapshots"
  let ?gossip = "filter (has_id (PStr i)) gossip"
  have seed: "distinct_keys ?seed"
    using assms(1) by (auto simp: id_ok_def distinct_keys_def dest: find_has split: option.split)
  have obs: "\<forall>x \<in> set ?obs. distinct_keys (fst x)" using assms(1) observation_has by (fastforce simp: id_ok_def)
  obtain n where n: "n \<in> set (seeds @ concat (map fst snapshots) @ gossip)" "has_id (PStr i) n" using text_ids_has [OF assms(2)] by blast
  have "first_known (?seed # winning_replica ?obs # ?gossip) (PStr ''node_id'') = Some (PStr i)"
  proof (cases "find (has_id (PStr i)) seeds")
    case (Some m)
    then show ?thesis using find_has [OF Some] has_id_field [of i m] by (simp add: first_known_Cons)
  next
    case None
    show ?thesis
    proof (cases "?obs = []")
      case False
      then have "dget (winning_replica ?obs) (PStr ''node_id'') = Some (PStr i)"
        using winner_in [OF False] observation_has has_id_field by metis
      with None show ?thesis by (simp add: first_known_Cons)
    next
      case True
      then have "n \<in> set gossip" using n None observation_some [of n snapshots] by (auto simp: find_None_iff)
      then obtain m ms where m: "?gossip = m # ms" using n(2) by (cases ?gossip) (auto simp: filter_empty_conv)
      then have "has_id (PStr i) m" by (metis filter_eq_ConsD)
      with m None True show ?thesis by (simp add: first_known_Cons winning_replica_def has_id_field)
    qed
  qed
  then show ?thesis by (simp add: resolved_field [OF seed obs])
qed

lemma nonempty_get: "dget m k = Some v \<Longrightarrow> m \<noteq> []"
  by auto

lemma discovery_set:
  assumes "\<forall>n \<in> set (seeds @ concat (map fst snapshots) @ gossip). id_ok n"
  shows "\<exists>ms. resolve_discovery_set seeds snapshots gossip = Inr ms \<and> distinct (map (\<lambda>m. sget m ''node_id'') ms) \<and>
    (\<lambda>m. sget m ''node_id'') ` set ms = PStr ` set (text_ids (seeds @ concat (map fst snapshots) @ gossip))"
proof -
  let ?all = "seeds @ concat (map fst snapshots) @ gossip"
  define node where "node = (\<lambda>i. resolve_node_conflict (case find (has_id (PStr i)) seeds of None \<Rightarrow> [] | Some n \<Rightarrow> n)
    (replica_observations (PStr i) snapshots) (filter (has_id (PStr i)) gossip))"
  obtain js where js: "ingest [] ?all = Inr (map (\<lambda>i. (PStr i, ())) js)" "distinct js" "set js = set (text_ids ?all)"
    using ingest_ids [OF assms, of "[]"] by auto
  have id: "dget (node i) (PStr ''node_id'') = Some (PStr i)" if "i \<in> set js" for i
    using resolved_id [OF assms] that js(3) by (simp add: node_def)
  then have get: "sget (node i) ''node_id'' = PStr i" "node i \<noteq> []" if "i \<in> set js" for i
    using that nonempty_get [OF id [OF that]] by (simp_all add: sget_def get_or_def dget_py_find)
  have "resolve_discovery_set seeds snapshots gossip = Inr (filter (\<lambda>m. m \<noteq> []) (map node js))"
    by (simp add: resolve_discovery_set_def js(1) comp_def node_def)
  moreover have "filter (\<lambda>m. m \<noteq> []) (map node js) = map node js" using get(2) by (auto simp: filter_id_conv)
  moreover have "map (\<lambda>m. sget m ''node_id'') (map node js) = map PStr js" using get(1) by simp
  ultimately show ?thesis using js(2,3) by (intro exI [of _ "map node js"]) (auto simp: distinct_map inj_on_def get(1) image_image)
qed

subsection \<open>Facts: the registry\<close>

definition registry_ok :: "(string \<times> pydict) list \<Rightarrow> bool" where
  "registry_ok es \<longleftrightarrow> (\<forall>(k, d) \<in> set es. starts_with k ''https://'' \<and> (\<exists>t \<in> set VALID_TIERS. sget d ''trust_tier'' = PStr t))"

lemma registry_put:
  "registry_ok new \<Longrightarrow> starts_with k ''https://'' \<Longrightarrow> \<exists>t \<in> set VALID_TIERS. sget d ''trust_tier'' = PStr t \<Longrightarrow> registry_ok (AList.update k d new)"
  by (induction new) (auto simp: registry_ok_def)

lemma registry_entries_ok: "registry_ok new \<Longrightarrow> registry_entries me new es = Inr new' \<Longrightarrow> registry_ok new'"
proof (induction es arbitrary: new)
  case (Cons e es)
  show ?case
  proof (cases e)
    case (PDict d)
    let ?k = "rstrip_char (CHR ''/'') (py_str (me_str me) (sget d ''endpoint''))"
    have "registry_entries me new es = Inr new' \<or>
        registry_entries me (AList.update ?k d new) es = Inr new' \<and> starts_with ?k ''https://'' \<and> (\<exists>t \<in> set VALID_TIERS. sget d ''trust_tier'' = PStr t)"
      using Cons.prems(2) PDict by (auto simp: bind_result_Inr_iff in_set_Inr in_strs_iff Let_def split: if_splits)
    with Cons.IH Cons.prems(1) registry_put [of new ?k d] show ?thesis by blast
  qed (use Cons in simp_all)
qed simp

text \<open>A refresh keeps what it has when it fails, and an entry is only ever held under a secure address with a known tier; an address
  without an entry counts as least trusted.\<close>

lemma registry_sound:
  assumes "registry_ok (rg_entries rg)"
  shows "registry_ok (rg_entries (fst (registry_refresh me now answer rg)))"
    "\<not> is_ok (snd (registry_refresh me now answer rg)) \<or> snd (registry_refresh me now answer rg) = Inr (- 1) \<Longrightarrow>
       fst (registry_refresh me now answer rg) = rg"
    "trust_tier_of rg endpoint = Inr v \<Longrightarrow> \<exists>t \<in> set VALID_TIERS. v = PStr t"
proof -
  have "registry_ok []" by (simp add: registry_ok_def)
  from registry_entries_ok [OF this] show "registry_ok (rg_entries (fst (registry_refresh me now answer rg)))"
    using assms by (auto simp: registry_refresh_def split: option.split pyval.split sum.split)
  show "fst (registry_refresh me now answer rg) = rg"
    if "\<not> is_ok (snd (registry_refresh me now answer rg)) \<or> snd (registry_refresh me now answer rg) = Inr (- 1)"
    using that by (auto simp: registry_refresh_def split: option.splits pyval.splits sum.splits if_splits)
  show "\<exists>t \<in> set VALID_TIERS. v = PStr t" if v: "trust_tier_of rg endpoint = Inr v"
  proof -
    obtain e where e: "cached_entry rg endpoint = Inr e" "v = (case e of None \<Rightarrow> PStr ''low'' | Some d \<Rightarrow> get_or d ''trust_tier'' (PStr ''low''))"
      using v by (auto simp: trust_tier_of_def bind_result_Inr_iff)
    show ?thesis
    proof (cases e)
      case (Some d)
      then obtain k where "map_of (rg_entries rg) k = Some d" using e(1) by (auto simp: cached_entry_def bind_result_Inr_iff split: option.splits)
      then have "\<exists>t \<in> set VALID_TIERS. sget d ''trust_tier'' = PStr t" using assms by (auto simp: registry_ok_def dest!: map_of_SomeD)
      then show ?thesis using e(2) Some by (auto simp: sget_def get_or_def split: option.splits)
    qed (simp add: e(2) VALID_TIERS_def)
  qed
qed

subsection \<open>Properties\<close>


definition sample_mesh :: mesh_env where
  "sample_mesh = \<lparr>me_str = (\<lambda>_. []), me_int = (\<lambda>_. None), me_float = (\<lambda>_. None), me_sha256 = (\<lambda>s. s), me_sign = (\<lambda>_ _. []),
     me_loads = (\<lambda>_. None), me_writable = True\<rparr>"

definition sample_answer :: mesh_answer where
  "sample_answer = Success (Some (PDict [(PStr ''peers'', PList
     [PDict [(PStr ''node_id'', PStr ''b''), (PStr ''endpoint'', PStr ''h''), (PStr ''relay_capable'', PBool True)],
      PDict [(PStr ''node_id'', PStr ''me'')],
      PDict [(PStr ''node_id'', PStr ''a''), (PStr ''endpoint'', PStr ''h''), (PStr ''relay_capable'', PBool True)]])]))"

definition sample_manager :: peer_manager where
  "sample_manager = start sample_mesh 100 sample_answer ''me'' ''h'' \<lparr>pm_node_token = [], pm_persist = False, pm_peers = [], pm_own_id = [],
     pm_relay_capable = False, pm_relay_accept_port = 9485, pm_own_endpoint = [], pm_file = None\<rparr>"

lemma sample_reachable: "mesh_reachable sample_mesh ''me'' sample_manager"
  unfolding sample_manager_def by (rule mesh_start) simp

lemma sample_peers: "map fst (pm_peers sample_manager) = [PStr ''b'', PStr ''a'']"
  by (simp add: sample_manager_def start_def load_persisted_def bootstrap_def sample_answer_def answer_peers_def merge_peers_def merge_entry_def
      persist_def Let_def)


text \<open>C21: The election of a relay is stable and fair to load: two tables with the same candidates, in whatever order they were
  learned, elect the same relay for a worker, and it carries the least load of all candidates.\<close>

theorem election_agrees:
  assumes "set (get_relay_candidates st) = set (get_relay_candidates st')" "\<forall>p \<in> set (get_relay_candidates st). load_known p"
    "inj_on (rank me w) (set (get_relay_candidates st))"
  shows "elect_relay me st w = elect_relay me st' w \<and>
    (get_relay_candidates st \<noteq> [] \<longrightarrow> (\<exists>e \<in> set (get_relay_candidates st). (\<forall>p \<in> set (get_relay_candidates st). peer_load e \<le> peer_load p) \<and>
       (\<forall>d. elect_relay me st w = Inr (Some d) \<longrightarrow> sget d ''node_id'' = sget (pe_data e) ''node_id'')))"
proof (cases "get_relay_candidates st")
  case Nil
  then show ?thesis using assms(1) by (simp add: elect_relay_def)
next
  case (Cons c cs)
  obtain e where e: "e \<in> set (get_relay_candidates st)" "\<forall>p \<in> set (get_relay_candidates st). rank me w e \<le> rank me w p"
    using least_rank [of c cs me w] assms(2) Cons by auto
  note elected = elect_least [OF assms(2,3) e] elect_least [of st' me w e, folded assms(1), OF assms(2,3) e]
  have load: "\<forall>p \<in> set (get_relay_candidates st). peer_load e \<le> peer_load p" using e(2) by (auto simp: rank_def less_eq_prod_def)
  have "\<forall>d. elect_relay me st w = Inr (Some d) \<longrightarrow> sget d ''node_id'' = sget (pe_data e) ''node_id''"
    using elected(1) by (auto simp: bind_result_Inr_iff peer_dict_def)
  with elected e(1) load show ?thesis by auto
qed

definition sample_reversed :: peer_manager where
  "sample_reversed = sample_manager\<lparr>pm_peers := rev (pm_peers sample_manager)\<rparr>"

theorem election_agrees_witness:
  "get_relay_candidates sample_manager \<noteq> [] \<and> elect_relay sample_mesh sample_manager ''w'' = elect_relay sample_mesh sample_reversed ''w''"
proof -
  have c: "get_relay_candidates sample_manager =
     map (\<lambda>i. \<lparr>pe_data = [(PStr ''node_id'', PStr i), (PStr ''endpoint'', PStr ''h''), (PStr ''region'', PStr []), (PStr ''last_seen'', PStr []),
        (PStr ''relay_capable'', PBool True), (PStr ''relay_accept_port'', PInt 9485), (PStr ''relay_load'', PFloat 0)], pe_last_contact = 100\<rparr>) [''b'', ''a'']"
    by (simp add: get_relay_candidates_def sample_manager_def start_def load_persisted_def bootstrap_def sample_answer_def answer_peers_def
        merge_peers_def merge_entry_def persist_def Let_def)
  have same: "set (get_relay_candidates sample_manager) = set (get_relay_candidates sample_reversed)"
    by (simp add: get_relay_candidates_def sample_reversed_def)
  have "\<forall>p \<in> set (get_relay_candidates sample_manager). load_known p" by (simp add: c load_known_def)
  moreover have "inj_on (rank sample_mesh ''w'') (set (get_relay_candidates sample_manager))" by (simp add: c rank_def sample_mesh_def)
  ultimately show ?thesis using election_agrees [OF same, of sample_mesh "''w''"] c by simp
qed

text \<open>C22: Conflicting answers are resolved field by field: a field of the merged node is the seed's if the seed has it, else that of a
  replica with the highest sequence number and, among these, the highest tier, else that of the first gossiped node that has
  it. The merged list has exactly one node for every identifier any source names, so no source can hide a node.\<close>

theorem resolution_precedence:
  assumes "\<forall>n \<in> set (seeds @ concat (map fst snapshots) @ gossip). id_ok n" "distinct_keys seed" "\<forall>x \<in> set obs. distinct_keys (fst x)"
  shows "(case dget seed (PStr f) of
        Some v \<Rightarrow> dget (resolve_node_conflict seed obs gossip) (PStr f) = Some v
      | None \<Rightarrow>
          (if obs = [] then dget (resolve_node_conflict seed obs gossip) (PStr f) = first_known gossip (PStr f)
           else \<exists>x \<in> set obs. (\<forall>y \<in> set obs. observation_key y \<le> observation_key x) \<and>
             dget (resolve_node_conflict seed obs gossip) (PStr f) = first_known (fst x # gossip) (PStr f))) \<and>
    (\<exists>ms. resolve_discovery_set seeds snapshots gossip = Inr ms \<and> distinct (map (\<lambda>m. sget m ''node_id'') ms) \<and>
       (\<lambda>m. sget m ''node_id'') ` set ms = PStr ` set (text_ids (seeds @ concat (map fst snapshots) @ gossip)))"
proof
  have none: "winning_replica [] = []" by (simp add: winning_replica_def)
  show "case dget seed (PStr f) of
        Some v \<Rightarrow> dget (resolve_node_conflict seed obs gossip) (PStr f) = Some v
      | None \<Rightarrow>
          (if obs = [] then dget (resolve_node_conflict seed obs gossip) (PStr f) = first_known gossip (PStr f)
           else \<exists>x \<in> set obs. (\<forall>y \<in> set obs. observation_key y \<le> observation_key x) \<and>
             dget (resolve_node_conflict seed obs gossip) (PStr f) = first_known (fst x # gossip) (PStr f))"
  proof (cases "obs = []")
    case True
    then show ?thesis using resolved_field [OF assms(2,3), of gossip f] by (simp add: first_known_Cons none split: option.split)
  next
    case False
    from winner_in [OF this] obtain x where x: "x \<in> set obs" "winning_replica obs = fst x" "\<forall>y \<in> set obs. observation_key y \<le> observation_key x" by blast
    have "dget (resolve_node_conflict seed obs gossip) (PStr f) = first_known (seed # fst x # gossip) (PStr f)"
      using resolved_field [OF assms(2,3), of gossip f] x(2) by simp
    then show ?thesis using False x(1,3) by (auto simp: first_known_Cons [of seed] split: option.split)
  qed
qed (rule discovery_set [OF assms(1)])

theorem resolution_precedence_witness:
  "dget (resolve_node_conflict [] [([(PStr ''url'', PInt 1)], 3, ''low''), ([(PStr ''url'', PInt 2)], 3, ''high'')] [[(PStr ''url'', PInt 5)]]) (PStr ''url'') =
     Some (PInt 2) \<and>
   (\<exists>ms. resolve_discovery_set [[(PStr ''node_id'', PStr ''a'')]] [] [[(PStr ''node_id'', PStr ''b'')]] = Inr ms \<and>
     (\<lambda>m. sget m ''node_id'') ` set ms = {PStr ''a'', PStr ''b''})"
proof -
  let ?obs = "[([(PStr ''url'', PInt 1)], 3, ''low''), ([(PStr ''url'', PInt 2)], 3, ''high'')] :: observation list"
  have keys: "\<forall>x \<in> set ?obs. distinct_keys (fst x)" "distinct_keys ([] :: pydict)" by (simp_all add: distinct_keys_def)
  have ids: "\<forall>n \<in> set ([[(PStr ''node_id'', PStr ''a'')]] @ concat (map fst []) @ [[(PStr ''node_id'', PStr ''b'')]]). id_ok n"
    by (simp add: id_ok_def distinct_keys_def)
  have field: "dget (resolve_node_conflict [] ?obs [[(PStr ''url'', PInt 5)]]) (PStr ''url'') = Some (PInt 2)"
    by (simp add: resolve_node_conflict_def winning_replica_def observation_key_def tier_rank_def setdefault_def Let_def)
  show ?thesis
    using resolution_precedence [OF ids keys(2,1), of "''url''"] field by (auto simp: text_ids_def List.map_filter_simps)
qed

end
