(* ===== verification/Relay_Worker.thy ===== *)
theory Relay_Worker
  imports Relay
begin

text \<open>
  The worker's side of the relay (\<open>relay_worker_client.py\<close>): connection, binding, the loop over incoming frames, the handling of a
  call and the reconnection delays, and its composition with the relay's side (theory \<open>Relay\<close>). The CBOR and JSON codecs
  and the task handler are parameters; the bytes read from the relay are given as one stream.
\<close>

subsection \<open>Configuration\<close>

record worker_env =
  wk_dumps :: "pyval \<Rightarrow> bytes"
  wk_loads :: "bytes \<Rightarrow> pyval option"
  wk_json_bytes :: "pyval \<Rightarrow> bytes option"
  wk_json_loads :: "bytes \<Rightarrow> pyval option"
  wk_text :: "pyval \<Rightarrow> string"

record relay_worker =
  wo_worker_id :: string
  wo_intent :: string
  wo_models :: "string list"
  wo_bind_ticket :: "string option"
  wo_directory_url :: "string option"
  wo_node_token :: "string option"

definition MAX_RECONNECT_DELAY_S :: real where "MAX_RECONNECT_DELAY_S = 60"

datatype worker_error = Connection_Error string | Frame_Error frame_error | Worker_Raised py_error

subsection \<open>Handshake\<close>

definition given_text :: "string option \<Rightarrow> bool" where
  "given_text s \<longleftrightarrow> (case s of None \<Rightarrow> False | Some t \<Rightarrow> t \<noteq> [])"

text \<open>The ticket of the configuration, or what the directory gave when asked (none when that failed).\<close>

definition worker_ticket :: "relay_worker \<Rightarrow> string option \<Rightarrow> string option" where
  "worker_ticket w fetched =
     (if \<not> given_text (wo_bind_ticket w) \<and> given_text (wo_directory_url w) \<and> given_text (wo_node_token w) then fetched
      else wo_bind_ticket w)"

definition bind_body :: "relay_worker \<Rightarrow> string option \<Rightarrow> pyval" where
  "bind_body w fetched =
     PDict ([(PInt 1, PStr (wo_worker_id w)), (PInt 2, PStr (wo_intent w)), (PInt 3, PList (map PStr (wo_models w)))] @
       (case worker_ticket w fetched of None \<Rightarrow> [] | Some t \<Rightarrow> if t = [] then [] else [(PInt 4, PStr t)]))"

definition worker_init :: "worker_env \<Rightarrow> frame_error + bytes" where
  "worker_init env = relay_make_frame INIT (wk_dumps env (PDict [(PInt 1, PInt FRAMING_VERSION)]))"

definition worker_bind :: "worker_env \<Rightarrow> relay_worker \<Rightarrow> string option \<Rightarrow> frame_error + bytes" where
  "worker_bind env w fetched = relay_make_frame RELAY_BIND (wk_dumps env (bind_body w fetched))"

definition relay_http_port :: "pydict \<Rightarrow> pyval" where
  "relay_http_port ack = (if int_of (iget ack 4) \<noteq> None then iget ack 4 else PInt 9484)"

text \<open>What the relay's acknowledgement says: the port for the registration, or the failure.\<close>

definition read_relay_ack :: "worker_env \<Rightarrow> bytes \<Rightarrow> worker_error + pyval" where
  "read_relay_ack env payload =
     (case (if payload = [] then Some (PDict []) else wk_loads env payload) of
        None \<Rightarrow> Inl (Worker_Raised (ValueError ''cbor''))
      | Some (PDict ack) \<Rightarrow>
          if iget ack 1 = PStr ''ok'' then Inr (relay_http_port ack) else Inl (Connection_Error ''RELAY_ACK not ok'')
      | Some _ \<Rightarrow> Inl (Worker_Raised AttributeError))"

text \<open>The frames written, and the port with the bytes that follow once the worker is bound.\<close>

definition worker_handshake ::
  "worker_env \<Rightarrow> relay_worker \<Rightarrow> string option \<Rightarrow> bytes \<Rightarrow> bytes list \<times> (worker_error + pyval \<times> bytes)" where
  "worker_handshake env w fetched stream =
     (case worker_init env of
        Inl e \<Rightarrow> ([], Inl (Frame_Error e))
      | Inr init \<Rightarrow>
          (case relay_read_frame stream of
             None \<Rightarrow> ([init], Inl (Connection_Error ''Expected ACK''))
           | Some (mt, _, rest) \<Rightarrow>
               if mt \<noteq> msg_code ACK then ([init], Inl (Connection_Error ''Expected ACK''))
               else (case worker_bind env w fetched of
                   Inl e \<Rightarrow> ([init], Inl (Frame_Error e))
                 | Inr bind \<Rightarrow>
                     (case relay_read_frame rest of
                        None \<Rightarrow> ([init, bind], Inl (Connection_Error ''Expected RELAY_ACK''))
                      | Some (mt', payload, rest') \<Rightarrow>
                          if mt' \<noteq> msg_code RELAY_ACK then ([init, bind], Inl (Connection_Error ''Expected RELAY_ACK''))
                          else (case read_relay_ack env payload of
                              Inl e \<Rightarrow> ([init, bind], Inl e)
                            | Inr port \<Rightarrow> ([init, bind], Inr (port, rest')))))))"

subsection \<open>Calls\<close>

text \<open>The handler's value, or the text of the exception it raised. The response goes out unless the call could not be decoded (its
  identifier is then unknown) or the response cannot be written.\<close>

definition worker_result :: "worker_env \<Rightarrow> (pyval \<Rightarrow> string + pyval) \<Rightarrow> string \<Rightarrow> pydict \<Rightarrow> pyval" where
  "worker_result env handler json_error body =
     (let task = (case iget_or body 5 (PBytes []) of PBytes b \<Rightarrow> wk_json_loads env b | _ \<Rightarrow> Some (PDict []))
      in case task of
           None \<Rightarrow> PDict [(PStr ''error'', PStr json_error)]
         | Some t \<Rightarrow> (case handler t of Inl e \<Rightarrow> PDict [(PStr ''error'', PStr e)] | Inr v \<Rightarrow> v))"

definition handle_call :: "worker_env \<Rightarrow> (pyval \<Rightarrow> string + pyval) \<Rightarrow> string \<Rightarrow> bytes \<Rightarrow> bytes option" where
  "handle_call env handler json_error payload =
     (case (if payload = [] then Some (PDict []) else wk_loads env payload) of
        Some (PDict body) \<Rightarrow>
          (case wk_json_bytes env (worker_result env handler json_error body) of
             None \<Rightarrow> None
           | Some j \<Rightarrow>
               (case relay_make_frame RESPONSE (wk_dumps env (PDict [(PInt 15, PStr (py_str (wk_text env) (iget_or body 15 (PStr [])))), (PInt 5, PBytes j)])) of
                  Inl _ \<Rightarrow> None
                | Inr f \<Rightarrow> Some f))
      | _ \<Rightarrow> None)"

text \<open>The loop: the payloads of the calls it starts, in order, and the bytes not read. It ends at a CLOSE frame, at the end of the stream
  and at bytes that are no frame; a call runs beside it.\<close>

lemma read_frame_shorter [termination_simp]: "relay_read_frame bs = Some (mt, payload, rest) \<Longrightarrow> length rest < length bs"
  by (auto simp: relay_read_frame_def Let_def FRAME_HEADER_LEN_def split: if_splits)

function worker_loop :: "bytes \<Rightarrow> bytes list \<times> bytes" where
  "worker_loop stream =
     (case relay_read_frame stream of
        None \<Rightarrow> ([], stream)
      | Some (mt, payload, rest) \<Rightarrow>
          if mt = msg_code CALL then (case worker_loop rest of (calls, left) \<Rightarrow> (payload # calls, left))
          else if mt = msg_code CLOSE then ([], rest)
          else worker_loop rest)"
  by pat_completeness auto
termination by (relation "measure length") (auto intro: read_frame_shorter)

declare worker_loop.simps [simp del]

definition worker_ping :: "worker_env \<Rightarrow> frame_error + bytes" where
  "worker_ping env = relay_make_frame PING (wk_dumps env (PDict [(PInt 1, PBytes [])]))"

subsection \<open>Reconnection\<close>

text \<open>How a session ended: cleanly, with an exception, or by cancellation. The delays slept between sessions.\<close>

datatype session_outcome = Clean_End | Session_Error | Cancelled

fun reconnect_delays :: "real \<Rightarrow> session_outcome list \<Rightarrow> real list" where
  "reconnect_delays delay [] = []"
| "reconnect_delays delay (Cancelled # rest) = []"
| "reconnect_delays delay (Clean_End # rest) = 2 # reconnect_delays (min (2 * 2) MAX_RECONNECT_DELAY_S) rest"
| "reconnect_delays delay (Session_Error # rest) = delay # reconnect_delays (min (delay * 2) MAX_RECONNECT_DELAY_S) rest"

definition worker_run :: "session_outcome list \<Rightarrow> real list" where
  "worker_run outcomes = reconnect_delays 2 outcomes"

subsection \<open>Facts: frames\<close>

lemma relay_make_encode: "relay_make_frame mt payload = Inr f \<Longrightarrow> encode_frame (make_frame mt payload) = Inr f"
  by (cases mt) (auto simp: relay_make_frame_def encode_frame_def make_frame_def fits_byte_def split: if_splits)

lemma relay_make_ok: "length payload \<le> MAX_FRAME_PAYLOAD \<Longrightarrow> \<exists>f. relay_make_frame mt payload = Inr f"
  by (simp add: relay_make_frame_def)

lemma relay_read_make:
  assumes "relay_make_frame mt payload = Inr f"
  shows "relay_read_frame (f @ rest) = Some (msg_code mt, payload, rest)"
proof -
  note enc = decode_encode(2) [OF relay_make_encode [OF assms], of rest] decode_encode(3,4) [OF relay_make_encode [OF assms]]
  have len: "length f = FRAME_HEADER_LEN + length payload" using enc(2) by (simp add: make_frame_def)
  have "drop FRAME_HEADER_LEN (f @ rest) = payload @ rest" using enc(3) len by (simp add: make_frame_def)
  moreover have "length payload \<le> MAX_FRAME_PAYLOAD" using assms by (simp add: relay_make_frame_def split: if_splits)
  ultimately show ?thesis
    unfolding relay_read_frame_def enc(1) Let_def using len by (simp add: make_frame_def)
qed

lemma handshake_make:
  assumes "relay_make_frame INIT payload = Inr f"
  shows "relay_handshake (f @ rest) = Some rest"
proof -
  note enc = decode_encode(2) [OF relay_make_encode [OF assms], of rest] decode_encode(3,4) [OF relay_make_encode [OF assms]]
  have len: "length f = FRAME_HEADER_LEN + length payload" using enc(2) by (simp add: make_frame_def)
  have "take 4 (f @ rest) = IICP_MAGIC" using enc(1) by (simp add: unpack_header_def)
  moreover have "length payload \<le> MAX_FRAME_PAYLOAD" using assms by (simp add: relay_make_frame_def split: if_splits)
  ultimately show ?thesis
    unfolding relay_handshake_def enc(1) Let_def using len by (simp add: make_frame_def FRAME_HEADER_LEN_def)
qed

text \<open>A CBOR map read back on the other side: the same value under every integer key.\<close>

definition carries :: "(pyval \<Rightarrow> bytes) \<Rightarrow> (bytes \<Rightarrow> pyval option) \<Rightarrow> pydict \<Rightarrow> bool" where
  "carries dumps loads d \<longleftrightarrow> dumps (PDict d) \<noteq> [] \<and> length (dumps (PDict d)) \<le> MAX_FRAME_PAYLOAD \<and>
     (\<exists>e. loads (dumps (PDict d)) = Some (PDict e) \<and> (\<forall>k. py_find e (PInt k) = py_find d (PInt k)))"

lemma carries_frame: "carries dumps loads d \<Longrightarrow> \<exists>f. relay_make_frame mt (dumps (PDict d)) = Inr f"
  by (simp add: carries_def relay_make_ok)

lemma carriesE:
  assumes "carries dumps loads d"
  obtains e where "loads (dumps (PDict d)) = Some (PDict e)" "dumps (PDict d) \<noteq> []" "\<And>k. py_find e (PInt k) = py_find d (PInt k)"
    "\<And>k. iget e k = iget d k" "\<And>k v. iget_or e k v = iget_or d k v"
  using assms by (auto simp: carries_def iget_def iget_or_def)

subsection \<open>Facts: reconnection\<close>

lemma reconnect_bounds:
  "2 \<le> delay \<Longrightarrow> delay \<le> MAX_RECONNECT_DELAY_S \<Longrightarrow> \<forall>d \<in> set (reconnect_delays delay outcomes). 2 \<le> d \<and> d \<le> MAX_RECONNECT_DELAY_S"
proof (induction outcomes arbitrary: delay)
  case (Cons x outcomes)
  have next_delay: "2 \<le> min (delay * 2) MAX_RECONNECT_DELAY_S" "min (delay * 2) MAX_RECONNECT_DELAY_S \<le> MAX_RECONNECT_DELAY_S"
    "2 \<le> min (2 * 2) MAX_RECONNECT_DELAY_S" "min (2 * 2) MAX_RECONNECT_DELAY_S \<le> MAX_RECONNECT_DELAY_S" "2 \<le> MAX_RECONNECT_DELAY_S"
    using Cons.prems(1) by (simp_all add: MAX_RECONNECT_DELAY_S_def)
  from Cons.IH [OF next_delay(1,2)] Cons.IH [OF next_delay(3,4)] Cons.prems next_delay(5) show ?case
    by (cases x) (simp_all only: reconnect_delays.simps list.set ball_simps order.refl simp_thms)
qed simp

lemma doubled_delay: "min (min a 60 * 2) 60 = min (a * 2) (60 :: real)"
  by (cases "a \<le> 60") (simp_all add: min_def)

text \<open>A worker whose sessions keep failing waits twice as long each time, up to a minute; it never waits longer and never less than two
  seconds.\<close>

lemma reconnect_backoff:
  "(\<forall>d \<in> set (worker_run outcomes). 2 \<le> d \<and> d \<le> 60) \<and>
   worker_run (replicate n Session_Error) = map (\<lambda>i. min (2 * 2 ^ i) 60) [0 ..< n]"
proof
  show "\<forall>d \<in> set (worker_run outcomes). 2 \<le> d \<and> d \<le> 60"
    using reconnect_bounds [of 2 outcomes] by (simp add: worker_run_def MAX_RECONNECT_DELAY_S_def)
  define d :: "nat \<Rightarrow> real" where "d = (\<lambda>i. min (2 * 2 ^ i) 60)"
  have step: "min (d k * 2) MAX_RECONNECT_DELAY_S = d (Suc k)" for k
    unfolding d_def MAX_RECONNECT_DELAY_S_def doubled_delay by (simp only: power_Suc mult.commute mult.left_commute)
  have "reconnect_delays (d k) (replicate n Session_Error) = map d [k ..< k + n]" for k
  proof (induction n arbitrary: k)
    case (Suc n)
    have "[k ..< k + Suc n] = k # [Suc k ..< Suc k + n]" by (simp add: upt_conv_Cons)
    with Suc [of "Suc k"] show ?case by (simp add: step)
  qed simp
  from this [of 0] have "reconnect_delays (d 0) (replicate n Session_Error) = map d [0 ..< n]" by simp
  moreover have "d 0 = 2" by (simp add: d_def)
  ultimately show "worker_run (replicate n Session_Error) = map (\<lambda>i. min (2 * 2 ^ i) 60) [0 ..< n]"
    unfolding worker_run_def d_def by (simp only:)
qed

subsection \<open>Facts: relay and worker\<close>

text \<open>A worker that is admitted is bound on both sides, with the port the relay serves its tasks on.\<close>

lemma worker_bound_end_to_end:
  assumes "worker_init env = Inr init" "worker_bind env w fetched = Inr bind" "bind_body w fetched = PDict body"
    and bind: "carries (wk_dumps env) (rc_loads cfg) body"
    and ack: "relay_make_frame ACK (rc_dumps cfg (PDict [(PInt 1, PInt FRAMING_VERSION)])) = Inr ack"
    and ok: "carries (rc_dumps cfg) (wk_loads env) [(PInt 1, PStr ''ok''), (PInt 2, PStr (wo_worker_id w)), (PInt 4, PInt (rc_http_port cfg))]"
    and admitted: "admit_bind cfg r now wall source (wo_worker_id w) (case worker_ticket w fetched of None \<Rightarrow> [] | Some t \<Rightarrow> t) = (r1, Inr c)"
    and id: "wo_worker_id w \<noteq> []"
  shows "\<exists>r2 k bound. tcp_connection cfg r now wall source True (init @ bind @ rest) = (r2, [ack, bound], Some (k, rest)) \<and>
    map_of (rr_sessions r2) (wo_worker_id w) = Some k \<and>
    worker_handshake env w fetched (ack @ bound @ later) = ([init, bind], Inr (PInt (rc_http_port cfg), later))"
proof -
  obtain e where e: "rc_loads cfg (wk_dumps env (PDict body)) = Some (PDict e)" "\<And>k. iget e k = iget body k" "\<And>k v. iget_or e k v = iget_or body k v"
    by (rule carriesE [OF bind]) auto
  have body: "iget body 3 = PList (map PStr (wo_models w))" "iget_or body 1 (PStr []) = PStr (wo_worker_id w)"
    "iget_or body 4 (PStr []) = PStr (case worker_ticket w fetched of None \<Rightarrow> [] | Some t \<Rightarrow> t)"
    using assms(3) by (auto simp: bind_body_def split: option.splits if_splits)
  have frame: "relay_make_frame RELAY_BIND (wk_dumps env (PDict body)) = Inr bind" using assms(2,3) by (simp add: worker_bind_def)
  let ?ok = "[(PInt 1, PStr ''ok''), (PInt 2, PStr (wo_worker_id w)), (PInt 4, PInt (rc_http_port cfg))]"
  obtain bound where bound: "relay_make_frame RELAY_ACK (rc_dumps cfg (PDict ?ok)) = Inr bound"
    using carries_frame [OF ok] by blast
  obtain a where a: "wk_loads env (rc_dumps cfg (PDict ?ok)) = Some (PDict a)" "rc_dumps cfg (PDict ?ok) \<noteq> []" "\<And>k. iget a k = iget ?ok k"
    by (rule carriesE [OF ok]) auto
  define r2 where "r2 = fst (bind_session r1 (wo_worker_id w) (new_tcp_session (wo_worker_id w)))"
  have tb: "tcp_bind cfg r now wall source True (wk_dumps env (PDict body)) = (r2, [bound], Some (rr_next r1))"
    using e body id admitted bound by (simp add: tcp_bind_def Let_def r2_def bind_session_def)
  have conn: "tcp_connection cfg r now wall source True (init @ bind @ rest) = (r2, [ack, bound], Some (rr_next r1, rest))"
    unfolding tcp_connection_def
    using handshake_make [OF assms(1) [unfolded worker_init_def], of "bind @ rest"] relay_read_make [OF frame, of rest] ack tb by simp
  have shake: "worker_handshake env w fetched (ack @ bound @ later) = ([init, bind], Inr (PInt (rc_http_port cfg), later))"
    unfolding worker_handshake_def assms(1,2)
    using relay_read_make [OF ack, of "bound @ later"] relay_read_make [OF bound, of later] a
    by (simp add: read_relay_ack_def relay_http_port_def)
  have "map_of (rr_sessions r2) (wo_worker_id w) = Some (rr_next r1)" by (simp add: r2_def bind_session_def dict_simps)
  with conn shake show ?thesis by blast
qed

text \<open>What the handler makes of a task.\<close>

definition handled :: "(pyval \<Rightarrow> string + pyval) \<Rightarrow> pyval \<Rightarrow> pyval" where
  "handled handler task = (case handler task of Inl e \<Rightarrow> PDict [(PStr ''error'', PStr e)] | Inr v \<Rightarrow> v)"

subsection \<open>Properties\<close>

text \<open>C15: A task that the relay forwards comes back with the worker's result. The frame the relay writes is the next call the worker
  starts, whatever follows it on the connection; the frame the worker answers with, read by the relay while the call is still
  pending and whatever else happened in between, completes that call with the value of the handler, or with its error
  when the handler raised.\<close>

theorem relay_task_end_to_end:
  assumes "forward_task_begin cfg s call_id task = (s', Inr [f])"
    and call: "carries (rc_dumps cfg) (wk_loads env) [(PInt 15, PStr call_id), (PInt 5, PBytes (rc_json_bytes cfg task))]"
    and json: "wk_json_loads env (rc_json_bytes cfg task) = Some task" "wk_json_bytes env (handled handler task) = Some j"
      "rc_json_loads cfg (PBytes j) = Some (handled handler task)"
    and reply: "carries (wk_dumps env) (rc_loads cfg) [(PInt 15, PStr call_id), (PInt 5, PBytes j)]"
    and pending: "rr_objects r k = Some t" "map_of (rs_pending t) call_id = Some None"
  shows "\<exists>payload g q r' t'.
    worker_loop (f @ rest) = (payload # fst (worker_loop rest), snd (worker_loop rest)) \<and>
    handle_call env handler json_error payload = Some g \<and> relay_read_frame (g @ later) = Some (msg_code RESPONSE, q, later) \<and>
    worker_frame cfg r k (msg_code RESPONSE) q = (r', [], True) \<and> rr_objects r' k = Some t' \<and>
    snd (forward_task_end t' call_id) = Some (handled handler task)"
proof -
  let ?call = "[(PInt 15, PStr call_id), (PInt 5, PBytes (rc_json_bytes cfg task))]"
  let ?reply = "[(PInt 15, PStr call_id), (PInt 5, PBytes j)]"
  have f: "relay_make_frame CALL (rc_dumps cfg (PDict ?call)) = Inr f"
    using assms(1) by (auto simp: forward_task_begin_def call_body_def Let_def split: transport.splits sum.splits)
  obtain e where e: "wk_loads env (rc_dumps cfg (PDict ?call)) = Some (PDict e)" "rc_dumps cfg (PDict ?call) \<noteq> []" "\<And>k v. iget_or e k v = iget_or ?call k v"
    by (rule carriesE [OF call]) auto
  obtain g where g: "relay_make_frame RESPONSE (wk_dumps env (PDict ?reply)) = Inr g" using carries_frame [OF reply] by blast
  obtain b where b: "rc_loads cfg (wk_dumps env (PDict ?reply)) = Some (PDict b)" "\<And>k. py_find b (PInt k) = py_find ?reply (PInt k)"
    "\<And>k v. iget_or b k v = iget_or ?reply k v"
    by (rule carriesE [OF reply]) auto
  have loop: "worker_loop (f @ rest) = (rc_dumps cfg (PDict ?call) # fst (worker_loop rest), snd (worker_loop rest))"
    by (subst worker_loop.simps) (simp add: relay_read_make [OF f] split: prod.split)
  have result: "worker_result env handler json_error e = handled handler task"
    using json(1) by (simp add: worker_result_def e(3) handled_def)
  have answer: "handle_call env handler json_error (rc_dumps cfg (PDict ?call)) = Some g"
    using e json(2) g by (simp add: handle_call_def result)
  define t' where "t' = on_response t call_id (handled handler task)"
  have frame: "worker_frame cfg r k (msg_code RESPONSE) (wk_dumps env (PDict ?reply)) = (update_session r k t', [], True)"
    using pending(1) b json(3) by (simp add: worker_frame_def t'_def)
  have "rr_objects (update_session r k t') k = Some t'" by (simp add: update_session_def)
  moreover have "snd (forward_task_end t' call_id) = Some (handled handler task)"
    using pending(2) by (simp add: t'_def on_response_def forward_task_end_def dict_simps)
  ultimately show ?thesis using loop answer relay_read_make [OF g, of later] frame by blast
qed

definition sample_error :: pyval where
  "sample_error = PDict [(PStr ''error'', PStr ''boom'')]"

definition sample_relay :: relay_config where
  "sample_relay = \<lparr>rc_checks = \<lparr>tk_verify = (\<lambda>_ _ _. False), tk_payload = (\<lambda>_. None), tk_int = (\<lambda>_. None)\<rparr>, rc_text = (\<lambda>_. []), rc_public_key = [],
     rc_require_ticket = False, rc_audience = ''*'', rc_http_port = 9484, rc_dumps = (\<lambda>_. [1]),
     rc_loads = (\<lambda>_. Some (PDict [(PInt 15, PStr ''c''), (PInt 5, PBytes [8])])), rc_json_bytes = (\<lambda>_. [7]), rc_json_loads = (\<lambda>_. Some sample_error)\<rparr>"

definition sample_worker :: worker_env where
  "sample_worker = \<lparr>wk_dumps = (\<lambda>_. [2]), wk_loads = (\<lambda>_. Some (PDict [(PInt 15, PStr ''c''), (PInt 5, PBytes [7])])),
     wk_json_bytes = (\<lambda>_. Some [8]), wk_json_loads = (\<lambda>_. Some (PDict [])), wk_text = (\<lambda>_. [])\<rparr>"

theorem relay_task_end_to_end_witness:
  "\<exists>s f payload g q r' t'. forward_task_begin sample_relay (new_tcp_session ''w'') ''c'' (PDict []) = (s, Inr [f]) \<and>
     worker_loop f = ([payload], []) \<and> handle_call sample_worker (\<lambda>_. Inl ''boom'') [] payload = Some g \<and>
     relay_read_frame g = Some (msg_code RESPONSE, q, []) \<and>
     worker_frame sample_relay (update_session (new_relay_registry 4 None) 0 s) 0 (msg_code RESPONSE) q = (r', [], True) \<and>
     rr_objects r' 0 = Some t' \<and> snd (forward_task_end t' ''c'') = Some sample_error"
proof -
  obtain f where frame: "relay_make_frame CALL [1] = Inr f" using relay_make_ok [of "[1]" CALL] by (auto simp: MAX_FRAME_PAYLOAD_def)
  define s where "s = (new_tcp_session ''w'')\<lparr>rs_pending := [(''c'', None)]\<rparr>"
  have start: "forward_task_begin sample_relay (new_tcp_session ''w'') ''c'' (PDict []) = (s, Inr [f])"
    using frame by (simp add: forward_task_begin_def new_tcp_session_def sample_relay_def s_def)
  have call: "carries (rc_dumps sample_relay) (wk_loads sample_worker) [(PInt 15, PStr ''c''), (PInt 5, PBytes (rc_json_bytes sample_relay (PDict [])))]"
    by (simp add: carries_def sample_relay_def sample_worker_def MAX_FRAME_PAYLOAD_def)
  have reply: "carries (wk_dumps sample_worker) (rc_loads sample_relay) [(PInt 15, PStr ''c''), (PInt 5, PBytes [8])]"
    by (simp add: carries_def sample_relay_def sample_worker_def MAX_FRAME_PAYLOAD_def)
  have json: "wk_json_loads sample_worker (rc_json_bytes sample_relay (PDict [])) = Some (PDict [])"
    "wk_json_bytes sample_worker (handled (\<lambda>_. Inl ''boom'') (PDict [])) = Some [8]"
    "rc_json_loads sample_relay (PBytes [8]) = Some (handled (\<lambda>_. Inl ''boom'') (PDict []))"
    by (simp_all add: sample_worker_def sample_relay_def handled_def sample_error_def)
  have pending: "rr_objects (update_session (new_relay_registry 4 None) 0 s) 0 = Some s" "map_of (rs_pending s) ''c'' = Some None"
    by (simp_all add: update_session_def s_def)
  have "worker_loop [] = ([], [])" by (subst worker_loop.simps) (simp add: relay_read_frame_def FRAME_HEADER_LEN_def)
  with relay_task_end_to_end [OF start call json reply pending, of "[]" "[]" "[]"] start show ?thesis
    by (auto simp: handled_def sample_error_def)
qed

end
