(* ===== verification/Membership.thy ===== *)
theory Membership
  imports Effective_Capability Confidentiality
begin

text \<open>
  Membership of a restricted trust domain (\<open>restricted_membership.py\<close>): the shape of a membership assertion, its verification
  against the policy of the domain, and the verification of a gossip message by a member. Parameters: RFC 8785
  canonical JSON, the Ed25519 check, SHA-256 and \<open>str\<close> on unusual values. Base64 and the texts \<open>uuid.UUID\<close> accepts are
  modelled.
\<close>

record membership_env =
  mb_str :: "pyval \<Rightarrow> string"
  mb_canonical :: "pyval \<Rightarrow> py_error + octets"
  mb_ed25519 :: "octets \<Rightarrow> octets \<Rightarrow> octets \<Rightarrow> bool"
  mb_sha256 :: "octets \<Rightarrow> string"

datatype membership_error = Membership_Refusal string | Membership_Raised py_error

definition MEMBERSHIP_SCHEMA :: string where "MEMBERSHIP_SCHEMA = ''iicp.restricted-trust-domain.membership-assertion.v0''"

definition RESTRICTED_PROFILE :: string where "RESTRICTED_PROFILE = ''urn:iicp:profile:restricted-trust-domain:v1''"

definition MEMBERSHIP_DOMAIN :: octets where "MEMBERSHIP_DOMAIN = ''IICP-RTD-MEMBERSHIP-V0'' @ [CHR 0x0A]"

definition GOSSIP_DOMAIN :: octets where "GOSSIP_DOMAIN = ''IICP-RTD-GOSSIP-V0'' @ [CHR 0x0A]"

record membership_policy =
  mp_domain_id :: string
  mp_authority_id :: string
  mp_authority_key_id :: string
  mp_authority_public_key :: string
  mp_minimum_generation :: int
  mp_maximum_clock_skew :: int

definition guard_with :: "bool \<Rightarrow> string \<Rightarrow> membership_error + unit" where
  "guard_with ok code = (if ok then Inr () else Inl (Membership_Refusal code))"

definition MALFORMED :: string where "MALFORMED = ''membership_malformed''"

definition member_bytes :: "pyval \<Rightarrow> nat \<Rightarrow> membership_error + octets" where
  "member_bytes value n =
     (case value of
        PStr s \<Rightarrow>
          (case b64url_decode (PStr s) of
             Inl _ \<Rightarrow> Inl (Membership_Refusal MALFORMED)
           | Inr raw \<Rightarrow> if length raw \<noteq> n \<or> b64url_encode raw \<noteq> s then Inl (Membership_Refusal MALFORMED) else Inr raw)
      | _ \<Rightarrow> Inl (Membership_Refusal MALFORMED))"

definition mapping_of :: "pyval \<Rightarrow> membership_error + pydict" where
  "mapping_of value = (case value of PDict d \<Rightarrow> Inr d | _ \<Rightarrow> Inl (Membership_Refusal MALFORMED))"

definition nonempty :: "pyval \<Rightarrow> bool" where
  "nonempty value = (case value of PStr s \<Rightarrow> strip s \<noteq> [] | _ \<Rightarrow> False)"

definition natural :: "pyval \<Rightarrow> bool" where
  "natural value = (case value of PInt i \<Rightarrow> 0 \<le> i | _ \<Rightarrow> False)"

definition int_field :: "pydict \<Rightarrow> string \<Rightarrow> int" where
  "int_field d k = (case sget d k of PInt i \<Rightarrow> i | _ \<Rightarrow> 0)"

definition dict_field :: "pydict \<Rightarrow> string \<Rightarrow> pydict" where
  "dict_field d k = (case sget d k of PDict e \<Rightarrow> e | _ \<Rightarrow> [])"

text \<open>The texts \<open>uuid.UUID\<close> accepts: 32 hexadecimal digits once \<open>urn:\<close>, \<open>uuid:\<close>, outer braces and hyphens are gone.\<close>

fun remove_text :: "nat \<Rightarrow> string \<Rightarrow> string \<Rightarrow> string" where
  "remove_text n p [] = []"
| "remove_text 0 p (c # s) = (if p \<noteq> [] \<and> take (length p) (c # s) = p then remove_text (length p - 1) p s else c # remove_text 0 p s)"
| "remove_text (Suc n) p (c # s) = remove_text n p s"

definition strip_braces :: "string \<Rightarrow> string" where
  "strip_braces s = (let cut = dropWhile (\<lambda>c. c \<in> set ''{}'') in rev (cut (rev (cut s))))"

definition uuid_text :: "string \<Rightarrow> bool" where
  "uuid_text s =
     (let h = filter (\<lambda>c. c \<noteq> CHR ''-'') (strip_braces (remove_text 0 ''uuid:'' (remove_text 0 ''urn:'' s)))
      in length h = 32 \<and> (case int_base16 h of None \<Rightarrow> False | Some i \<Rightarrow> 0 \<le> i))"

definition ASSERTION_FIELDS :: "string list" where
  "ASSERTION_FIELDS = [''schema'', ''profile'', ''assertion_id'', ''domain_id'', ''subject'', ''issuer'', ''issued_at'', ''expires_at'', ''generation'',
     ''scopes'', ''audience'']"

definition text_list_ok :: "pyval \<Rightarrow> bool" where
  "text_list_ok v = (case v of PList vs \<Rightarrow> vs \<noteq> [] \<and> list_all nonempty vs | _ \<Rightarrow> False)"

definition validate_shape :: "membership_env \<Rightarrow> pydict \<Rightarrow> membership_error + pydict \<times> pydict" where
  "validate_shape mb envelope =
     bind_result (guard_with (exact_keys envelope [''assertion'', ''signature'']) MALFORMED) (\<lambda>_.
     bind_result (mapping_of (sget envelope ''assertion'')) (\<lambda>assertion.
     bind_result (mapping_of (sget envelope ''signature'')) (\<lambda>signature.
     bind_result (guard_with (exact_keys assertion ASSERTION_FIELDS) MALFORMED) (\<lambda>_.
     bind_result (mapping_of (sget assertion ''subject'')) (\<lambda>subject.
     bind_result (mapping_of (sget assertion ''issuer'')) (\<lambda>issuer.
     bind_result (guard_with (exact_keys subject [''kind'', ''id'', ''key_id'', ''public_key_ed25519'']) MALFORMED) (\<lambda>_.
     bind_result (guard_with (exact_keys issuer [''id'', ''key_id'']) MALFORMED) (\<lambda>_.
     bind_result (guard_with (exact_keys signature [''algorithm'', ''value''] \<or> exact_keys signature [''algorithm'', ''key_id'', ''value'']) MALFORMED) (\<lambda>_.
     bind_result (guard_with (uuid_text (py_str (mb_str mb) (sget assertion ''assertion_id''))) MALFORMED) (\<lambda>_.
     bind_result (guard_with (list_all nonempty [sget assertion ''domain_id'', sget subject ''id'', sget subject ''key_id'', sget issuer ''id'', sget issuer ''key_id'']) MALFORMED) (\<lambda>_.
     bind_result (guard_with (list_all (\<lambda>k. natural (sget assertion k)) [''issued_at'', ''expires_at'', ''generation'']) MALFORMED) (\<lambda>_.
     bind_result (guard_with (text_list_ok (sget assertion ''scopes'') \<and> text_list_ok (sget assertion ''audience'') \<and>
         int_field assertion ''issued_at'' < int_field assertion ''expires_at'') MALFORMED) (\<lambda>_.
       Inr (assertion, signature))))))))))))))"

definition listed_in :: "string \<Rightarrow> pyval \<Rightarrow> bool" where
  "listed_in s v = (case v of PList vs \<Rightarrow> PStr s \<in> set vs | _ \<Rightarrow> False)"

definition check_signature :: "membership_env \<Rightarrow> pyval \<Rightarrow> pyval \<Rightarrow> octets \<Rightarrow> pyval \<Rightarrow> membership_error + unit" where
  "check_signature mb key value domain body =
     bind_result (member_bytes key 32) (\<lambda>public.
     bind_result (member_bytes value 64) (\<lambda>sig.
       (case mb_canonical mb body of
          Inl e \<Rightarrow> Inl (Membership_Raised e)
        | Inr bytes \<Rightarrow> guard_with (mb_ed25519 mb public sig (domain @ bytes)) ''membership_signature_invalid'')))"

definition verify_membership :: "membership_env \<Rightarrow> pyval \<Rightarrow> membership_policy \<Rightarrow> string \<Rightarrow> string \<Rightarrow> int \<Rightarrow> membership_error + unit" where
  "verify_membership mb envelope policy expected_subject required_scope now =
     bind_result (bind_result (mapping_of envelope) (validate_shape mb)) (\<lambda>(assertion, signature).
       let subject = dict_field assertion ''subject''; issuer = dict_field assertion ''issuer''
       in bind_result (guard_with (sget assertion ''schema'' = PStr MEMBERSHIP_SCHEMA \<and> sget assertion ''profile'' = PStr RESTRICTED_PROFILE \<and>
            sget signature ''algorithm'' = PStr ''Ed25519'') ''membership_unsupported'') (\<lambda>_.
          bind_result (guard_with (sget issuer ''id'' = PStr (mp_authority_id policy) \<and> sget issuer ''key_id'' = PStr (mp_authority_key_id policy)) ''membership_authority_invalid'') (\<lambda>_.
          bind_result (guard_with (sget assertion ''domain_id'' = PStr (mp_domain_id policy) \<and> listed_in (mp_domain_id policy) (sget assertion ''audience'')) ''membership_domain_mismatch'') (\<lambda>_.
          bind_result (guard_with (sget subject ''kind'' = PStr ''node'' \<and> sget subject ''id'' = PStr expected_subject) ''membership_subject_mismatch'') (\<lambda>_.
          bind_result (guard_with (int_field assertion ''issued_at'' \<le> now + mp_maximum_clock_skew policy) ''membership_not_yet_valid'') (\<lambda>_.
          bind_result (guard_with (now < int_field assertion ''expires_at'') ''membership_expired'') (\<lambda>_.
          bind_result (guard_with (mp_minimum_generation policy \<le> int_field assertion ''generation'') ''membership_generation_revoked'') (\<lambda>_.
          bind_result (guard_with (listed_in required_scope (sget assertion ''scopes'')) ''membership_scope_missing'') (\<lambda>_.
            check_signature mb (PStr (mp_authority_public_key policy)) (sget signature ''value'') MEMBERSHIP_DOMAIN (PDict assertion))))))))))"

definition verify_gossip ::
  "membership_env \<Rightarrow> pyval \<Rightarrow> pyval \<Rightarrow> membership_policy \<Rightarrow> octets \<Rightarrow> int \<Rightarrow> bool \<Rightarrow> membership_error + unit" where
  "verify_gossip mb gossip membership policy payload now replay_seen =
     bind_result (mapping_of gossip) (\<lambda>g.
     bind_result (guard_with (exact_keys g [''proof'', ''signature'']) MALFORMED) (\<lambda>_.
     bind_result (mapping_of (sget g ''proof'')) (\<lambda>claim.
     bind_result (mapping_of (sget g ''signature'')) (\<lambda>signature.
     bind_result (guard_with (exact_keys claim [''sender_id'', ''domain_id'', ''sent_at'', ''replay_id'', ''payload_sha256'', ''membership_assertion_id'']) MALFORMED) (\<lambda>_.
     bind_result (guard_with (exact_keys signature [''algorithm'', ''key_id'', ''value'']) MALFORMED) (\<lambda>_.
     bind_result (verify_membership mb membership policy (py_str (mb_str mb) (get_or claim ''sender_id'' (PStr []))) ''peers'' now) (\<lambda>_.
     bind_result (guard_with (uuid_text (py_str (mb_str mb) (sget claim ''replay_id''))) MALFORMED) (\<lambda>_.
       let assertion = (case membership of PDict m \<Rightarrow> dict_field m ''assertion'' | _ \<Rightarrow> []); subject = dict_field assertion ''subject''
       in bind_result (guard_with (sget signature ''algorithm'' = PStr ''Ed25519'' \<and> py_eq (sget signature ''key_id'') (sget subject ''key_id'')) ''membership_unsupported'') (\<lambda>_.
          bind_result (guard_with (sget claim ''domain_id'' = PStr (mp_domain_id policy)) ''membership_domain_mismatch'') (\<lambda>_.
          bind_result (guard_with (py_eq (sget claim ''membership_assertion_id'') (sget assertion ''assertion_id'')) ''membership_subject_mismatch'') (\<lambda>_.
          bind_result (guard_with (\<not> replay_seen) ''gossip_replay'') (\<lambda>_.
          bind_result (guard_with (natural (sget claim ''sent_at'')) ''gossip_stale'') (\<lambda>_.
          bind_result (guard_with (int_field claim ''sent_at'' \<le> now + mp_maximum_clock_skew policy \<and>
              now - int_field claim ''sent_at'' \<le> mp_maximum_clock_skew policy) ''gossip_stale'') (\<lambda>_.
          bind_result (guard_with (sget claim ''payload_sha256'' = PStr (mb_sha256 mb payload)) ''gossip_payload_mismatch'') (\<lambda>_.
            check_signature mb (sget subject ''public_key_ed25519'') (sget signature ''value'') GOSSIP_DOMAIN (PDict claim))))))))))))))))"

subsection \<open>Facts\<close>

lemma guard_with_bind [simp]: "bind_result (guard_with ok code) f = Inr x \<longleftrightarrow> ok \<and> f () = Inr x"
  by (simp add: guard_with_def)

lemma guard_with_ok [simp]: "guard_with ok code = Inr () \<longleftrightarrow> ok"
  by (simp add: guard_with_def)

lemma mapping_of_bind: "bind_result (mapping_of v) f = Inr x \<longleftrightarrow> (\<exists>d. v = PDict d \<and> f d = Inr x)"
  by (cases v) (simp_all add: mapping_of_def)

lemma b64url_encode_inj [simp]: "b64url_encode x = b64url_encode y \<longleftrightarrow> x = y"
  using b64url_roundtrip [of x] b64url_roundtrip [of y] by (metis Inr_inject)

text \<open>Bytes that are the value of one text only: a signature and a key have one encoding.\<close>

lemma member_bytes_iff: "member_bytes v n = Inr raw \<longleftrightarrow> length raw = n \<and> v = PStr (b64url_encode raw)"
  by (cases v) (auto simp: member_bytes_def split: sum.split)

definition signature_holds :: "membership_env \<Rightarrow> octets \<Rightarrow> octets \<Rightarrow> octets \<Rightarrow> pydict \<Rightarrow> bool" where
  "signature_holds mb public sig domain body \<longleftrightarrow> length public = 32 \<and> length sig = 64 \<and>
     (\<exists>bytes. mb_canonical mb (PDict body) = Inr bytes \<and> mb_ed25519 mb public sig (domain @ bytes))"

lemma check_signature_iff:
  "check_signature mb key value domain (PDict body) = Inr () \<longleftrightarrow>
   (\<exists>public sig. key = PStr (b64url_encode public) \<and> value = PStr (b64url_encode sig) \<and> signature_holds mb public sig domain body)"
  unfolding check_signature_def bind_result_Inr_iff member_bytes_iff signature_holds_def
  by (cases "mb_canonical mb (PDict body)") auto

text \<open>A well-formed assertion \<open>a\<close> with its signature \<open>s\<close>.\<close>

definition assertion_ok :: "membership_env \<Rightarrow> pyval \<Rightarrow> pydict \<Rightarrow> pydict \<Rightarrow> bool" where
  "assertion_ok mb envelope a s \<longleftrightarrow> (\<exists>e. envelope = PDict e \<and> exact_keys e [''assertion'', ''signature''] \<and> sget e ''assertion'' = PDict a \<and> sget e ''signature'' = PDict s) \<and>
     exact_keys a ASSERTION_FIELDS \<and> (exact_keys s [''algorithm'', ''value''] \<or> exact_keys s [''algorithm'', ''key_id'', ''value'']) \<and>
     (\<exists>subject issuer. sget a ''subject'' = PDict subject \<and> sget a ''issuer'' = PDict issuer \<and>
        exact_keys subject [''kind'', ''id'', ''key_id'', ''public_key_ed25519''] \<and> exact_keys issuer [''id'', ''key_id''] \<and>
        nonempty (sget subject ''id'') \<and> nonempty (sget subject ''key_id'') \<and> nonempty (sget issuer ''id'') \<and> nonempty (sget issuer ''key_id'')) \<and>
     uuid_text (py_str (mb_str mb) (sget a ''assertion_id'')) \<and> nonempty (sget a ''domain_id'') \<and>
     natural (sget a ''issued_at'') \<and> natural (sget a ''expires_at'') \<and> natural (sget a ''generation'') \<and>
     text_list_ok (sget a ''scopes'') \<and> text_list_ok (sget a ''audience'') \<and> int_field a ''issued_at'' < int_field a ''expires_at''"

lemma validate_shape_iff:
  "bind_result (mapping_of envelope) (validate_shape mb) = Inr (a, s) \<longleftrightarrow> assertion_ok mb envelope a s"
  unfolding mapping_of_bind validate_shape_def guard_with_bind assertion_ok_def
  by (auto simp: mapping_of_bind)

text \<open>A member of the domain: the authority of the policy has certified the subject for the scope, now.\<close>

definition member ::
  "membership_env \<Rightarrow> pyval \<Rightarrow> membership_policy \<Rightarrow> string \<Rightarrow> string \<Rightarrow> int \<Rightarrow> pydict \<Rightarrow> pydict \<Rightarrow> bool" where
  "member mb envelope policy subject scope now a s \<longleftrightarrow> assertion_ok mb envelope a s \<and>
     sget a ''schema'' = PStr MEMBERSHIP_SCHEMA \<and> sget a ''profile'' = PStr RESTRICTED_PROFILE \<and> sget s ''algorithm'' = PStr ''Ed25519'' \<and>
     sget (dict_field a ''issuer'') ''id'' = PStr (mp_authority_id policy) \<and> sget (dict_field a ''issuer'') ''key_id'' = PStr (mp_authority_key_id policy) \<and>
     sget a ''domain_id'' = PStr (mp_domain_id policy) \<and> listed_in (mp_domain_id policy) (sget a ''audience'') \<and>
     sget (dict_field a ''subject'') ''kind'' = PStr ''node'' \<and> sget (dict_field a ''subject'') ''id'' = PStr subject \<and>
     int_field a ''issued_at'' \<le> now + mp_maximum_clock_skew policy \<and> now < int_field a ''expires_at'' \<and>
     mp_minimum_generation policy \<le> int_field a ''generation'' \<and> listed_in scope (sget a ''scopes'') \<and>
     (\<exists>public sig. mp_authority_public_key policy = b64url_encode public \<and> sget s ''value'' = PStr (b64url_encode sig) \<and>
        signature_holds mb public sig MEMBERSHIP_DOMAIN a)"

lemma verify_membership_iff:
  "verify_membership mb envelope policy subject scope now = Inr () \<longleftrightarrow> (\<exists>a s. member mb envelope policy subject scope now a s)"
proof -
  have "verify_membership mb envelope policy subject scope now = Inr () \<longleftrightarrow>
    (\<exists>a s. bind_result (mapping_of envelope) (validate_shape mb) = Inr (a, s) \<and> member mb envelope policy subject scope now a s)"
    unfolding verify_membership_def bind_result_Inr_iff [of "bind_result (mapping_of envelope) (validate_shape mb)"]
    by (auto simp: Let_def check_signature_iff member_def validate_shape_iff split: prod.splits)
  then show ?thesis by (auto simp: validate_shape_iff member_def)
qed

lemma assertion_of: "assertion_ok mb envelope a s \<Longrightarrow> (case envelope of PDict m \<Rightarrow> dict_field m ''assertion'' | _ \<Rightarrow> []) = a"
  by (auto simp: assertion_ok_def dict_field_def)

subsection \<open>Properties\<close>

text \<open>C19: Gossip in a restricted domain is accepted exactly when it is authentic: the proof names a sender whom the authority of the policy
  has certified as a member with the right to exchange peers, now and in a generation that is not revoked; the proof
  is bound to this domain and to that certificate, was sent within the allowed clock skew, carries the digest of the payload,
  has not been seen before, and is signed with the key the certificate names.\<close>

theorem gossip_authentic:
  "verify_gossip mb gossip membership policy payload now replay_seen = Inr () \<longleftrightarrow>
   (\<exists>g claim sg a s public sig. gossip = PDict g \<and> exact_keys g [''proof'', ''signature''] \<and> sget g ''proof'' = PDict claim \<and> sget g ''signature'' = PDict sg \<and>
     exact_keys claim [''sender_id'', ''domain_id'', ''sent_at'', ''replay_id'', ''payload_sha256'', ''membership_assertion_id''] \<and>
     exact_keys sg [''algorithm'', ''key_id'', ''value''] \<and>
     member mb membership policy (py_str (mb_str mb) (get_or claim ''sender_id'' (PStr []))) ''peers'' now a s \<and>
     uuid_text (py_str (mb_str mb) (sget claim ''replay_id'')) \<and> \<not> replay_seen \<and>
     sget sg ''algorithm'' = PStr ''Ed25519'' \<and> py_eq (sget sg ''key_id'') (sget (dict_field a ''subject'') ''key_id'') \<and>
     sget claim ''domain_id'' = PStr (mp_domain_id policy) \<and> py_eq (sget claim ''membership_assertion_id'') (sget a ''assertion_id'') \<and>
     natural (sget claim ''sent_at'') \<and> int_field claim ''sent_at'' \<le> now + mp_maximum_clock_skew policy \<and>
     now - int_field claim ''sent_at'' \<le> mp_maximum_clock_skew policy \<and> sget claim ''payload_sha256'' = PStr (mb_sha256 mb payload) \<and>
     sget (dict_field a ''subject'') ''public_key_ed25519'' = PStr (b64url_encode public) \<and> sget sg ''value'' = PStr (b64url_encode sig) \<and>
     signature_holds mb public sig GOSSIP_DOMAIN claim)"
proof -
  have assertion: "(case membership of PDict m \<Rightarrow> dict_field m ''assertion'' | _ \<Rightarrow> []) = a"
    if "member mb membership policy subject scope now a s" for subject scope a s
    using that assertion_of [of mb membership a s] by (simp only: member_def)
  have verified: "bind_result (verify_membership mb membership policy subject scope now) f = Inr () \<longleftrightarrow>
      (\<exists>a s. member mb membership policy subject scope now a s \<and> f () = Inr ())" for subject scope f
    using verify_membership_iff [of mb membership policy subject scope now] by (auto simp: bind_result_Inr_iff)
  show ?thesis
    unfolding verify_gossip_def mapping_of_bind guard_with_bind verified Let_def check_signature_iff
    by (rule iffI; elim exE conjE; simp only: assertion; blast)
qed

end
