(* ===== verification/Node_Health.thy ===== *)
theory Node_Health
  imports Net_Endpoint
begin

text \<open>
  How a provider judges itself: the recovery classifier with the registry probe (\<open>recovery.py\<close>) and the health record of
  the running process with its snapshots (\<open>runtime_health.py\<close>). The environment variables are given as a map, the registry's answer
  as its status with its JSON value; process identifier and time stamps are arguments. Writing a snapshot to disk is not
  modelled.
\<close>

subsection \<open>Recovery\<close>

definition RECOVERY_EXIT_CODE :: int where "RECOVERY_EXIT_CODE = 76"
definition DEFAULT_RECOVERY_GRACE_CHECKS :: int where "DEFAULT_RECOVERY_GRACE_CHECKS = 3"
definition DEFAULT_RECOVERY_CHECK_EVERY_HEARTBEATS :: int where "DEFAULT_RECOVERY_CHECK_EVERY_HEARTBEATS = 2"

datatype recovery_state =
    HEALTHY | LOCAL_UNHEALTHY | BACKEND_ATTENTION | ROUTE_MISMATCH | TUNNEL_COOLING_DOWN | DIRECTORY_ABSENT | LIMITED_REACH
  | RESTART_RECOMMENDED | RECOVERY_UNKNOWN

datatype recovery_action =
    NO_ACTION | REREGISTER | WAIT_COOLDOWN | MARK_UNAVAILABLE | RESTART_SELF | OPERATOR_ENDPOINT_NEEDED | ATTEND_BACKEND

datatype directory_presence = PRESENT | ABSENT | PRESENCE_UNKNOWN

record registry_route =
  rr_presence :: directory_presence
  rr_needs_promotion :: bool

definition node_registry_prefix :: "string \<Rightarrow> string" where
  "node_registry_prefix node_id =
     (let parts = split_on (CHR ''-'') node_id;
          is_uuid = (length node_id = 36 \<and> length parts = 5 \<and> map length parts = [8, 4, 4, 4, 12] \<and> list_all (list_all is_hex_digit) parts)
      in if is_uuid then take 8 node_id else node_id)"

text \<open>\<open>int(text)\<close>: a sign and digits in groups joined by single underscores, white space around it, at most 4300 digits.\<close>

definition decimal_number :: "string \<Rightarrow> int" where
  "decimal_number s = foldl (\<lambda>n c. 10 * n + (of_char c - 48)) 0 s"

definition is_decimal :: "char \<Rightarrow> bool" where
  "is_decimal c = (let n = of_char c :: nat in 48 \<le> n \<and> n \<le> 57)"

definition int_text_value :: "string \<Rightarrow> int option" where
  "int_text_value text =
     (let s = strip text;
          neg = (s \<noteq> [] \<and> hd s = CHR ''-'');
          body = (if s \<noteq> [] \<and> hd s \<in> {CHR ''-'', CHR ''+''} then tl s else s);
          plain = filter (\<lambda>c. c \<noteq> CHR ''_'') body
      in if list_all (\<lambda>g. g \<noteq> [] \<and> list_all is_decimal g) (split_on (CHR ''_'') body) \<and> length plain \<le> 4300
         then Some (if neg then - decimal_number plain else decimal_number plain) else None)"

type_synonym environ = "string \<Rightarrow> string option"

definition env_positive :: "environ \<Rightarrow> string \<Rightarrow> int \<Rightarrow> int" where
  "env_positive env name dflt =
     (case env name of
        None \<Rightarrow> dflt
      | Some text \<Rightarrow> (case int_text_value text of None \<Rightarrow> dflt | Some v \<Rightarrow> if 0 < v then v else dflt))"

definition env_grace_checks :: "environ \<Rightarrow> int" where
  "env_grace_checks env = env_positive env ''IICP_RECOVERY_GRACE_CHECKS'' DEFAULT_RECOVERY_GRACE_CHECKS"

definition env_check_every_heartbeats :: "environ \<Rightarrow> int" where
  "env_check_every_heartbeats env = env_positive env ''IICP_RECOVERY_CHECK_EVERY_HEARTBEATS'' DEFAULT_RECOVERY_CHECK_EVERY_HEARTBEATS"

definition env_word :: "environ \<Rightarrow> string \<Rightarrow> string" where
  "env_word env name = (case env name of None \<Rightarrow> [] | Some text \<Rightarrow> lower (strip text))"

definition supervised_recovery_enabled :: "environ \<Rightarrow> bool" where
  "supervised_recovery_enabled env \<longleftrightarrow>
     env_word env ''IICP_SUPERVISED'' \<in> {''1'', ''true'', ''yes''} \<and>
     env_word env ''IICP_RECOVERY_SUPERVISED_EXIT'' \<notin> {''0'', ''false'', ''no'', ''off''}"

definition recovery_classify ::
  "bool \<Rightarrow> bool \<Rightarrow> directory_presence \<Rightarrow> int \<Rightarrow> int \<Rightarrow> bool \<Rightarrow> recovery_state \<times> recovery_action" where
  "recovery_classify local_health_ok public_available presence failures grace backend_attention =
     (if \<not> local_health_ok then (LOCAL_UNHEALTHY, RESTART_SELF)
      else if backend_attention then (BACKEND_ATTENTION, ATTEND_BACKEND)
      else if \<not> public_available
      then (if failures \<ge> grace then (RESTART_RECOMMENDED, RESTART_SELF) else (LIMITED_REACH, WAIT_COOLDOWN))
      else (case presence of
              PRESENT \<Rightarrow> (HEALTHY, NO_ACTION)
            | ABSENT \<Rightarrow> if failures \<ge> grace then (ROUTE_MISMATCH, RESTART_SELF) else (DIRECTORY_ABSENT, REREGISTER)
            | PRESENCE_UNKNOWN \<Rightarrow> (RECOVERY_UNKNOWN, NO_ACTION)))"

definition effective_public_route_available :: "bool \<Rightarrow> bool \<Rightarrow> bool \<Rightarrow> bool" where
  "effective_public_route_available runtime_available route_needs_promotion relay_bound \<longleftrightarrow>
     runtime_available \<and> (relay_bound \<or> \<not> route_needs_promotion)"

text \<open>What the HTTP client returned: no answer (an exception), or a status with the JSON value of the body, if it is JSON.\<close>

datatype http_answer = No_Answer | Answer int "pyval option"

definition successful :: "int \<Rightarrow> bool" where
  "successful status \<longleftrightarrow> 200 \<le> status \<and> status < 300"

definition registry_node_presence :: "http_answer \<Rightarrow> directory_presence" where
  "registry_node_presence answer =
     (case answer of
        No_Answer \<Rightarrow> PRESENCE_UNKNOWN
      | Answer status _ \<Rightarrow> if successful status then PRESENT else if status = 404 then ABSENT else PRESENCE_UNKNOWN)"

definition or_value :: "pyval \<Rightarrow> pyval \<Rightarrow> pyval" where
  "or_value a b = (if truthy a then a else b)"

definition dict_or :: "pyval \<Rightarrow> pydict \<Rightarrow> pydict" where
  "dict_or v dflt = (case v of PDict d \<Rightarrow> d | _ \<Rightarrow> dflt)"

definition route_needs_promotion_from_registry_json :: "pydict \<Rightarrow> bool" where
  "route_needs_promotion_from_registry_json data =
     (let node = dict_or (sget data ''node'') data;
          summary = dict_or (sget node ''status_summary'') []
      in sget summary ''state'' = PStr ''direct_unverified'' \<or>
         (let route_evidence = or_value (sget node ''route_evidence'') (sget summary ''evidence_source'');
              routing_hint = or_value (sget node ''routing_hint'') (sget summary ''routing_hint'');
              browser_usable = (if sget node ''browser_usable'' = PNone then sget summary ''browser_usable'' else sget node ''browser_usable'')
          in routing_hint = PStr ''http_ipv6'' \<and> route_evidence \<noteq> PStr ''directory_observed'' \<and> browser_usable \<noteq> PBool True))"

definition registry_route_status :: "http_answer \<Rightarrow> registry_route" where
  "registry_route_status answer =
     \<lparr>rr_presence = registry_node_presence answer,
      rr_needs_promotion =
        (case answer of
           Answer status body \<Rightarrow>
             successful status \<and> (case body of None \<Rightarrow> False | Some v \<Rightarrow> (case v of PDict d \<Rightarrow> route_needs_promotion_from_registry_json d | _ \<Rightarrow> False))
         | No_Answer \<Rightarrow> False)\<rparr>"

subsection \<open>Runtime health\<close>

definition RUNTIME_STALE_AFTER_MS :: int where "RUNTIME_STALE_AFTER_MS = 30000"
definition SUPERVISOR_STALE_AFTER_MS :: int where "SUPERVISOR_STALE_AFTER_MS = 120000"

record classification_input =
  ci_lifecycle :: string
  ci_runtime_age_ms :: int
  ci_runtime_stale_after_ms :: int
  ci_supervisor_required :: bool
  ci_supervisor_age_ms :: int
  ci_supervisor_stale_after_ms :: int
  ci_provider :: string
  ci_capacity_available :: bool
  ci_routing :: string
  ci_directory :: string
  ci_dns :: string
  ci_internet :: string
  ci_tunnel :: string

record health_verdict =
  hv_liveness :: string
  hv_readiness :: string
  hv_reason_codes :: "string list"

definition health_reasons :: "classification_input \<Rightarrow> string list" where
  "health_reasons i =
     (if ci_provider i = ''unavailable'' then [''PROVIDER_UNAVAILABLE''] else []) @
     (if \<not> ci_capacity_available i then [''NO_CAPACITY''] else []) @
     (if ci_routing i = ''unavailable'' then [''ROUTING_UNAVAILABLE''] else []) @
     (if ci_tunnel i = ''recovering'' then [''TUNNEL_RECOVERING''] else []) @
     (if ci_directory i = ''unavailable'' then [''DIRECTORY_UNAVAILABLE''] else []) @
     (if ci_dns i = ''unavailable'' then [''DNS_UNAVAILABLE''] else []) @
     (if ci_internet i = ''unavailable'' then [''INTERNET_UNAVAILABLE''] else [])"

definition health_classify :: "classification_input \<Rightarrow> health_verdict" where
  "health_classify i =
     (if ci_lifecycle i = ''starting'' then \<lparr>hv_liveness = ''starting'', hv_readiness = ''not_ready'', hv_reason_codes = [''STARTING'']\<rparr>
      else if ci_runtime_age_ms i > ci_runtime_stale_after_ms i
      then \<lparr>hv_liveness = ''not_live'', hv_readiness = ''not_ready'', hv_reason_codes = [''RUNTIME_PROGRESS_STALE'']\<rparr>
      else if ci_supervisor_required i \<and> ci_supervisor_age_ms i > ci_supervisor_stale_after_ms i
      then \<lparr>hv_liveness = ''not_live'', hv_readiness = ''not_ready'', hv_reason_codes = [''SUPERVISOR_PROGRESS_STALE'']\<rparr>
      else if ci_lifecycle i = ''stopping''
      then \<lparr>hv_liveness = ''live'', hv_readiness = ''not_ready'', hv_reason_codes = [''STOPPING'']\<rparr>
      else let reasons = health_reasons i;
               not_ready = list_ex (\<lambda>x. x \<in> set reasons) [''PROVIDER_UNAVAILABLE'', ''NO_CAPACITY'', ''ROUTING_UNAVAILABLE'']
           in \<lparr>hv_liveness = ''live'',
               hv_readiness = (if not_ready then ''not_ready'' else if reasons \<noteq> [] then ''degraded'' else ''ready''),
               hv_reason_codes = reasons\<rparr>)"

record runtime_health =
  rh_supervisor_required :: bool
  rh_process_epoch :: string
  rh_lifecycle :: string
  rh_runtime_sequence :: int
  rh_supervisor_sequence :: int
  rh_snapshot_sequence :: int
  rh_runtime_at :: time
  rh_supervisor_at :: time
  rh_capacity_available :: bool
  rh_subsystems :: "(string, string) dict"
  rh_external :: "(string, string) dict"

definition new_runtime_health :: "string \<Rightarrow> time \<Rightarrow> runtime_health" where
  "new_runtime_health epoch now =
     \<lparr>rh_supervisor_required = False, rh_process_epoch = epoch, rh_lifecycle = ''starting'', rh_runtime_sequence = 0,
      rh_supervisor_sequence = 0, rh_snapshot_sequence = 0, rh_runtime_at = now, rh_supervisor_at = now, rh_capacity_available = False,
      rh_subsystems = [(''provider'', ''unknown''), (''routing'', ''unknown''), (''tunnel'', ''unknown'')],
      rh_external = [(''directory'', ''unknown''), (''dns'', ''unknown''), (''internet'', ''unknown'')]\<rparr>"

definition mark_running :: "runtime_health \<Rightarrow> runtime_health" where
  "mark_running h =
     h\<lparr>rh_lifecycle := ''running'', rh_capacity_available := True,
       rh_subsystems := AList.update ''routing'' ''healthy'' (AList.update ''provider'' ''healthy'' (rh_subsystems h))\<rparr>"

definition mark_stopping :: "runtime_health \<Rightarrow> runtime_health" where
  "mark_stopping h = h\<lparr>rh_lifecycle := ''stopping''\<rparr>"

definition advance_runtime :: "time \<Rightarrow> runtime_health \<Rightarrow> runtime_health" where
  "advance_runtime now h = h\<lparr>rh_runtime_sequence := rh_runtime_sequence h + 1, rh_runtime_at := now\<rparr>"

definition advance_supervisor :: "time \<Rightarrow> runtime_health \<Rightarrow> runtime_health" where
  "advance_supervisor now h = h\<lparr>rh_supervisor_sequence := rh_supervisor_sequence h + 1, rh_supervisor_at := now\<rparr>"

definition set_supervisor_required :: "bool \<Rightarrow> runtime_health \<Rightarrow> runtime_health" where
  "set_supervisor_required required h = h\<lparr>rh_supervisor_required := required\<rparr>"

definition set_external :: "string \<Rightarrow> string \<Rightarrow> runtime_health \<Rightarrow> runtime_health" where
  "set_external name state h = h\<lparr>rh_external := AList.update name state (rh_external h)\<rparr>"

text \<open>\<open>int(x)\<close> of a float, and \<open>d.get(k, "unknown")\<close>.\<close>

definition truncated :: "real \<Rightarrow> int" where
  "truncated x = (if 0 \<le> x then \<lfloor>x\<rfloor> else \<lceil>x\<rceil>)"

definition known_state :: "(string, string) dict \<Rightarrow> string \<Rightarrow> string" where
  "known_state d k = (case map_of d k of None \<Rightarrow> ''unknown'' | Some s \<Rightarrow> s)"

definition health_input :: "time \<Rightarrow> runtime_health \<Rightarrow> classification_input" where
  "health_input now h =
     \<lparr>ci_lifecycle = rh_lifecycle h, ci_runtime_age_ms = truncated ((now - rh_runtime_at h) * 1000),
      ci_runtime_stale_after_ms = RUNTIME_STALE_AFTER_MS, ci_supervisor_required = rh_supervisor_required h,
      ci_supervisor_age_ms = truncated ((now - rh_supervisor_at h) * 1000), ci_supervisor_stale_after_ms = SUPERVISOR_STALE_AFTER_MS,
      ci_provider = known_state (rh_subsystems h) ''provider'', ci_capacity_available = rh_capacity_available h,
      ci_routing = known_state (rh_subsystems h) ''routing'', ci_directory = known_state (rh_external h) ''directory'',
      ci_dns = known_state (rh_external h) ''dns'', ci_internet = known_state (rh_external h) ''internet'',
      ci_tunnel = known_state (rh_subsystems h) ''tunnel''\<rparr>"

definition state_dict :: "(string, string) dict \<Rightarrow> pyval" where
  "state_dict d = PDict (map (\<lambda>(k, v). (PStr k, PStr v)) d)"

definition progress_dict :: "int \<Rightarrow> int \<Rightarrow> int \<Rightarrow> bool \<Rightarrow> pyval" where
  "progress_dict sequence age stale required =
     PDict [(PStr ''sequence'', PInt sequence), (PStr ''age_ms'', PInt age), (PStr ''stale_after_ms'', PInt stale), (PStr ''required'', PBool required)]"

definition health_snapshot :: "time \<Rightarrow> int \<Rightarrow> string \<Rightarrow> runtime_health \<Rightarrow> runtime_health \<times> pydict" where
  "health_snapshot now pid emitted_at h =
     (let h' = h\<lparr>rh_snapshot_sequence := rh_snapshot_sequence h + 1\<rparr>; i = health_input now h; v = health_classify i
      in (h',
          [(PStr ''health_schema_version'', PInt 1), (PStr ''process_epoch'', PStr (rh_process_epoch h)), (PStr ''pid'', PInt pid),
           (PStr ''sequence'', PInt (rh_snapshot_sequence h')), (PStr ''emitted_at'', PStr emitted_at), (PStr ''lifecycle'', PStr (rh_lifecycle h)),
           (PStr ''liveness'', PStr (hv_liveness v)), (PStr ''readiness'', PStr (hv_readiness v)),
           (PStr ''reason_codes'', PList (map PStr (hv_reason_codes v))),
           (PStr ''progress'', PDict
              [(PStr ''runtime'', progress_dict (rh_runtime_sequence h) (ci_runtime_age_ms i) RUNTIME_STALE_AFTER_MS True),
               (PStr ''supervisor'', progress_dict (rh_supervisor_sequence h) (ci_supervisor_age_ms i) SUPERVISOR_STALE_AFTER_MS (rh_supervisor_required h))]),
           (PStr ''subsystems'', state_dict (rh_subsystems h)), (PStr ''external_connectivity'', state_dict (rh_external h))]))"

text \<open>\<open>str.isalnum\<close> on a character, and the names \<open>snapshot_path\<close> accepts.\<close>

definition is_alnum :: "char \<Rightarrow> bool" where
  "is_alnum c \<longleftrightarrow> is_ascii_alnum c \<or>
     (let n = of_char c :: nat in n \<in> {170, 178, 179, 181, 185, 186, 188, 189, 190} \<or> (192 \<le> n \<and> n \<noteq> 215 \<and> n \<noteq> 247))"

definition snapshot_path :: "string \<Rightarrow> string \<Rightarrow> py_error + string" where
  "snapshot_path home node =
     (if node = [] \<or> \<not> list_all (\<lambda>c. is_alnum c \<or> c \<in> set ''-_.'') node then Inl (ValueError ''invalid node name'')
      else Inr (home @ ''/.iicp/run/'' @ node @ ''/health-v1.json''))"

subsection \<open>Facts: the history of a health record\<close>

datatype health_op =
    Mark_Running | Mark_Stopping | Advance_Runtime | Advance_Supervisor | Require_Supervisor bool | External string string

fun health_step :: "runtime_health \<Rightarrow> time \<times> health_op \<Rightarrow> runtime_health" where
  "health_step h (t, Mark_Running) = mark_running h"
| "health_step h (t, Mark_Stopping) = mark_stopping h"
| "health_step h (t, Advance_Runtime) = advance_runtime t h"
| "health_step h (t, Advance_Supervisor) = advance_supervisor t h"
| "health_step h (t, Require_Supervisor b) = set_supervisor_required b h"
| "health_step h (t, External name state) = set_external name state h"

definition health_run :: "string \<Rightarrow> time \<Rightarrow> (time \<times> health_op) list \<Rightarrow> runtime_health" where
  "health_run epoch start ops = foldl health_step (new_runtime_health epoch start) ops"

text \<open>The most recent operation of a kind.\<close>

fun latest :: "('a \<Rightarrow> 'b option) \<Rightarrow> 'b \<Rightarrow> 'a list \<Rightarrow> 'b" where
  "latest f d [] = d"
| "latest f d (x # xs) = latest f (case f x of None \<Rightarrow> d | Some y \<Rightarrow> y) xs"

fun lifecycle_mark :: "time \<times> health_op \<Rightarrow> string option" where
  "lifecycle_mark (t, Mark_Running) = Some ''running''"
| "lifecycle_mark (t, Mark_Stopping) = Some ''stopping''"
| "lifecycle_mark _ = None"

fun runtime_mark :: "time \<times> health_op \<Rightarrow> time option" where
  "runtime_mark (t, Advance_Runtime) = Some t"
| "runtime_mark _ = None"

fun supervisor_mark :: "time \<times> health_op \<Rightarrow> time option" where
  "supervisor_mark (t, Advance_Supervisor) = Some t"
| "supervisor_mark _ = None"

fun required_mark :: "time \<times> health_op \<Rightarrow> bool option" where
  "required_mark (t, Require_Supervisor b) = Some b"
| "required_mark _ = None"

fun external_mark :: "string \<Rightarrow> time \<times> health_op \<Rightarrow> string option" where
  "external_mark name (t, External n s) = (if n = name then Some s else None)"
| "external_mark name _ = None"

lemma latest_snoc [simp]: "latest f d (xs @ [x]) = (case f x of None \<Rightarrow> latest f d xs | Some y \<Rightarrow> y)"
  by (induction xs arbitrary: d) (auto split: option.split)

lemma health_run_fields:
  "rh_lifecycle (health_run epoch start ops) = latest lifecycle_mark ''starting'' ops \<and>
   rh_runtime_at (health_run epoch start ops) = latest runtime_mark start ops \<and>
   rh_supervisor_at (health_run epoch start ops) = latest supervisor_mark start ops \<and>
   rh_supervisor_required (health_run epoch start ops) = latest required_mark False ops"
proof (induction ops rule: rev_induct)
  case (snoc x ops)
  obtain t p where "x = (t, p)" by force
  with snoc show ?case
    by (cases p) (simp_all add: health_run_def mark_running_def mark_stopping_def advance_runtime_def advance_supervisor_def
      set_supervisor_required_def set_external_def)
qed (simp add: health_run_def new_runtime_health_def)

lemma health_run_external:
  "name \<in> {''directory'', ''dns'', ''internet''} \<Longrightarrow>
   known_state (rh_external (health_run epoch start ops)) name = latest (external_mark name) ''unknown'' ops"
proof (induction ops rule: rev_induct)
  case (snoc x ops)
  obtain t p where "x = (t, p)" by force
  with snoc show ?case
    by (cases p) (simp_all add: health_run_def known_state_def mark_running_def mark_stopping_def advance_runtime_def
      advance_supervisor_def set_supervisor_required_def set_external_def dict_simps)
qed (auto simp: health_run_def new_runtime_health_def known_state_def)

lemma health_run_subsystems:
  fixes epoch start ops
  defines "h \<equiv> health_run epoch start ops"
  shows "known_state (rh_subsystems h) ''tunnel'' = ''unknown'' \<and>
    known_state (rh_subsystems h) ''provider'' \<noteq> ''unavailable'' \<and> known_state (rh_subsystems h) ''routing'' \<noteq> ''unavailable'' \<and>
    (rh_lifecycle h = ''running'' \<longrightarrow> rh_capacity_available h) \<and> rh_lifecycle h \<in> {''starting'', ''running'', ''stopping''}"
  unfolding h_def
proof (induction ops rule: rev_induct)
  case (snoc x ops)
  obtain t p where "x = (t, p)" by force
  with snoc show ?case
    by (cases p) (simp_all add: health_run_def known_state_def mark_running_def mark_stopping_def advance_runtime_def
      advance_supervisor_def set_supervisor_required_def set_external_def dict_simps)
qed (simp add: health_run_def new_runtime_health_def known_state_def)

lemma stale_iff: "limit < truncated (x * 1000) \<longleftrightarrow> of_int limit + 1 \<le> x * 1000" if "0 \<le> limit"
proof (cases "0 \<le> x * 1000")
  case True
  then show ?thesis by (simp add: truncated_def) linarith
next
  case False
  then have "truncated (x * 1000) = \<lceil>x * 1000\<rceil>" "\<lceil>x * 1000\<rceil> \<le> 0" by (simp_all add: truncated_def)
  with False that show ?thesis by linarith
qed

lemma reasons_nil:
  "ci_provider i \<noteq> ''unavailable'' \<Longrightarrow> ci_routing i \<noteq> ''unavailable'' \<Longrightarrow> ci_tunnel i \<noteq> ''recovering'' \<Longrightarrow> ci_capacity_available i \<Longrightarrow>
   (health_reasons i = [] \<longleftrightarrow> ci_directory i \<noteq> ''unavailable'' \<and> ci_dns i \<noteq> ''unavailable'' \<and> ci_internet i \<noteq> ''unavailable'') \<and>
   set (health_reasons i) \<inter> {''PROVIDER_UNAVAILABLE'', ''NO_CAPACITY'', ''ROUTING_UNAVAILABLE''} = {}"
  by (simp add: health_reasons_def)

text \<open>A process whose loops made progress: the runtime within the last 30 seconds, the supervisor, where it is required, within two
  minutes (ages are whole milliseconds).\<close>

definition progressing :: "time \<Rightarrow> (time \<times> health_op) list \<Rightarrow> time \<Rightarrow> bool" where
  "progressing start ops now \<longleftrightarrow> now - latest runtime_mark start ops < 30001 / 1000 \<and>
     (latest required_mark False ops \<longrightarrow> now - latest supervisor_mark start ops < 120001 / 1000)"

definition connected :: "(time \<times> health_op) list \<Rightarrow> bool" where
  "connected ops \<longleftrightarrow> (\<forall>name \<in> {''directory'', ''dns'', ''internet''}. latest (external_mark name) ''unknown'' ops \<noteq> ''unavailable'')"

lemma health_input_facts:
  fixes epoch start ops now
  defines "i \<equiv> health_input now (health_run epoch start ops)"
  shows "progressing start ops now \<longleftrightarrow> ci_runtime_age_ms i \<le> ci_runtime_stale_after_ms i \<and>
      \<not> (ci_supervisor_required i \<and> ci_supervisor_age_ms i > ci_supervisor_stale_after_ms i)"
    "ci_lifecycle i = latest lifecycle_mark ''starting'' ops" "ci_lifecycle i \<in> {''starting'', ''running'', ''stopping''}"
    "ci_lifecycle i = ''running'' \<Longrightarrow> (health_reasons i = [] \<longleftrightarrow> connected ops) \<and>
      set (health_reasons i) \<inter> {''PROVIDER_UNAVAILABLE'', ''NO_CAPACITY'', ''ROUTING_UNAVAILABLE''} = {}"
proof -
  note fields = health_run_fields [of epoch start ops] and subs = health_run_subsystems [of epoch start ops]
  have age: "x < 30001 / 1000 \<longleftrightarrow> truncated (x * 1000) \<le> 30000" "x < 120001 / 1000 \<longleftrightarrow> truncated (x * 1000) \<le> 120000" for x
    using stale_iff [of 30000 x] stale_iff [of 120000 x] by (simp_all add: not_less [symmetric] field_simps)
  show "progressing start ops now \<longleftrightarrow> ci_runtime_age_ms i \<le> ci_runtime_stale_after_ms i \<and>
      \<not> (ci_supervisor_required i \<and> ci_supervisor_age_ms i > ci_supervisor_stale_after_ms i)"
    unfolding progressing_def age i_def health_input_def classification_input.select_convs RUNTIME_STALE_AFTER_MS_def SUPERVISOR_STALE_AFTER_MS_def
    using fields by (simp only: not_less [symmetric] de_Morgan_conj imp_conv_disj)
  show "ci_lifecycle i = latest lifecycle_mark ''starting'' ops" using fields by (simp add: i_def health_input_def)
  show "ci_lifecycle i \<in> {''starting'', ''running'', ''stopping''}" using subs by (simp add: i_def health_input_def)
  show "(health_reasons i = [] \<longleftrightarrow> connected ops) \<and>
      set (health_reasons i) \<inter> {''PROVIDER_UNAVAILABLE'', ''NO_CAPACITY'', ''ROUTING_UNAVAILABLE''} = {}" if "ci_lifecycle i = ''running''"
  proof -
    have "ci_provider i \<noteq> ''unavailable''" "ci_routing i \<noteq> ''unavailable''" "ci_tunnel i \<noteq> ''recovering''" "ci_capacity_available i"
      using subs that by (simp_all add: i_def health_input_def)
    from reasons_nil [OF this] show ?thesis
      using health_run_external [of _ epoch start ops] by (simp add: connected_def i_def health_input_def)
  qed
qed

lemma health_classify_cases:
  fixes i
  defines "v \<equiv> health_classify i"
  defines "fresh \<equiv> ci_runtime_age_ms i \<le> ci_runtime_stale_after_ms i \<and> \<not> (ci_supervisor_required i \<and> ci_supervisor_age_ms i > ci_supervisor_stale_after_ms i)"
  assumes "ci_lifecycle i \<in> {''starting'', ''running'', ''stopping''}"
    "ci_lifecycle i = ''running'' \<Longrightarrow> (health_reasons i = [] \<longleftrightarrow> ok) \<and>
      set (health_reasons i) \<inter> {''PROVIDER_UNAVAILABLE'', ''NO_CAPACITY'', ''ROUTING_UNAVAILABLE''} = {}"
  shows "(hv_liveness v = ''live'' \<longleftrightarrow> ci_lifecycle i \<noteq> ''starting'' \<and> fresh) \<and>
    (hv_readiness v = ''ready'' \<longleftrightarrow> ci_lifecycle i = ''running'' \<and> fresh \<and> ok) \<and>
    (hv_readiness v = ''degraded'' \<longleftrightarrow> ci_lifecycle i = ''running'' \<and> fresh \<and> \<not> ok)"
proof (cases "ci_lifecycle i = ''running'' \<and> fresh")
  case True
  with assms(4) have "(health_reasons i = [] \<longleftrightarrow> ok)" "''PROVIDER_UNAVAILABLE'' \<notin> set (health_reasons i)" "''NO_CAPACITY'' \<notin> set (health_reasons i)"
    "''ROUTING_UNAVAILABLE'' \<notin> set (health_reasons i)" by auto
  with True show ?thesis by (auto simp: v_def fresh_def health_classify_def Let_def)
next
  case False
  with assms(3) show ?thesis by (auto simp: v_def fresh_def health_classify_def)
qed

text \<open>Whatever a node's loops did, a snapshot tells the truth about them: it reports the process live exactly when it has been started and its loops
  made progress, ready exactly when it is moreover running and none of its connections was last found unavailable, and
  degraded exactly when one was; two snapshots in a row carry consecutive numbers.\<close>

lemma snapshot_truthful:
  fixes epoch start ops now pid emitted
  defines "h \<equiv> health_run epoch start ops"
  defines "lifecycle \<equiv> latest lifecycle_mark ''starting'' ops"
  shows "case health_snapshot now pid emitted h of (h', snap) \<Rightarrow>
      (sget snap ''liveness'' = PStr ''live'' \<longleftrightarrow> lifecycle \<noteq> ''starting'' \<and> progressing start ops now) \<and>
      (sget snap ''readiness'' = PStr ''ready'' \<longleftrightarrow> lifecycle = ''running'' \<and> progressing start ops now \<and> connected ops) \<and>
      (sget snap ''readiness'' = PStr ''degraded'' \<longleftrightarrow> lifecycle = ''running'' \<and> progressing start ops now \<and> \<not> connected ops) \<and>
      sget snap ''sequence'' = PInt (rh_snapshot_sequence h + 1) \<and> h' = h\<lparr>rh_snapshot_sequence := rh_snapshot_sequence h + 1\<rparr>"
proof -
  let ?i = "health_input now h"
  have "ci_lifecycle ?i = lifecycle" by (simp add: h_def lifecycle_def health_input_facts(2))
  with health_classify_cases [of ?i "connected ops"] health_input_facts [where epoch = epoch and start = start and ops = ops and now = now, folded h_def]
  show ?thesis by (simp add: health_snapshot_def Let_def)
qed

end
