(* ===== verification/Node_Registration.thy ===== *)
theory Node_Registration
  imports Node_Task Node_Health Ticket_Trust Effective_Capability
begin

text \<open>
  Registration of a provider with its directory (\<open>IicpNode._register_with_models\<close> in \<open>node.py\<close>): the capabilities derived from the
  names of the backend's models, the signed pricing block (\<open>pricing.py\<close>), the payload, and what the node keeps of the answer. Parameters:
  HMAC, the decimal text of fractional floats, JSON texts and the text of unusual values. The metadata of the updater
  (\<open>updater.py\<close>) and the answer of the directory are arguments; handing refreshed credentials to the saved identity is an output.
\<close>

subsection \<open>Capabilities\<close>

definition EMBEDDING_INTENT :: string where "EMBEDDING_INTENT = ''urn:iicp:intent:llm:embedding:v1''"

definition intent_for_model :: "string \<Rightarrow> string \<Rightarrow> string" where
  "intent_for_model model default_intent = (if contains (lower model) ''embed'' then EMBEDDING_INTENT else default_intent)"

definition modalities_for_model :: "string \<Rightarrow> string list" where
  "modalities_for_model model =
     (let m = lower model;
          has_image = (contains m ''-vl-'' \<or> ends_with m ''-vl'' \<or> contains m ''vision'' \<or> contains m ''llava'' \<or> contains m ''omni'');
          has_audio = (contains m ''audio'' \<or> contains m ''voxtral'' \<or> contains m ''omni'')
      in [''text''] @ (if has_image then [''image''] else []) @ (if has_audio then [''audio''] else []))"

record model_group =
  mg_intent :: string
  mg_models :: "string list"
  mg_modalities :: "string list"

fun modality_text :: "string list \<Rightarrow> string" where
  "modality_text [] = []"
| "modality_text [s] = s"
| "modality_text (s # ss) = s @ '','' @ modality_text ss"

definition group_key :: "string \<Rightarrow> string \<Rightarrow> string" where
  "group_key default_intent m = intent_for_model m default_intent @ [CHR 0x00] @ modality_text (modalities_for_model m)"

definition add_to_group :: "string \<Rightarrow> model_group \<Rightarrow> model_group" where
  "add_to_group m g = (if m \<in> set (mg_models g) then g else g\<lparr>mg_models := mg_models g @ [m]\<rparr>)"

definition group_model :: "string \<Rightarrow> (string, model_group) dict \<Rightarrow> string \<Rightarrow> (string, model_group) dict" where
  "group_model default_intent groups m =
     (let key = group_key default_intent m;
          g = (case map_of groups key of
                 Some g \<Rightarrow> g
               | None \<Rightarrow> \<lparr>mg_intent = intent_for_model m default_intent, mg_models = [], mg_modalities = modalities_for_model m\<rparr>)
      in AList.update key (add_to_group m g) groups)"

definition model_groups :: "string list \<Rightarrow> string \<Rightarrow> model_group list" where
  "model_groups models default_intent =
     (if models = [] then [\<lparr>mg_intent = default_intent, mg_models = [], mg_modalities = [''text'']\<rparr>]
      else map snd (foldl (group_model default_intent) [] models))"

definition text_values :: "string list \<Rightarrow> pyval" where
  "text_values ss = PList (map PStr ss)"

text \<open>\<open>list(dict.fromkeys(xs))\<close>: the first of every value.\<close>

fun first_seen :: "'a list \<Rightarrow> 'a list" where
  "first_seen [] = []"
| "first_seen (x # xs) = x # filter (\<lambda>y. y \<noteq> x) (first_seen xs)"

definition group_dict :: "int \<Rightarrow> string list \<Rightarrow> model_group \<Rightarrow> pyval" where
  "group_dict max_tokens profiles g =
     PDict ([(PStr ''intent'', PStr (mg_intent g)), (PStr ''models'', text_values (mg_models g)), (PStr ''max_tokens'', PInt max_tokens),
             (PStr ''input_modalities'', text_values (mg_modalities g))] @
            (if profiles = [] then [] else [(PStr ''supported_profiles'', text_values profiles)]))"

definition build_capabilities :: "string list \<Rightarrow> string \<Rightarrow> int \<Rightarrow> string list \<Rightarrow> pyval list" where
  "build_capabilities models default_intent max_tokens supported_profiles =
     map (group_dict max_tokens (first_seen supported_profiles)) (model_groups models default_intent)"

subsection \<open>Pricing\<close>

record pricing_config =
  pr_multiplier :: pyval
  pr_model :: string
  pr_sign_declarations :: bool
  pr_effective_from :: "string option"
  pr_effective_until :: "string option"

record registration_env =
  re_hmac :: "string \<Rightarrow> string \<Rightarrow> string"
  re_float_repr :: "real \<Rightarrow> string"
  re_json_text :: "string \<Rightarrow> string"
  re_text :: "pyval \<Rightarrow> string"
  re_sdk_version :: string

definition sign_body :: "registration_env \<Rightarrow> string \<Rightarrow> string \<Rightarrow> string" where
  "sign_body env body secret = re_hmac env secret body"

definition verify_signature :: "registration_env \<Rightarrow> string \<Rightarrow> string \<Rightarrow> string \<Rightarrow> bool" where
  "verify_signature env body secret signature \<longleftrightarrow> sign_body env body secret = signature"

definition fmt_number :: "registration_env \<Rightarrow> pyval \<Rightarrow> string" where
  "fmt_number env v =
     (case v of
        PBool b \<Rightarrow> if b then ''true'' else ''false''
      | PInt i \<Rightarrow> int_text i
      | PFloat r \<Rightarrow> if r = of_int (truncated r) then int_text (truncated r) else re_float_repr env r
      | _ \<Rightarrow> re_text env v)"

definition quote_mark :: char where "quote_mark = CHR 0x22"

definition php_canonical_sign_body :: "registration_env \<Rightarrow> pyval \<Rightarrow> string \<Rightarrow> string" where
  "php_canonical_sign_body env multiplier model =
     ''{'' @ [quote_mark] @ ''credit_cost_multiplier'' @ [quote_mark] @ '':'' @ fmt_number env multiplier @ '','' @
     [quote_mark] @ ''pricing_model'' @ [quote_mark] @ '':'' @ re_json_text env model @ ''}''"

definition option_entry :: "string \<Rightarrow> string option \<Rightarrow> pydict" where
  "option_entry k v = (case v of None \<Rightarrow> [] | Some s \<Rightarrow> [(PStr k, PStr s)])"

definition build_pricing_block :: "registration_env \<Rightarrow> pricing_config \<Rightarrow> string \<Rightarrow> pydict" where
  "build_pricing_block env p hmac_key =
     [(PStr ''credit_cost_multiplier'', pr_multiplier p), (PStr ''pricing_model'', PStr (pr_model p))] @
     (if pr_sign_declarations p \<and> hmac_key \<noteq> []
      then [(PStr ''declaration_signature'', PStr (sign_body env (php_canonical_sign_body env (pr_multiplier p) (pr_model p)) hmac_key))] else []) @
     option_entry ''effective_from'' (pr_effective_from p) @ option_entry ''effective_until'' (pr_effective_until p)"

subsection \<open>The node\<close>

record registration_config =
  rg_node_id :: string
  rg_endpoint :: string
  rg_intent :: string
  rg_model :: pyval
  rg_capabilities :: "pyval list"
  rg_effective_capabilities :: "effective_capability list"
  rg_region :: string
  rg_max_concurrent :: int
  rg_tokens_per_min :: int
  rg_max_tokens :: int
  rg_supported_profiles :: "string list"
  rg_supported_receipt_profiles :: "string list"
  rg_transport_endpoint :: string
  rg_transport_method :: string
  rg_nat_type :: string
  rg_exposure_mode :: string
  rg_transport_metadata :: pydict
  rg_operator_delegation :: pydict
  rg_operator_display_name :: string
  rg_operator_created_at :: string
  rg_operator_integrity_hash :: string
  rg_policy_manifest :: pydict
  rg_cx_public_key :: pydict
  rg_backend :: string
  rg_backend_url :: string
  rg_excluded_models :: "string list"
  rg_relay_capable :: bool
  rg_relay_accept_port :: int
  rg_cip_policy :: cip_node_policy
  rg_pricing :: "pricing_config option"
  rg_node_hmac_key :: string
  rg_availability_windows :: "availability_window list"

record supervised_node =
  sn_config :: registration_config
  sn_tasks :: node_state
  sn_pending_batch :: "(string \<times> int \<times> int \<times> real) option"
  sn_token :: string
  sn_hmac_key :: string
  sn_challenge :: pyval
  sn_registered_models :: "pyval list"
  sn_runtime_available :: bool
  sn_runtime_relay_bound :: bool
  sn_saved_name :: string
  sn_stability :: observation
  sn_health :: runtime_health

text \<open>A text option of the configuration that is unset is the empty text, an unset dictionary the empty one: the code only tests their truth.\<close>

definition when_text :: "string \<Rightarrow> string \<Rightarrow> pydict" where
  "when_text k s = (if s = [] then [] else [(PStr k, PStr s)])"

definition when_dict :: "string \<Rightarrow> pydict \<Rightarrow> pydict" where
  "when_dict k d = (if d = [] then [] else [(PStr k, PDict d)])"

definition add_new :: "pyval list \<Rightarrow> pyval \<Rightarrow> pyval list" where
  "add_new models cap = (if list_ex (\<lambda>m. py_eq m cap) models then models else models @ [cap])"

definition configured_models :: "registration_config \<Rightarrow> pyval list" where
  "configured_models cfg = foldl add_new (if truthy (rg_model cfg) then [rg_model cfg] else []) (rg_capabilities cfg)"

fun names_of :: "pyval list \<Rightarrow> string list option" where
  "names_of [] = Some []"
| "names_of (PStr s # vs) = map_option (Cons s) (names_of vs)"
| "names_of (_ # vs) = None"

definition advertised_capabilities :: "registration_config \<Rightarrow> pyval list \<Rightarrow> py_error + pyval list" where
  "advertised_capabilities cfg models =
     (if rg_effective_capabilities cfg \<noteq> [] then Inr (map (PDict \<circ> effective_capability_to_dict) (rg_effective_capabilities cfg))
      else case names_of models of
             None \<Rightarrow> Inl AttributeError
           | Some names \<Rightarrow> Inr (build_capabilities names (rg_intent cfg) (rg_max_tokens cfg) (rg_supported_profiles cfg)))"

definition operator_entries :: "registration_config \<Rightarrow> pydict" where
  "operator_entries cfg =
     (if rg_operator_delegation cfg = [] then []
      else when_dict ''operator_delegation'' (rg_operator_delegation cfg) @ when_text ''operator_display_name'' (rg_operator_display_name cfg) @
        when_text ''operator_created_at'' (rg_operator_created_at cfg) @ when_text ''operator_integrity_hash'' (rg_operator_integrity_hash cfg))"

definition receipt_profiles :: "registration_config \<Rightarrow> string list" where
  "receipt_profiles cfg = filter (\<lambda>p. p = ''consumer_cosignature_v1'') (rg_supported_receipt_profiles cfg)"

definition register_payload :: "registration_env \<Rightarrow> supervised_node \<Rightarrow> pydict \<Rightarrow> pyval list \<Rightarrow> pydict" where
  "register_payload env n update capabilities =
     (let cfg = sn_config n; profiles = receipt_profiles cfg;
          head = [(PStr ''endpoint'', PStr (rg_endpoint cfg)),
             (PStr ''region'', PStr (if rg_region cfg = [] then ''unknown'' else rg_region cfg)), (PStr ''capabilities'', PList capabilities),
             (PStr ''limits'', PDict [(PStr ''max_concurrent'', PInt (rg_max_concurrent cfg)), (PStr ''tokens_per_min'', PInt (rg_tokens_per_min cfg))])] @
            when_text ''node_id'' (rg_node_id cfg) @ when_text ''current_node_token'' (sn_token n) @
            when_text ''transport_endpoint'' (rg_transport_endpoint cfg) @ when_text ''transport_method'' (rg_transport_method cfg) @
            when_text ''nat_type'' (rg_nat_type cfg) @ when_text ''exposure_mode'' (rg_exposure_mode cfg) @
            when_dict ''transport_metadata'' (rg_transport_metadata cfg) @ operator_entries cfg @ when_dict ''policy_manifest'' (rg_policy_manifest cfg) @
            (if profiles = [] then [] else [(PStr ''supported_receipt_profiles'', text_values (first_seen profiles))]) @
            [(PStr ''sdk_language'', PStr ''python''), (PStr ''sdk_version'', PStr (re_sdk_version env))];
          tail = when_dict ''cx_public_key'' (rg_cx_public_key cfg) @ when_text ''backend'' (rg_backend cfg) @
            (if rg_relay_capable cfg then [(PStr ''relay_capable'', PBool True), (PStr ''relay_accept_port'', PInt (rg_relay_accept_port cfg))] else []) @
            when_dict ''policy'' (as_register_policy_block (rg_cip_policy cfg)) @
            (case rg_pricing cfg of None \<Rightarrow> [] | Some p \<Rightarrow> [(PStr ''pricing'', PDict (build_pricing_block env p (sn_hmac_key n)))]) @
            when_text ''node_hmac_key'' (rg_node_hmac_key cfg)
      in merged (merged head update) tail)"

datatype register_error = Register_Status int | Register_Raised

definition register_answer :: "http_answer \<Rightarrow> register_error + pydict" where
  "register_answer answer =
     (case answer of
        No_Answer \<Rightarrow> Inl Register_Raised
      | Answer status body \<Rightarrow>
          if \<not> successful status then Inl (Register_Status status)
          else (case body of
                  Some v \<Rightarrow> (case v of
                      PDict data \<Rightarrow> if truthy (or_value (sget data ''node_token'') (sget data ''token'')) then Inr data else Inl Register_Raised
                    | _ \<Rightarrow> Inl Register_Raised)
                | None \<Rightarrow> Inl Register_Raised))"

text \<open>What the accepted registration leaves in the node; the configuration changes only when the models were given.\<close>

definition commit_registration ::
  "registration_env \<Rightarrow> supervised_node \<Rightarrow> bool \<Rightarrow> pyval list \<Rightarrow> pydict \<Rightarrow> supervised_node \<times> string" where
  "commit_registration env n overridden models data =
     (let token = py_str (re_text env) (or_value (sget data ''node_token'') (sget data ''token''));
          issued = get_or data ''node_hmac_key'' (PStr []);
          key = (if sn_hmac_key n = [] \<and> truthy issued then py_str (re_text env) issued else sn_hmac_key n);
          cfg = (if overridden then (sn_config n)\<lparr>rg_model := (case models of [] \<Rightarrow> PStr [] | m # _ \<Rightarrow> m), rg_capabilities := drop 1 models\<rparr>
                 else sn_config n)
      in (n\<lparr>sn_token := token, sn_hmac_key := key, sn_config := cfg, sn_registered_models := py_remdups models\<rparr>, token))"

text \<open>The node afterwards, the payload posted (none when it cannot be built), the credentials handed to the saved identity, and the token or the
  error.\<close>

definition register_with_models ::
  "registration_env \<Rightarrow> supervised_node \<Rightarrow> pyval list option \<Rightarrow> pydict \<Rightarrow> http_answer
    \<Rightarrow> supervised_node \<times> pydict option \<times> (string \<times> string) option \<times> (register_error + string)" where
  "register_with_models env n override update answer =
     (let models = (case override of Some ms \<Rightarrow> py_remdups ms | None \<Rightarrow> configured_models (sn_config n))
      in case advertised_capabilities (sn_config n) models of
           Inl _ \<Rightarrow> (n, None, None, Inl Register_Raised)
         | Inr capabilities \<Rightarrow>
             let payload = register_payload env n update capabilities
             in case register_answer answer of
                  Inl e \<Rightarrow> (n, Some payload, None, Inl e)
                | Inr data \<Rightarrow>
                    (case commit_registration env n (override \<noteq> None) models data of
                       (n', token) \<Rightarrow>
                         (n', Some payload, if sn_saved_name n \<noteq> [] \<and> token \<noteq> [] then Some (token, sn_hmac_key n') else None, Inr token)))"

definition register :: "registration_env \<Rightarrow> supervised_node \<Rightarrow> pydict \<Rightarrow> http_answer
    \<Rightarrow> supervised_node \<times> pydict option \<times> (string \<times> string) option \<times> (register_error + string)" where
  "register env n update answer = register_with_models env n None update answer"

subsection \<open>Facts\<close>

lemma modalities_cases:
  "modalities_for_model m \<in> {[''text''], [''text'', ''image''], [''text'', ''audio''], [''text'', ''image'', ''audio'']}"
  by (simp add: modalities_for_model_def Let_def)

lemma modality_text_inj:
  assumes "xs \<in> {[''text''], [''text'', ''image''], [''text'', ''audio''], [''text'', ''image'', ''audio'']}"
    "ys \<in> {[''text''], [''text'', ''image''], [''text'', ''audio''], [''text'', ''image'', ''audio'']}"
  shows "CHR 0x00 \<notin> set (modality_text xs)" "modality_text xs = modality_text ys \<Longrightarrow> xs = ys"
  using assms by auto

lemma last_mark: "x \<notin> set b \<Longrightarrow> x \<notin> set d \<Longrightarrow> a @ [x] @ b = c @ [x] @ d \<Longrightarrow> a = c \<and> b = d"
proof -
  assume x: "x \<notin> set b" "x \<notin> set d" and eq: "a @ [x] @ b = c @ [x] @ d"
  have tail: "takeWhile (\<lambda>y. y \<noteq> x) (rev (u @ [x] @ v)) = rev v" if "x \<notin> set v" for u v
    using that by (induction v rule: rev_induct) auto
  from tail [OF x(1), of a] tail [OF x(2), of c] have "rev b = rev d" unfolding eq by simp
  with eq show ?thesis by simp
qed

text \<open>The key of a group determines its intent and its modalities.\<close>

lemma group_key_inj:
  assumes "group_key d m = group_key d k"
  shows "intent_for_model m d = intent_for_model k d" "modalities_for_model m = modalities_for_model k"
proof -
  note mods = modality_text_inj [OF modalities_cases modalities_cases]
  from last_mark [OF mods(1) [of m] mods(1) [of k] assms [unfolded group_key_def]] mods(2)
  show "intent_for_model m d = intent_for_model k d" "modalities_for_model m = modalities_for_model k" by blast+
qed

definition groups_sound :: "string \<Rightarrow> string list \<Rightarrow> (string, model_group) dict \<Rightarrow> bool" where
  "groups_sound d names groups \<longleftrightarrow> distinct (map fst groups) \<and>
     (\<forall>(key, g) \<in> set groups. mg_models g \<noteq> [] \<and> distinct (mg_models g) \<and>
        (\<forall>m \<in> set (mg_models g). m \<in> set names \<and> key = group_key d m \<and> mg_intent g = intent_for_model m d \<and> mg_modalities g = modalities_for_model m)) \<and>
     (\<forall>m \<in> set names. \<exists>g. map_of groups (group_key d m) = Some g \<and> m \<in> set (mg_models g))"

lemma group_model_sound:
  assumes "groups_sound d names groups"
  shows "groups_sound d (names @ [m]) (group_model d groups m)"
proof -
  let ?key = "group_key d m"
  define g where "g = (case map_of groups ?key of Some g \<Rightarrow> g
    | None \<Rightarrow> \<lparr>mg_intent = intent_for_model m d, mg_models = [], mg_modalities = modalities_for_model m\<rparr>)"
  have fst: "distinct (map fst groups)" using assms by (simp add: groups_sound_def)
  have "distinct (mg_models g) \<and> mg_intent g = intent_for_model m d \<and> mg_modalities g = modalities_for_model m \<and>
      (\<forall>k \<in> set (mg_models g). k \<in> set names \<and> group_key d k = ?key \<and> intent_for_model k d = intent_for_model m d \<and> modalities_for_model k = modalities_for_model m)"
  proof (cases "map_of groups ?key")
    case None
    then show ?thesis by (simp add: g_def)
  next
    case (Some h)
    then have "(?key, h) \<in> set groups" by (rule map_of_SomeD)
    with assms [unfolded groups_sound_def] have h: "mg_models h \<noteq> []" "distinct (mg_models h)" "\<forall>k \<in> set (mg_models h). k \<in> set names \<and> ?key = group_key d k \<and>
        mg_intent h = intent_for_model k d \<and> mg_modalities h = modalities_for_model k"
      by blast+
    have "\<forall>k \<in> set (mg_models h). intent_for_model k d = intent_for_model m d \<and> modalities_for_model k = modalities_for_model m"
      using h(3) group_key_inj [of d m] by metis
    moreover obtain k where "k \<in> set (mg_models h)" using h(1) by (meson last_in_set)
    moreover have "g = h" using Some by (simp add: g_def)
    ultimately show ?thesis using h by auto
  qed
  then have g: "distinct (mg_models g)" "mg_intent g = intent_for_model m d" "mg_modalities g = modalities_for_model m"
    "\<forall>k \<in> set (mg_models g). k \<in> set names \<and> group_key d k = ?key \<and> intent_for_model k d = intent_for_model m d \<and> modalities_for_model k = modalities_for_model m"
    by blast+
  have added: "set (mg_models (add_to_group m g)) = insert m (set (mg_models g))" "distinct (mg_models (add_to_group m g))"
    "mg_intent (add_to_group m g) = mg_intent g" "mg_modalities (add_to_group m g) = mg_modalities g" "mg_models (add_to_group m g) \<noteq> []"
    using g(1) by (auto simp: add_to_group_def)
  have result: "group_model d groups m = AList.update ?key (add_to_group m g) groups" by (simp add: group_model_def g_def Let_def)
  show ?thesis
    unfolding groups_sound_def result set_dict_update [OF fst]
  proof (intro conjI ballI)
    show "distinct (map fst (AList.update ?key (add_to_group m g) groups))" by (rule distinct_dict_update [OF fst])
  next
    fix p
    assume "p \<in> insert (?key, add_to_group m g) {p \<in> set groups. fst p \<noteq> ?key}"
    then consider "p = (?key, add_to_group m g)" | "p \<in> set groups" by blast
    then show "case p of (key, h) \<Rightarrow> mg_models h \<noteq> [] \<and> distinct (mg_models h) \<and>
        (\<forall>k \<in> set (mg_models h). k \<in> set (names @ [m]) \<and> key = group_key d k \<and> mg_intent h = intent_for_model k d \<and> mg_modalities h = modalities_for_model k)"
    proof cases
      case 1
      have "\<forall>k \<in> set (mg_models (add_to_group m g)). k \<in> set (names @ [m]) \<and> ?key = group_key d k \<and>
          mg_intent (add_to_group m g) = intent_for_model k d \<and> mg_modalities (add_to_group m g) = modalities_for_model k"
        unfolding added(1,3,4) g(2,3) using g(4) by simp
      with 1 added(2,5) show ?thesis by simp
    next
      case 2
      have "\<forall>(key, g) \<in> set groups. mg_models g \<noteq> [] \<and> distinct (mg_models g) \<and>
        (\<forall>m \<in> set (mg_models g). m \<in> set names \<and> key = group_key d m \<and> mg_intent g = intent_for_model m d \<and> mg_modalities g = modalities_for_model m)"
        using assms [unfolded groups_sound_def] by (elim conjE)
      from bspec [OF this 2] show ?thesis by (cases p) simp
    qed
  next
    fix k
    assume k: "k \<in> set (names @ [m])"
    show "\<exists>h. map_of (AList.update ?key (add_to_group m g) groups) (group_key d k) = Some h \<and> k \<in> set (mg_models h)"
    proof (cases "k = m")
      case False
      with k obtain h where h: "map_of groups (group_key d k) = Some h" "k \<in> set (mg_models h)"
        using assms unfolding groups_sound_def by auto
      show ?thesis
      proof (cases "group_key d k = ?key")
        case True
        with h have "h = g" by (simp add: g_def)
        with True h(2) show ?thesis by (simp add: dict_get_update added(1))
      qed (use h in \<open>simp add: dict_get_update\<close>)
    qed (simp add: dict_get_update added(1))
  qed
qed

lemma model_groups_sound: "groups_sound d names (foldl (group_model d) [] names)"
proof (induction names rule: rev_induct)
  case (snoc m names)
  then show ?case by (simp add: group_model_sound)
qed (simp add: groups_sound_def)

text \<open>The advertised capabilities divide the models: every model is in exactly one capability, once, and that capability has the model's own intent
  and modalities; no two capabilities have both in common.\<close>

lemma capabilities_divide_models:
  fixes names d
  assumes "names \<noteq> []"
  defines "groups \<equiv> model_groups names d"
  shows "(\<forall>m \<in> set names. \<exists>!g. g \<in> set groups \<and> m \<in> set (mg_models g)) \<and>
    (\<forall>g \<in> set groups. mg_models g \<noteq> [] \<and> distinct (mg_models g) \<and>
       (\<forall>m \<in> set (mg_models g). m \<in> set names \<and> mg_intent g = intent_for_model m d \<and> mg_modalities g = modalities_for_model m)) \<and>
    distinct (map (\<lambda>g. (mg_intent g, mg_modalities g)) groups)"
proof -
  define table where "table = foldl (group_model d) [] names"
  have sound: "groups_sound d names table" unfolding table_def by (rule model_groups_sound)
  have groups: "groups = map snd table" using assms(1) by (simp add: groups_def model_groups_def table_def)
  have dist: "distinct (map fst table)" using sound by (simp add: groups_sound_def)
  note table = conjunct1 [OF conjunct2 [OF sound [unfolded groups_sound_def]]] conjunct2 [OF conjunct2 [OF sound [unfolded groups_sound_def]]]
  have each: "mg_models g \<noteq> [] \<and> distinct (mg_models g) \<and> (\<forall>m \<in> set (mg_models g). m \<in> set names \<and> key = group_key d m \<and>
      mg_intent g = intent_for_model m d \<and> mg_modalities g = modalities_for_model m)" if "(key, g) \<in> set table" for key g
    by (rule bspec [OF table(1) that, unfolded prod.case])
  have key: "key = mg_intent g @ [CHR 0x00] @ modality_text (mg_modalities g)" if "(key, g) \<in> set table" for key g
  proof -
    from each [OF that] obtain m where "m \<in> set (mg_models g)" by (meson last_in_set)
    with each [OF that] have "key = group_key d m" "mg_intent g = intent_for_model m d" "mg_modalities g = modalities_for_model m" by simp_all
    then show ?thesis by (simp add: group_key_def)
  qed
  have one: "\<exists>!g. g \<in> set groups \<and> m \<in> set (mg_models g)" if "m \<in> set names" for m
  proof -
    obtain g where g: "map_of table (group_key d m) = Some g" "m \<in> set (mg_models g)" using table(2) \<open>m \<in> set names\<close> by blast
    show ?thesis
    proof (rule ex1I [of _ g])
      have "g \<in> snd ` set table" using map_of_SomeD [OF g(1)] by (metis imageI snd_conv)
      with g(2) show "g \<in> set groups \<and> m \<in> set (mg_models g)" by (simp add: groups)
      fix h
      assume "h \<in> set groups \<and> m \<in> set (mg_models h)"
      then obtain k where "(k, h) \<in> set table" "m \<in> set (mg_models h)" by (auto simp: groups)
      with each [OF this(1)] have "(group_key d m, h) \<in> set table" by simp
      from map_of_is_SomeI [OF dist this] g(1) show "h = g" by simp
    qed
  qed
  have fst_key: "map fst table = map (\<lambda>(i, ms). i @ [CHR 0x00] @ modality_text ms) (map (\<lambda>g. (mg_intent g, mg_modalities g)) groups)"
    unfolding groups map_map by (rule map_cong [OF refl]) (use key in force)
  have "distinct (map (\<lambda>g. (mg_intent g, mg_modalities g)) groups)"
    by (rule conjunct1 [OF iffD1 [OF distinct_map dist [unfolded fst_key]]])
  moreover have "\<forall>g \<in> set groups. mg_models g \<noteq> [] \<and> distinct (mg_models g) \<and>
      (\<forall>m \<in> set (mg_models g). m \<in> set names \<and> mg_intent g = intent_for_model m d \<and> mg_modalities g = modalities_for_model m)"
  proof
    fix g
    assume "g \<in> set groups"
    then obtain k where "(k, g) \<in> set table" by (auto simp: groups)
    from each [OF this] show "mg_models g \<noteq> [] \<and> distinct (mg_models g) \<and>
      (\<forall>m \<in> set (mg_models g). m \<in> set names \<and> mg_intent g = intent_for_model m d \<and> mg_modalities g = modalities_for_model m)" by blast
  qed
  ultimately show ?thesis using one by blast
qed

lemma first_seen_set [simp]: "set (first_seen xs) = set xs"
  by (induction xs) auto

lemma first_seen_distinct: "distinct (first_seen xs)"
  by (induction xs) auto

lemma py_remdups_texts: "py_remdups (map PStr ss) = map PStr (first_seen ss)"
  by (induction ss) (auto simp: filter_map o_def)

lemma first_seen_idem: "distinct xs \<Longrightarrow> first_seen xs = xs"
proof (induction xs)
  case (Cons x xs)
  then show ?case by (auto intro: filter_True)
qed simp

lemma add_new_texts: "distinct (xs @ ys) \<Longrightarrow> foldl add_new (map PStr xs) (map PStr ys) = map PStr (xs @ ys)"
proof (induction ys arbitrary: xs)
  case (Cons y ys)
  then have "add_new (map PStr xs) (PStr y) = map PStr (xs @ [y])" by (auto simp: add_new_def list_ex_iff)
  with Cons.IH [of "xs @ [y]"] Cons.prems show ?case by simp
qed simp

text \<open>A registration either changes nothing or is complete: after a failure the node is as it was; after a success it holds the token the directory
  issued, and both its record of registered models and its configuration name exactly the models it advertised.\<close>

lemma registration_commits:
  assumes "register_with_models env n (Some (map PStr names)) update answer = (n', payload, saved, result)" "[] \<notin> set names"
  shows "case result of
      Inl _ \<Rightarrow> n' = n \<and> saved = None
    | Inr token \<Rightarrow> sn_token n' = token \<and> sn_registered_models n' = map PStr (first_seen names) \<and>
        configured_models (sn_config n') = map PStr (first_seen names)"
proof (cases result)
  case (Inl e)
  with assms(1) show ?thesis by (auto simp: register_with_models_def Let_def commit_registration_def split: sum.splits)
next
  case (Inr token)
  define models where "models = first_seen names"
  have models: "distinct models" "[] \<notin> set models" using assms(2) by (simp_all add: models_def first_seen_distinct)
  have n': "sn_token n' = token" "sn_registered_models n' = map PStr models"
    "rg_model (sn_config n') = (case map PStr models of [] \<Rightarrow> PStr [] | m # _ \<Rightarrow> m)" "rg_capabilities (sn_config n') = drop 1 (map PStr models)"
    using assms(1) Inr models(1)
    by (auto simp: register_with_models_def Let_def commit_registration_def py_remdups_texts models_def first_seen_idem first_seen_distinct split: sum.splits)
  have "configured_models (sn_config n') = map PStr models"
  proof (cases models)
    case (Cons m ms)
    then show ?thesis using n'(3,4) models add_new_texts [of "[m]" ms] by (auto simp: configured_models_def)
  qed (use n'(3,4) in \<open>simp add: configured_models_def\<close>)
  with n' Inr show ?thesis by (simp add: models_def)
qed

end
