(* ===== verification/Node_Heartbeat.thy ===== *)
theory Node_Heartbeat
  imports Node_Registration
begin

text \<open>
  The supervision of a provider (\<open>IicpNode\<close> in \<open>node.py\<close>): the heartbeat with its batches of task metrics, the probe of the backend's models,
  the re-registration when they drift, and the heartbeat loop with its recovery checks. One pass of the loop is a function of what
  the world answered during it; the tasks finished meanwhile by the request threads are part of that input, and the readings of the
  monotonic clock in one pass are one. Log output is not modelled.
\<close>

subsection \<open>The backend's models\<close>

text \<open>The names under \<open>key\<close> of the entries under \<open>field\<close>; an entry that is no dictionary, or a document that is none, raises.\<close>

definition entry_names :: "string \<Rightarrow> string \<Rightarrow> pyval \<Rightarrow> pyval list option" where
  "entry_names field key data =
     (case data of
        PDict d \<Rightarrow>
          (case py_elements (get_or d field (PList [])) of
             None \<Rightarrow> None
           | Some es \<Rightarrow>
               if list_all is_dict es then Some (filter truthy (map (\<lambda>e. case e of PDict m \<Rightarrow> sget m key | _ \<Rightarrow> PNone) es)) else None)
      | _ \<Rightarrow> None)"

definition not_excluded :: "registration_config \<Rightarrow> pyval \<Rightarrow> bool" where
  "not_excluded cfg v \<longleftrightarrow> \<not> in_strs v (rg_excluded_models cfg)"

definition json_answer :: "http_answer \<Rightarrow> pyval option" where
  "json_answer answer = (case answer of No_Answer \<Rightarrow> None | Answer status body \<Rightarrow> if successful status then body else None)"

definition tags_models :: "registration_config \<Rightarrow> http_answer \<Rightarrow> pyval list option" where
  "tags_models cfg tags =
     (case json_answer tags of
        None \<Rightarrow> None
      | Some data \<Rightarrow>
          (case entry_names ''models'' ''name'' data of
             None \<Rightarrow> None
           | Some names \<Rightarrow>
               if list_all hashable names
               then (case py_sorted (py_remdups names) of Inl _ \<Rightarrow> None | Inr sorted_names \<Rightarrow> Some (filter (not_excluded cfg) sorted_names))
               else None))"

definition listed_models :: "registration_config \<Rightarrow> http_answer \<Rightarrow> pyval list option" where
  "listed_models cfg models =
     (case json_answer models of
        None \<Rightarrow> None
      | Some data \<Rightarrow> map_option (filter (not_excluded cfg)) (entry_names ''data'' ''id'' data))"

definition probe_health_models :: "registration_config \<Rightarrow> http_answer \<Rightarrow> http_answer \<Rightarrow> pyval list option" where
  "probe_health_models cfg tags models = (case tags_models cfg tags of Some ms \<Rightarrow> Some ms | None \<Rightarrow> listed_models cfg models)"

definition set_backend_stability :: "supervised_node \<Rightarrow> time \<Rightarrow> observation \<Rightarrow> supervised_node" where
  "set_backend_stability n now ob =
     (if is_draining (sn_stability n) now \<and> \<not> is_draining ob now then n else n\<lparr>sn_stability := ob\<rparr>)"

subsection \<open>Heartbeat\<close>

record beat_input =
  bi_batch_id :: string
  bi_update :: pydict
  bi_hour :: nat
  bi_minute :: nat
  bi_tags :: http_answer
  bi_models :: http_answer
  bi_observed :: observation
  bi_wall :: time
  bi_finished :: "(bool \<times> real) list"
  bi_answer :: http_answer

text \<open>One batch is outstanding until it is acknowledged; the counters go on with the tasks that finish meanwhile.\<close>

definition take_batch :: "supervised_node \<Rightarrow> string \<Rightarrow> supervised_node" where
  "take_batch n batch_id =
     (let t = sn_tasks n
      in if sn_pending_batch n = None \<and> (nd_tasks_success t > 0 \<or> nd_tasks_failed t > 0)
         then n\<lparr>sn_pending_batch := Some (batch_id, nd_tasks_success t, nd_tasks_failed t, nd_latency_total_ms t),
                sn_tasks := t\<lparr>nd_tasks_success := 0, nd_tasks_failed := 0, nd_latency_total_ms := 0\<rparr>\<rparr>
         else n)"

text \<open>\<open>round(x, 2)\<close>.\<close>

definition round2 :: "real \<Rightarrow> real" where
  "round2 x = of_int (py_round (x * 100)) / 100"

definition metrics_entries :: "(string \<times> int \<times> int \<times> real) option \<Rightarrow> pydict" where
  "metrics_entries pending =
     (case pending of
        None \<Rightarrow> []
      | Some (batch_id, done, failed, latency) \<Rightarrow>
          if done > 0 \<or> failed > 0
          then [(PStr ''metrics'', PDict ([(PStr ''tasks_success'', PInt done), (PStr ''tasks_failed'', PInt failed)] @
                  (if done + failed > 0 \<and> latency > 0 then [(PStr ''avg_latency_ms'', PFloat (round2 (latency / of_int (done + failed))))] else []))),
                (PStr ''metrics_batch_id'', PStr batch_id)]
          else [])"

definition challenge_response :: "registration_env \<Rightarrow> supervised_node \<Rightarrow> py_error + pydict" where
  "challenge_response env n =
     (if truthy (sn_challenge n) \<and> sn_hmac_key n \<noteq> []
      then (case sn_challenge n of
              PStr c \<Rightarrow> Inr [(PStr ''challenge_response'', PStr (re_hmac env (sn_hmac_key n) c))]
            | _ \<Rightarrow> Inl AttributeError)
      else Inr [])"

definition backend_entries :: "supervised_node \<Rightarrow> beat_input \<Rightarrow> pydict" where
  "backend_entries n inp =
     (if rg_backend_url (sn_config n) = [] then []
      else (case probe_health_models (sn_config n) (bi_tags inp) (bi_models inp) of None \<Rightarrow> [] | Some ms \<Rightarrow> [(PStr ''health_models'', PList ms)]) @
        [(PStr ''backend_stability'', PDict (public_dict (bi_observed inp) (bi_wall inp)))])"

definition heartbeat_payload :: "supervised_node \<Rightarrow> beat_input \<Rightarrow> string \<Rightarrow> pydict \<Rightarrow> pydict" where
  "heartbeat_payload n inp token response =
     (let cfg = sn_config n; available = sn_runtime_available n;
          head = [(PStr ''node_id'', PStr (rg_node_id cfg)), (PStr ''node_token'', PStr token),
             (PStr ''status'', PStr (if available then ''available'' else ''recovering'')), (PStr ''available'', PBool available),
             (PStr ''max_concurrent'', PInt (effective_max_concurrent (rg_availability_windows cfg) (rg_max_concurrent cfg) (bi_hour inp) (bi_minute inp)))]
      in merged (merged head (bi_update inp)) (metrics_entries (sn_pending_batch n) @ backend_entries n inp @ response))"

definition finish_tasks :: "(bool \<times> real) list \<Rightarrow> supervised_node \<Rightarrow> supervised_node" where
  "finish_tasks finished n = n\<lparr>sn_tasks := foldl (\<lambda>t (ok, latency). count_task ok latency t) (sn_tasks n) finished\<rparr>"

text \<open>The answer to a heartbeat: the next challenge, and the batch is settled unless the directory acknowledges another one. A body that is no
  JSON dictionary settles it too.\<close>

definition settle_batch :: "supervised_node \<Rightarrow> pyval option \<Rightarrow> supervised_node" where
  "settle_batch n body =
     (case body of
        Some (PDict data) \<Rightarrow>
          (let n' = n\<lparr>sn_challenge := or_value (sget data ''challenge'') (sn_challenge n)\<rparr>; accepted = sget data ''metrics_batch_accepted''
           in case sn_pending_batch n of
                None \<Rightarrow> n'
              | Some (batch_id, _) \<Rightarrow> if accepted = PNone \<or> accepted = PStr batch_id then n'\<lparr>sn_pending_batch := None\<rparr> else n')
      | _ \<Rightarrow> n\<lparr>sn_pending_batch := None\<rparr>)"

datatype beat_error = Beat_Status int | Beat_Raised

definition observe_backend :: "supervised_node \<Rightarrow> beat_input \<Rightarrow> supervised_node" where
  "observe_backend n inp = (if rg_backend_url (sn_config n) = [] then n else set_backend_stability n (bi_wall inp) (bi_observed inp))"

text \<open>The node afterwards, the payload posted, and how the heartbeat ended.\<close>

definition heartbeat :: "registration_env \<Rightarrow> supervised_node \<Rightarrow> string \<Rightarrow> beat_input \<Rightarrow> supervised_node \<times> pydict option \<times> (beat_error + unit)" where
  "heartbeat env n token inp =
     (let n1 = take_batch n (bi_batch_id inp); n2 = finish_tasks (bi_finished inp) (observe_backend n1 inp)
      in case challenge_response env n1 of
           Inl _ \<Rightarrow> (n2, None, Inl Beat_Raised)
         | Inr response \<Rightarrow>
             let payload = heartbeat_payload n1 inp token response
             in case bi_answer inp of
                  No_Answer \<Rightarrow> (n2, Some payload, Inl Beat_Raised)
                | Answer status body \<Rightarrow>
                    if \<not> successful status then (n2, Some payload, Inl (Beat_Status status))
                    else (settle_batch n2 body, Some payload, Inr ()))"

subsection \<open>Model drift\<close>

definition same_elements :: "pyval list \<Rightarrow> pyval list \<Rightarrow> bool" where
  "same_elements xs ys \<longleftrightarrow> list_all (\<lambda>x. list_ex (py_eq x) ys) xs \<and> list_all (\<lambda>y. list_ex (py_eq y) xs) ys"

text \<open>The node, the payload posted if any, and the exception of the comparison if it raised; a failed registration is only logged.\<close>

definition maybe_reregister_on_model_drift ::
  "registration_env \<Rightarrow> supervised_node \<Rightarrow> http_answer \<Rightarrow> http_answer \<Rightarrow> pydict \<Rightarrow> http_answer \<Rightarrow> py_error + supervised_node \<times> pydict option" where
  "maybe_reregister_on_model_drift env n tags models update answer =
     (if rg_backend_url (sn_config n) = [] \<or> sn_registered_models n = [] then Inr (n, None)
      else case probe_health_models (sn_config n) tags models of
             None \<Rightarrow> Inr (n, None)
           | Some live \<Rightarrow>
               if live = [] then Inr (n, None)
               else if \<not> list_all hashable live then Inl TypeError
               else let live_set = py_remdups live
                 in if same_elements live_set (sn_registered_models n) then Inr (n, None)
                    else bind_result (py_sorted (sn_registered_models n)) (\<lambda>_. bind_result (py_sorted live_set) (\<lambda>live_sorted.
                      (case register_with_models env n (Some live_sorted) update answer of (n', payload, _) \<Rightarrow> Inr (n', payload)))))"

subsection \<open>The loop\<close>

record tick_input =
  tk_runtime_available :: bool
  tk_relay_bound :: bool
  tk_beat :: beat_input
  tk_monotonic :: time
  tk_wall :: time
  tk_drift_tags :: http_answer
  tk_drift_models :: http_answer
  tk_drift_answer :: http_answer
  tk_registry :: http_answer
  tk_update :: pydict
  tk_register_answer :: http_answer

record loop_state =
  lp_node :: supervised_node
  lp_token :: string
  lp_seq :: int
  lp_failures :: int
  lp_exit :: "int option"

record recovery_settings =
  rc_grace :: int
  rc_check_every :: int
  rc_supervised :: bool

definition recovery_settings_of :: "environ \<Rightarrow> recovery_settings" where
  "recovery_settings_of env =
     \<lparr>rc_grace = env_grace_checks env, rc_check_every = env_check_every_heartbeats env, rc_supervised = supervised_recovery_enabled env\<rparr>"

definition new_loop :: "supervised_node \<Rightarrow> string \<Rightarrow> loop_state" where
  "new_loop n token = \<lparr>lp_node = n, lp_token = token, lp_seq = 0, lp_failures = 0, lp_exit = None\<rparr>"

definition on_health :: "(runtime_health \<Rightarrow> runtime_health) \<Rightarrow> supervised_node \<Rightarrow> supervised_node" where
  "on_health f n = n\<lparr>sn_health := f (sn_health n)\<rparr>"

definition public_route :: "supervised_node \<Rightarrow> registry_route \<Rightarrow> bool" where
  "public_route n route = effective_public_route_available (sn_runtime_available n) (rr_needs_promotion route) (sn_runtime_relay_bound n)"

definition count_failures :: "bool \<Rightarrow> directory_presence \<Rightarrow> int \<Rightarrow> int" where
  "count_failures route_ok presence failures =
     (if \<not> route_ok \<or> presence = ABSENT then failures + 1 else if presence = PRESENT then 0 else failures)"

text \<open>A registration by the loop: on success the loop goes on with the fresh token.\<close>

definition loop_register :: "registration_env \<Rightarrow> loop_state \<Rightarrow> tick_input \<Rightarrow> loop_state \<times> bool" where
  "loop_register env lp inp =
     (case register env (lp_node lp) (tk_update inp) (tk_register_answer inp) of
        (n, _, _, Inl _) \<Rightarrow> (lp\<lparr>lp_node := n\<rparr>, False)
      | (n, _, _, Inr token) \<Rightarrow> (lp\<lparr>lp_node := n, lp_token := token\<rparr>, True))"

definition recovery_check :: "registration_env \<Rightarrow> recovery_settings \<Rightarrow> loop_state \<Rightarrow> tick_input \<Rightarrow> loop_state" where
  "recovery_check env rc lp inp =
     (let route = registry_route_status (tk_registry inp); presence = rr_presence route; route_ok = public_route (lp_node lp) route;
          lp1 = lp\<lparr>lp_failures := count_failures route_ok presence (lp_failures lp)\<rparr>;
          attention = is_draining (sn_stability (lp_node lp)) (tk_wall inp)
      in case recovery_classify True route_ok presence (lp_failures lp1) (rc_grace rc) attention of
           (_, action) \<Rightarrow>
             if action = REREGISTER
             then (case loop_register env lp1 inp of (lp2, ok) \<Rightarrow> if ok then lp2\<lparr>lp_failures := 0\<rparr> else lp2)
             else if action = RESTART_SELF \<and> rc_supervised rc then lp1\<lparr>lp_exit := Some RECOVERY_EXIT_CODE\<rparr>
             else lp1)"

definition directory_lost :: "time \<Rightarrow> loop_state \<Rightarrow> loop_state" where
  "directory_lost now lp =
     lp\<lparr>lp_node := on_health (advance_supervisor now \<circ> set_external ''directory'' ''unavailable'') (lp_node lp)\<rparr>"

definition after_beat :: "registration_env \<Rightarrow> recovery_settings \<Rightarrow> loop_state \<Rightarrow> tick_input \<Rightarrow> loop_state" where
  "after_beat env rc lp inp =
     (let n = on_health (advance_supervisor (tk_monotonic inp) \<circ> set_external ''directory'' ''healthy'') (lp_node lp)
      in case maybe_reregister_on_model_drift env n (tk_drift_tags inp) (tk_drift_models inp) (tk_update inp) (tk_drift_answer inp) of
           Inl _ \<Rightarrow> directory_lost (tk_monotonic inp) (lp\<lparr>lp_node := n\<rparr>)
         | Inr (n', _) \<Rightarrow>
             let lp' = lp\<lparr>lp_node := n'\<rparr>
             in if rc_check_every rc > 0 \<and> lp_seq lp mod rc_check_every rc = 0 then recovery_check env rc lp' inp else lp')"

definition REJECTED :: "int list" where "REJECTED = [401, 404, 410]"

definition loop_tick :: "registration_env \<Rightarrow> recovery_settings \<Rightarrow> loop_state \<Rightarrow> tick_input \<Rightarrow> loop_state \<times> pydict option" where
  "loop_tick env rc lp inp =
     (let lp1 = lp\<lparr>lp_node := on_health (advance_supervisor (tk_monotonic inp)) (lp_node lp), lp_seq := lp_seq lp + 1\<rparr>
      in case heartbeat env (lp_node lp1) (lp_token lp1) (tk_beat inp) of
           (n, payload, result) \<Rightarrow>
             let lp2 = lp1\<lparr>lp_node := n\<rparr>
             in (case result of
                   Inr _ \<Rightarrow> after_beat env rc lp2 inp
                 | Inl (Beat_Status status) \<Rightarrow>
                     (let lp3 = directory_lost (tk_monotonic inp) lp2
                      in if status \<in> set REJECTED then fst (loop_register env lp3 inp) else lp3)
                 | Inl Beat_Raised \<Rightarrow> directory_lost (tk_monotonic inp) lp2, payload))"

text \<open>The reachability flags, as the tunnel and the relay worker have set them when a pass begins.\<close>

definition set_runtime_available :: "bool \<Rightarrow> supervised_node \<Rightarrow> supervised_node" where
  "set_runtime_available available n = n\<lparr>sn_runtime_available := available\<rparr>"

definition set_relay_bound :: "bool \<Rightarrow> supervised_node \<Rightarrow> supervised_node" where
  "set_relay_bound bound n = n\<lparr>sn_runtime_relay_bound := bound\<rparr>"

definition surrounded :: "tick_input \<Rightarrow> loop_state \<Rightarrow> loop_state" where
  "surrounded inp lp = lp\<lparr>lp_node := set_relay_bound (tk_relay_bound inp) (set_runtime_available (tk_runtime_available inp) (lp_node lp))\<rparr>"

text \<open>The loop: it ends with the process, by the exit the supervisor waits for.\<close>

fun heartbeat_loop :: "registration_env \<Rightarrow> recovery_settings \<Rightarrow> loop_state \<Rightarrow> tick_input list \<Rightarrow> loop_state" where
  "heartbeat_loop env rc lp [] = lp"
| "heartbeat_loop env rc lp (inp # inps) =
     (if lp_exit lp \<noteq> None then lp else heartbeat_loop env rc (fst (loop_tick env rc (surrounded inp lp) inp)) inps)"

subsection \<open>Facts: payloads\<close>

lemma with_key_find [simp]: "py_find (with_key d k v) (PStr x) = (if k = PStr x then Some v else py_find d (PStr x))"
  by (induction d) (auto)

lemma merged_find: "py_find (merged d e) (PStr x) = (case py_find (rev e) (PStr x) of None \<Rightarrow> py_find d (PStr x) | Some v \<Rightarrow> Some v)"
  unfolding merged_def by (induction e arbitrary: d) (auto simp: py_find_append split: option.split)

lemma challenge_response_find:
  "challenge_response env n = Inr response \<Longrightarrow> k \<noteq> ''challenge_response'' \<Longrightarrow> py_find (rev response) (PStr k) = None"
  by (auto simp: challenge_response_def split: if_splits pyval.splits)

lemma backend_entries_find:
  "k \<notin> {''health_models'', ''backend_stability''} \<Longrightarrow> py_find (rev (backend_entries n inp)) (PStr k) = None"
  by (auto simp: backend_entries_def split: option.split)

lemma rev_find_None: "py_find (rev d) (PStr k) = None \<longleftrightarrow> py_find d (PStr k) = None"
  by (induction d) (auto simp: py_find_append split: option.split)

text \<open>The batch a payload carries.\<close>

definition count_of :: "pydict \<Rightarrow> string \<Rightarrow> int" where
  "count_of d k = (case sget d k of PInt i \<Rightarrow> i | _ \<Rightarrow> 0)"

definition carried_batch :: "pydict \<Rightarrow> (string \<times> int \<times> int) option" where
  "carried_batch payload =
     (case (sget payload ''metrics_batch_id'', sget payload ''metrics'') of
        (PStr i, PDict m) \<Rightarrow> Some (i, count_of m ''tasks_success'', count_of m ''tasks_failed'')
      | _ \<Rightarrow> None)"

definition batch_counts :: "(string \<times> int \<times> int \<times> real) \<Rightarrow> string \<times> int \<times> int" where
  "batch_counts b = (case b of (i, done, failed, _) \<Rightarrow> (i, done, failed))"

lemma merged_find_front:
  "py_find (rev b) (PStr k) = None \<Longrightarrow> py_find (rev c) (PStr k) = None \<Longrightarrow> py_find h (PStr k) = None \<Longrightarrow>
   py_find (merged (merged h u) (a @ b @ c)) (PStr k) =
     (case py_find (rev a) (PStr k) of Some v \<Rightarrow> Some v | None \<Rightarrow> py_find (rev u) (PStr k))"
  by (simp add: merged_find py_find_append split: option.split)

lemma payload_batch:
  assumes "challenge_response env n = Inr response" "py_find (bi_update inp) (PStr ''metrics_batch_id'') = None"
    "\<And>i d f l. sn_pending_batch n = Some (i, d, f, l) \<Longrightarrow> d > 0 \<or> f > 0"
  shows "carried_batch (heartbeat_payload n inp token response) = map_option batch_counts (sn_pending_batch n)"
proof -
  let ?p = "heartbeat_payload n inp token response"
  have find: "py_find ?p (PStr k) = (case py_find (rev (metrics_entries (sn_pending_batch n))) (PStr k) of
      Some v \<Rightarrow> Some v
    | None \<Rightarrow> py_find (rev (bi_update inp)) (PStr k))" if "k \<in> {''metrics'', ''metrics_batch_id''}" for k
    unfolding heartbeat_payload_def Let_def
  proof (rule merged_find_front)
    show "py_find (rev (backend_entries n inp)) (PStr k) = None" using that by (intro backend_entries_find) auto
    show "py_find (rev response) (PStr k) = None" using that by (intro challenge_response_find [OF assms(1)]) auto
  qed (use that in auto)
  show ?thesis
  proof (cases "sn_pending_batch n")
    case None
    then have "sget ?p ''metrics_batch_id'' = PNone"
      using find [of "''metrics_batch_id''"] rev_find_None [THEN iffD2, OF assms(2)] by (simp add: metrics_entries_def sget_def get_or_def)
    with None show ?thesis by (simp add: carried_batch_def)
  next
    case (Some b)
    obtain i d f l where b: "b = (i, d, f, l)" by (cases b)
    then have "d > 0 \<or> f > 0" using assms(3) Some by simp
    then have "sget ?p ''metrics_batch_id'' = PStr i"
      "\<exists>m. sget ?p ''metrics'' = PDict m \<and> count_of m ''tasks_success'' = d \<and> count_of m ''tasks_failed'' = f"
      using find [of "''metrics_batch_id''"] find [of "''metrics''"] Some b
      by (auto simp: metrics_entries_def sget_def get_or_def count_of_def)
    with Some b show ?thesis by (auto simp: carried_batch_def batch_counts_def)
  qed
qed

subsection \<open>Facts: the metrics of a node and the ledger of its directory\<close>

text \<open>A directory that credits every batch identifier once. Requests may be lost on the way, and so may answers.\<close>

type_synonym ledger = "(string \<times> int \<times> int) list"

definition credited :: "ledger \<Rightarrow> pydict option \<Rightarrow> ledger" where
  "credited ledger payload =
     (case Option.bind payload carried_batch of
        None \<Rightarrow> ledger
      | Some b \<Rightarrow> if fst b \<in> fst ` set ledger then ledger else ledger @ [b])"

datatype node_event = Task_Finished bool real | Beat string beat_input bool

fun node_event_step :: "registration_env \<Rightarrow> supervised_node \<times> ledger \<Rightarrow> node_event \<Rightarrow> supervised_node \<times> ledger" where
  "node_event_step env (n, l) (Task_Finished ok ms) = (finish_tasks [(ok, ms)] n, l)"
| "node_event_step env (n, l) (Beat token inp reached) =
     (case heartbeat env n token inp of (n', payload, _) \<Rightarrow> (n', if reached then credited l payload else l))"

definition node_events :: "registration_env \<Rightarrow> supervised_node \<Rightarrow> node_event list \<Rightarrow> supervised_node \<times> ledger" where
  "node_events env n events = foldl (node_event_step env) (n, []) events"

fun finished_in :: "bool \<Rightarrow> node_event \<Rightarrow> int" where
  "finished_in b (Task_Finished ok ms) = of_bool (ok = b)"
| "finished_in b (Beat token inp reached) = int (length (filter (\<lambda>(ok, _). ok = b) (bi_finished inp)))"

definition finished_tasks :: "bool \<Rightarrow> node_event list \<Rightarrow> int" where
  "finished_tasks b events = sum_list (map (finished_in b) events)"

fun event_ids :: "node_event \<Rightarrow> string list" where
  "event_ids (Task_Finished ok ms) = []"
| "event_ids (Beat token inp reached) = [bi_batch_id inp]"

definition batch_ids :: "node_event list \<Rightarrow> string list" where
  "batch_ids events = concat (map event_ids events)"

text \<open>A heartbeat that was answered successfully did reach the directory; the updater's metadata holds no batch identifier.\<close>

fun plausible :: "node_event \<Rightarrow> bool" where
  "plausible (Task_Finished ok ms) = True"
| "plausible (Beat token inp reached) =
     ((case bi_answer inp of Answer status _ \<Rightarrow> successful status \<longrightarrow> reached | No_Answer \<Rightarrow> True) \<and>
      py_find (bi_update inp) (PStr ''metrics_batch_id'') = None)"

fun pick :: "bool \<Rightarrow> int \<times> int \<Rightarrow> int" where
  "pick True (done, failed) = done"
| "pick False (done, failed) = failed"

definition ledger_total :: "bool \<Rightarrow> ledger \<Rightarrow> int" where
  "ledger_total b ledger = sum_list (map (pick b \<circ> snd) ledger)"

definition counters :: "supervised_node \<Rightarrow> int \<times> int" where
  "counters n = (nd_tasks_success (sn_tasks n), nd_tasks_failed (sn_tasks n))"

text \<open>What the node still has to report: its counters, and the pending batch unless the directory has it.\<close>

definition outstanding :: "bool \<Rightarrow> supervised_node \<Rightarrow> ledger \<Rightarrow> int" where
  "outstanding b n ledger =
     pick b (counters n) +
     (case map_option batch_counts (sn_pending_batch n) of None \<Rightarrow> 0 | Some (i, c) \<Rightarrow> if i \<in> fst ` set ledger then 0 else pick b c)"

definition batch_sound :: "supervised_node \<Rightarrow> ledger \<Rightarrow> string set \<Rightarrow> bool" where
  "batch_sound n ledger ids \<longleftrightarrow> distinct (map fst ledger) \<and> fst ` set ledger \<subseteq> ids \<and>
     (case sn_pending_batch n of None \<Rightarrow> True | Some (i, d, f, _) \<Rightarrow> i \<in> ids \<and> (d > 0 \<or> f > 0))"

lemma count_task_fields [simp]:
  "nd_tasks_success (count_task ok ms t) = nd_tasks_success t + of_bool ok"
  "nd_tasks_failed (count_task ok ms t) = nd_tasks_failed t + of_bool (\<not> ok)"
  by (simp_all add: count_task_def)

lemma finish_tasks_fields:
  "pick b (counters (finish_tasks ts n)) = pick b (counters n) + int (length (filter (\<lambda>(ok, _). ok = b) ts))"
  "sn_pending_batch (finish_tasks ts n) = sn_pending_batch n"
proof -
  have "pick b (nd_tasks_success (foldl (\<lambda>t (ok, ms). count_task ok ms t) t ts), nd_tasks_failed (foldl (\<lambda>t (ok, ms). count_task ok ms t) t ts)) =
      pick b (nd_tasks_success t, nd_tasks_failed t) + int (length (filter (\<lambda>(ok, _). ok = b) ts))" for t
  proof (induction ts arbitrary: t)
    case (Cons x ts)
    obtain ok ms where "x = (ok, ms)" by force
    with Cons show ?case by (cases b) auto
  qed simp
  then show "pick b (counters (finish_tasks ts n)) = pick b (counters n) + int (length (filter (\<lambda>(ok, _). ok = b) ts))"
    by (simp add: finish_tasks_def counters_def)
qed (simp add: finish_tasks_def)

lemma outstanding_finish:
  "outstanding b (finish_tasks ts n) l = outstanding b n l + int (length (filter (\<lambda>(ok, _). ok = b) ts))"
  by (simp add: outstanding_def finish_tasks_fields)

lemma batch_sound_finish [simp]: "batch_sound (finish_tasks ts n) l ids = batch_sound n l ids"
  by (simp add: batch_sound_def finish_tasks_fields)

lemma take_batch_sound:
  assumes "batch_sound n l ids" "i \<notin> ids"
  shows "batch_sound (take_batch n i) l (insert i ids) \<and> outstanding b (take_batch n i) l = outstanding b n l"
  using assms
  by (cases b) (auto simp: take_batch_def Let_def batch_sound_def outstanding_def counters_def batch_counts_def split: option.splits)

lemma observe_backend_fields [simp]:
  "outstanding b (observe_backend n inp) l = outstanding b n l" "batch_sound (observe_backend n inp) l ids = batch_sound n l ids"
  "sn_pending_batch (observe_backend n inp) = sn_pending_batch n"
  by (simp_all add: observe_backend_def set_backend_stability_def outstanding_def batch_sound_def counters_def)

text \<open>A batch that arrives is credited, once.\<close>

lemma credit_batch:
  assumes "batch_sound n l ids" "Option.bind payload carried_batch = map_option batch_counts (sn_pending_batch n)"
  defines "l' \<equiv> credited l payload"
  shows "batch_sound n l' ids" "ledger_total b l' + outstanding b n l' = ledger_total b l + outstanding b n l"
    "sn_pending_batch n = Some (i, c) \<Longrightarrow> i \<in> fst ` set l'"
proof -
  show "batch_sound n l' ids" "ledger_total b l' + outstanding b n l' = ledger_total b l + outstanding b n l"
    using assms(1,2) unfolding l'_def
    by (auto simp: credited_def batch_sound_def outstanding_def ledger_total_def batch_counts_def image_iff split: option.splits)
  show "i \<in> fst ` set l'" if "sn_pending_batch n = Some (i, c)"
    using assms(2) that unfolding l'_def by (cases c) (auto simp: credited_def batch_counts_def)
qed

lemma settle_batch_fields:
  "sn_tasks (settle_batch n body) = sn_tasks n"
  "sn_pending_batch (settle_batch n body) = None \<or> sn_pending_batch (settle_batch n body) = sn_pending_batch n"
  by (auto simp: settle_batch_def Let_def split: option.splits pyval.splits)

lemma settle_batch_sound:
  assumes "batch_sound n l ids" "\<And>i c. sn_pending_batch n = Some (i, c) \<Longrightarrow> i \<in> fst ` set l"
  shows "batch_sound (settle_batch n body) l ids \<and> outstanding b (settle_batch n body) l = outstanding b n l"
proof -
  have "pick b (counters (settle_batch n body)) = pick b (counters n)" by (simp add: counters_def settle_batch_fields)
  with settle_batch_fields(2) [of n body] assms show ?thesis
    by (elim disjE) (auto simp: batch_sound_def outstanding_def batch_counts_def split: option.splits)
qed

lemma heartbeat_counts:
  assumes "batch_sound n l ids" "bi_batch_id inp \<notin> ids" "plausible (Beat token inp reached)"
    "heartbeat env n token inp = (n', payload, r)"
  defines "l' \<equiv> if reached then credited l payload else l"
  shows "batch_sound n' l' (insert (bi_batch_id inp) ids) \<and>
    ledger_total b l' + outstanding b n' l' =
      ledger_total b l + outstanding b n l + int (length (filter (\<lambda>(ok, _). ok = b) (bi_finished inp)))"
proof -
  let ?ids = "insert (bi_batch_id inp) ids"
  define n1 where "n1 = take_batch n (bi_batch_id inp)"
  define n2 where "n2 = finish_tasks (bi_finished inp) (observe_backend n1 inp)"
  have n1: "batch_sound n1 l ?ids" "outstanding b n1 l = outstanding b n l"
    using take_batch_sound [OF assms(1,2)] by (simp_all add: n1_def)
  have n2: "outstanding b n2 m = outstanding b n1 m + int (length (filter (\<lambda>(ok, _). ok = b) (bi_finished inp)))"
    "batch_sound n2 m ?ids = batch_sound n1 m ?ids" for m
    by (simp_all add: n2_def outstanding_finish)
  have pending: "sn_pending_batch n2 = sn_pending_batch n1" by (simp add: n2_def finish_tasks_fields)
  show ?thesis
  proof (cases "challenge_response env n1")
    case (Inl e)
    then have "n' = n2" "payload = None" using assms(4) by (simp_all add: heartbeat_def n1_def n2_def)
    moreover from this have "l' = l" by (simp add: l'_def credited_def)
    ultimately show ?thesis using n1 n2 by simp
  next
    case (Inr response)
    have payload: "payload = Some (heartbeat_payload n1 inp token response)" and
      n': "n' = n2 \<or> (\<exists>body. n' = settle_batch n2 body \<and> reached)"
      using assms(3,4) Inr by (auto simp: heartbeat_def n1_def n2_def Let_def split: http_answer.splits if_splits)
    have "Option.bind payload carried_batch = map_option batch_counts (sn_pending_batch n1)"
      unfolding payload using payload_batch [OF Inr, of inp token] assms(3) n1(1)
      by (auto simp: batch_sound_def split: option.splits)
    note credit = credit_batch(1) [OF n1(1) this] credit_batch(2) [OF n1(1) this, of b] credit_batch(3) [OF n1(1) this]
    have l': "batch_sound n1 l' ?ids" "ledger_total b l' + outstanding b n1 l' = ledger_total b l + outstanding b n1 l"
      using credit(1,2) n1 by (simp_all add: l'_def)
    from n' show ?thesis
    proof
      assume "n' = n2"
      with l' n1(2) n2 show ?thesis by simp
    next
      assume "\<exists>body. n' = settle_batch n2 body \<and> reached"
      then obtain body where body: "n' = settle_batch n2 body" "reached" by blast
      have "i \<in> fst ` set l'" if "sn_pending_batch n2 = Some (i, c)" for i c
        using credit(3) that body(2) by (simp add: pending l'_def)
      from settle_batch_sound [of n2 l' ?ids, OF _ this, where b = b and body = body] body(1) l' n1(2) n2 show ?thesis by simp
    qed
  qed
qed

lemma node_events_sound:
  assumes "distinct (batch_ids events)" "\<forall>e \<in> set events. plausible e" "sn_pending_batch n = None" "counters n = (0, 0)"
  shows "case node_events env n events of (n', l) \<Rightarrow>
    batch_sound n' l (set (batch_ids events)) \<and> ledger_total b l + outstanding b n' l = finished_tasks b events"
  using assms
proof (induction events rule: rev_induct)
  case Nil
  then show ?case
    by (cases b) (simp_all add: node_events_def batch_sound_def outstanding_def ledger_total_def finished_tasks_def)
next
  case (snoc e events)
  obtain n1 l1 where run: "node_events env n events = (n1, l1)" by force
  have IH: "batch_sound n1 l1 (set (batch_ids events))" "ledger_total b l1 + outstanding b n1 l1 = finished_tasks b events"
    using snoc run by (auto simp: batch_ids_def)
  have step: "node_events env n (events @ [e]) = node_event_step env (n1, l1) e"
    using run by (simp add: node_events_def)
  show ?case
  proof (cases e)
    case (Task_Finished ok ms)
    then show ?thesis using IH step
      by (simp add: batch_ids_def finished_tasks_def outstanding_finish)
  next
    case (Beat token inp reached)
    obtain n2 payload r where beat: "heartbeat env n1 token inp = (n2, payload, r)" by (metis prod_cases3)
    have "bi_batch_id inp \<notin> set (batch_ids events)" "plausible (Beat token inp reached)" using snoc.prems Beat by (auto simp: batch_ids_def)
    from heartbeat_counts [OF IH(1) this beat, of b] show ?thesis
      using IH(2) step beat Beat by (simp add: batch_ids_def finished_tasks_def)
  qed
qed

subsection \<open>Facts: the loop\<close>

text \<open>What the registry and the node's own reachability say in a pass: the node has no usable public route, or the directory does not list it.\<close>

definition route_lost :: "tick_input \<Rightarrow> bool" where
  "route_lost inp \<longleftrightarrow>
     (let route = registry_route_status (tk_registry inp)
      in \<not> effective_public_route_available (tk_runtime_available inp) (rr_needs_promotion route) (tk_relay_bound inp) \<or> rr_presence route = ABSENT)"

definition flags :: "supervised_node \<Rightarrow> bool \<times> bool" where
  "flags n = (sn_runtime_available n, sn_runtime_relay_bound n)"

lemma flags_simps [simp]:
  "flags (finish_tasks ts n) = flags n" "flags (observe_backend n b) = flags n" "flags (take_batch n i) = flags n"
  "flags (on_health f n) = flags n" "flags (settle_batch n body) = flags n"
  by (simp_all add: flags_def finish_tasks_def observe_backend_def set_backend_stability_def take_batch_def Let_def on_health_def settle_batch_def
      split: option.split pyval.split)

lemma heartbeat_flags: "heartbeat env n token inp = (n', r) \<Longrightarrow> flags n' = flags n"
  by (auto simp: heartbeat_def Let_def split: sum.splits http_answer.splits if_splits)

lemma register_flags: "flags (fst (register_with_models env n ms u a)) = flags n"
  by (auto simp: register_with_models_def Let_def commit_registration_def flags_def split: sum.splits)

lemma drift_flags:
  "maybe_reregister_on_model_drift env n t m u a = Inr (n', p) \<Longrightarrow> flags n' = flags n"
  by (auto simp: maybe_reregister_on_model_drift_def Let_def bind_result_Inr_iff split_beta register_flags split: if_splits option.splits)

lemma loop_register_fields:
  "loop_register env lp inp = (lp', ok) \<Longrightarrow> lp_seq lp' = lp_seq lp \<and> lp_failures lp' = lp_failures lp \<and> lp_exit lp' = lp_exit lp"
  by (auto simp: loop_register_def split: prod.splits sum.splits)

lemma directory_lost_fields [simp]:
  "lp_seq (directory_lost t lp) = lp_seq lp" "lp_failures (directory_lost t lp) = lp_failures lp" "lp_exit (directory_lost t lp) = lp_exit lp"
  "lp_token (directory_lost t lp) = lp_token lp"
  by (simp_all add: directory_lost_def)

lemma restart_classified:
  "snd (recovery_classify True route_ok presence failures grace attention) = RESTART_SELF \<Longrightarrow> grace \<le> failures"
  by (auto simp: recovery_classify_def split: if_splits directory_presence.splits)

lemma recovery_check_fields:
  fixes env rc lp inp
  assumes "flags (lp_node lp) = (tk_runtime_available inp, tk_relay_bound inp)" "lp_exit lp = None" "0 \<le> lp_failures lp"
  defines "lp' \<equiv> recovery_check env rc lp inp"
  shows "lp_seq lp' = lp_seq lp \<and> 0 \<le> lp_failures lp' \<and> lp_failures lp' \<le> lp_failures lp + of_bool (route_lost inp) \<and>
    (lp_exit lp' \<noteq> None \<longrightarrow> lp_exit lp' = Some RECOVERY_EXIT_CODE \<and> rc_supervised rc \<and> rc_grace rc \<le> lp_failures lp')"
proof -
  define route where "route = registry_route_status (tk_registry inp)"
  define ok where "ok = public_route (lp_node lp) route"
  define failures where "failures = count_failures ok (rr_presence route) (lp_failures lp)"
  define action where "action = snd (recovery_classify True ok (rr_presence route) failures (rc_grace rc) (is_draining (sn_stability (lp_node lp)) (tk_wall inp)))"
  have lost: "route_lost inp \<longleftrightarrow> \<not> ok \<or> rr_presence route = ABSENT"
    using assms(1) by (simp add: route_lost_def ok_def public_route_def route_def flags_def Let_def)
  have failures: "0 \<le> failures" "failures \<le> lp_failures lp + of_bool (route_lost inp)"
    using assms(3) by (auto simp: failures_def count_failures_def lost)
  obtain lp2 registered where reg: "loop_register env (lp\<lparr>lp_failures := failures\<rparr>) inp = (lp2, registered)" by force
  have "lp' = (if action = REREGISTER then (if registered then lp2\<lparr>lp_failures := 0\<rparr> else lp2)
      else if action = RESTART_SELF \<and> rc_supervised rc then lp\<lparr>lp_failures := failures, lp_exit := Some RECOVERY_EXIT_CODE\<rparr>
      else lp\<lparr>lp_failures := failures\<rparr>)"
    using reg unfolding lp'_def recovery_check_def Let_def route_def [symmetric] ok_def [symmetric]
    by (simp add: failures_def [symmetric] action_def split: prod.split)
  moreover have "action = RESTART_SELF \<Longrightarrow> rc_grace rc \<le> failures" unfolding action_def by (rule restart_classified)
  ultimately show ?thesis using loop_register_fields [OF reg] failures assms(2) by auto
qed

lemma after_beat_fields:
  fixes env rc lp inp
  assumes "flags (lp_node lp) = (tk_runtime_available inp, tk_relay_bound inp)" "lp_exit lp = None" "0 \<le> lp_failures lp"
  defines "lp' \<equiv> after_beat env rc lp inp" and "due \<equiv> rc_check_every rc > 0 \<and> lp_seq lp mod rc_check_every rc = 0"
  shows "lp_seq lp' = lp_seq lp \<and> 0 \<le> lp_failures lp' \<and> lp_failures lp' \<le> lp_failures lp + of_bool (due \<and> route_lost inp) \<and>
    (lp_exit lp' \<noteq> None \<longrightarrow> lp_exit lp' = Some RECOVERY_EXIT_CODE \<and> rc_supervised rc \<and> rc_grace rc \<le> lp_failures lp')"
proof -
  define n where "n = on_health (advance_supervisor (tk_monotonic inp) \<circ> set_external ''directory'' ''healthy'') (lp_node lp)"
  show ?thesis
  proof (cases "maybe_reregister_on_model_drift env n (tk_drift_tags inp) (tk_drift_models inp) (tk_update inp) (tk_drift_answer inp)")
    case (Inl e)
    then have "lp' = directory_lost (tk_monotonic inp) (lp\<lparr>lp_node := n\<rparr>)" by (simp add: lp'_def after_beat_def n_def [symmetric])
    then show ?thesis using assms(2,3) by simp
  next
    case (Inr np)
    obtain n' payload where np: "np = (n', payload)" by force
    have lp': "lp' = (if due then recovery_check env rc (lp\<lparr>lp_node := n'\<rparr>) inp else lp\<lparr>lp_node := n'\<rparr>)"
      using Inr np by (simp add: lp'_def after_beat_def n_def [symmetric] due_def Let_def)
    have "flags n' = (tk_runtime_available inp, tk_relay_bound inp)" using drift_flags Inr np assms(1) by (simp add: n_def)
    with recovery_check_fields [of "lp\<lparr>lp_node := n'\<rparr>" inp env rc] lp' assms(2,3) show ?thesis by simp
  qed
qed

lemma surrounded_fields [simp]:
  "lp_seq (surrounded inp lp) = lp_seq lp" "lp_failures (surrounded inp lp) = lp_failures lp" "lp_exit (surrounded inp lp) = lp_exit lp"
  "lp_token (surrounded inp lp) = lp_token lp" "flags (lp_node (surrounded inp lp)) = (tk_runtime_available inp, tk_relay_bound inp)"
  by (simp_all add: surrounded_def flags_def set_relay_bound_def set_runtime_available_def)

lemma loop_tick_fields:
  fixes env rc lp inp
  assumes "lp_exit lp = None" "0 \<le> lp_failures lp"
  defines "lp' \<equiv> fst (loop_tick env rc (surrounded inp lp) inp)"
    and "due \<equiv> rc_check_every rc > 0 \<and> (lp_seq lp + 1) mod rc_check_every rc = 0"
  shows "lp_seq lp' = lp_seq lp + 1 \<and> 0 \<le> lp_failures lp' \<and> lp_failures lp' \<le> lp_failures lp + of_bool (due \<and> route_lost inp) \<and>
    (lp_exit lp' \<noteq> None \<longrightarrow> lp_exit lp' = Some RECOVERY_EXIT_CODE \<and> rc_supervised rc \<and> rc_grace rc \<le> lp_failures lp')"
proof -
  define lp1 where "lp1 = (surrounded inp lp)\<lparr>lp_node := on_health (advance_supervisor (tk_monotonic inp)) (lp_node (surrounded inp lp)), lp_seq := lp_seq lp + 1\<rparr>"
  obtain n payload result where beat: "heartbeat env (lp_node lp1) (lp_token lp1) (tk_beat inp) = (n, payload, result)" by (metis prod_cases3)
  define lp2 where "lp2 = lp1\<lparr>lp_node := n\<rparr>"
  define lp3 where "lp3 = directory_lost (tk_monotonic inp) lp2"
  have fields: "lp_seq lp2 = lp_seq lp + 1" "lp_failures lp2 = lp_failures lp" "lp_exit lp2 = None"
    "flags (lp_node lp2) = (tk_runtime_available inp, tk_relay_bound inp)"
    using heartbeat_flags [OF beat] assms(1) by (simp_all add: lp2_def lp1_def)
  have lp': "lp' = (case result of Inr _ \<Rightarrow> after_beat env rc lp2 inp
      | Inl (Beat_Status status) \<Rightarrow> if status \<in> set REJECTED then fst (loop_register env lp3 inp) else lp3 | Inl Beat_Raised \<Rightarrow> lp3)"
    using beat by (simp add: lp'_def loop_tick_def Let_def lp1_def [symmetric] lp2_def [symmetric] lp3_def [symmetric] split: sum.split beat_error.split)
  have lost: "lp_seq lp' = lp_seq lp + 1 \<and> lp_failures lp' = lp_failures lp \<and> lp_exit lp' = None" if "lp' = lp3 \<or> lp' = fst (loop_register env lp3 inp)"
    using that loop_register_fields [of env lp3 inp "fst (loop_register env lp3 inp)" "snd (loop_register env lp3 inp)"] fields by (auto simp: lp3_def)
  show ?thesis
  proof (cases result)
    case (Inl e)
    then have "lp' = lp3 \<or> lp' = fst (loop_register env lp3 inp)" unfolding lp' by (cases e) auto
    with lost assms(2) show ?thesis by simp
  next
    case (Inr u)
    with lp' after_beat_fields [of lp2 inp env rc] fields assms(2) show ?thesis by (simp add: due_def)
  qed
qed

lemma div_step:
  fixes s e :: int
  assumes "0 < e"
  shows "(s + 1) div e = s div e + of_bool ((s + 1) mod e = 0)"
proof -
  define q r where "q = s div e" and "r = s mod e"
  have s: "s = e * q + r" "0 \<le> r" "r < e" using assms by (simp_all add: q_def r_def)
  show ?thesis
  proof (cases "r + 1 = e")
    case True
    then have "s + 1 = e * (q + 1) + 0" using s by (simp add: algebra_simps)
    then show ?thesis using assms by (simp add: q_def [symmetric])
  next
    case False
    then have "s + 1 = e * q + (r + 1)" "r + 1 < e" using s by simp_all
    from int_div_pos_eq [OF this(1) _ this(2)] int_mod_pos_eq [OF this(1) _ this(2)] s(2) show ?thesis by (simp add: q_def [symmetric])
  qed
qed

lemma loop_exit_count:
  assumes "lp_exit lp = None" "0 \<le> lp_failures lp" "lp_exit (heartbeat_loop env rc lp inps) \<noteq> None" "0 < rc_check_every rc"
  shows "lp_exit (heartbeat_loop env rc lp inps) = Some RECOVERY_EXIT_CODE \<and> rc_supervised rc \<and>
    rc_grace rc \<le> lp_failures lp + int (length (filter route_lost inps)) \<and>
    rc_grace rc \<le> lp_failures lp + ((lp_seq lp + int (length inps)) div rc_check_every rc - lp_seq lp div rc_check_every rc)"
  using assms(1-3)
proof (induction inps arbitrary: lp)
  case (Cons inp inps)
  let ?e = "rc_check_every rc"
  define lp' where "lp' = fst (loop_tick env rc (surrounded inp lp) inp)"
  define due where "due \<longleftrightarrow> (lp_seq lp + 1) mod ?e = 0"
  have tick: "lp_seq lp' = lp_seq lp + 1" "0 \<le> lp_failures lp'" "lp_failures lp' \<le> lp_failures lp + of_bool (due \<and> route_lost inp)"
    "lp_exit lp' \<noteq> None \<Longrightarrow> lp_exit lp' = Some RECOVERY_EXIT_CODE \<and> rc_supervised rc \<and> rc_grace rc \<le> lp_failures lp'"
    using loop_tick_fields [OF Cons.prems(1,2), of env rc inp] assms(4) by (auto simp: lp'_def due_def)
  have step: "lp_seq lp' div ?e = lp_seq lp div ?e + of_bool due" unfolding tick(1) due_def by (rule div_step [OF assms(4)])
  have run: "heartbeat_loop env rc lp (inp # inps) = heartbeat_loop env rc lp' inps" using Cons.prems(1) by (simp add: lp'_def)
  have mono: "lp_seq lp' div ?e \<le> (lp_seq lp' + int (length inps)) div ?e" using assms(4) by (intro zdiv_mono1) auto
  show ?case
  proof (cases "lp_exit lp'")
    case None
    have "lp_exit (heartbeat_loop env rc lp' inps) \<noteq> None" using Cons.prems(3) run by simp
    from Cons.IH [OF None tick(2) this] tick(1,3) step show ?thesis unfolding run by (auto simp: of_bool_def add.assoc split: if_splits)
  next
    case (Some c)
    then have "heartbeat_loop env rc lp' inps = lp'" by (cases inps) auto
    with Some tick step mono show ?thesis unfolding run by (auto simp: of_bool_def add.assoc split: if_splits)
  qed
qed simp

text \<open>Whatever the environment says, the settings are positive.\<close>

lemma settings_positive: "0 < rc_grace (recovery_settings_of env)" "0 < rc_check_every (recovery_settings_of env)"
  by (simp_all add: recovery_settings_of_def env_grace_checks_def env_check_every_heartbeats_def env_positive_def
      DEFAULT_RECOVERY_GRACE_CHECKS_def DEFAULT_RECOVERY_CHECK_EVERY_HEARTBEATS_def split: option.split)

lemma challenge_response_cong:
  "sn_challenge m = sn_challenge n \<Longrightarrow> sn_hmac_key m = sn_hmac_key n \<Longrightarrow> challenge_response env m = challenge_response env n"
  unfolding challenge_response_def by (simp only:)

lemma heartbeat_rejected:
  assumes "challenge_response env n = Inr response" "bi_answer inp = Answer status body" "\<not> successful status"
  shows "\<exists>n' payload. heartbeat env n token inp = (n', payload, Inl (Beat_Status status)) \<and>
    sn_pending_batch n' = sn_pending_batch (take_batch n (bi_batch_id inp)) \<and> sn_config n' = sn_config n"
proof -
  have "challenge_response env (take_batch n (bi_batch_id inp)) = Inr response"
    using challenge_response_cong [of "take_batch n (bi_batch_id inp)" n env] assms(1) by (simp add: take_batch_def Let_def)
  with assms(2,3) show ?thesis
    by (auto simp: heartbeat_def Let_def finish_tasks_def observe_backend_def set_backend_stability_def take_batch_def)
qed

lemma register_accepted:
  assumes "advertised_capabilities (sn_config n) (configured_models (sn_config n)) = Inr caps" "register_answer answer = Inr data"
  shows "\<exists>n' payload saved. register env n update answer =
      (n', payload, saved, Inr (py_str (re_text env) (or_value (sget data ''node_token'') (sget data ''token'')))) \<and>
    sn_token n' = py_str (re_text env) (or_value (sget data ''node_token'') (sget data ''token'')) \<and>
    sn_pending_batch n' = sn_pending_batch n \<and> sn_config n' = sn_config n"
  using assms by (auto simp: register_def register_with_models_def Let_def commit_registration_def)

subsection \<open>Properties\<close>

text \<open>C10: The metrics of a node are reported exactly once. Whatever tasks finish while heartbeats are sent, retried, lost on the way or lost on the
  way back, a directory that credits each batch identifier once has credited every finished task at most once, and the ones it has
  not credited are precisely those the node still holds, in its counters or in the batch it will send again.\<close>

theorem metrics_exactly_once:
  assumes "distinct (batch_ids events)" "\<forall>e \<in> set events. plausible e" "sn_pending_batch n = None" "counters n = (0, 0)"
    "node_events env n events = (n', ledger)"
  shows "distinct (map fst ledger) \<and> ledger_total b ledger + outstanding b n' ledger = finished_tasks b events"
  using node_events_sound [OF assms(1-4), where env = env and b = b] assms(5) by (simp add: batch_sound_def)

definition quiet_beat :: "string \<Rightarrow> http_answer \<Rightarrow> beat_input" where
  "quiet_beat batch_id answer =
     \<lparr>bi_batch_id = batch_id, bi_update = [], bi_hour = 0, bi_minute = 0, bi_tags = No_Answer, bi_models = No_Answer,
      bi_observed = observer_error 0, bi_wall = 0, bi_finished = [(False, 3)], bi_answer = answer\<rparr>"

definition quiet_config :: registration_config where
  "quiet_config =
     \<lparr>rg_node_id = ''n'', rg_endpoint = ''http://n'', rg_intent = ''chat'', rg_model = PStr ''m'', rg_capabilities = [], rg_effective_capabilities = [],
      rg_region = [], rg_max_concurrent = 4, rg_tokens_per_min = 10000, rg_max_tokens = 8192, rg_supported_profiles = [],
      rg_supported_receipt_profiles = [], rg_transport_endpoint = [], rg_transport_method = [], rg_nat_type = [], rg_exposure_mode = [],
      rg_transport_metadata = [], rg_operator_delegation = [], rg_operator_display_name = [], rg_operator_created_at = [],
      rg_operator_integrity_hash = [], rg_policy_manifest = [], rg_cx_public_key = [], rg_backend = [], rg_backend_url = [],
      rg_excluded_models = [], rg_relay_capable = False, rg_relay_accept_port = 9485,
      rg_cip_policy = new_node_policy False False False 1 1 1 False, rg_pricing = None, rg_node_hmac_key = [], rg_availability_windows = []\<rparr>"

definition quiet_node :: supervised_node where
  "quiet_node =
     \<lparr>sn_config = quiet_config,
      sn_tasks = \<lparr>nd_nonces = [], nd_seen_tasks = [], nd_rate = [], nd_tasks_success = 0, nd_tasks_failed = 0, nd_latency_total_ms = 0\<rparr>,
      sn_pending_batch = None, sn_token = [], sn_hmac_key = [], sn_challenge = PNone, sn_registered_models = [], sn_runtime_available = True,
      sn_runtime_relay_bound = False, sn_saved_name = [], sn_stability = observer_error 0, sn_health = new_runtime_health ''e'' 0\<rparr>"

definition sample_registration :: registration_env where
  "sample_registration = \<lparr>re_hmac = (\<lambda>_ s. s), re_float_repr = (\<lambda>_. []), re_json_text = (\<lambda>s. s), re_text = (\<lambda>_. []), re_sdk_version = ''1''\<rparr>"

text \<open>The first answer is lost, and the batch is sent again.\<close>

definition sample_events :: "node_event list" where
  "sample_events = [Task_Finished True 5, Beat ''t'' (quiet_beat ''b1'' No_Answer) True, Beat ''t'' (quiet_beat ''b2'' (Answer 200 None)) True]"

theorem metrics_exactly_once_witness:
  "case node_events sample_registration quiet_node sample_events of
     (n', ledger) \<Rightarrow> distinct (map fst ledger) \<and> ledger_total True ledger + outstanding True n' ledger = 1"
proof -
  obtain n' ledger where run: "node_events sample_registration quiet_node sample_events = (n', ledger)" by force
  have "distinct (batch_ids sample_events)" "\<forall>e \<in> set sample_events. plausible e" "sn_pending_batch quiet_node = None"
    "counters quiet_node = (0, 0)" "finished_tasks True sample_events = 1"
    by (simp_all add: sample_events_def batch_ids_def quiet_beat_def quiet_node_def counters_def finished_tasks_def)
  with metrics_exactly_once [OF this(1-4) run, where b = True] run show ?thesis by simp
qed

text \<open>C11: A node restarts itself only with cause. From a loop whose failure count is zero (a fresh one, or one whose last check was good), the process exits
  for its supervisor only if the operator has enabled that, only with the recovery code, only after at least as many passes as the
  grace setting in which the registry or the node's reachability showed the route lost, and never before the check interval
  has elapsed between any two of them.\<close>

theorem restart_justified:
  assumes "lp_exit lp = None" "lp_failures lp = 0"
    "lp_exit (heartbeat_loop env (recovery_settings_of environment) lp inps) = Some code"
  shows "code = RECOVERY_EXIT_CODE \<and> supervised_recovery_enabled environment \<and>
    env_grace_checks environment \<le> int (length (filter route_lost inps)) \<and>
    (env_grace_checks environment - 1) * env_check_every_heartbeats environment < int (length inps)"
proof -
  let ?rc = "recovery_settings_of environment"
  let ?e = "rc_check_every ?rc" and ?k = "int (length inps)"
  have exit: "lp_exit (heartbeat_loop env ?rc lp inps) \<noteq> None" using assms(3) by simp
  have e: "0 < ?e" by (rule settings_positive)
  note count = loop_exit_count [OF assms(1) _ exit e, unfolded assms(2)]
  have "rc_grace ?rc * ?e \<le> ((lp_seq lp + ?k) div ?e - lp_seq lp div ?e) * ?e" using count e by (intro mult_right_mono) auto
  moreover have "(lp_seq lp + ?k) div ?e * ?e \<le> lp_seq lp + ?k" "lp_seq lp < lp_seq lp div ?e * ?e + ?e"
    using div_mult_mod_eq [of "lp_seq lp" ?e] pos_mod_bound [OF e, of "lp_seq lp"] div_mult_mod_eq [of "lp_seq lp + ?k" ?e]
      pos_mod_sign [OF e, of "lp_seq lp + ?k"] by linarith+
  ultimately have "(rc_grace ?rc - 1) * ?e < ?k" by (simp add: left_diff_distrib)
  moreover have "Some code = Some RECOVERY_EXIT_CODE" using count assms(3) by (simp only:)
  moreover have "rc_supervised ?rc" "rc_grace ?rc \<le> int (length (filter route_lost inps))" using count by simp_all
  ultimately show ?thesis by (simp add: recovery_settings_of_def)
qed

definition sample_tick :: "http_answer \<Rightarrow> http_answer \<Rightarrow> tick_input" where
  "sample_tick answer registered =
     \<lparr>tk_runtime_available = False, tk_relay_bound = False, tk_beat = quiet_beat ''b'' answer, tk_monotonic = 1, tk_wall = 1,
      tk_drift_tags = No_Answer, tk_drift_models = No_Answer, tk_drift_answer = No_Answer, tk_registry = No_Answer, tk_update = [],
      tk_register_answer = registered\<rparr>"

definition strict_environment :: environ where
  "strict_environment name = (if name = ''IICP_RECOVERY_SUPERVISED_EXIT'' then None else Some ''1'')"

lemma strict_settings:
  "env_grace_checks strict_environment = 1" "env_check_every_heartbeats strict_environment = 1" "supervised_recovery_enabled strict_environment"
  by code_simp+

lemma sample_challenge: "challenge_response sample_registration quiet_node = Inr []"
  by (simp add: challenge_response_def quiet_node_def)

lemma sample_exit:
  "lp_exit (heartbeat_loop sample_registration (recovery_settings_of strict_environment) (new_loop quiet_node ''t'')
     [sample_tick (Answer 200 None) No_Answer]) = Some RECOVERY_EXIT_CODE"
  by (simp add: new_loop_def surrounded_def set_relay_bound_def set_runtime_available_def loop_tick_def heartbeat_def Let_def on_health_def
      sample_tick_def quiet_beat_def quiet_node_def quiet_config_def take_batch_def challenge_response_def successful_def after_beat_def
      maybe_reregister_on_model_drift_def observe_backend_def settle_batch_def finish_tasks_def recovery_settings_of_def strict_settings
      recovery_check_def public_route_def effective_public_route_available_def registry_route_status_def registry_node_presence_def
      count_failures_def recovery_classify_def is_draining_def retry_after_s_def observer_error_def observed_def)

theorem restart_justified_witness:
  "lp_exit (heartbeat_loop sample_registration (recovery_settings_of strict_environment) (new_loop quiet_node ''t'')
     [sample_tick (Answer 200 None) No_Answer]) = Some RECOVERY_EXIT_CODE \<and>
   env_grace_checks strict_environment \<le> int (length (filter route_lost [sample_tick (Answer 200 None) No_Answer]))"
  using restart_justified [OF _ _ sample_exit] sample_exit by (simp add: new_loop_def)

text \<open>C12: A node the directory has forgotten comes back by itself. When a heartbeat is rejected as unknown, gone or unauthorized and the directory
  accepts the registration that follows in the same pass, the loop goes on, with the fresh token both for its next heartbeats
  and as proof of ownership, and the task metrics of the rejected heartbeat are still pending.\<close>

theorem rejected_node_recovers:
  fixes env rc lp inp
  defines "lp' \<equiv> fst (loop_tick env rc (surrounded inp lp) inp)"
  assumes "challenge_response env (lp_node lp) = Inr response" "bi_answer (tk_beat inp) = Answer status body" "status \<in> {401, 404, 410}"
    "advertised_capabilities (sn_config (lp_node lp)) (configured_models (sn_config (lp_node lp))) = Inr caps"
    "register_answer (tk_register_answer inp) = Inr data" "lp_exit lp = None"
  shows "lp_token lp' = py_str (re_text env) (or_value (sget data ''node_token'') (sget data ''token'')) \<and> sn_token (lp_node lp') = lp_token lp' \<and>
    lp_exit lp' = None \<and> sn_pending_batch (lp_node lp') = sn_pending_batch (take_batch (lp_node lp) (bi_batch_id (tk_beat inp)))"
proof -
  define n where "n = on_health (advance_supervisor (tk_monotonic inp)) (lp_node (surrounded inp lp))"
  have n: "sn_config n = sn_config (lp_node lp)" "challenge_response env n = challenge_response env (lp_node lp)"
    "sn_pending_batch (take_batch n i) = sn_pending_batch (take_batch (lp_node lp) i)" for i
    by (simp_all add: n_def on_health_def surrounded_def set_relay_bound_def set_runtime_available_def take_batch_def Let_def
        cong: challenge_response_cong)
  have "\<not> successful status" using assms(4) by (auto simp: successful_def)
  from heartbeat_rejected [of env n, OF n(2) [unfolded assms(2)] assms(3) this, of "lp_token lp"]
  obtain n1 payload where beat: "heartbeat env n (lp_token lp) (tk_beat inp) = (n1, payload, Inl (Beat_Status status))"
    "sn_pending_batch n1 = sn_pending_batch (take_batch (lp_node lp) (bi_batch_id (tk_beat inp)))" "sn_config n1 = sn_config (lp_node lp)"
    by (auto simp: n)
  define n2 where "n2 = on_health (advance_supervisor (tk_monotonic inp) \<circ> set_external ''directory'' ''unavailable'') n1"
  have "sn_config n2 = sn_config (lp_node lp)" "sn_pending_batch n2 = sn_pending_batch n1" by (simp_all add: n2_def on_health_def beat(3))
  with register_accepted [of n2 caps "tk_register_answer inp" data env "tk_update inp"] assms(5,6)
  obtain n3 payload' saved token where reg: "register env n2 (tk_update inp) (tk_register_answer inp) = (n3, payload', saved, Inr token)"
    "token = py_str (re_text env) (or_value (sget data ''node_token'') (sget data ''token''))" "sn_token n3 = token" "sn_pending_batch n3 = sn_pending_batch n1"
    by auto
  have "lp' = (surrounded inp lp)\<lparr>lp_node := n3, lp_seq := lp_seq lp + 1, lp_token := token\<rparr>"
    using beat(1) reg(1) assms(4) unfolding lp'_def loop_tick_def Let_def n_def
    by (auto simp: directory_lost_def n2_def [symmetric] loop_register_def REJECTED_def)
  with reg beat(2) assms(7) show ?thesis by simp
qed

theorem rejected_node_recovers_witness:
  "lp_token (fst (loop_tick sample_registration (recovery_settings_of strict_environment)
     (surrounded (sample_tick (Answer 404 None) (Answer 201 (Some (PDict [(PStr ''node_token'', PStr ''fresh'')])))) (new_loop quiet_node ''t''))
     (sample_tick (Answer 404 None) (Answer 201 (Some (PDict [(PStr ''node_token'', PStr ''fresh'')])))))) = ''fresh''"
proof -
  let ?data = "[(PStr ''node_token'', PStr ''fresh'')]"
  let ?tick = "sample_tick (Answer 404 None) (Answer 201 (Some (PDict ?data)))" and ?lp = "new_loop quiet_node ''t''"
  have node: "lp_node ?lp = quiet_node" "lp_exit ?lp = None" by (simp_all add: new_loop_def)
  obtain caps where "advertised_capabilities (sn_config quiet_node) (configured_models (sn_config quiet_node)) = Inr caps"
    by (simp add: advertised_capabilities_def configured_models_def quiet_node_def quiet_config_def)
  moreover have "register_answer (tk_register_answer ?tick) = Inr ?data" "bi_answer (tk_beat ?tick) = Answer 404 None"
    by (simp_all add: sample_tick_def quiet_beat_def register_answer_def successful_def or_value_def)
  ultimately show ?thesis
    using rejected_node_recovers [of sample_registration ?lp, unfolded node, OF sample_challenge _ _ _ _ refl, of ?tick 404 None caps ?data]
    by (simp add: or_value_def)
qed

end
