(* ===== verification/Mcp_Gateway.thy ===== *)
theory Mcp_Gateway
  imports Node_Task
begin

text \<open>
  The policy of the MCP gateway: the risk of a tool and whether it may be called (\<open>mcp_policy.py\<close>), and the negotiation of the
  protocol revision with the stateless request that follows (\<open>mcp_negotiation.py\<close>). All of both files.
\<close>

subsection \<open>Tool risk (\<open>mcp_policy.py\<close>)\<close>

definition TOOL_RISK_KEYWORDS :: "(string, string list) dict" where
  "TOOL_RISK_KEYWORDS =
     [(''shell_exec'', [''bash'', ''shell'', ''exec'', ''run_command'', ''command'', ''eval'', ''python_exec'']),
      (''data_read'', [''read_document'', ''query_database'', ''list_resource'', ''dataset_read'', ''record_lookup'']),
      (''file_read'', [''read_file'', ''list_dir'', ''cat'', ''open_file'', ''file_read'', ''list_files'']),
      (''file_write'', [''write_file'', ''delete_file'', ''remove_file'', ''edit_file'', ''save_file'', ''mkdir'', ''rmdir'']),
      (''network_fetch'', [''fetch'', ''crawl'', ''http'', ''web_request'', ''search_web'', ''url'']),
      (''browser_control'', [''browser'', ''computer_use'', ''click'', ''type'', ''screenshot'', ''navigate'']),
      (''credential_access'', [''secret'', ''credential'', ''token'', ''ssh_key'', ''wallet'', ''password'']),
      (''system_control'', [''systemctl'', ''launchctl'', ''service_restart'', ''install_package'', ''firewall'', ''reboot'', ''shutdown'']),
      (''physical_world'', [''robot'', ''drone'', ''actuator'', ''iot_control'', ''medical_device'', ''industrial_control'']),
      (''regulated_decision'', [''credit_score'', ''hire'', ''employment'', ''benefit_eligibility'', ''diagnose'', ''triage_patient''])]"

definition DANGEROUS_TOOL_RISKS :: "string list" where "DANGEROUS_TOOL_RISKS = map fst TOOL_RISK_KEYWORDS"

definition SAFE_SANDBOX_PROFILES :: "string list" where
  "SAFE_SANDBOX_PROFILES = [''1'', ''true'', ''strict'', ''container'', ''sandbox'']"

definition plain_tool_char :: "char \<Rightarrow> bool" where
  "plain_tool_char c \<longleftrightarrow> is_ascii_alnum c \<or> c \<in> set ''_:-''"

definition safe_tool_name :: "string \<Rightarrow> string" where
  "safe_tool_name name =
     map (\<lambda>c. if plain_tool_char c \<and> \<not> (let n = of_char c :: nat in 65 \<le> n \<and> n \<le> 90) then c else CHR ''_'') (lower name)"

definition tool_risk_label :: "string \<Rightarrow> string" where
  "tool_risk_label name =
     (let safe = safe_tool_name name
      in case List.find (\<lambda>(label, needles). safe \<in> set needles \<or> list_ex (\<lambda>n. contains safe n) needles) TOOL_RISK_KEYWORDS of
           None \<Rightarrow> ''benign_read''
         | Some (label, _) \<Rightarrow> label)"

record mcp_tool_policy =
  tp_allow_dangerous_tools :: bool
  tp_authz_policy :: string
  tp_sandbox_profile :: string
  tp_audit_redaction :: bool

definition dangerous_ready :: "mcp_tool_policy \<Rightarrow> bool" where
  "dangerous_ready p \<longleftrightarrow>
     tp_allow_dangerous_tools p \<and> strip (tp_authz_policy p) \<noteq> [] \<and> lower (strip (tp_sandbox_profile p)) \<in> set SAFE_SANDBOX_PROFILES \<and>
     tp_audit_redaction p"

definition tool_allowed :: "mcp_tool_policy \<Rightarrow> string \<Rightarrow> bool" where
  "tool_allowed p name \<longleftrightarrow> tool_risk_label name \<notin> set DANGEROUS_TOOL_RISKS \<or> dangerous_ready p"

definition clipped :: "nat \<Rightarrow> string \<Rightarrow> pyval" where
  "clipped n s = (if s = [] then PNone else PStr (take n s))"

definition tool_receipt :: "mcp_tool_policy \<Rightarrow> string \<Rightarrow> string \<Rightarrow> int \<Rightarrow> pydict" where
  "tool_receipt p name decision argument_count =
     [(PStr ''tool_name'', PStr (take 96 (map (\<lambda>c. if plain_tool_char c then c else CHR ''_'') name))),
      (PStr ''tool_risk'', PStr (tool_risk_label name)), (PStr ''decision'', PStr decision),
      (PStr ''authz_policy'', clipped 96 (tp_authz_policy p)), (PStr ''sandbox_profile'', clipped 32 (tp_sandbox_profile p)),
      (PStr ''audit_redacted'', PBool (tp_audit_redaction p)), (PStr ''argument_count'', PInt (max 0 argument_count)),
      (PStr ''argument_content'', PStr ''excluded'')]"

subsection \<open>Negotiation (\<open>mcp_negotiation.py\<close>)\<close>

definition LEGACY_MCP_REVISION :: string where "LEGACY_MCP_REVISION = ''2025-11-25''"
definition MODERN_MCP_REVISION :: string where "MODERN_MCP_REVISION = ''2026-07-28''"
definition SUPPORTED_MCP_EXTENSIONS :: "string list" where "SUPPORTED_MCP_EXTENSIONS = [''tasks'', ''skills'', ''apps'']"

definition MCP_REQUIREMENTS :: "(string \<times> string) list" where
  "MCP_REQUIREMENTS =
     [(''oauth_issuer_matches'', ''oauth_issuer_mismatch''), (''oauth_audience_matches'', ''oauth_audience_mismatch''),
      (''resource_indicator_present'', ''missing_resource_indicator''),
      (''protected_resource_metadata_valid'', ''invalid_protected_resource_metadata''), (''pkce_valid'', ''pkce_required''),
      (''consent_granted'', ''consent_required''), (''audit_output_redacted'', ''audit_redaction_required'')]"

definition era_refusal :: "string \<Rightarrow> pydict" where
  "era_refusal reason = [(PStr ''accepted'', PBool False), (PStr ''reason'', PStr reason)]"

text \<open>\<open>s in v\<close>: an element of a list, a part of a text, a key of a dictionary.\<close>

definition text_in :: "string \<Rightarrow> pyval \<Rightarrow> py_error + bool" where
  "text_in s v =
     (case v of
        PList vs \<Rightarrow> Inr (PStr s \<in> set vs)
      | PStr t \<Rightarrow> Inr (contains t s)
      | PDict d \<Rightarrow> Inr (py_find d (PStr s) \<noteq> None)
      | _ \<Rightarrow> Inl TypeError)"

definition evaluate_modern :: "pydict \<Rightarrow> py_error + pydict" where
  "evaluate_modern request =
     (if is_false request ''protocol_header_present'' then Inr (era_refusal ''missing_protocol_version'')
      else if is_false request ''method_header_matches'' \<or> is_false request ''name_header_matches'' then Inr (era_refusal ''header_body_mismatch'')
      else if is_false request ''reserved_meta_valid'' then Inr (era_refusal ''malformed_reserved_metadata'')
      else let peer = get_or request ''peer_supported_revisions'' (PList [])
        in bind_result (text_in MODERN_MCP_REVISION peer) (\<lambda>modern.
             if modern \<or> \<not> truthy peer
             then Inr ((PStr ''accepted'', PBool True) #
                    (if truthy (sget request ''request_state_explicit'') then [(PStr ''state_source'', PStr ''request'')]
                     else [(PStr ''era'', PStr ''modern''), (PStr ''session_mode'', PStr ''stateless'')]))
             else bind_result (text_in LEGACY_MCP_REVISION peer) (\<lambda>legacy.
               if legacy \<and> truthy (sget request ''legacy_revision_explicitly_offered'') \<and> truthy (sget request ''security_requirements_preserved'')
               then Inr [(PStr ''accepted'', PBool True), (PStr ''era'', PStr ''legacy''), (PStr ''reason'', PStr ''explicit_mutual_downgrade'')]
               else Inr (era_refusal ''unsupported_revision''))))"

definition evaluate_mcp_era :: "pydict \<Rightarrow> py_error + pydict" where
  "evaluate_mcp_era request =
     (case List.find (\<lambda>(field, _). is_false request field) MCP_REQUIREMENTS of
        Some (_, reason) \<Rightarrow> Inr (era_refusal reason)
      | None \<Rightarrow>
          if sget request ''downstream_credential_source'' = PStr ''caller'' then Inr (era_refusal ''credential_passthrough_prohibited'')
          else if is_false request ''server_identity_matches_selected_endpoint'' then Inr (era_refusal ''server_identity_mismatch'')
          else if truthy (sget request ''modern_request_failed'') \<and> \<not> truthy (sget request ''legacy_authentication_available'')
          then Inr (era_refusal ''unauthenticated_downgrade'')
          else bind_result (if truthy (sget request ''extension'') then in_set (sget request ''extension'') SUPPORTED_MCP_EXTENSIONS else Inr True) (\<lambda>known.
            if \<not> known then Inr (era_refusal ''unsupported_extension'')
            else if sget request ''offered_revision'' = PStr MODERN_MCP_REVISION then evaluate_modern request
            else if sget request ''offered_revision'' = PStr LEGACY_MCP_REVISION
            then (let peer = get_or request ''peer_supported_revisions'' (PList [])
                  in bind_result (text_in LEGACY_MCP_REVISION peer) (\<lambda>legacy.
                       if legacy \<or> \<not> truthy peer
                       then Inr [(PStr ''accepted'', PBool True), (PStr ''era'', PStr ''legacy''), (PStr ''session_mode'', PStr ''negotiated'')]
                       else Inr (era_refusal ''unsupported_revision'')))
            else Inr (era_refusal ''unsupported_revision'')))"

definition build_modern_mcp_request ::
  "int \<Rightarrow> string \<Rightarrow> string \<Rightarrow> pydict \<Rightarrow> string \<Rightarrow> string list \<Rightarrow> pydict option \<Rightarrow> string + (string, string) dict \<times> pydict" where
  "build_modern_mcp_request request_id rpc_method name params client_name extensions request_state =
     (if \<not> set extensions \<subseteq> set SUPPORTED_MCP_EXTENSIONS then Inl ''unsupported_extension''
      else let meta = [(PStr ''protocolVersion'', PStr MODERN_MCP_REVISION), (PStr ''client'', PDict [(PStr ''name'', PStr client_name)])] @
             (if extensions = [] then [] else [(PStr ''extensions'', PList (map PStr extensions))]) @
             (case request_state of None \<Rightarrow> [] | Some st \<Rightarrow> [(PStr ''requestState'', PDict st)])
        in Inr ([(''MCP-Protocol-Version'', MODERN_MCP_REVISION), (''Mcp-Method'', rpc_method), (''Mcp-Name'', name)],
                [(PStr ''jsonrpc'', PStr ''2.0''), (PStr ''id'', PInt request_id), (PStr ''method'', PStr rpc_method),
                 (PStr ''params'', PDict (with_key params (PStr ''_meta'') (PDict meta)))]))"

definition validate_modern_mcp_response :: "pydict \<Rightarrow> string \<Rightarrow> string + unit" where
  "validate_modern_mcp_response data expected_server_name =
     (case sget data ''_meta'' of
        PDict meta \<Rightarrow>
          if sget meta ''protocolVersion'' \<noteq> PStr MODERN_MCP_REVISION then Inl ''malformed_reserved_metadata''
          else (case sget meta ''server'' of
                  PDict server \<Rightarrow> if sget server ''name'' \<noteq> PStr expected_server_name then Inl ''server_identity_mismatch'' else Inr ()
                | _ \<Rightarrow> Inl ''server_identity_mismatch'')
      | _ \<Rightarrow> Inl ''malformed_reserved_metadata'')"

subsection \<open>Facts\<close>

lemma contains_self [simp]: "contains s s"
  by (cases s) (auto simp: contains_def starts_with_def list_ex_iff)

text \<open>A tool is harmless exactly when no keyword of any risk occurs in its name, in whatever case and behind whatever punctuation.\<close>

lemma tool_risk_exact:
  "tool_risk_label name \<in> set DANGEROUS_TOOL_RISKS \<longleftrightarrow>
   (\<exists>(label, needles) \<in> set TOOL_RISK_KEYWORDS. \<exists>n \<in> set needles. contains (safe_tool_name name) n)"
proof (cases "List.find (\<lambda>(label, needles). safe_tool_name name \<in> set needles \<or> list_ex (\<lambda>n. contains (safe_tool_name name) n) needles) TOOL_RISK_KEYWORDS")
  case None
  then have "\<forall>(label, needles) \<in> set TOOL_RISK_KEYWORDS. \<forall>n \<in> set needles. \<not> contains (safe_tool_name name) n"
    unfolding find_None_iff list_ex_iff by blast
  moreover have "tool_risk_label name = ''benign_read''" using None by (simp add: tool_risk_label_def Let_def)
  moreover have "''benign_read'' \<notin> set DANGEROUS_TOOL_RISKS" by (simp add: DANGEROUS_TOOL_RISKS_def TOOL_RISK_KEYWORDS_def)
  ultimately show ?thesis by auto
next
  case (Some e)
  obtain label needles where e: "e = (label, needles)" by force
  from Some e have "(label, needles) \<in> set TOOL_RISK_KEYWORDS" and
    found: "safe_tool_name name \<in> set needles \<or> list_ex (\<lambda>n. contains (safe_tool_name name) n) needles"
    by (auto simp: find_Some_iff) (metis nth_mem)+
  moreover from found have "\<exists>n \<in> set needles. contains (safe_tool_name name) n" by (auto simp: list_ex_iff intro: bexI [of _ "safe_tool_name name"])
  moreover have "tool_risk_label name = label" using Some e by (simp add: tool_risk_label_def Let_def)
  ultimately show ?thesis by (force simp: DANGEROUS_TOOL_RISKS_def)
qed

lemma era_refusal_accepted [simp]: "sget (era_refusal reason) ''accepted'' \<noteq> PBool True"
  by (simp add: era_refusal_def)

lemma evaluate_modern_accepted:
  assumes "evaluate_modern request = Inr result" "sget result ''accepted'' = PBool True" "sget result ''era'' = PStr ''legacy''"
  shows "truthy (sget request ''legacy_revision_explicitly_offered'') \<and> truthy (sget request ''security_requirements_preserved'')"
  using assms by (auto simp: evaluate_modern_def Let_def bind_result_Inr_iff split: if_splits)

text \<open>The negotiation fails closed: a revision is agreed only when no security requirement is reported as unmet and no credential is passed
  through, an extension asked for is a supported one; and a peer that offered the modern revision ends up with the
  legacy one only when it offered that explicitly with the security requirements preserved.\<close>

lemma negotiation_fails_closed:
  assumes "evaluate_mcp_era request = Inr result" "sget result ''accepted'' = PBool True"
  shows "(\<forall>(field, reason) \<in> set MCP_REQUIREMENTS. \<not> is_false request field) \<and>
    sget request ''downstream_credential_source'' \<noteq> PStr ''caller'' \<and> \<not> is_false request ''server_identity_matches_selected_endpoint'' \<and>
    (truthy (sget request ''modern_request_failed'') \<longrightarrow> truthy (sget request ''legacy_authentication_available'')) \<and>
    (truthy (sget request ''extension'') \<longrightarrow> in_strs (sget request ''extension'') SUPPORTED_MCP_EXTENSIONS) \<and>
    in_strs (sget request ''offered_revision'') [LEGACY_MCP_REVISION, MODERN_MCP_REVISION] \<and>
    (sget request ''offered_revision'' = PStr MODERN_MCP_REVISION \<and> sget result ''era'' = PStr ''legacy'' \<longrightarrow>
       truthy (sget request ''legacy_revision_explicitly_offered'') \<and> truthy (sget request ''security_requirements_preserved''))"
proof -
  have none: "List.find (\<lambda>(field, _). is_false request field) MCP_REQUIREMENTS = None"
    using assms by (cases "List.find (\<lambda>(field, _). is_false request field) MCP_REQUIREMENTS") (auto simp: evaluate_mcp_era_def)
  then have "\<forall>(field, reason) \<in> set MCP_REQUIREMENTS. \<not> is_false request field" unfolding find_None_iff by blast
  moreover have "evaluate_modern request = Inr result" if "sget request ''offered_revision'' = PStr MODERN_MCP_REVISION"
    using assms that by (auto simp: evaluate_mcp_era_def none bind_result_Inr_iff split: if_splits)
  ultimately show ?thesis
    using assms evaluate_modern_accepted [OF _ assms(2)]
    by (auto simp: evaluate_mcp_era_def none bind_result_Inr_iff in_set_Inr in_strs_iff split: if_splits)
qed

end
