(* ===== verification/Spec2Isabelle.thy ===== *)
theory Spec2Isabelle
  imports Lifecycle_Router Lifecycle_Support Lifecycle_Policy Tcp_Session Fallback Admission Client Node_Task Relay Effective_Capability Ticket_Trust Mesh Relay_Worker Membership Node_Heartbeat Mcp_Gateway
begin

text \<open>
  A verification of the IICP Python client, provider node and proxy, the package \<open>src/src/iicp_client\<close>. This header says which parts
  the program has and how they interact, which theory models which file, what the lemmas of each theory show, and what is left
  out. File names below are relative to that package.

  \<^bold>\<open>The program.\<close> A \<^emph>\<open>client\<close> discovers providers through a directory, filters and ranks them, seals the prompt for the chosen node's key
  and submits it over HTTP or over a native binary protocol. A \<^emph>\<open>provider node\<close> registers its models with the directory, sends
  heartbeats, admits tasks through a series of gates, runs them against a local model backend and answers, sealed if the request
  was. A node nobody can reach binds to a \<^emph>\<open>relay\<close>, which forwards tasks to it over a connection the node opened. Nodes exchange peers by
  \<^emph>\<open>gossip\<close>. A \<^emph>\<open>proxy\<close> routes requests to nodes with retries, circuit breakers and fallback, and takes part in cooperative inference.
  Tasks may have a \<^emph>\<open>lifecycle\<close> that is stored, observed and cancelled. Tickets issued by a directory decide who may route to whom.

  \<^bold>\<open>Conventions\<close> (theories \<open>Prelude\<close>, \<open>Py_Value\<close>). A dictionary is an association list in insertion order; a value of dynamic type is a
  \<open>pyval\<close> with Python's truth, equality and order; text is a \<open>string\<close> over the first 256 code points; floats are reals. A method that
  changes \<open>self\<close> takes the state as a record and returns it; an exception is the left side of a sum, returned beside the new state
  when the method changes state before it raises. Concurrency is a relation or a list of steps, one step for each piece of code
  that runs without giving up its lock or its event loop, and properties quantify over all sequences.

  \<^bold>\<open>Lifecycle.\<close>
  \<^item> \<open>Lifecycle\<close>: \<open>service_lifecycle.py\<close>, the transition table and the in-memory store (\<open>lifecycle_record\<close>, \<open>store_*\<close>). Every reachable store is well
    formed: states follow the table, terminal records never change, the retained events are a consecutive window that ends in the
    current state; snapshots restore to the store they were taken from.
  \<^item> \<open>Lifecycle_Sqlite\<close>: the SQL store as two tables (\<open>lifecycle_db\<close>, \<open>sql_*\<close>). It refines the in-memory store operation by operation, and an
    operation that fails changes neither table.
  \<^item> \<open>Lifecycle_Router\<close>: the HTTP routes. The locale \<open>lifecycle_persistence\<close> states what a route needs of a store and both stores interpret it.
    An accepted cancellation settles the task; submission is idempotent; nothing happens without authorization.
  \<^item> \<open>Lifecycle_Support\<close>, \<open>Lifecycle_Policy\<close>: the cancellation registry and the observer buffer; \<open>service_lifecycle_accounting.py\<close> and
    \<open>service_lifecycle_distributed.py\<close>: every task is settled at most once.

  \<^bold>\<open>Native protocol.\<close>
  \<^item> \<open>Framing\<close>: the wire format and the session loop of \<open>iicp_tcp.py\<close>. Frames survive encoding and decoding; a session depends on
    the bytes only and not on their segmentation, and starts with INIT.
  \<^item> \<open>Native_Sequence\<close>: \<open>native_response_sequence.py\<close>, \<open>native_call_identity.py\<close>: exactly the well-formed response histories are accepted.
  \<^item> \<open>Tcp_Session\<close>: handlers and client of \<open>iicp_tcp.py\<close>: what a server streams is a history the validator accepts, and calls work end to end.

  \<^bold>\<open>Network and routing.\<close>
  \<^item> \<open>Net_Endpoint\<close>: \<open>endpoint_security.py\<close>: addresses, URLs, resolution and pinning; connections go to public addresses only.
  \<^item> \<open>Ttl_Guard\<close>: the duplicate filters of \<open>idempotency.py\<close> and \<open>proxy/cip/receipts.py\<close>, both interpretations of one locale \<open>ttl_guard\<close>.
  \<^item> \<open>Routing\<close>: circuit breaker, retry manager, task router and node client of \<open>proxy/routing\<close>: retries end and are counted exactly; no guarded
    node is contacted.
  \<^item> \<open>Cip\<close>, \<open>Fallback\<close>, \<open>Runtime_Identity\<close>: \<open>proxy/cip\<close>, selector, fallback chain and aggregation, the injected system context. The
    session budget holds, answers are bound to their session, credits are awarded at most once.

  \<^bold>\<open>Client.\<close>
  \<^item> \<open>Http_Body\<close>, \<open>Http_Client\<close>: \<open>_http_resource.py\<close>, \<open>_http.py\<close>, \<open>errors.py\<close>: bodies are bounded, chunked text is read back.
  \<^item> \<open>Confidentiality\<close>: \<open>_confidentiality.py\<close>: what is sealed for a key opens under it, and only with its own context.
  \<^item> \<open>Node_Policy\<close>, \<open>Client_Checks\<close>, \<open>Client\<close>: \<open>routing_policy.py\<close>, \<open>selection.py\<close>, \<open>policy.py\<close>, \<open>dispatch_ticket.py\<close>, \<open>restricted_directory.py\<close>,
    \<open>client.py\<close>. Under a profile that demands it the prompt leaves the client sealed only; ticketed routes were verified.

  \<^bold>\<open>Provider node.\<close>
  \<^item> \<open>Capacity\<close>, \<open>Backend_Stability\<close>: \<open>concurrency.py\<close>, \<open>scheduler.py\<close>, \<open>availability.py\<close>, \<open>backend_stability.py\<close>: no more tasks than slots run;
    draining ends by itself.
  \<^item> \<open>Admission\<close>: \<open>dispatch_admission.py\<close>: a ticket is redeemed once, also across restarts.
  \<^item> \<open>Node_Task\<close>: the task endpoint of \<open>node.py\<close> and \<open>cip_policy.py\<close>. The locale \<open>task_filter\<close> is the contract of its two replay filters. A task
    runs exactly when every gate lets it pass.
  \<^item> \<open>Node_Health\<close>: \<open>recovery.py\<close>, \<open>runtime_health.py\<close>: a snapshot tells the truth about the loops of the node.
  \<^item> \<open>Node_Registration\<close>: the registration of \<open>node.py\<close> with \<open>pricing.py\<close>: capabilities divide the models; a registration commits entirely or not.
  \<^item> \<open>Node_Heartbeat\<close>: heartbeat and recovery loop of \<open>node.py\<close>: metrics are reported exactly once, restarts have a cause, a forgotten node returns.

  \<^bold>\<open>Relay, mesh and trust.\<close>
  \<^item> \<open>Relay\<close>: \<open>relay_ticket.py\<close>, \<open>relay_session.py\<close> and the relay routes of \<open>node.py\<close>: only admitted workers hold a session, and streams are sound.
  \<^item> \<open>Relay_Worker\<close>: \<open>relay_worker_client.py\<close>, composed with the relay: a forwarded task comes back with the handler's result.
  \<^item> \<open>Mesh\<close>: \<open>peer_manager.py\<close>, the peer exchange of \<open>node.py\<close>, \<open>proxy/clients/trust_resolver.py\<close>, \<open>replica_registry.py\<close>.
  \<^item> \<open>Effective_Capability\<close>: \<open>effective_capability.py\<close>: advertisements parse back, and matching is exact.
  \<^item> \<open>Ticket_Trust\<close>: \<open>dispatch_ticket_trust.py\<close>: the trust store never goes back to an older bundle, tickets are accepted exactly when anchored, and once.
  \<^item> \<open>Membership\<close>: \<open>restricted_membership.py\<close>: gossip is accepted exactly when it is authentic.

  \<^bold>\<open>Gateway.\<close>
  \<^item> \<open>Mcp_Gateway\<close>: \<open>mcp_policy.py\<close>, \<open>mcp_negotiation.py\<close>: a tool is harmless exactly when no risk keyword occurs in its name; the negotiation of the
    revision fails closed.

  This theory composes client and provider: a task the client seals is the task the provider's handler gets, and only the client can
  open the answer.

  \<^bold>\<open>Parameters.\<close> Code that is not in the repository is an argument of the definitions that call it, gathered in the \<open>*_env\<close> records: the
  CBOR and JSON codecs, the cryptographic primitives, HTTP exchanges, name resolution, clocks and random numbers, task handlers. What
  the proofs need of them are hypotheses of the theorems (decoding inverts encoding, a key agreement is symmetric, and the like), and every
  theorem with a hypothesis has a witness in which all of them hold.

  \<^bold>\<open>Bounds and loops.\<close> Loops over input end because the input gets shorter, and are total functions with a measure (frames, chunked bodies,
  the worker's frame loop). The retry loop runs over its attempt numbers. Loops that live as long as the process (gossip,
  heartbeat, reconnection) take the list of what the world does in each pass, of any length, so no fuel is chosen anywhere.

  \<^bold>\<open>Not modelled.\<close> The command line with completion; NAT detection, tunnels, service installation, updates,
  locks, log files and key files, which are operating-system and router interaction; the HTTP adapters to model backends; the FastAPI
  servers of the proxy and the JSON translations between vendor formats; the HTTP part of the proxy's directory client, DID
  documents and replica signatures; metrics and tracing; operator identities and delegation, which are signatures over canonical JSON by
  external packages; the pre-normative evaluators of policies and profiles that nothing else calls; the serving shell of the node (sockets, CORS, start-up order, forwarding to peers); diagnostics, and the
  qualification scripts. Floating-point rounding, text beyond Latin-1 and log output are outside the model throughout.
\<close>

subsection \<open>Client and provider\<close>

text \<open>A task the client sealed for a node's advertised key, as the provider reads it.\<close>

lemma encrypt_features:
  "encrypt_payload_with_context cx eph nonce payload (node_cx_key cx priv kid) task_id intent =
   encrypt_payload_with_context cx eph nonce payload (advertised_key cx priv kid) task_id intent"
  by (simp add: encrypt_payload_with_context_def node_cx_key_def advertised_key_def)

lemma client_body:
  assumes "n_cx_public_key n = Some (node_cx_key (ce_suite env) priv kid)"
    "encrypt_payload_with_context (ce_suite env) eph nonce payload (advertised_key (ce_suite env) priv kid) task_id (tq_intent request) =
       Inr (conf, s)"
    "task_body_of env (eph, nonce) request task_id payload n = Inr (body, secret, required)"
  shows "secret = Some s" "required" "sget body ''iicp_conf'' = PDict conf" "py_find body (PStr ''payload'') = None"
    "sget body ''task_id'' = PStr task_id" "get_or body ''task_id'' d = PStr task_id"
    "sget body ''cx_response_encryption'' = PStr ''required''" "qos_of body = PStr ''best_effort''" "sget body ''nonce'' = PNone"
proof -
  have "filled (n_cx_public_key n)" using assms(1) by (simp add: filled_def node_cx_key_def advertised_key_def)
  moreover have "get_or (node_cx_key (ce_suite env) priv kid) ''features'' (PList []) = PList [PStr ''response_encryption_v1'']"
    by (simp add: node_cx_key_def advertised_key_def)
  ultimately have *: "secret = Some s \<and> required \<and> (\<exists>auth. set (map fst auth) \<subseteq> {PStr ''auth'', PStr ''source_node_id''} \<and>
      body = [(PStr ''task_id'', PStr task_id), (PStr ''intent'', PStr (tq_intent request)),
        (PStr ''constraints'', PDict (project_execution_constraints request))] @ auth @
        [(PStr ''iicp_conf'', PDict conf), (PStr ''cx_response_encryption'', PStr ''required'')])"
    using assms by (auto simp: task_body_of_def encrypt_features Let_def)
  then obtain auth where auth: "set (map fst auth) \<subseteq> {PStr ''auth'', PStr ''source_node_id''}" and
    body: "body = [(PStr ''task_id'', PStr task_id), (PStr ''intent'', PStr (tq_intent request)),
        (PStr ''constraints'', PDict (project_execution_constraints request))] @ auth @
        [(PStr ''iicp_conf'', PDict conf), (PStr ''cx_response_encryption'', PStr ''required'')]" by blast
  have skip: "py_find (auth @ d) (PStr k) = py_find d (PStr k)" if "k \<notin> {''auth'', ''source_node_id''}" for d k
    using auth that by (induction auth) auto
  show "secret = Some s" "required" using * by auto
  show "sget body ''iicp_conf'' = PDict conf" "py_find body (PStr ''payload'') = None"
    "sget body ''task_id'' = PStr task_id" "get_or body ''task_id'' d = PStr task_id"
    "sget body ''cx_response_encryption'' = PStr ''required''" "sget body ''nonce'' = PNone"
    by (simp_all add: body sget_def get_or_def skip)
  show "qos_of body = PStr ''best_effort''"
    by (simp add: body qos_of_def project_execution_constraints_def Let_def)
qed

text \<open>What the provider answers to a task it has run.\<close>

definition completed :: "string \<Rightarrow> pydict \<Rightarrow> pydict" where
  "completed task_id result =
     merged [(PStr ''task_id'', PStr task_id), (PStr ''status'', PStr ''completed''), (PStr ''generated_by_ai'', PBool True)] result"

definition sealed_answer :: "task_env \<Rightarrow> octets \<Rightarrow> string \<Rightarrow> pydict \<Rightarrow> pydict" where
  "sealed_answer env secret task_id result =
     [(PStr ''task_id'', PStr task_id), (PStr ''status'', PStr ''encrypted''),
      (PStr ''iicp_conf_resp'', PDict (encrypt_response (te_suite env) (te_nonce env) (PDict (completed task_id result)) secret task_id))]"

lemma run_sealed:
  assumes "\<not> ti_loop_closed inp" "te_handler env b = TaskReturned (PDict result)" "get_or b ''task_id'' (PStr []) = PStr task_id"
    "sget b ''cx_response_encryption'' = PStr ''required''"
    "length (te_dumps env (PDict (sealed_answer env secret task_id result))) \<le> MAX_HTTP_TASK_BODY_BYTES"
  shows "to_reply (snd (run_task env cfg st inp b (Some secret))) = Reply 200 (te_dumps env (PDict (sealed_answer env secret task_id result)))"
  using assms
  by (simp add: run_task_def answer_task_def sealed_answer_def completed_def bounded_response_json_def Let_def)

lemma get_or_with_entry: "get_or (with_entry d k v) k' x = (if k' = k then v else get_or d k' x)"
  by (induction d k v rule: with_entry.induct) (auto simp: get_or_def)

lemma sealed_opened:
  assumes "nc_private_key cfg = Some priv" "priv \<noteq> []" "sget body ''iicp_conf'' = PDict conf" "py_find body (PStr ''payload'') = None"
    "decrypt_payload_with_context (te_suite env) conf priv = Inr (PDict payload, s)"
  shows "open_request env cfg body =
    Inr (with_entry (with_entry body ''payload'' (PDict payload)) ''_cx_encrypted'' (PBool True), Some s)"
  using assms by (simp add: open_request_def present_def)

lemma traced:
  "add_trace tp body = Inr b \<Longrightarrow> k \<noteq> ''_trace'' \<Longrightarrow> get_or b k d = get_or body k d \<and> sget b k = sget body k"
  by (cases "present tp"; cases "get_or body ''_trace'' (PDict [])") (auto simp: add_trace_def get_or_with_entry)

subsection \<open>Properties\<close>

text \<open>C5: A sealed task travels end to end. When the client seals a task for the key a node advertises and the provider runs it, the
  task handler gets exactly the client's payload; the provider answers (when the answer fits the body limit) with a
  sealed response only; and opening that response at the client yields exactly what the handler returned, completed with
  the task identifier and status. The service class the client asked for is not what the provider reads: every such
  task is treated as best effort.\<close>

theorem sealed_task_end_to_end:
  assumes "ce_suite cenv = te_suite env" "sound_suite (te_suite env)" "json_value (te_suite env) (PDict payload)"
    "json_value (te_suite env) (PDict (completed task_id result))"
    "cx_exchange (te_suite env) eph (cx_public (te_suite env) priv) = Inr s" "CHR ''|'' \<notin> set task_id"
    "nc_private_key cfg = Some priv" "priv \<noteq> []" "n_cx_public_key n = Some (node_cx_key (te_suite env) priv kid)"
    "task_body_of cenv (eph, nonce) request task_id payload n = Inr (body, secret, required)"
    "read_task_request_body (Message (ti_headers inp)) (ti_stream inp) = Inr (raw, rest)" "parsed_task env raw = Some (PDict body)"
    "to_executed (snd (node_task env cfg st inp)) = Some b" "te_handler env b = TaskReturned (PDict result)"
    "length (te_dumps env (PDict (sealed_answer env s task_id result))) \<le> MAX_HTTP_TASK_BODY_BYTES"
  shows "sget b ''payload'' = PDict payload \<and>
    to_reply (snd (node_task env cfg st inp)) = Reply 200 (te_dumps env (PDict (sealed_answer env s task_id result))) \<and>
    open_response cenv required secret task_id (sealed_answer env s task_id result) = Inr (completed task_id result) \<and>
    qos_of body = PStr ''best_effort''"
proof -
  obtain conf where conf: "encrypt_payload_with_context (te_suite env) eph nonce payload (advertised_key (te_suite env) priv kid) task_id
      (tq_intent request) = Inr (conf, s)" "decrypt_payload_with_context (te_suite env) conf priv = Inr (PDict payload, s)"
    using sealed_opens [OF assms(2,3,5,6)] by blast
  note body = client_body [of n cenv priv kid eph nonce payload task_id request conf s body secret required, unfolded assms(1),
      OF assms(9) conf(1) assms(10)]
  obtain st2 body' sec where run: "\<not> ti_loop_closed inp" "open_request env cfg body = Inr (body', sec)"
    "add_trace (header_get (ti_headers inp) ''traceparent'') body' = Inr b"
    "snd (node_task env cfg st inp) = snd (run_task env cfg st2 inp b sec)"
    using node_runs [OF assms(11-13)] by blast
  have body': "body' = with_entry (with_entry body ''payload'' (PDict payload)) ''_cx_encrypted'' (PBool True)" "sec = Some s"
    using run(2) sealed_opened [OF assms(7,8) body(3,4) conf(2)] by auto
  note b = traced [OF run(3)]
  have "to_reply (snd (node_task env cfg st inp)) = Reply 200 (te_dumps env (PDict (sealed_answer env s task_id result)))"
    unfolding run(4) body'(2)
    by (rule run_sealed) (simp_all add: assms run(1) b body' get_or_with_entry body)
  moreover have "open_response cenv required secret task_id (sealed_answer env s task_id result) = Inr (completed task_id result)"
    using body(1,2) response_opens [OF assms(2,4)] by (simp add: open_response_def sealed_answer_def assms(1))
  ultimately show ?thesis using b body' body(8) by simp
qed

definition pair_suite :: cx_suite where
  "pair_suite = toy_suite\<lparr>cx_dumps := (\<lambda>v. if v = PDict (completed ''t'' []) then ''c'' else ''p''),
     cx_loads := (\<lambda>s. Some (if s = ''c'' then PDict (completed ''t'' []) else PDict [(PStr ''prompt'', PStr ''hi'')]))\<rparr>"

definition pair_client :: client_env where
  "pair_client = Client.sample_env\<lparr>ce_suite := pair_suite\<rparr>"

definition pair_node :: node where
  "pair_node = Client.sample_node\<lparr>n_cx_public_key := Some (node_cx_key pair_suite ''k'' ''id'')\<rparr>"

definition pair_body :: pydict where
  "pair_body = (case task_body_of pair_client (''e'', ''n'') Client.sample_task ''t'' [(PStr ''prompt'', PStr ''hi'')] pair_node of
     Inr (body, _, _) \<Rightarrow> body | Inl _ \<Rightarrow> [])"

definition pair_env :: task_env where
  "pair_env = sample_task_env\<lparr>te_loads := (\<lambda>_. Some (PDict pair_body)), te_suite := pair_suite\<rparr>"

definition pair_config :: node_config where
  "pair_config = sample_node_config\<lparr>nc_private_key := Some ''k'', nc_policy := new_node_policy False False False 3 30000 2 True\<rparr>"

lemma pair_laws:
  "sound_suite pair_suite" "json_value pair_suite (PDict [(PStr ''prompt'', PStr ''hi'')])"
  "json_value pair_suite (PDict (completed ''t'' []))" "cx_exchange pair_suite ''e'' (cx_public pair_suite ''k'') = Inr ''ek''"
  by (auto simp: sound_suite_def pair_suite_def toy_suite_def json_value_def completed_def merged_def)

lemma pair_sealed:
  obtains conf where "task_body_of pair_client (''e'', ''n'') Client.sample_task ''t'' [(PStr ''prompt'', PStr ''hi'')] pair_node =
      Inr (pair_body, Some ''ek'', True)" "sget pair_body ''iicp_conf'' = PDict conf" "py_find pair_body (PStr ''payload'') = None"
    "decrypt_payload_with_context pair_suite conf ''k'' = Inr (PDict [(PStr ''prompt'', PStr ''hi'')], ''ek'')"
    "sget pair_body ''task_id'' = PStr ''t''" "qos_of pair_body = PStr ''best_effort''" "sget pair_body ''nonce'' = PNone"
proof -
  have bar: "CHR ''|'' \<notin> set ''t''" by simp
  obtain conf where conf: "encrypt_payload_with_context pair_suite ''e'' ''n'' [(PStr ''prompt'', PStr ''hi'')] (advertised_key pair_suite ''k'' ''id'') ''t''
      (tq_intent Client.sample_task) = Inr (conf, ''ek'')"
    "decrypt_payload_with_context pair_suite conf ''k'' = Inr (PDict [(PStr ''prompt'', PStr ''hi'')], ''ek'')"
    using sealed_opens [OF pair_laws(1,2,4) bar] by blast
  have key: "n_cx_public_key pair_node = Some (node_cx_key (ce_suite pair_client) ''k'' ''id'')"
    by (simp add: pair_node_def pair_client_def)
  have "filled (n_cx_public_key pair_node)" by (simp add: key filled_def node_cx_key_def advertised_key_def)
  then obtain body sec req where body: "task_body_of pair_client (''e'', ''n'') Client.sample_task ''t'' [(PStr ''prompt'', PStr ''hi'')] pair_node =
      Inr (body, sec, req)"
    using conf(1) by (simp add: task_body_of_def key encrypt_features pair_client_def Let_def)
  then have "body = pair_body" by (simp add: pair_body_def)
  with body have body: "task_body_of pair_client (''e'', ''n'') Client.sample_task ''t'' [(PStr ''prompt'', PStr ''hi'')] pair_node = Inr (pair_body, sec, req)"
    by simp
  have "ce_suite pair_client = pair_suite" by (simp add: pair_client_def)
  note fields = client_body [OF key conf(1) [folded this] body]
  show ?thesis
    by (rule that [OF _ fields(3,4) conf(2) fields(5,8,9)]) (use body fields(1,2) in simp)
qed

lemma pair_executed:
  "\<exists>b. to_executed (snd (node_task pair_env pair_config sample_node_state (sample_task_input 0))) = Some b"
proof -
  obtain conf where body: "sget pair_body ''iicp_conf'' = PDict conf" "py_find pair_body (PStr ''payload'') = None"
    "decrypt_payload_with_context pair_suite conf ''k'' = Inr (PDict [(PStr ''prompt'', PStr ''hi'')], ''ek'')"
    "sget pair_body ''task_id'' = PStr ''t''" "qos_of pair_body = PStr ''best_effort''" "sget pair_body ''nonce'' = PNone"
    using pair_sealed by blast
  let ?b = "with_entry (with_entry pair_body ''payload'' (PDict [(PStr ''prompt'', PStr ''hi'')])) ''_cx_encrypted'' (PBool True)"
  have "opened pair_env pair_config (sample_task_input 0) pair_body ?b"
    unfolding opened_def
    using sealed_opened [of pair_config "''k''" pair_body conf pair_env, OF _ _ body(1,2)] body(3)
    by (intro exI [of _ ?b] exI [of _ "Some ''ek''"]) (simp add: pair_config_def pair_env_def add_trace_def sample_no_header present_def)
  moreover have "origin_admits pair_config sample_node_state (sample_task_input 0)" by (simp add: origin_admits_def sample_no_header)
  moreover have "intent_admits pair_config pair_body"
    by (simp add: intent_admits_def pair_config_def permits_intent_def new_node_policy_def Let_def split: pyval.split)
  moreover have "capacity_admits pair_config (sample_task_input 0)"
    using sample_admits(4) [of 0] by (simp add: capacity_admits_def pair_config_def)
  moreover have "unseen p (nd_nonces sample_node_state) PNone" "unseen p (nd_seen_tasks sample_node_state) (PStr ''t'')" for p
    by (simp_all add: unseen_def sample_node_state_def key_find_def)
  moreover have "parsed_task pair_env ''{}'' = Some (PDict pair_body)" "\<not> ti_loop_closed (sample_task_input 0)"
    by (simp_all add: parsed_task_def pair_env_def sample_task_input_def)
  ultimately show ?thesis
    unfolding node_executed gated_executed admitted_executed using sample_read [of 0] sample_admits(3) [of 0] body(4-6)
    by (intro exI [of _ ?b] exI [of _ "''{}''"] exI [of _ "[]"] exI [of _ pair_body]) simp
qed

theorem sealed_task_end_to_end_witness:
  "\<exists>b. to_executed (snd (node_task pair_env pair_config sample_node_state (sample_task_input 0))) = Some b \<and>
     sget b ''payload'' = PDict [(PStr ''prompt'', PStr ''hi'')] \<and>
     open_response pair_client True (Some ''ek'') ''t'' (sealed_answer pair_env ''ek'' ''t'' []) = Inr (completed ''t'' [])"
proof -
  obtain b where b: "to_executed (snd (node_task pair_env pair_config sample_node_state (sample_task_input 0))) = Some b"
    using pair_executed by blast
  have suite: "te_suite pair_env = pair_suite" "ce_suite pair_client = te_suite pair_env" by (simp_all add: pair_env_def pair_client_def)
  have body: "task_body_of pair_client (''e'', ''n'') Client.sample_task ''t'' [(PStr ''prompt'', PStr ''hi'')] pair_node = Inr (pair_body, Some ''ek'', True)"
    by (rule pair_sealed)
  have node: "parsed_task pair_env ''{}'' = Some (PDict pair_body)" "te_handler pair_env b = TaskReturned (PDict [])"
    "length (te_dumps pair_env v) \<le> MAX_HTTP_TASK_BODY_BYTES" for v
    by (simp_all add: parsed_task_def pair_env_def sample_task_env_def MAX_HTTP_TASK_BODY_BYTES_def)
  have key: "CHR ''|'' \<notin> set ''t''" "nc_private_key pair_config = Some ''k''" "''k'' \<noteq> []"
    "n_cx_public_key pair_node = Some (node_cx_key (te_suite pair_env) ''k'' ''id'')"
    by (simp_all add: pair_config_def pair_node_def suite(1))
  show ?thesis
    using sealed_task_end_to_end [OF suite(2) pair_laws [folded suite(1)] key body sample_read node(1) b node(2,3)] b by blast
qed

end
